(* ===== verification/Prelude.thy ===== *)
theory Prelude
  imports Main "HOL-Library.Word" "HOL-Library.Monad_Syntax"
begin

text \<open>
  Shared vocabulary of the development: the machine types of the i386 target, the outcome
  type of kernel code, the named fact collections, and generic lemmas on options, lists,
  maps and words.

  Every C scalar of 32 bits (\<open>int\<close>, \<open>size_t\<close>, \<open>pid_t\<close>, a pointer) is a \<open>32 word\<close>;
  \<open>NULL\<close> is \<open>0\<close>, the C constant \<open>-1\<close> is the all-ones word, an unsigned comparison is \<open><\<close>
  and a signed one is \<open><s\<close>.
\<close>

type_synonym u8 = "8 word"
type_synonym u16 = "16 word"
type_synonym u32 = "32 word"
type_synonym u64 = "64 word"

abbreviation NULL :: u32 where "NULL \<equiv> 0"

named_theorems outcome_simps \<open>evaluation of the outcome monad\<close>
named_theorems frame_simps \<open>fields an operation leaves alone\<close>
named_theorems inv_intros \<open>an operation keeps an invariant\<close>

subsection \<open>Outcomes of kernel code\<close>

text \<open>
  A kernel function either returns (\<open>Ret\<close>) or control never comes back to its caller
  (\<open>Stop\<close>): \<open>Panic\<close> is \<open>panic()\<close>, \<open>Fault a\<close> an access to the unmapped virtual address
  \<open>a\<close> in kernel mode, \<open>Dangling\<close> the dereference of a pointer to no live object,
  \<open>Idle\<close> is \<open>proc_idle()\<close> (the stack is reset and the processor halts until the next
  interrupt), \<open>Shutdown\<close> is \<open>cpu_shutdown()\<close>, \<open>Diverge\<close> a loop that never ends.
  The state at that moment is kept.
\<close>

datatype stop = Panic | Fault u32 | Dangling | Idle | Shutdown | Diverge

datatype ('a, 's) res = Ret 'a 's | Stop stop 's

primrec bindr :: "('a, 's) res \<Rightarrow> ('a \<Rightarrow> 's \<Rightarrow> ('b, 's) res) \<Rightarrow> ('b, 's) res" where
  "bindr (Ret x s) f = f x s"
| "bindr (Stop e s) f = Stop e s"

declare bindr.simps [outcome_simps]

text \<open>Dereferencing a pointer into a typed object store.\<close>

definition deref :: "(u32 \<Rightarrow> 'o option) \<Rightarrow> u32 \<Rightarrow> 's \<Rightarrow> ('o, 's) res" where
  "deref m p s = (case m p of None \<Rightarrow> Stop Dangling s | Some x \<Rightarrow> Ret x s)"

lemma deref_Some [simp, outcome_simps]: "m p = Some x \<Longrightarrow> deref m p s = Ret x s"
  by (simp add: deref_def)

lemma deref_None [simp, outcome_simps]: "m p = None \<Longrightarrow> deref m p s = Stop Dangling s"
  by (simp add: deref_def)

text \<open>\<open>post Q E r\<close>: a returning outcome satisfies \<open>Q\<close>, a stopping one \<open>E\<close>.\<close>

primrec post :: "('a \<Rightarrow> 's \<Rightarrow> bool) \<Rightarrow> (stop \<Rightarrow> 's \<Rightarrow> bool) \<Rightarrow> ('a, 's) res \<Rightarrow> bool" where
  "post Q E (Ret x s) = Q x s"
| "post Q E (Stop e s) = E e s"

declare post.simps [outcome_simps]

lemma post_bindr [outcome_simps]:
  "post Q E (bindr r f) = post (\<lambda>x s. post Q E (f x s)) E r"
  by (cases r) simp_all

lemma post_mono:
  assumes "post Q E r" "\<And>x s. Q x s \<Longrightarrow> Q' x s" "\<And>e s. E e s \<Longrightarrow> E' e s"
  shows "post Q' E' r"
  using assms by (cases r) auto

lemma post_deref [outcome_simps]:
  "post Q E (deref m p s) = (case m p of None \<Rightarrow> E Dangling s | Some x \<Rightarrow> Q x s)"
  by (simp add: deref_def split: option.splits)

lemma bindr_assoc: "bindr (bindr r f) g = bindr r (\<lambda>x s. bindr (f x s) g)"
  by (cases r) simp_all

lemma bindr_Ret_iff:
  "bindr r f = Ret y t \<longleftrightarrow> (\<exists>x s. r = Ret x s \<and> f x s = Ret y t)"
  by (cases r) auto

lemma bindr_cong [fundef_cong]:
  "r = r' \<Longrightarrow> (\<And>x s. r' = Ret x s \<Longrightarrow> f x s = g x s) \<Longrightarrow> bindr r f = bindr r' g"
  by (cases r') simp_all

text \<open>An operation run a number of times, with its results in order.\<close>

fun repeat_op :: "nat \<Rightarrow> ('s \<Rightarrow> ('a, 's) res) \<Rightarrow> 's \<Rightarrow> ('a list, 's) res" where
  "repeat_op 0 f s = Ret [] s"
| "repeat_op (Suc n) f s = bindr (f s) (\<lambda>x s. bindr (repeat_op n f s) (\<lambda>xs. Ret (x # xs)))"

text \<open>The state an outcome leaves behind, whether it returned or not.\<close>

primrec final :: "('a, 's) res \<Rightarrow> 's" where
  "final (Ret x s) = s"
| "final (Stop e s) = s"

primrec returns :: "('a, 's) res \<Rightarrow> bool" where
  "returns (Ret x s) = True"
| "returns (Stop e s) = False"

lemma post_final: "post (\<lambda>_. P) (\<lambda>_. P) r \<longleftrightarrow> P (final r)"
  by (cases r) simp_all

subsection \<open>Lists and words\<close>

lemma remove1_distinct_set: "distinct xs \<Longrightarrow> set (remove1 x xs) = set xs - {x}"
  by simp

lemma unat_of_nat_u32 [simp]: "n < 2 ^ 32 \<Longrightarrow> unat (of_nat n :: u32) = n"
  by (simp add: unat_of_nat take_bit_nat_eq_self)

lemma u32_less_iff: "(a :: u32) < b \<longleftrightarrow> unat a < unat b"
  by (simp add: word_less_nat_alt)

lemma u32_le_iff: "(a :: u32) \<le> b \<longleftrightarrow> unat a \<le> unat b"
  by (simp add: word_le_nat_alt)

lemma unat_u32_lt [simp]: "unat (a :: u32) < 4294967296"
  using unsigned_less [of a] by simp

lemma unat_plus_u32: "unat (a :: u32) + unat b < 2 ^ 32 \<Longrightarrow> unat (a + b) = unat a + unat b"
  by (simp add: unat_word_ariths)

lemma unat_minus_u32: "b \<le> a \<Longrightarrow> unat (a - b :: u32) = unat a - unat b"
  by (simp add: unat_sub word_le_nat_alt)

lemma unat_neg_one_u32: "unat (- 1 :: u32) = 4294967295"
  by (simp add: unsigned_minus_1_eq_mask mask_eq_exp_minus_1)

lemma unat_minus_one_u32: "a \<noteq> 0 \<Longrightarrow> unat (a - 1 :: u32) = unat a - 1"
  by (simp add: unat_minus_one)

end
