(* ===== verification/LList.thy ===== *)
theory LList
  imports Prelude
begin

text \<open>
  The singly linked list of \<open>lib/libmeinos/llist.c\<close>, the container every kernel table
  (processes, IPC objects, RPC functions, sleepers) is built from.

  The first part gives the list operations on plain HOL lists (\<open>ll_push\<close>, \<open>ll_pop\<close>, ...),
  with the C conventions for \<open>NULL\<close> and for an index that is not there. The second part
  models the C code itself on a heap of nodes. The locale \<open>linked_list\<close> states the
  contract between the two, and its interpretation proves that the C code meets it, so
  that the other components use the operations of the first part.
\<close>

section \<open>The list operations as the kernel sees them\<close>

text \<open>The newest element is at the front; values are pointers and \<open>NULL\<close> ends a traversal.\<close>

definition ll_push :: "u32 \<Rightarrow> u32 list \<Rightarrow> u32 list" where
  "ll_push v xs = v # xs"

fun ll_pop :: "u32 list \<Rightarrow> u32 \<times> u32 list" where
  "ll_pop [] = (NULL, [])"
| "ll_pop (x # xs) = (x, xs)"

definition ll_get :: "u32 list \<Rightarrow> u32 \<Rightarrow> u32" where
  "ll_get xs i = (if unat i < length xs then xs ! unat i else NULL)"

fun ll_find_from :: "u32 \<Rightarrow> u32 list \<Rightarrow> u32 \<Rightarrow> u32" where
  "ll_find_from i [] v = -1"
| "ll_find_from i (x # xs) v =
     (if x = NULL then -1 else if x = v then i else ll_find_from (i + 1) xs v)"

definition ll_find :: "u32 list \<Rightarrow> u32 \<Rightarrow> u32" where
  "ll_find xs v = ll_find_from 0 xs v"

definition ll_remove :: "u32 list \<Rightarrow> u32 \<Rightarrow> u32 \<times> u32 list" where
  "ll_remove xs i =
     (if unat i < length xs then (xs ! unat i, take (unat i) xs @ drop (Suc (unat i)) xs)
      else (NULL, xs))"

definition ll_insert :: "u32 list \<Rightarrow> u32 \<Rightarrow> u32 \<Rightarrow> bool \<times> u32 list" where
  "ll_insert xs i v =
     (if unat i \<le> length xs then (True, take (unat i) xs @ v # drop (unat i) xs)
      else (False, xs))"

definition ll_copy :: "u32 list \<Rightarrow> u32 list" where
  "ll_copy xs = rev (takeWhile (\<lambda>x. x \<noteq> NULL) xs)"

text \<open>
  The idiom \<open>llist_remove(l, llist_find(l, x))\<close> of the kernel: on a list without \<open>NULL\<close>
  it deletes the first occurrence, and does nothing when there is none.
\<close>

definition ll_remove_value :: "u32 list \<Rightarrow> u32 \<Rightarrow> u32 \<times> u32 list" where
  "ll_remove_value xs v = ll_remove xs (ll_find xs v)"

lemma ll_find_from_found:
  assumes "NULL \<notin> set xs" "v \<in> set xs" "n + length xs < 2 ^ 32"
  shows "\<exists>k < length xs. ll_find_from (of_nat n) xs v = of_nat (n + k) \<and> xs ! k = v \<and>
           v \<notin> set (take k xs)"
  using assms
proof (induction xs arbitrary: n)
  case Nil
  then show ?case by simp
next
  case (Cons x xs)
  show ?case
  proof (cases "x = v")
    case True
    with Cons.prems show ?thesis by (intro exI [of _ 0]) auto
  next
    case False
    with Cons.prems have "NULL \<notin> set xs" "v \<in> set xs" "Suc n + length xs < 2 ^ 32"
      by auto
    from Cons.IH [OF this] obtain k where k: "k < length xs"
      "ll_find_from (of_nat (Suc n)) xs v = of_nat (Suc n + k)" "xs ! k = v" "v \<notin> set (take k xs)"
      by blast
    with False Cons.prems show ?thesis
      by (intro exI [of _ "Suc k"]) (auto simp: add.commute)
  qed
qed

lemma ll_find_from_missing: "v \<notin> set xs \<Longrightarrow> ll_find_from i xs v = -1"
  by (induction xs arbitrary: i) auto

lemma remove1_split: "k < length xs \<Longrightarrow> xs ! k = v \<Longrightarrow> v \<notin> set (take k xs) \<Longrightarrow>
    remove1 v xs = take k xs @ drop (Suc k) xs"
proof -
  assume k: "k < length xs" "xs ! k = v" "v \<notin> set (take k xs)"
  then have "remove1 v (take k xs @ v # drop (Suc k) xs) = take k xs @ drop (Suc k) xs"
    by (simp add: remove1_append)
  with k show ?thesis by (metis id_take_nth_drop)
qed

lemma ll_remove_value_eq:
  assumes "NULL \<notin> set xs" "length xs < 2 ^ 32"
  shows "ll_remove_value xs v = (if v \<in> set xs then (v, remove1 v xs) else (NULL, xs))"
proof (cases "v \<in> set xs")
  case True
  from ll_find_from_found [OF assms(1) True, of 0] assms(2) obtain k where
    k: "k < length xs" "ll_find xs v = of_nat k" "xs ! k = v" "v \<notin> set (take k xs)"
    by (auto simp: ll_find_def)
  with assms(2) have "unat (ll_find xs v) = k" by simp
  with k True show ?thesis
    by (simp add: ll_remove_value_def ll_remove_def remove1_split)
next
  case False
  then show ?thesis
    using assms(2) by (simp add: ll_remove_value_def ll_remove_def ll_find_def
        ll_find_from_missing unat_neg_one_u32)
qed

lemma ll_get_nth: "n < length xs \<Longrightarrow> length xs < 2 ^ 32 \<Longrightarrow> ll_get xs (of_nat n) = xs ! n"
  by (simp add: ll_get_def)

section \<open>The C code on a heap of nodes\<close>

record llist_node =
  next_ptr :: u32
  node_value :: u32

record llist_S =
  anchor :: u32
  list_size :: u32

record lheap =
  nodes :: "u32 \<Rightarrow> llist_node option"
  headers :: "u32 \<Rightarrow> llist_S option"

text \<open>
  Operations return \<open>None\<close> when they dereference a pointer to no live object. The
  address a \<open>malloc\<close> inside an operation returns is the argument \<open>new\<close>.
\<close>

definition llist_create :: "u32 \<Rightarrow> lheap \<Rightarrow> (u32 \<times> lheap) option" where
  "llist_create new h =
     Some (new, h\<lparr>headers := (headers h)(new \<mapsto> \<lparr>anchor = NULL, list_size = 0\<rparr>)\<rparr>)"

definition llist_size :: "u32 \<Rightarrow> lheap \<Rightarrow> u32 option" where
  "llist_size l h =
     (if l = NULL then Some 0
      else do { L \<leftarrow> headers h l;
                Some (if anchor L = NULL then 0 else list_size L) })"

definition llist_push :: "u32 \<Rightarrow> u32 \<Rightarrow> u32 \<Rightarrow> lheap \<Rightarrow> (u32 \<times> lheap) option" where
  "llist_push new l v h =
     (if l = NULL then Some (NULL, h)
      else do { L \<leftarrow> headers h l;
                Some (l, h\<lparr>nodes := (nodes h)(new \<mapsto> \<lparr>next_ptr = anchor L, node_value = v\<rparr>),
                           headers := (headers h)(l \<mapsto> \<lparr>anchor = new, list_size = list_size L + 1\<rparr>)\<rparr>) })"

definition llist_pop :: "u32 \<Rightarrow> lheap \<Rightarrow> (u32 \<times> lheap) option" where
  "llist_pop l h =
     (if l = NULL then Some (NULL, h)
      else do { L \<leftarrow> headers h l;
                if anchor L \<noteq> NULL then
                  do { nd \<leftarrow> nodes h (anchor L);
                       Some (node_value nd,
                             h\<lparr>nodes := (nodes h)(anchor L := None),
                               headers := (headers h)(l \<mapsto> \<lparr>anchor = next_ptr nd, list_size = list_size L - 1\<rparr>)\<rparr>) }
                else Some (NULL, h) })"

text \<open>The loop \<open>while (n--)\<close> of \<open>llist_get_node_at\<close>.\<close>

fun get_node_loop :: "nat \<Rightarrow> u32 \<Rightarrow> lheap \<Rightarrow> u32 option" where
  "get_node_loop 0 current h = Some current"
| "get_node_loop (Suc n) current h =
     do { nd \<leftarrow> nodes h current;
          if next_ptr nd = NULL then Some NULL else get_node_loop n (next_ptr nd) h }"

definition llist_get_node_at :: "u32 \<Rightarrow> u32 \<Rightarrow> lheap \<Rightarrow> u32 option" where
  "llist_get_node_at l i h =
     (if l = NULL then Some NULL
      else do { L \<leftarrow> headers h l;
                if anchor L = NULL then Some NULL
                else if i > list_size L - 1 then Some NULL
                else get_node_loop (unat i) (anchor L) h })"

definition llist_get :: "u32 \<Rightarrow> u32 \<Rightarrow> lheap \<Rightarrow> u32 option" where
  "llist_get l i h =
     do { p \<leftarrow> llist_get_node_at l i h;
          if p = NULL then Some NULL else do { nd \<leftarrow> nodes h p; Some (node_value nd) } }"

text \<open>
  \<open>llist_insert\<close> allocates its node before it checks anything, so a failing call leaks it;
  the link of that node is not initialised then and is shown as \<open>NULL\<close>.
\<close>

definition llist_insert :: "u32 \<Rightarrow> u32 \<Rightarrow> u32 \<Rightarrow> u32 \<Rightarrow> lheap \<Rightarrow> (u32 \<times> lheap) option" where
  "llist_insert new l i v h =
     (let h0 = h\<lparr>nodes := (nodes h)(new \<mapsto> \<lparr>next_ptr = NULL, node_value = v\<rparr>)\<rparr> in
      if l = NULL then Some (NULL, h0)
      else do { L \<leftarrow> headers h0 l;
                if i \<noteq> 0 then
                  do { prev \<leftarrow> llist_get_node_at l (i - 1) h0;
                       if prev = NULL then Some (NULL, h0)
                       else do { pn \<leftarrow> nodes h0 prev;
                                 Some (l, h0\<lparr>nodes := (nodes h0)(new \<mapsto> \<lparr>next_ptr = next_ptr pn, node_value = v\<rparr>,
                                                             prev \<mapsto> pn\<lparr>next_ptr := new\<rparr>),
                                            headers := (headers h0)(l \<mapsto> L\<lparr>list_size := list_size L + 1\<rparr>)\<rparr>) } }
                else Some (l, h0\<lparr>nodes := (nodes h0)(new \<mapsto> \<lparr>next_ptr = anchor L, node_value = v\<rparr>),
                                 headers := (headers h0)(l \<mapsto> \<lparr>anchor = new, list_size = list_size L + 1\<rparr>)\<rparr>) })"

definition llist_remove :: "u32 \<Rightarrow> u32 \<Rightarrow> lheap \<Rightarrow> (u32 \<times> lheap) option" where
  "llist_remove l i h =
     (if l = NULL then Some (NULL, h)
      else do { L \<leftarrow> headers h l;
                if i \<noteq> 0 then
                  do { prev \<leftarrow> llist_get_node_at l (i - 1) h;
                       if prev = NULL then Some (NULL, h)
                       else do { pn \<leftarrow> nodes h prev;
                                 if next_ptr pn = NULL then Some (NULL, h)
                                 else do { nd \<leftarrow> nodes h (next_ptr pn);
                                           Some (node_value nd,
                                             h\<lparr>nodes := (nodes h)(prev \<mapsto> pn\<lparr>next_ptr := next_ptr nd\<rparr>,
                                                               next_ptr pn := None),
                                               headers := (headers h)(l \<mapsto> L\<lparr>list_size := list_size L - 1\<rparr>)\<rparr>) } } }
                else if anchor L = NULL then Some (NULL, h)
                else do { nd \<leftarrow> nodes h (anchor L);
                          Some (node_value nd,
                                h\<lparr>nodes := (nodes h)(anchor L := None),
                                  headers := (headers h)(l \<mapsto> \<lparr>anchor = next_ptr nd, list_size = list_size L - 1\<rparr>)\<rparr>) } })"

partial_function (option) llist_find_loop :: "u32 \<Rightarrow> u32 \<Rightarrow> u32 \<Rightarrow> lheap \<Rightarrow> u32 option" where
  "llist_find_loop l v i h =
     do { e \<leftarrow> llist_get l i h;
          if e = NULL then Some (-1) else if e = v then Some i
          else llist_find_loop l v (i + 1) h }"

definition llist_find :: "u32 \<Rightarrow> u32 \<Rightarrow> lheap \<Rightarrow> u32 option" where
  "llist_find l v h = llist_find_loop l v 0 h"

text \<open>
  \<open>llist_copy\<close> and \<open>llist_destroy\<close> call the allocator once per element; \<open>fresh k\<close> is
  the address its k-th \<open>malloc\<close> returns.
\<close>

partial_function (option) llist_copy_loop ::
    "(u32 \<Rightarrow> u32) \<Rightarrow> u32 \<Rightarrow> u32 \<Rightarrow> u32 \<Rightarrow> lheap \<Rightarrow> (u32 \<times> lheap) option" where
  "llist_copy_loop fresh l c i h =
     do { e \<leftarrow> llist_get l i h;
          if e = NULL then Some (c, h)
          else do { (_, h') \<leftarrow> llist_push (fresh i) c e h;
                    llist_copy_loop fresh l c (i + 1) h' } }"

definition llist_copy :: "u32 \<Rightarrow> (u32 \<Rightarrow> u32) \<Rightarrow> u32 \<Rightarrow> lheap \<Rightarrow> (u32 \<times> lheap) option" where
  "llist_copy new fresh l h =
     do { (c, h') \<leftarrow> llist_create new h; llist_copy_loop fresh l c 0 h' }"

partial_function (option) llist_drain :: "u32 \<Rightarrow> lheap \<Rightarrow> lheap option" where
  "llist_drain l h =
     do { (v, h') \<leftarrow> llist_pop l h; if v \<noteq> NULL then llist_drain l h' else Some h' }"

definition llist_destroy :: "u32 \<Rightarrow> lheap \<Rightarrow> lheap option" where
  "llist_destroy l h =
     do { h' \<leftarrow> llist_drain l h; Some (h'\<lparr>headers := (headers h')(l := None)\<rparr>) }"


section \<open>The contract between the two\<close>

text \<open>
  \<open>owns h l as xs\<close>: the list at \<open>l\<close> consists of the nodes \<open>as\<close> and holds the values
  \<open>xs\<close>. Every law also says that lists made of other nodes are left alone.
\<close>

locale linked_list =
  fixes owns :: "'h \<Rightarrow> u32 \<Rightarrow> u32 list \<Rightarrow> u32 list \<Rightarrow> bool"
    and fresh_node :: "'h \<Rightarrow> u32 \<Rightarrow> bool"
    and size_op :: "u32 \<Rightarrow> 'h \<Rightarrow> u32 option"
    and push_op :: "u32 \<Rightarrow> u32 \<Rightarrow> u32 \<Rightarrow> 'h \<Rightarrow> (u32 \<times> 'h) option"
    and pop_op :: "u32 \<Rightarrow> 'h \<Rightarrow> (u32 \<times> 'h) option"
    and get_op :: "u32 \<Rightarrow> u32 \<Rightarrow> 'h \<Rightarrow> u32 option"
    and find_op :: "u32 \<Rightarrow> u32 \<Rightarrow> 'h \<Rightarrow> u32 option"
    and remove_op :: "u32 \<Rightarrow> u32 \<Rightarrow> 'h \<Rightarrow> (u32 \<times> 'h) option"
  assumes owns_length: "owns h l as xs \<Longrightarrow> length xs < 2 ^ 32"
    and size_law: "owns h l as xs \<Longrightarrow> size_op l h = Some (of_nat (length xs))"
    and get_law: "owns h l as xs \<Longrightarrow> get_op l i h = Some (ll_get xs i)"
    and find_law: "owns h l as xs \<Longrightarrow> find_op l v h = Some (ll_find xs v)"
    and push_law: "owns h l as xs \<Longrightarrow> fresh_node h new \<Longrightarrow> Suc (length xs) < 2 ^ 32 \<Longrightarrow>
      \<exists>h'. push_op new l v h = Some (l, h') \<and> owns h' l (new # as) (ll_push v xs) \<and>
        (\<forall>m bs ys. m \<noteq> l \<and> set bs \<inter> set as = {} \<and> owns h m bs ys \<longrightarrow> owns h' m bs ys)"
    and pop_law: "owns h l as xs \<Longrightarrow>
      \<exists>h' as'. pop_op l h = Some (fst (ll_pop xs), h') \<and> owns h' l as' (snd (ll_pop xs)) \<and>
        (\<forall>m bs ys. m \<noteq> l \<and> set bs \<inter> set as = {} \<and> owns h m bs ys \<longrightarrow> owns h' m bs ys)"
    and remove_law: "owns h l as xs \<Longrightarrow>
      \<exists>h' as'. remove_op l i h = Some (fst (ll_remove xs i), h') \<and>
        owns h' l as' (snd (ll_remove xs i)) \<and>
        (\<forall>m bs ys. m \<noteq> l \<and> set bs \<inter> set as = {} \<and> owns h m bs ys \<longrightarrow> owns h' m bs ys)"
begin

text \<open>What the idiom \<open>llist_remove(l, llist_find(l, v))\<close> does for a client.\<close>

lemma remove_found:
  assumes "owns h l as xs" "NULL \<notin> set xs"
  shows "\<exists>h' as'. find_op l v h \<bind> (\<lambda>i. remove_op l i h)
           = Some (if v \<in> set xs then v else NULL, h') \<and> owns h' l as' (remove1 v xs)"
proof -
  from remove_law [OF assms(1), of "ll_find xs v"] obtain h' as' where
    "remove_op l (ll_find xs v) h = Some (fst (ll_remove_value xs v), h')"
    "owns h' l as' (snd (ll_remove_value xs v))"
    by (auto simp: ll_remove_value_def)
  with find_law [OF assms(1)] ll_remove_value_eq [OF assms(2) owns_length [OF assms(1)], of v]
  show ?thesis by (auto simp: remove1_idem)
qed

text \<open>A pushed value is the next one popped, and the list is then as it was.\<close>

lemma push_pop:
  assumes "owns h l as xs" "fresh_node h new" "Suc (length xs) < 2 ^ 32"
  shows "\<exists>h' as'. push_op new l v h \<bind> (\<lambda>(_, h1). pop_op l h1) = Some (v, h') \<and> owns h' l as' xs"
proof -
  from push_law [OF assms, of v] obtain h1 where h1:
    "push_op new l v h = Some (l, h1)" "owns h1 l (new # as) (v # xs)"
    by (auto simp: ll_push_def)
  from pop_law [OF h1(2)] obtain h' as' where "pop_op l h1 = Some (v, h')" "owns h' l as' xs"
    by auto
  with h1(1) show ?thesis by (intro exI [of _ h'] exI [of _ as']) simp
qed

end

subsection \<open>The C code meets the contract\<close>

fun chain :: "(u32 \<Rightarrow> llist_node option) \<Rightarrow> u32 \<Rightarrow> u32 list \<Rightarrow> bool" where
  "chain ns p [] = (p = NULL)"
| "chain ns p (a # as) =
     (p = a \<and> a \<noteq> NULL \<and> (case ns a of None \<Rightarrow> False | Some nd \<Rightarrow> chain ns (next_ptr nd) as))"

definition values_at :: "(u32 \<Rightarrow> llist_node option) \<Rightarrow> u32 list \<Rightarrow> u32 list" where
  "values_at ns as = map (\<lambda>a. case ns a of None \<Rightarrow> NULL | Some nd \<Rightarrow> node_value nd) as"

definition llist_at :: "lheap \<Rightarrow> u32 \<Rightarrow> u32 list \<Rightarrow> u32 list \<Rightarrow> bool" where
  "llist_at h l as xs \<longleftrightarrow>
     l \<noteq> NULL \<and> length as < 2 ^ 32 \<and> xs = values_at (nodes h) as \<and>
     (case headers h l of None \<Rightarrow> False
      | Some L \<Rightarrow> list_size L = of_nat (length as) \<and> chain (nodes h) (anchor L) as)"

definition node_free :: "lheap \<Rightarrow> u32 \<Rightarrow> bool" where
  "node_free h a \<longleftrightarrow> a \<noteq> NULL \<and> nodes h a = None"

lemma values_at_simps [simp]:
  "values_at ns [] = []"
  "values_at ns (a # as) = (case ns a of None \<Rightarrow> NULL | Some nd \<Rightarrow> node_value nd) # values_at ns as"
  "values_at ns (as @ bs) = values_at ns as @ values_at ns bs"
  "length (values_at ns as) = length as"
  by (simp_all add: values_at_def)

lemma chain_alloc: "chain ns p as \<Longrightarrow> a \<in> set as \<Longrightarrow> a \<noteq> NULL \<and> ns a \<noteq> None"
  by (induction as arbitrary: p) (auto split: option.splits)

lemma chain_unique: "chain ns p as \<Longrightarrow> chain ns p bs \<Longrightarrow> as = bs"
proof (induction as arbitrary: p bs)
  case Nil
  then show ?case by (cases bs) auto
next
  case (Cons a as)
  then show ?case by (cases bs) (auto split: option.splits)
qed

lemma chain_suffix: "chain ns p (as @ bs) \<Longrightarrow> \<exists>q. chain ns q bs"
  by (induction as arbitrary: p) (auto split: option.splits)

lemma chain_append: "chain ns p (as @ b # bs) \<Longrightarrow> chain ns b (b # bs)"
  by (drule chain_suffix) auto

lemma chain_distinct: "chain ns p as \<Longrightarrow> distinct as"
proof (induction as arbitrary: p)
  case (Cons a as)
  from Cons.prems have "chain ns a (a # as)" by auto
  have "a \<notin> set as"
  proof
    assume "a \<in> set as"
    then obtain us vs where "as = us @ a # vs" by (auto simp: in_set_conv_decomp)
    with Cons.prems have "chain ns a (a # vs)" by (metis append_Cons chain_append)
    with \<open>chain ns a (a # as)\<close> have "a # as = a # vs" by (rule chain_unique)
    with \<open>as = us @ a # vs\<close> show False by simp
  qed
  with Cons show ?case by (auto split: option.splits)
qed simp

lemma chain_cong:
  "(\<And>a. a \<in> set as \<Longrightarrow> ns' a = ns a) \<Longrightarrow> chain ns' p as = chain ns p as"
proof (induction as arbitrary: p)
  case (Cons b bs)
  then have "ns' b = ns b" "\<And>q. chain ns' q bs = chain ns q bs" by simp_all
  then show ?case by (simp split: option.split)
qed simp

lemma values_at_cong:
  "(\<And>a. a \<in> set as \<Longrightarrow> ns' a = ns a) \<Longrightarrow> values_at ns' as = values_at ns as"
  unfolding values_at_def by (rule map_cong [OF refl]) (simp only:)

text \<open>A list whose header and nodes are untouched is untouched.\<close>

lemma llist_at_cong:
  assumes "llist_at h l as xs" "headers h' l = headers h l"
    "\<And>a. a \<in> set as \<Longrightarrow> nodes h' a = nodes h a"
  shows "llist_at h' l as xs"
proof -
  have "values_at (nodes h') as = values_at (nodes h) as"
    "\<And>p. chain (nodes h') p as = chain (nodes h) p as"
    using values_at_cong [OF assms(3)] chain_cong [OF assms(3)] by simp_all
  with assms(1,2) show ?thesis by (simp add: llist_at_def split: option.splits)
qed

lemma llist_atE:
  assumes "llist_at h l as xs"
  obtains L where "headers h l = Some L" "list_size L = of_nat (length as)"
    "chain (nodes h) (anchor L) as" "xs = values_at (nodes h) as" "l \<noteq> NULL"
    "length as < 2 ^ 32" "length xs = length as" "distinct as"
  using assms chain_distinct by (auto simp: llist_at_def split: option.splits)

lemma llist_at_length: "llist_at h l as xs \<Longrightarrow> length xs = length as"
  by (auto simp: llist_at_def)

lemma get_node_loop_nth:
  assumes "chain (nodes h) p as" "n < length as"
  shows "get_node_loop n p h = Some (as ! n)"
  using assms
proof (induction n arbitrary: p as)
  case 0
  then show ?case by (cases as) auto
next
  case (Suc n)
  then obtain a as' where as: "as = a # as'" by (cases as) auto
  with Suc.prems obtain nd where nd: "nodes h a = Some nd" "chain (nodes h) (next_ptr nd) as'" "p = a"
    by (auto split: option.splits)
  from Suc.prems as have "n < length as'" by simp
  with nd(2) have "next_ptr nd \<noteq> NULL" by (cases as') auto
  with nd Suc.IH [OF nd(2) \<open>n < length as'\<close>] as show ?case by simp
qed

lemma llist_get_node_at_nth:
  assumes "llist_at h l as xs"
  shows "llist_get_node_at l i h = Some (if unat i < length as then as ! unat i else NULL)"
proof -
  from assms obtain L where L: "headers h l = Some L" "list_size L = of_nat (length as)"
    "chain (nodes h) (anchor L) as" "l \<noteq> NULL" "length as < 2 ^ 32"
    by (auto simp: llist_at_def split: option.splits)
  show ?thesis
  proof (cases as)
    case Nil
    with L show ?thesis by (simp add: llist_get_node_at_def)
  next
    case (Cons a as')
    with L have nz: "anchor L \<noteq> NULL" "list_size L - 1 = of_nat (length as - 1)"
      by (auto split: option.splits)
    with L(5) have sz: "unat (list_size L - 1) = length as - 1" by simp
    have "i > list_size L - 1 \<longleftrightarrow> \<not> unat i < length as"
      using sz Cons by (simp add: u32_less_iff del: length_Cons) arith
    with L nz get_node_loop_nth [OF L(3), of "unat i"] show ?thesis
      by (simp add: llist_get_node_at_def)
  qed
qed

lemma chain_nth:
  assumes "chain ns p as" "n < length as"
  obtains nd where "ns (as ! n) = Some nd" "as ! n \<noteq> NULL"
    "next_ptr nd = (if Suc n < length as then as ! Suc n else NULL)"
proof -
  have "\<exists>nd. ns (as ! n) = Some nd \<and> as ! n \<noteq> NULL \<and>
          next_ptr nd = (if Suc n < length as then as ! Suc n else NULL)"
    using assms
  proof (induction n arbitrary: p as)
    case 0
    then obtain a as' where as: "as = a # as'" by (cases as) auto
    with 0 show ?case by (cases as') (auto split: option.splits)
  next
    case (Suc n)
    then obtain a as' where as: "as = a # as'" by (cases as) auto
    with Suc.prems obtain q where "chain ns q as'" "n < length as'"
      by (auto split: option.splits)
    from Suc.IH [OF this] as show ?case by auto
  qed
  with that show ?thesis by blast
qed

lemma llist_get_at:
  assumes "llist_at h l as xs"
  shows "llist_get l i h = Some (ll_get xs i)"
proof (cases "unat i < length as")
  case True
  from assms obtain p where L: "chain (nodes h) p as" "xs = values_at (nodes h) as"
    by (auto simp: llist_at_def split: option.splits)
  from chain_nth [OF L(1) True] obtain nd where "nodes h (as ! unat i) = Some nd" "as ! unat i \<noteq> NULL" .
  with True L(2) show ?thesis
    by (simp add: llist_get_def llist_get_node_at_nth [OF assms] ll_get_def values_at_def)
next
  case False
  with llist_at_length [OF assms] show ?thesis
    by (simp add: llist_get_def llist_get_node_at_nth [OF assms] ll_get_def)
qed


lemma llist_find_loop_at:
  assumes "llist_at h l as xs" "n \<le> length xs"
  shows "llist_find_loop l v (of_nat n) h = Some (ll_find_from (of_nat n) (drop n xs) v)"
  using assms(2)
proof (induction "length xs - n" arbitrary: n)
  case 0
  then have "n = length xs" by simp
  moreover have "length xs < 2 ^ 32" using assms(1) by (auto simp: llist_at_def)
  ultimately show ?case
    by (simp add: llist_find_loop.simps llist_get_at [OF assms(1)] ll_get_def)
next
  case (Suc m)
  then have n: "n < length xs" by simp
  have len: "length xs < 2 ^ 32" using assms(1) by (auto simp: llist_at_def)
  have IH: "llist_find_loop l v (of_nat (Suc n)) h
      = Some (ll_find_from (of_nat (Suc n)) (drop (Suc n) xs) v)"
    using Suc by (intro Suc.hyps(1)) simp_all
  show ?case
    using IH n len
    by (subst llist_find_loop.simps)
       (simp add: llist_get_at [OF assms(1)] ll_get_nth Cons_nth_drop_Suc [symmetric] add.commute)
qed

lemma llist_find_at:
  assumes "llist_at h l as xs"
  shows "llist_find l v h = Some (ll_find xs v)"
  using llist_find_loop_at [OF assms, of 0] by (simp add: llist_find_def ll_find_def)

lemma llist_size_at:
  assumes "llist_at h l as xs"
  shows "llist_size l h = Some (of_nat (length xs))"
proof -
  from assms obtain L where L: "headers h l = Some L" "list_size L = of_nat (length as)"
    "chain (nodes h) (anchor L) as" "l \<noteq> NULL"
    by (auto simp: llist_at_def split: option.splits)
  with llist_at_length [OF assms] show ?thesis
    by (cases as) (auto simp: llist_size_def)
qed

definition others_kept :: "lheap \<Rightarrow> lheap \<Rightarrow> u32 \<Rightarrow> u32 list \<Rightarrow> bool" where
  "others_kept h h' l as \<longleftrightarrow>
     (\<forall>m bs ys. m \<noteq> l \<and> set bs \<inter> set as = {} \<and> llist_at h m bs ys \<longrightarrow> llist_at h' m bs ys)"

lemma others_keptI:
  assumes "\<And>m. m \<noteq> l \<Longrightarrow> headers h' m = headers h m"
    and "\<And>a. a \<notin> set as \<Longrightarrow> nodes h a \<noteq> None \<Longrightarrow> nodes h' a = nodes h a"
  shows "others_kept h h' l as"
  unfolding others_kept_def
proof (intro allI impI, elim conjE)
  fix m bs ys
  assume m: "m \<noteq> l" and dis: "set bs \<inter> set as = {}" and at: "llist_at h m bs ys"
  then obtain p where "chain (nodes h) p bs" by (auto simp: llist_at_def split: option.splits)
  then have "nodes h b \<noteq> None" if "b \<in> set bs" for b
    using that chain_alloc by blast
  with assms(2) dis have "nodes h' b = nodes h b" if "b \<in> set bs" for b
    using that by blast
  with assms(1) m show "llist_at h' m bs ys"
    by (intro llist_at_cong [OF at]) auto
qed

lemma llist_push_at:
  assumes "llist_at h l as xs" "node_free h new" "Suc (length xs) < 2 ^ 32"
  shows "\<exists>h'. llist_push new l v h = Some (l, h') \<and> llist_at h' l (new # as) (ll_push v xs) \<and>
           others_kept h h' l as"
proof -
  from assms(1) obtain L where L: "headers h l = Some L" "list_size L = of_nat (length as)"
    "chain (nodes h) (anchor L) as" "xs = values_at (nodes h) as" "l \<noteq> NULL"
    by (auto simp: llist_at_def split: option.splits)
  define h' where "h' = h\<lparr>nodes := (nodes h)(new \<mapsto> \<lparr>next_ptr = anchor L, node_value = v\<rparr>),
                           headers := (headers h)(l \<mapsto> \<lparr>anchor = new, list_size = list_size L + 1\<rparr>)\<rparr>"
  from assms(2) chain_alloc [OF L(3), of new] have new: "new \<notin> set as" "new \<noteq> NULL"
    by (auto simp: node_free_def)
  have same: "nodes h' a = nodes h a" if "a \<in> set as" for a
    using that new by (auto simp: h'_def)
  have "chain (nodes h') (anchor L) as" "values_at (nodes h') as = xs"
    using L chain_cong [OF same] values_at_cong [OF same] by simp_all
  with L assms(3) llist_at_length [OF assms(1)] new have "llist_at h' l (new # as) (v # xs)"
    by (simp add: llist_at_def h'_def add.commute)
  moreover have "others_kept h h' l as"
    using assms(2) by (intro others_keptI) (auto simp: h'_def node_free_def)
  moreover have "llist_push new l v h = Some (l, h')"
    using L by (simp add: llist_push_def h'_def)
  ultimately show ?thesis by (auto simp: ll_push_def)
qed

text \<open>Dropping the first node: what \<open>llist_pop\<close> and \<open>llist_remove(l, 0)\<close> share.\<close>

lemma drop_first_at:
  assumes "llist_at h l (a # as) xs" "headers h l = Some L" "nodes h a = Some nd"
    "h' = h\<lparr>nodes := (nodes h)(a := None),
            headers := (headers h)(l \<mapsto> \<lparr>anchor = next_ptr nd, list_size = list_size L - 1\<rparr>)\<rparr>"
  shows "llist_at h' l as (tl xs) \<and> others_kept h h' l (a # as)"
proof
  from assms have L: "list_size L = of_nat (Suc (length as))" "chain (nodes h) (next_ptr nd) as"
    "xs = node_value nd # values_at (nodes h) as" "l \<noteq> NULL" "Suc (length as) < 2 ^ 32"
    by (auto simp: llist_at_def split: option.splits)
  from assms(1) have "a \<notin> set as"
    by (auto simp: llist_at_def simp del: chain.simps split: option.splits dest: chain_distinct)
  have same: "nodes h' b = nodes h b" if "b \<in> set as" for b
    using that \<open>a \<notin> set as\<close> assms(4) by auto
  have "chain (nodes h') (next_ptr nd) as" "values_at (nodes h') as = values_at (nodes h) as"
    using L(2) chain_cong [OF same] values_at_cong [OF same] by simp_all
  with L assms(4) show "llist_at h' l as (tl xs)"
    by (simp add: llist_at_def)
  show "others_kept h h' l (a # as)"
    using assms(4) by (intro others_keptI) auto
qed

lemma llist_pop_at:
  assumes "llist_at h l as xs"
  shows "\<exists>h' as'. llist_pop l h = Some (fst (ll_pop xs), h') \<and> llist_at h' l as' (snd (ll_pop xs)) \<and>
           others_kept h h' l as"
proof (cases as)
  case Nil
  with assms have "llist_pop l h = Some (NULL, h)" "xs = []"
    by (auto simp: llist_at_def llist_pop_def split: option.splits)
  with assms show ?thesis by (auto simp: others_kept_def)
next
  case (Cons a as')
  from assms Cons obtain L nd where L: "headers h l = Some L" "anchor L = a" "nodes h a = Some nd"
    "xs = node_value nd # values_at (nodes h) as'" "l \<noteq> NULL" "a \<noteq> NULL"
    by (auto simp: llist_at_def split: option.splits)
  then have "llist_pop l h = Some (fst (ll_pop xs), h\<lparr>nodes := (nodes h)(a := None),
      headers := (headers h)(l \<mapsto> \<lparr>anchor = next_ptr nd, list_size = list_size L - 1\<rparr>)\<rparr>)"
    by (simp add: llist_pop_def)
  moreover have "snd (ll_pop xs) = tl xs" using L by simp
  ultimately show ?thesis
    using drop_first_at [OF assms [unfolded Cons] L(1,3) refl] Cons by auto
qed


text \<open>Unlinking the node after the n-th one: \<open>llist_remove\<close> with a positive index.\<close>

lemma chain_unlink:
  assumes "chain ns p as" "Suc n < length as" "ns (as ! n) = Some pn" "ns (as ! Suc n) = Some nd"
    "ns' = ns(as ! n \<mapsto> pn\<lparr>next_ptr := next_ptr nd\<rparr>, as ! Suc n := None)"
  shows "chain ns' p (take (Suc n) as @ drop (Suc (Suc n)) as)"
  using assms(1-4) chain_distinct [OF assms(1)] unfolding assms(5)
proof (induction n arbitrary: p as)
  case 0
  then obtain a b as' where as: "as = a # b # as'"
    by (cases as; cases "tl as") auto
  with 0 have "chain ns (next_ptr nd) as'" "a \<notin> set as'" "b \<notin> set as'" "a \<noteq> b" "p = a" "a \<noteq> NULL"
    by auto
  moreover from this have "chain (ns(a \<mapsto> pn\<lparr>next_ptr := next_ptr nd\<rparr>, b := None)) (next_ptr nd) as'"
    by (subst chain_cong [of as' _ ns]) auto
  ultimately show ?case
    using as by (simp add: fun_upd_def)
next
  case (Suc n)
  then obtain a as' where as: "as = a # as'" by (cases as) auto
  with Suc.prems obtain q nd' where q: "ns a = Some nd'" "chain ns (next_ptr nd') as'" "p = a" "a \<noteq> NULL"
    by (auto split: option.splits)
  have "a \<notin> set as'" using Suc.prems as by simp
  then have "as' ! n \<noteq> a" "as' ! Suc n \<noteq> a"
    using Suc.prems as by (auto simp: in_set_conv_nth)
  moreover have "chain (ns(as' ! n \<mapsto> pn\<lparr>next_ptr := next_ptr nd\<rparr>, as' ! Suc n := None)) (next_ptr nd')
      (take (Suc n) as' @ drop (Suc (Suc n)) as')"
    using Suc.prems as q by (intro Suc.IH) auto
  ultimately show ?case
    using as q by (simp add: fun_upd_def)
qed

lemma values_at_unlink:
  assumes "distinct as" "Suc n < length as" "ns (as ! n) = Some pn"
    "ns' = ns(as ! n \<mapsto> pn\<lparr>next_ptr := q\<rparr>, as ! Suc n := None)"
  shows "values_at ns' (take (Suc n) as @ drop (Suc (Suc n)) as)
       = take (Suc n) (values_at ns as) @ drop (Suc (Suc n)) (values_at ns as)"
proof -
  have neq: "as ! Suc n \<notin> set (take (Suc n) as)" "as ! Suc n \<notin> set (drop (Suc (Suc n)) as)"
    using assms(1,2) by (auto simp: in_set_conv_nth nth_eq_iff_index_eq)
  then have "values_at ns' (take (Suc n) as) = values_at ns (take (Suc n) as)"
    "values_at ns' (drop (Suc (Suc n)) as) = values_at ns (drop (Suc (Suc n)) as)"
    using assms(3,4) unfolding values_at_def by (auto simp: map_eq_conv)
  then show ?thesis
    by (simp add: values_at_def take_map drop_map)
qed

lemma llist_remove_at:
  assumes "llist_at h l as xs"
  shows "\<exists>h' as'. llist_remove l i h = Some (fst (ll_remove xs i), h') \<and>
           llist_at h' l as' (snd (ll_remove xs i)) \<and> others_kept h h' l as"
proof -
  from assms obtain L where L: "headers h l = Some L" "list_size L = of_nat (length as)"
    "chain (nodes h) (anchor L) as" "xs = values_at (nodes h) as" "l \<noteq> NULL" "length as < 2 ^ 32"
    by (auto simp: llist_at_def split: option.splits)
  have missing: ?thesis if "llist_remove l i h = Some (NULL, h)" "\<not> unat i < length as"
    using that assms llist_at_length [OF assms] by (auto simp: ll_remove_def others_kept_def)
  consider "i = 0" "as = []" | a as' where "i = 0" "as = a # as'" | n where "unat i = Suc n"
    by (cases as; cases "unat i") (auto simp: unat_eq_0)
  then show ?thesis
  proof cases
    case 1
    with L show ?thesis by (intro missing) (auto simp: llist_remove_def)
  next
    case 2
    with L obtain nd where nd: "nodes h a = Some nd" "anchor L = a" "a \<noteq> NULL"
      by (auto split: option.splits)
    then show ?thesis
      using drop_first_at [OF assms [unfolded 2] L(1) nd(1) refl] L 2
      by (auto simp: llist_remove_def ll_remove_def drop_Suc)
  next
    case (3 n)
    then have "i \<noteq> 0" by auto
    with 3 have i: "i \<noteq> 0" "unat (i - 1) = n" by (simp_all add: unat_minus_one_u32)
    note prev = llist_get_node_at_nth [OF assms, of "i - 1", unfolded i(2)]
    show ?thesis
    proof (cases "Suc n < length as")
      case False
      have "llist_remove l i h = Some (NULL, h)"
      proof (cases "n < length as")
        case True
        from chain_nth [OF L(3) True] obtain pn where
          "nodes h (as ! n) = Some pn" "as ! n \<noteq> NULL" "next_ptr pn = NULL"
          using False by auto
        with L i prev True show ?thesis by (simp add: llist_remove_def)
      next
        case False
        with L i prev show ?thesis by (simp add: llist_remove_def)
      qed
      with False 3 show ?thesis by (intro missing) auto
    next
      case True
      then have "n < length as" by simp
      from chain_nth [OF L(3) this] True obtain pn where
        pn: "nodes h (as ! n) = Some pn" "as ! n \<noteq> NULL" "next_ptr pn = as ! Suc n"
        by auto
      from chain_nth [OF L(3) True] obtain nd where
        nd: "nodes h (as ! Suc n) = Some nd" "as ! Suc n \<noteq> NULL" by auto
      define ns where "ns = (nodes h)(as ! n \<mapsto> pn\<lparr>next_ptr := next_ptr nd\<rparr>, as ! Suc n := None)"
      define h' where "h' = h\<lparr>nodes := ns, headers := (headers h)(l \<mapsto> L\<lparr>list_size := list_size L - 1\<rparr>)\<rparr>"
      have "llist_remove l i h = Some (node_value nd, h')"
        using L i prev True pn nd by (simp add: llist_remove_def h'_def ns_def)
      moreover have "llist_at h' l (take (Suc n) as @ drop (Suc (Suc n)) as)
          (take (Suc n) xs @ drop (Suc (Suc n)) xs)"
        using chain_unlink [OF L(3) True pn(1) nd(1) ns_def] L True
          values_at_unlink [OF chain_distinct [OF L(3)] True pn(1) ns_def]
        by (simp add: llist_at_def h'_def of_nat_diff Suc_leI)
      moreover have "others_kept h h' l as"
        using True by (intro others_keptI) (auto simp: h'_def ns_def)
      moreover have "ll_remove xs i = (node_value nd, take (Suc n) xs @ drop (Suc (Suc n)) xs)"
        using True 3 L nd by (simp add: ll_remove_def values_at_def)
      ultimately show ?thesis by auto
    qed
  qed
qed

interpretation ll: linked_list llist_at node_free llist_size llist_push llist_pop llist_get
    llist_find llist_remove
proof unfold_locales
  show "length xs < 2 ^ 32" if "llist_at h l as xs" for h l as xs
    using that by (auto simp: llist_at_def)
qed (use llist_size_at llist_get_at llist_find_at llist_push_at llist_pop_at llist_remove_at
     in \<open>auto simp: others_kept_def\<close>)

section \<open>Copying\<close>

lemma llist_copy_loop_at:
  assumes "llist_at h l as xs" "llist_at h c bs (rev (take n xs))" "c \<noteq> l" "set as \<inter> set bs = {}"
    "NULL \<notin> set xs" "n \<le> length xs"
    "\<And>k. n \<le> k \<Longrightarrow> k < length xs \<Longrightarrow> node_free h (fresh (of_nat k))"
    "inj_on (\<lambda>k. fresh (of_nat k)) {n..<length xs}"
  shows "\<exists>h' bs'. llist_copy_loop fresh l c (of_nat n) h = Some (c, h') \<and>
           llist_at h' c bs' (rev xs) \<and> llist_at h' l as xs"
  using assms
proof (induction "length xs - n" arbitrary: n h bs)
  case 0
  then have "n = length xs" "length xs < 2 ^ 32" by (auto simp: llist_at_def)
  with 0 show ?case
    by (auto simp: llist_copy_loop.simps llist_get_at [OF 0(2)] ll_get_def)
next
  case (Suc m)
  then have n: "n < length xs" "length xs < 2 ^ 32" by (auto simp: llist_at_def)
  let ?new = "fresh (of_nat n)"
  have len: "Suc (length (rev (take n xs))) < 2 ^ 32" using n by simp
  have free: "node_free h ?new" using Suc.prems(7) n by simp
  from llist_push_at [OF Suc.prems(2) free len, of "xs ! n"] obtain h1 where h1:
    "llist_push ?new c (xs ! n) h = Some (c, h1)"
    "llist_at h1 c (?new # bs) (rev (take (Suc n) xs))" "others_kept h h1 c bs"
    using n by (auto simp: ll_push_def take_Suc_conv_app_nth)
  have at1: "llist_at h1 l as xs"
    using h1(3) Suc.prems(1,3,4) by (auto simp: others_kept_def)
  obtain p where "chain (nodes h) p as"
    using Suc.prems(1) by (auto simp: llist_at_def split: option.splits)
  then have "?new \<notin> set as"
    using chain_alloc [of "nodes h" p as ?new] free by (auto simp: node_free_def)
  have "nodes h1 = (nodes h)(?new := nodes h1 ?new)"
    using h1(1) Suc.prems(2) by (auto simp: llist_push_def llist_at_def split: option.splits)
  then have other: "nodes h1 a = nodes h a" if "a \<noteq> ?new" for a
    using that by (metis fun_upd_other)
  have free1: "node_free h1 (fresh (of_nat k))" if k: "Suc n \<le> k" "k < length xs" for k
  proof -
    have "fresh (of_nat k) \<noteq> ?new"
      using inj_onD [OF Suc.prems(8), of k n] k n by auto
    moreover have "node_free h (fresh (of_nat k))" using Suc.prems(7) k by simp
    ultimately show ?thesis using other by (simp add: node_free_def)
  qed
  have "xs ! n \<noteq> NULL" using Suc.prems(5) nth_mem [OF n(1)] by auto
  moreover have "\<exists>h' bs'. llist_copy_loop fresh l c (of_nat (Suc n)) h1 = Some (c, h') \<and>
      llist_at h' c bs' (rev xs) \<and> llist_at h' l as xs"
    using Suc.hyps(2) Suc.prems n \<open>?new \<notin> set as\<close> free1
    by (intro Suc.hyps(1) [OF _ at1 h1(2)]) (auto intro: inj_on_subset)
  ultimately show ?case
    using n h1(1) by (subst llist_copy_loop.simps)
      (simp add: llist_get_at [OF Suc.prems(1)] ll_get_nth add.commute)
qed

section \<open>Properties\<close>

definition demo_heap :: lheap where
  "demo_heap = \<lparr>nodes = [16 \<mapsto> \<lparr>next_ptr = 32, node_value = 7\<rparr>, 32 \<mapsto> \<lparr>next_ptr = 48, node_value = 8\<rparr>,
                          48 \<mapsto> \<lparr>next_ptr = 0, node_value = 9\<rparr>],
                 headers = [4 \<mapsto> \<lparr>anchor = 16, list_size = 3\<rparr>]\<rparr>"

lemma demo_heap_at: "llist_at demo_heap 4 [16, 32, 48] [7, 8, 9]"
  by (simp add: llist_at_def demo_heap_def values_at_def)

text \<open>
  C29. The kernel's idiom for taking an object off a list, \<open>llist_remove(l, llist_find(l, v))\<close>,
  removes the first occurrence of the value and keeps the order of the rest, on every
  well-formed list that holds no null pointer; when the value is not on the list it
  returns NULL and the list keeps its content.
\<close>

theorem llist_remove_find:
  assumes "llist_at h l as xs" "NULL \<notin> set xs"
  shows "\<exists>h' as'. llist_find l v h \<bind> (\<lambda>i. llist_remove l i h)
           = Some (if v \<in> set xs then v else NULL, h') \<and> llist_at h' l as' (remove1 v xs)"
  by (rule ll.remove_found [OF assms])

theorem llist_remove_find_witness:
  "\<exists>h' as'. llist_find 4 8 demo_heap \<bind> (\<lambda>i. llist_remove 4 i demo_heap) = Some (8, h') \<and>
     llist_at h' 4 as' [7, 9]"
  using llist_remove_find [OF demo_heap_at, of 8] by simp

text \<open>
  C30. \<open>llist_copy\<close> terminates on every well-formed list that holds no null pointer, leaves the
  source list as it was and returns a new well-formed list that holds its elements in the
  opposite order.
\<close>

theorem llist_copy_reverses:
  assumes "llist_at h l as xs" "NULL \<notin> set xs" "new \<noteq> NULL" "headers h new = None"
    and "\<And>k. k < length xs \<Longrightarrow> node_free h (fresh (of_nat k))"
    and "inj_on (\<lambda>k. fresh (of_nat k)) {0..<length xs}"
  shows "\<exists>h' bs. llist_copy new fresh l h = Some (new, h') \<and>
           llist_at h' new bs (rev xs) \<and> llist_at h' l as xs"
proof -
  let ?h = "h\<lparr>headers := (headers h)(new \<mapsto> \<lparr>anchor = NULL, list_size = 0\<rparr>)\<rparr>"
  have neq: "new \<noteq> l" using assms(1,4) by (auto simp: llist_at_def)
  then have at: "llist_at ?h l as xs" using assms(1) by (simp add: llist_at_def split: option.splits)
  moreover have "llist_at ?h new [] (rev (take 0 xs))"
    using assms(3) by (simp add: llist_at_def)
  ultimately have "\<exists>h' bs. llist_copy_loop fresh l new (of_nat 0) ?h = Some (new, h') \<and>
      llist_at h' new bs (rev xs) \<and> llist_at h' l as xs"
    using assms neq by (intro llist_copy_loop_at) (auto simp: node_free_def)
  then show ?thesis by (simp add: llist_copy_def llist_create_def)
qed

theorem llist_copy_reverses_witness:
  "\<exists>h' bs. llist_copy 8 (\<lambda>k. 64 + 16 * k) 4 demo_heap = Some (8, h') \<and>
     llist_at h' 8 bs [9, 8, 7] \<and> llist_at h' 4 [16, 32, 48] [7, 8, 9]"
proof -
  have inj: "inj_on (\<lambda>k. 64 + 16 * of_nat k :: u32) {0..<length [7, 8, 9 :: u32]}"
    by (auto simp: inj_on_def less_Suc_eq)
  have free: "node_free demo_heap (64 + 16 * of_nat k)" if "k < length [7, 8, 9 :: u32]" for k
    using that by (auto simp: less_Suc_eq node_free_def demo_heap_def)
  have "headers demo_heap 8 = None" by (simp add: demo_heap_def)
  then show ?thesis
    using llist_copy_reverses [OF demo_heap_at _ _ _ free inj, of 8] by simp
qed

end
