(* ===== verification/Malloc.thy ===== *)
theory Malloc
  imports Prelude
begin

text \<open>
  \<open>kernel2/malloc.c\<close>, the kernel's heap: a list of free blocks, sorted by address, with a
  header of twelve bytes in front of every block. Only the headers are represented; the content
  of the blocks is not.

  \<open>None\<close> is a call that never returns: a walk along a cyclic list, or \<open>_malloc_getfree\<close> asking for
  pages that never come. The pages that \<open>_malloc_getpage\<close> returns one after the other are the
  argument \<open>pages\<close>; when they are used up it keeps returning NULL.
\<close>

section \<open>The code\<close>

record malloc_header =
  hflags :: u32
  hsize :: u32
  nextfree :: u32

record mheap =
  firstfree :: u32
  hdr :: "u32 \<Rightarrow> malloc_header"
  freed_pages :: "u32 list"

definition HEADER :: u32 where "HEADER = 12"

definition set_size :: "u32 \<Rightarrow> u32 \<Rightarrow> mheap \<Rightarrow> mheap" where
  "set_size a n st = st\<lparr>hdr := (hdr st)(a := (hdr st a)\<lparr>hsize := n\<rparr>)\<rparr>"

definition set_next :: "u32 \<Rightarrow> u32 \<Rightarrow> mheap \<Rightarrow> mheap" where
  "set_next a q st = st\<lparr>hdr := (hdr st)(a := (hdr st a)\<lparr>nextfree := q\<rparr>)\<rparr>"

definition set_flags :: "u32 \<Rightarrow> u32 \<Rightarrow> mheap \<Rightarrow> mheap" where
  "set_flags a f st = st\<lparr>hdr := (hdr st)(a := (hdr st a)\<lparr>hflags := f\<rparr>)\<rparr>"

definition malloc_init :: "mheap \<Rightarrow> mheap" where
  "malloc_init st = st\<lparr>firstfree := NULL\<rparr>"

partial_function (option) insert_loop :: "u32 \<Rightarrow> u32 \<Rightarrow> mheap \<Rightarrow> mheap option" where
  "insert_loop header cur st =
     (if cur = NULL then Some st
      else if cur < header \<and> (nextfree (hdr st cur) > header \<or> nextfree (hdr st cur) = NULL) then
        Some (if cur + hsize (hdr st cur) = header
              then set_size cur (hsize (hdr st cur) + hsize (hdr st header)) st
              else set_next cur header (set_next header (nextfree (hdr st cur)) st))
      else insert_loop header (nextfree (hdr st cur)) st)"

definition malloc_insertlist :: "u32 \<Rightarrow> mheap \<Rightarrow> mheap option" where
  "malloc_insertlist header st =
     do { st \<leftarrow> (if firstfree st = NULL then Some (set_next header NULL (st\<lparr>firstfree := header\<rparr>))
                else if header < firstfree st then
                  Some ((set_next header (firstfree st) st)\<lparr>firstfree := header\<rparr>)
                else insert_loop header (firstfree st) st);
          let nx = nextfree (hdr st header) in
          if header + hsize (hdr st header) = nx then
            Some (set_next header (nextfree (hdr st nx))
                   (set_size header (hsize (hdr st header) + hsize (hdr st nx)) st))
          else Some st }"

definition malloc_donatemem :: "u32 \<Rightarrow> u32 \<Rightarrow> mheap \<Rightarrow> mheap option" where
  "malloc_donatemem addr n st =
     (if addr \<noteq> NULL then malloc_insertlist addr (set_size addr n (set_flags addr 0 st)) else Some st)"

text \<open>One pass of \<open>_malloc_getfree\<close> over the list of free blocks; NULL when no block fits.\<close>

partial_function (option) getfree_scan :: "u32 \<Rightarrow> u32 \<Rightarrow> u32 \<Rightarrow> mheap \<Rightarrow> (u32 \<times> mheap) option" where
  "getfree_scan n cur prev st =
     (if cur = NULL then Some (NULL, st)
      else if n = hsize (hdr st cur) then
        let st = set_flags cur (or (hflags (hdr st cur)) 1) st;
            nx = nextfree (hdr st cur)
        in Some (cur, if prev = NULL then st\<lparr>firstfree := nx\<rparr> else set_next prev nx st)
      else if hsize (hdr st cur) \<ge> n + HEADER then
        let new = cur + n;
            st = set_next new (nextfree (hdr st cur))
                   (set_size new (hsize (hdr st cur) - n) (set_flags new 0 st));
            st = set_flags cur (or (hflags (hdr st cur)) 1) (set_size cur n st)
        in Some (cur, if prev = NULL then st\<lparr>firstfree := new\<rparr> else set_next prev new st)
      else getfree_scan n (nextfree (hdr st cur)) cur st)"

fun malloc_getfree :: "u32 list \<Rightarrow> u32 \<Rightarrow> mheap \<Rightarrow> (u32 \<times> u32 list \<times> mheap) option" where
  "malloc_getfree pages n st =
     do { (r, st) \<leftarrow> getfree_scan n (firstfree st) NULL st;
          if r \<noteq> NULL then Some (r, pages, st)
          else case pages of [] \<Rightarrow> None
               | p # ps \<Rightarrow> do { st \<leftarrow> malloc_donatemem p 4096 st; malloc_getfree ps n st } }"

declare malloc_getfree.simps [simp del]

definition malloc :: "u32 list \<Rightarrow> u32 \<Rightarrow> mheap \<Rightarrow> (u32 \<times> u32 list \<times> mheap) option" where
  "malloc pages n st =
     do { (mem, pages, st) \<leftarrow> malloc_getfree pages (n + HEADER) st;
          Some (if mem = NULL then NULL else mem + HEADER, pages, st) }"

definition mfree :: "u32 \<Rightarrow> mheap \<Rightarrow> mheap option" where
  "mfree address st =
     (let header = address - HEADER in malloc_insertlist header (set_flags header 0 st))"

text \<open>\<open>_malloc_checkforfree\<close>, which nothing calls; freed pages are recorded.\<close>

partial_function (option) checkforfree_loop :: "u32 \<Rightarrow> u32 \<Rightarrow> mheap \<Rightarrow> mheap option" where
  "checkforfree_loop cur prev st =
     (if cur = NULL then Some st
      else
        let st' = (if hsize (hdr st cur) = 4096 \<and> cur mod 4096 = 0 then
                     let st = (if prev = NULL then st\<lparr>firstfree := nextfree (hdr st cur)\<rparr>
                               else set_next prev (nextfree (hdr st cur)) st)
                     in st\<lparr>freed_pages := cur # freed_pages st\<rparr>
                   else if hsize (hdr st cur) - cur mod 4096 \<ge> 4096 \<and> cur mod 4096 \<ge> HEADER then
                     let st = set_size cur (hsize (hdr st cur) - 4096) st
                     in st\<lparr>freed_pages := NULL # freed_pages st\<rparr>
                   else st)
        in checkforfree_loop (nextfree (hdr st' cur)) cur st')"

definition malloc_checkforfree :: "mheap \<Rightarrow> mheap option" where
  "malloc_checkforfree st = checkforfree_loop (firstfree st) NULL st"

text \<open>
  The search for the block behind a block that grows; \<open>header + header->size\<close> is pointer
  arithmetic on headers of twelve bytes.
\<close>

partial_function (option) realloc_loop :: "u32 \<Rightarrow> u32 \<Rightarrow> u32 \<Rightarrow> mheap \<Rightarrow> mheap option" where
  "realloc_loop header n cur st =
     (if cur = NULL then Some st
      else if cur = header + HEADER * hsize (hdr st header) \<and>
              hsize (hdr st cur) \<ge> n - hsize (hdr st header) then
        if hsize (hdr st cur) - (n - hsize (hdr st header)) < HEADER then Some st
        else
          let new = cur + n - hsize (hdr st header);
              st = set_size new (hsize (hdr st cur) - (n - hsize (hdr st header))) (set_flags new 0 st)
          in do { st \<leftarrow> malloc_insertlist new st; Some (set_size header n st) }
      else realloc_loop header n (nextfree (hdr st cur)) st)"

definition realloc :: "u32 list \<Rightarrow> u32 \<Rightarrow> u32 \<Rightarrow> mheap \<Rightarrow> (u32 \<times> u32 list \<times> mheap) option" where
  "realloc pages address n st =
     (let header = address - HEADER in
      if n = 0 then do { st \<leftarrow> mfree address st; Some (NULL, pages, st) }
      else if n < hsize (hdr st header) then
        if hsize (hdr st header) - n < HEADER then Some (address, pages, st)
        else
          let new = header + n;
              st = set_size new (hsize (hdr st header) - n) (set_flags new 0 st)
          in do { st \<leftarrow> malloc_insertlist new st; Some (address, pages, set_size header n st) }
      else if n > hsize (hdr st header) then
        do { st \<leftarrow> realloc_loop header n (firstfree st) st;
             if hsize (hdr st header) \<noteq> n then
               do { (new, pages, st) \<leftarrow> malloc pages n st;
                    st \<leftarrow> mfree address st;
                    Some (new, pages, st) }
             else Some (address, pages, st) }
      else Some (address, pages, st))"

definition calloc :: "u32 list \<Rightarrow> u32 \<Rightarrow> u32 \<Rightarrow> mheap \<Rightarrow> (u32 \<times> u32 list \<times> mheap) option" where
  "calloc pages n elsize st =
     (if n = 0 \<or> elsize = 0 then Some (NULL, pages, st) else malloc pages (n * elsize) st)"

section \<open>The list of free blocks\<close>

type_synonym block = "u32 \<times> u32"

text \<open>A list segment of blocks from \<open>p\<close> to \<open>q\<close>, as addresses and sizes.\<close>

fun fseg :: "(u32 \<Rightarrow> malloc_header) \<Rightarrow> u32 \<Rightarrow> block list \<Rightarrow> u32 \<Rightarrow> bool" where
  "fseg h p [] q = (p = q)"
| "fseg h p ((a, n) # bs) q = (p = a \<and> a \<noteq> NULL \<and> hsize (h a) = n \<and> fseg h (nextfree (h a)) bs q)"

lemma fseg_append: "fseg h p (xs @ ys) q \<longleftrightarrow> (\<exists>r. fseg h p xs r \<and> fseg h r ys q)"
  by (induction xs arbitrary: p) auto

lemma fseg_cong:
  assumes "\<And>a. a \<in> fst ` set xs \<Longrightarrow> hsize (h' a) = hsize (h a) \<and> nextfree (h' a) = nextfree (h a)"
  shows "fseg h' p xs q = fseg h p xs q"
  using assms
proof (induction xs arbitrary: p)
  case (Cons b xs)
  then show ?case using Cons.prems [of "fst b"] by (cases b) simp
qed simp

lemma fseg_upd: "a \<notin> fst ` set xs \<Longrightarrow> fseg (h(a := x)) p xs q = fseg h p xs q"
  by (rule fseg_cong) force

lemma fseg_head: "fseg h p (b # bs) q \<Longrightarrow> p = fst b \<and> p \<noteq> NULL"
  by (cases b) simp

definition block_ok :: "block \<Rightarrow> bool" where
  "block_ok b \<longleftrightarrow> fst b \<noteq> NULL \<and> 12 \<le> unat (snd b) \<and> unat (fst b) + unat (snd b) < 2 ^ 32"

definition before :: "block \<Rightarrow> block \<Rightarrow> bool" where
  "before b c \<longleftrightarrow> unat (fst b) + unat (snd b) \<le> unat (fst c)"

definition apart :: "block \<Rightarrow> block \<Rightarrow> bool" where
  "apart b c \<longleftrightarrow> before b c \<or> before c b"

text \<open>
  The free blocks \<open>fl\<close> are linked in the order of their addresses; the blocks \<open>us\<close> in use have
  their size in the header; no two of all these blocks overlap.
\<close>

definition heap_ok :: "mheap \<Rightarrow> block list \<Rightarrow> block set \<Rightarrow> bool" where
  "heap_ok st fl us \<longleftrightarrow>
     fseg (hdr st) (firstfree st) fl NULL \<and> sorted_wrt before fl \<and>
     (\<forall>b\<in>set fl \<union> us. block_ok b) \<and> (\<forall>(a, n)\<in>us. hsize (hdr st a) = n) \<and>
     (\<forall>u\<in>us. \<forall>b\<in>set fl. apart u b) \<and> (\<forall>u\<in>us. \<forall>v\<in>us. u \<noteq> v \<longrightarrow> apart u v)"

lemma apart_neq: "apart b c \<Longrightarrow> block_ok b \<Longrightarrow> block_ok c \<Longrightarrow> fst b \<noteq> fst c"
  by (auto simp: apart_def before_def block_ok_def)

lemma apart_sym: "apart b c \<longleftrightarrow> apart c b"
  by (auto simp: apart_def)

lemma sorted_apart:
  assumes "sorted_wrt before (xs @ b # ys)" "c \<in> set xs \<union> set ys"
  shows "apart b c"
  using assms by (auto simp: sorted_wrt_append apart_def)

lemma sorted_fresh:
  assumes "sorted_wrt before (xs @ b # ys)" "\<forall>c\<in>set (xs @ b # ys). block_ok c"
  shows "fst b \<notin> fst ` set xs" "fst b \<notin> fst ` set ys"
  using assms apart_neq [OF sorted_apart [OF assms(1)]] by auto

lemma used_fresh:
  assumes "heap_ok st fl us" "u \<in> us"
  shows "fst u \<notin> fst ` set fl" "\<And>v. v \<in> us \<Longrightarrow> v \<noteq> u \<Longrightarrow> fst v \<noteq> fst u"
  using assms apart_neq unfolding heap_ok_def by (fastforce, metis UnCI)

subsection \<open>Taking a block off the list\<close>

text \<open>The pointer that leads to the block after \<open>pre\<close>: \<open>_malloc_firstfree\<close> or a \<open>nextfree\<close>.\<close>

definition link :: "block list \<Rightarrow> u32" where
  "link pre = (if pre = [] then NULL else fst (last pre))"

definition relink :: "u32 \<Rightarrow> u32 \<Rightarrow> mheap \<Rightarrow> mheap" where
  "relink prev q st = (if prev = NULL then st\<lparr>firstfree := q\<rparr> else set_next prev q st)"

lemma relink_fseg:
  assumes pre: "fseg (hdr st) (firstfree st) pre p" and suf: "fseg (hdr st) q suf NULL"
    and srt: "sorted_wrt before (pre @ suf)" and ok: "\<forall>b\<in>set (pre @ suf). block_ok b"
  shows "fseg (hdr (relink (link pre) q st)) (firstfree (relink (link pre) q st)) (pre @ suf) NULL"
proof (cases pre rule: rev_cases)
  case Nil
  with suf show ?thesis by (simp add: relink_def link_def)
next
  case (snoc pre' b)
  obtain a n where b: "b = (a, n)" by force
  have a: "a \<noteq> NULL" "a \<notin> fst ` set pre'" "a \<notin> fst ` set suf"
    using sorted_fresh [of pre' b suf] srt ok snoc b by (auto simp: block_ok_def)
  have seg: "fseg (hdr st) (firstfree st) pre' a" "hsize (hdr st a) = n"
    using pre snoc b by (auto simp: fseg_append)
  show ?thesis
    using a seg suf snoc b by (simp add: relink_def link_def set_next_def fseg_append fseg_upd)
qed

lemma relink_other [simp]:
  "hsize (hdr (relink p q st) a) = hsize (hdr st a)"
  "a \<noteq> p \<Longrightarrow> hdr (relink p q st) a = hdr st a"
  by (auto simp: relink_def set_next_def)

lemma heap_fseg:
  assumes "heap_ok st (pre @ (a, n) # suf) us"
  shows "fseg (hdr st) (firstfree st) pre a" "hsize (hdr st a) = n" "a \<noteq> NULL"
    "fseg (hdr st) (nextfree (hdr st a)) suf NULL"
    "a \<notin> fst ` set pre" "a \<notin> fst ` set suf" "\<forall>u\<in>us. fst u \<noteq> a"
proof -
  have srt: "sorted_wrt before (pre @ (a, n) # suf)" "\<forall>c\<in>set (pre @ (a, n) # suf). block_ok c"
    using assms by (auto simp: heap_ok_def)
  show "a \<notin> fst ` set pre" "a \<notin> fst ` set suf"
    using sorted_fresh [OF srt] by auto
  show "\<forall>u\<in>us. fst u \<noteq> a"
    using used_fresh(1) [OF assms] by force
qed (use assms in \<open>auto simp: heap_ok_def fseg_append\<close>)

lemma take_block:
  assumes ok: "heap_ok st (pre @ (a, n) # suf) us"
    and st': "hsize (hdr st' a) = n" "firstfree st' = firstfree st" "\<And>b. b \<noteq> a \<Longrightarrow> hdr st' b = hdr st b"
  shows "heap_ok (relink (link pre) (nextfree (hdr st a)) st') (pre @ suf) (insert (a, n) us)"
proof -
  note F = heap_fseg [OF ok]
  have srt: "sorted_wrt before (pre @ suf)"
    using ok by (auto simp: heap_ok_def sorted_wrt_append)
  have same: "fseg (hdr st') p xs q = fseg (hdr st) p xs q" if "a \<notin> fst ` set xs" for p xs q
    using that st'(3) by (intro fseg_cong) force
  have "fseg (hdr (relink (link pre) (nextfree (hdr st a)) st'))
      (firstfree (relink (link pre) (nextfree (hdr st a)) st')) (pre @ suf) NULL"
    using F same st'(2) srt ok by (intro relink_fseg [of _ _ a]) (auto simp: heap_ok_def)
  moreover have "apart (a, n) b" if "b \<in> set (pre @ suf)" for b
    using sorted_apart [of pre "(a, n)" suf] ok that by (auto simp: heap_ok_def)
  moreover have "hsize (hdr st' b) = k" if "(b, k) \<in> us" for b k
    using that F(7) ok st'(3) by (fastforce simp: heap_ok_def)
  ultimately show ?thesis
    using ok srt st'(1) unfolding heap_ok_def by (auto simp: apart_sym)
qed

text \<open>Splitting a block: the front goes into use, the rest stays free.\<close>

lemma split_parts:
  assumes "block_ok (a, m)" "12 \<le> unat n" "unat n + 12 \<le> unat m"
  shows "unat (a + n) = unat a + unat n" "unat (m - n) = unat m - unat n"
    "block_ok (a, n)" "block_ok (a + n, m - n)" "before (a, n) (a + n, m - n)"
    "apart c (a, m) \<Longrightarrow> apart c (a, n)" "apart c (a, m) \<Longrightarrow> apart c (a + n, m - n)"
    "before c (a, m) \<Longrightarrow> before c (a + n, m - n)" "before (a, m) c \<Longrightarrow> before (a + n, m - n) c"
proof -
  have "n \<le> m" using assms(3) by (simp add: u32_le_iff)
  then show mn: "unat (m - n) = unat m - unat n" by (rule unat_minus_u32)
  show an: "unat (a + n) = unat a + unat n"
    using assms by (intro unat_plus_u32) (simp add: block_ok_def)
  have "a + n \<noteq> NULL" using an assms(2) by (auto simp: word_unat_eq_iff)
  then show "block_ok (a, n)" "block_ok (a + n, m - n)" "before (a, n) (a + n, m - n)"
    "apart c (a, m) \<Longrightarrow> apart c (a, n)" "apart c (a, m) \<Longrightarrow> apart c (a + n, m - n)"
    "before c (a, m) \<Longrightarrow> before c (a + n, m - n)" "before (a, m) c \<Longrightarrow> before (a + n, m - n) c"
    using assms an mn by (auto simp: block_ok_def before_def apart_def)
qed

lemma split_block:
  assumes ok: "heap_ok st (pre @ (a, m) # suf) us" and n: "12 \<le> unat n" "unat n + 12 \<le> unat m"
    and st': "hsize (hdr st' a) = n" "firstfree st' = firstfree st"
      "hsize (hdr st' (a + n)) = m - n" "nextfree (hdr st' (a + n)) = nextfree (hdr st a)"
      "\<And>b. b \<noteq> a \<Longrightarrow> b \<noteq> a + n \<Longrightarrow> hdr st' b = hdr st b"
  shows "heap_ok (relink (link pre) (a + n) st') (pre @ (a + n, m - n) # suf) (insert (a, n) us)"
proof -
  note F = heap_fseg [OF ok]
  have all: "\<forall>b\<in>set pre \<union> set suf \<union> us. block_ok b" "block_ok (a, m)" "sorted_wrt before (pre @ (a, m) # suf)"
    using ok by (auto simp: heap_ok_def)
  note P = split_parts [OF all(2) n]
  have ap: "apart c (a, m)" if "c \<in> set pre \<union> set suf \<union> us" for c
    using that sorted_apart [OF all(3), of c] ok by (auto simp: heap_ok_def apart_sym)
  have front: "apart c (a, n)" "apart (a, n) c" and rest: "apart c (a + n, m - n)"
    if "c \<in> set pre \<union> set suf \<union> us" for c
    using P(6,7) [OF ap [OF that]] apart_sym by blast+
  have old: "apart u b" if "u \<in> us" "b \<in> set pre \<union> set suf" for u b
    using that ok by (auto simp: heap_ok_def)
  have old2: "apart u v" if "u \<in> us" "v \<in> us" "u \<noteq> v" for u v
    using that ok unfolding heap_ok_def by blast
  note old = old old2
  have fresh: "fst c \<noteq> a + n" if "c \<in> set pre \<union> set suf \<union> us" for c
    using apart_neq [OF P(7) [OF ap [OF that]] _ P(4)] all(1) that by auto
  have same: "fseg (hdr st') p xs q = fseg (hdr st) p xs q" if "set xs \<subseteq> set pre \<union> set suf" "a \<notin> fst ` set xs" for p xs q
    using that st'(5) fresh by (intro fseg_cong) force
  have srt: "sorted_wrt before (pre @ (a + n, m - n) # suf)"
    using all(3) P(8,9) by (auto simp: sorted_wrt_append)
  have "fseg (hdr (relink (link pre) (a + n) st')) (firstfree (relink (link pre) (a + n) st'))
      (pre @ (a + n, m - n) # suf) NULL"
  proof (rule relink_fseg [OF _ _ srt])
    show "fseg (hdr st') (firstfree st') pre a"
      using F(1,5) same st'(2) by simp
    show "fseg (hdr st') (a + n) ((a + n, m - n) # suf) NULL"
      using F(4,6) same st'(3,4) P(4) by (simp add: block_ok_def)
  qed (use all P in auto)
  moreover have "hsize (hdr st' b) = k" if "(b, k) \<in> us" for b k
    using that F(7) fresh [of "(b, k)"] st'(5) [of b] ok by (force simp: heap_ok_def)
  moreover have "apart u b" if "u \<in> insert (a, n) us" "b \<in> set (pre @ (a + n, m - n) # suf)" for u b
  proof -
    have "apart (a, n) (a + n, m - n)" using P(5) by (simp add: apart_def)
    moreover have "u = (a, n) \<or> u \<in> us" "b = (a + n, m - n) \<or> b \<in> set pre \<union> set suf" using that by auto
    ultimately show ?thesis using front rest old(1) by blast
  qed
  moreover have "apart u v" if "u \<in> insert (a, n) us" "v \<in> insert (a, n) us" "u \<noteq> v" for u v
    using that front old(2) by blast
  ultimately show ?thesis
    using all P srt st'(1) unfolding heap_ok_def by auto
qed

subsection \<open>The search for a block\<close>

definition fits :: "u32 \<Rightarrow> u32 \<Rightarrow> bool" where
  "fits n m \<longleftrightarrow> m = n \<or> unat n + 12 \<le> unat m"

lemma getfree_scan_ok:
  assumes "heap_ok st (pre @ suf) us" "fseg (hdr st) cur suf NULL" "12 \<le> unat n" "unat n + 12 < 2 ^ 32"
  shows "(\<forall>(a, m)\<in>set suf. \<not> fits n m) \<and> getfree_scan n cur (link pre) st = Some (NULL, st) \<or>
    (\<exists>ys a m zs st' fl. suf = ys @ (a, m) # zs \<and> fits n m \<and> getfree_scan n cur (link pre) st = Some (a, st') \<and>
       fl = pre @ ys @ (if m = n then [] else [(a + n, m - n)]) @ zs \<and> heap_ok st' fl (insert (a, n) us))"
  using assms
proof (induction suf arbitrary: pre cur)
  case Nil
  then show ?case by (subst (1) getfree_scan.simps) simp
next
  case (Cons b suf)
  obtain a m where b: "b = (a, m)" by force
  have cur: "cur = a" "a \<noteq> NULL" "hsize (hdr st a) = m" "fseg (hdr st) (nextfree (hdr st a)) suf NULL"
    using Cons.prems(2) b by auto
  have nH: "unat (n + HEADER) = unat n + 12"
    using Cons.prems(4) by (simp add: HEADER_def unat_plus_u32)
  consider "m = n" | "m \<noteq> n" "unat n + 12 \<le> unat m" | "\<not> fits n m" by (auto simp: fits_def)
  then show ?case
  proof cases
    case 1
    let ?st = "set_flags a (or (hflags (hdr st a)) 1) st"
    have "getfree_scan n cur (link pre) st = Some (a, relink (link pre) (nextfree (hdr st a)) ?st)"
      using cur 1 by (subst getfree_scan.simps) (simp add: relink_def Let_def set_flags_def)
    moreover have "heap_ok (relink (link pre) (nextfree (hdr st a)) ?st) (pre @ suf) (insert (a, n) us)"
      using Cons.prems(1) b 1 cur(3) by (intro take_block) (auto simp: set_flags_def)
    ultimately show ?thesis
      using 1 b by (intro disjI2 exI [of _ "[]"] exI [of _ a] exI [of _ m] exI [of _ suf])
        (auto simp: fits_def)
  next
    case 2
    let ?new = "a + n"
    let ?st1 = "set_next ?new (nextfree (hdr st a)) (set_size ?new (m - n) (set_flags ?new 0 st))"
    let ?st = "set_flags a (or (hflags (hdr ?st1 a)) 1) (set_size a n ?st1)"
    have neq: "a + n \<noteq> a" using Cons.prems(3) by auto
    have "getfree_scan n cur (link pre) st = Some (a, relink (link pre) ?new ?st)"
      using cur 2 neq nH by (subst getfree_scan.simps)
        (simp add: relink_def Let_def set_flags_def set_size_def set_next_def u32_le_iff)
    moreover have "heap_ok (relink (link pre) ?new ?st) (pre @ (?new, m - n) # suf) (insert (a, n) us)"
      using Cons.prems(1,3) b 2 neq by (intro split_block) (auto simp: set_flags_def set_size_def set_next_def)
    ultimately show ?thesis
      using 2 b by (intro disjI2 exI [of _ "[]"] exI [of _ a] exI [of _ m] exI [of _ suf])
        (auto simp: fits_def)
  next
    case 3
    have step: "getfree_scan n cur (link pre) st = getfree_scan n (nextfree (hdr st a)) (link (pre @ [b])) st"
      using cur 3 nH b by (subst getfree_scan.simps) (auto simp: fits_def u32_le_iff link_def)
    have "heap_ok st ((pre @ [b]) @ suf) us" using Cons.prems(1) by simp
    from Cons.IH [OF this cur(4) Cons.prems(3,4)] show ?thesis
    proof (elim disjE exE conjE)
      assume "\<forall>(a, m)\<in>set suf. \<not> fits n m" "getfree_scan n (nextfree (hdr st a)) (link (pre @ [b])) st = Some (NULL, st)"
      with 3 b step show ?thesis by auto
    next
      fix ys a' m' zs st' fl
      assume "suf = ys @ (a', m') # zs" "fits n m'"
        "getfree_scan n (nextfree (hdr st a)) (link (pre @ [b])) st = Some (a', st')"
        "fl = (pre @ [b]) @ ys @ (if m' = n then [] else [(a' + n, m' - n)]) @ zs" "heap_ok st' fl (insert (a', n) us)"
      with step show ?thesis
        by (intro disjI2 exI [of _ "b # ys"] exI [of _ a'] exI [of _ m'] exI [of _ zs] exI [of _ st'] exI [of _ fl]) simp
    qed
  qed
qed

subsection \<open>Putting a block on the list\<close>

lemma before_trans: "before b c \<Longrightarrow> before c d \<Longrightarrow> before b d"
  by (auto simp: before_def)

lemma heap_okI:
  assumes "fseg (hdr st) (firstfree st) fl NULL" "sorted_wrt before fl" "\<And>b. b \<in> set fl \<union> us \<Longrightarrow> block_ok b"
    "\<And>a n. (a, n) \<in> us \<Longrightarrow> hsize (hdr st a) = n" "\<And>u b. u \<in> us \<Longrightarrow> b \<in> set fl \<Longrightarrow> apart u b"
    "\<And>u v. u \<in> us \<Longrightarrow> v \<in> us \<Longrightarrow> u \<noteq> v \<Longrightarrow> apart u v"
  shows "heap_ok st fl us"
  using assms by (simp add: heap_ok_def split_beta)

lemma heap_okD:
  assumes "heap_ok st fl us"
  shows "fseg (hdr st) (firstfree st) fl NULL" "sorted_wrt before fl" "\<And>b. b \<in> set fl \<union> us \<Longrightarrow> block_ok b"
    "\<And>a n. (a, n) \<in> us \<Longrightarrow> hsize (hdr st a) = n" "\<And>u b. u \<in> us \<Longrightarrow> b \<in> set fl \<Longrightarrow> apart u b"
    "\<And>u v. u \<in> us \<Longrightarrow> v \<in> us \<Longrightarrow> u \<noteq> v \<Longrightarrow> apart u v"
  using assms by (auto simp: heap_ok_def)

lemma add_block:
  assumes ok: "heap_ok st (pre @ suf) us" and seg: "fseg (hdr st) (firstfree st) pre q" "fseg (hdr st) q suf NULL"
    and b: "block_ok (a, n)" "\<And>c. c \<in> set pre \<Longrightarrow> before c (a, n)" "\<And>c. c \<in> set suf \<Longrightarrow> before (a, n) c"
      "\<And>u. u \<in> us \<Longrightarrow> apart u (a, n)"
    and n: "hsize (hdr st a) = n"
  shows "heap_ok (relink (link pre) a (set_next a q st)) (pre @ (a, n) # suf) us"
proof (rule heap_okI)
  note D = heap_okD [OF ok]
  let ?st = "set_next a q st"
  show srt: "sorted_wrt before (pre @ (a, n) # suf)"
    using D(2) b(2,3) by (auto simp: sorted_wrt_append)
  have all: "\<forall>c\<in>set (pre @ (a, n) # suf). block_ok c"
    using heap_okD(3) [OF ok] b(1) unfolding set_append list.set by blast
  note fresh = sorted_fresh [OF srt all, simplified]
  show "fseg (hdr (relink (link pre) a ?st)) (firstfree (relink (link pre) a ?st)) (pre @ (a, n) # suf) NULL"
  proof (rule relink_fseg [OF _ _ srt all])
    show "fseg (hdr ?st) (firstfree ?st) pre q"
      using seg(1) fresh by (simp add: set_next_def fseg_upd)
    show "fseg (hdr ?st) a ((a, n) # suf) NULL"
      using seg(2) fresh b(1) n by (simp add: set_next_def fseg_upd block_ok_def)
  qed
  show "block_ok c" if "c \<in> set (pre @ (a, n) # suf) \<union> us" for c
    using that D(3) [of c] b(1) by auto
  show "hsize (hdr (relink (link pre) a ?st) c) = k" if "(c, k) \<in> us" for c k
    using D(4) [OF that] by (auto simp: set_next_def)
  show "apart u c" if "u \<in> us" "c \<in> set (pre @ (a, n) # suf)" for u c
    using that D(5) [OF that(1), of c] b(4) [OF that(1)] by auto
qed (fact heap_okD(6) [OF ok])

text \<open>A block takes over its successors \<open>mid\<close> or other memory behind it.\<close>

lemma grow_block:
  assumes ok: "heap_ok st (pre @ (a, n) # mid @ suf) us" and q: "fseg (hdr st) q suf NULL"
    and b: "block_ok (a, n')" "\<And>c. c \<in> set suf \<Longrightarrow> before (a, n') c" "\<And>u. u \<in> us \<Longrightarrow> apart u (a, n')"
    and st': "hsize (hdr st' a) = n'" "nextfree (hdr st' a) = q" "firstfree st' = firstfree st"
      "\<And>b. b \<noteq> a \<Longrightarrow> hdr st' b = hdr st b"
  shows "heap_ok st' (pre @ (a, n') # suf) us"
proof (rule heap_okI)
  note D = heap_okD [OF ok] and F = heap_fseg [OF ok]
  have same: "fseg (hdr st') p xs r = fseg (hdr st) p xs r" if "a \<notin> fst ` set xs" for p xs r
    using that st'(4) by (intro fseg_cong) force
  show "fseg (hdr st') (firstfree st') (pre @ (a, n') # suf) NULL"
    using F same [of suf] same [of pre] st' q by (auto simp: fseg_append image_Un intro!: exI [of _ a])
  have "before c (a, n')" if "c \<in> set pre" for c
    using that D(2) by (auto simp: sorted_wrt_append before_def)
  then show "sorted_wrt before (pre @ (a, n') # suf)"
    using D(2) b(2) by (auto simp: sorted_wrt_append)
  show "block_ok c" if "c \<in> set (pre @ (a, n') # suf) \<union> us" for c
    using that D(3) [of c] b(1) by auto
  show "hsize (hdr st' c) = k" if "(c, k) \<in> us" for c k
    using D(4) [OF that] F(7) that st'(4) by force
  show "apart u c" if "u \<in> us" "c \<in> set (pre @ (a, n') # suf)" for u c
    using that D(5) [OF that(1), of c] b(3) [OF that(1)] by auto
qed (fact heap_okD(6) [OF ok])

definition block_bytes :: "block \<Rightarrow> nat set" where
  "block_bytes b = {unat (fst b)..<unat (fst b) + unat (snd b)}"

definition free_bytes :: "block list \<Rightarrow> nat set" where
  "free_bytes fl = (\<Union>b\<in>set fl. block_bytes b)"

lemma free_bytes_simps [simp]:
  "free_bytes [] = {}" "free_bytes (b # fl) = block_bytes b \<union> free_bytes fl"
  "free_bytes (xs @ ys) = free_bytes xs \<union> free_bytes ys"
  by (auto simp: free_bytes_def)

text \<open>Two adjacent blocks as one.\<close>

lemma adjacent:
  assumes "block_ok (a, n)" "block_ok (b, m)" "a + n = b"
  shows "unat b = unat a + unat n" "unat (n + m) = unat n + unat m" "block_ok (a, n + m)"
    "block_bytes (a, n + m) = block_bytes (a, n) \<union> block_bytes (b, m)"
    "before (b, m) c \<Longrightarrow> before (a, n + m) c"
    "apart u (a, n) \<Longrightarrow> apart u (b, m) \<Longrightarrow> block_ok u \<Longrightarrow> apart u (a, n + m)"
proof -
  show b: "unat b = unat a + unat n"
    using assms by (auto simp: block_ok_def unat_plus_u32)
  show nm: "unat (n + m) = unat n + unat m"
    using assms b by (intro unat_plus_u32) (simp add: block_ok_def)
  show "block_ok (a, n + m)" "block_bytes (a, n + m) = block_bytes (a, n) \<union> block_bytes (b, m)"
    "before (b, m) c \<Longrightarrow> before (a, n + m) c"
    "apart u (a, n) \<Longrightarrow> apart u (b, m) \<Longrightarrow> block_ok u \<Longrightarrow> apart u (a, n + m)"
    using assms b nm by (auto simp: block_ok_def block_bytes_def before_def apart_def)
qed

text \<open>The last step of \<open>_malloc_insertlist\<close>.\<close>

definition join_next :: "u32 \<Rightarrow> mheap \<Rightarrow> mheap" where
  "join_next header st =
     (let nx = nextfree (hdr st header) in
      if header + hsize (hdr st header) = nx then
        set_next header (nextfree (hdr st nx)) (set_size header (hsize (hdr st header) + hsize (hdr st nx)) st)
      else st)"

lemma join_next_ok:
  assumes ok: "heap_ok st (pre @ (a, n) # suf) us"
  shows "\<exists>fl. heap_ok (join_next a st) fl us \<and> free_bytes fl = free_bytes (pre @ (a, n) # suf) \<and>
    (\<exists>b\<in>set fl. block_bytes (a, n) \<subseteq> block_bytes b)"
proof -
  note D = heap_okD [OF ok] and F = heap_fseg [OF ok]
  have a: "block_ok (a, n)" using D(3) by simp
  show ?thesis
  proof (cases "a + n = nextfree (hdr st a)")
    case False
    with ok F(2) show ?thesis by (intro exI [of _ "pre @ (a, n) # suf"]) (simp add: join_next_def)
  next
    case True
    have "a + n \<noteq> NULL" using a by (auto simp: block_ok_def word_unat_eq_iff unat_plus_u32)
    with True F(4) obtain m suf' where suf: "suf = (nextfree (hdr st a), m) # suf'"
      by (cases suf) auto
    define b where "b = nextfree (hdr st a)"
    have bm: "block_ok (b, m)" "hsize (hdr st b) = m" "fseg (hdr st) (nextfree (hdr st b)) suf' NULL" "b \<noteq> a"
      using D(3) F(4,6) suf by (auto simp: b_def)
    note J = adjacent [OF a bm(1) True [folded b_def]]
    have "heap_ok (join_next a st) (pre @ (a, n + m) # suf') us"
    proof (rule grow_block [where mid = "[(b, m)]" and n = n])
      show "heap_ok st (pre @ (a, n) # [(b, m)] @ suf') us" using ok suf by (simp add: b_def)
      show "before (a, n + m) c" if "c \<in> set suf'" for c
        using that D(2) suf by (intro J(5)) (auto simp: sorted_wrt_append b_def)
      show "apart u (a, n + m)" if "u \<in> us" for u
        using that D(3,5) suf by (intro J(6)) (auto simp: b_def)
      show "hsize (hdr (join_next a st) a) = n + m" "nextfree (hdr (join_next a st) a) = nextfree (hdr st b)"
        "firstfree (join_next a st) = firstfree st"
        using True F(2) bm(2) by (simp_all add: join_next_def Let_def set_next_def set_size_def b_def)
      show "hdr (join_next a st) c = hdr st c" if "c \<noteq> a" for c
        using that by (simp add: join_next_def Let_def set_next_def set_size_def)
    qed (use bm(3) J(3) in auto)
    moreover have "free_bytes (pre @ (a, n + m) # suf') = free_bytes (pre @ (a, n) # suf)"
      using J(4) suf by (auto simp: b_def)
    moreover have "block_bytes (a, n) \<subseteq> block_bytes (a, n + m)" using J(4) by blast
    ultimately show ?thesis by (intro exI [of _ "pre @ (a, n + m) # suf'"]) auto
  qed
qed

text \<open>The loop stops at the last free block in front of the new one.\<close>

lemma insert_loop_ok:
  assumes "heap_ok st (pre @ (c, k) # suf) us" "before (c, k) (a, n)" "block_ok (a, n)"
    "\<forall>b\<in>set suf. apart (a, n) b"
  shows "\<exists>pre' c' k' suf'. pre @ (c, k) # suf = pre' @ (c', k') # suf' \<and> before (c', k') (a, n) \<and>
    (\<forall>b\<in>set suf'. before (a, n) b) \<and>
    insert_loop a c st = Some (if c' + hsize (hdr st c') = a
      then set_size c' (hsize (hdr st c') + hsize (hdr st a)) st
      else set_next c' a (set_next a (nextfree (hdr st c')) st))"
  using assms
proof (induction suf arbitrary: pre c k)
  case Nil
  note F = heap_fseg [OF Nil.prems(1)]
  have "c < a" using Nil.prems(2) heap_okD(3) [OF Nil.prems(1), of "(c, k)"]
    by (auto simp: before_def block_ok_def u32_less_iff)
  with F show ?case
    by (intro exI [of _ pre] exI [of _ c] exI [of _ k] exI [of _ "[]"])
      (use Nil.prems(2) in \<open>simp add: insert_loop.simps [of a c]\<close>)
next
  case (Cons b suf)
  obtain d j where b: "b = (d, j)" by force
  note F = heap_fseg [OF Cons.prems(1)]
  have d: "nextfree (hdr st c) = d" "d \<noteq> NULL" using F(4) b by auto
  have ca: "c < a" using Cons.prems(2) heap_okD(3) [OF Cons.prems(1), of "(c, k)"]
    by (auto simp: before_def block_ok_def u32_less_iff)
  have dj: "block_ok (d, j)" "apart (a, n) (d, j)"
    using heap_okD(3) [OF Cons.prems(1), of b] Cons.prems(4) b by auto
  show ?case
  proof (cases "before (a, n) (d, j)")
    case True
    then have "d > a" using Cons.prems(3) by (auto simp: before_def block_ok_def u32_less_iff)
    moreover have "\<forall>x\<in>set (b # suf). before (a, n) x"
      using True heap_okD(2) [OF Cons.prems(1)] b before_trans by (auto simp: sorted_wrt_append)
    ultimately show ?thesis
      using d ca Cons.prems(2) F(3)
      by (intro exI [of _ pre] exI [of _ c] exI [of _ k] exI [of _ "b # suf"])
        (simp add: insert_loop.simps [of a c])
  next
    case False
    then have bef: "before (d, j) (a, n)" using dj(2) by (simp add: apart_def)
    then have "\<not> d > a" using dj(1) by (auto simp: before_def block_ok_def u32_less_iff)
    then have step: "insert_loop a c st = insert_loop a d st"
      using d F(3) by (subst insert_loop.simps) simp
    have "heap_ok st ((pre @ [(c, k)]) @ (d, j) # suf) us" using Cons.prems(1) b by simp
    from Cons.IH [OF this bef Cons.prems(3)] Cons.prems(4) step b show ?thesis by simp
  qed
qed

lemma set_next_firstfree: "set_next a q (st\<lparr>firstfree := p\<rparr>) = (set_next a q st)\<lparr>firstfree := p\<rparr>"
  by (simp add: set_next_def)

lemma malloc_insertlist_alt:
  "malloc_insertlist a st =
     map_option (join_next a)
       (if firstfree st = NULL then Some (relink NULL a (set_next a NULL st))
        else if a < firstfree st then Some (relink NULL a (set_next a (firstfree st) st))
        else insert_loop a (firstfree st) st)"
  by (cases "insert_loop a (firstfree st) st")
    (simp_all add: malloc_insertlist_def join_next_def relink_def set_next_firstfree Let_def)

lemma malloc_insertlist_ok:
  assumes ok: "heap_ok st fl us" and b: "block_ok (a, n)" "hsize (hdr st a) = n"
    and ap: "\<forall>c\<in>set fl \<union> us. apart (a, n) c"
  shows "\<exists>st' fl'. malloc_insertlist a st = Some st' \<and> heap_ok st' fl' us \<and>
    free_bytes fl' = free_bytes fl \<union> block_bytes (a, n) \<and> (\<exists>b\<in>set fl'. block_bytes (a, n) \<subseteq> block_bytes b)"
proof -
  note D = heap_okD [OF ok]
  have apu: "apart u (a, n)" if "u \<in> us" for u using ap that apart_sym by blast
  show ?thesis
  proof (cases fl)
    case Nil
    then have ff: "firstfree st = NULL" using D(1) by simp
    have "heap_ok (relink (link []) a (set_next a NULL st)) ([] @ (a, n) # []) us"
      using ok Nil b apu ff by (intro add_block) auto
    from join_next_ok [OF this] ff show ?thesis
      by (auto simp: malloc_insertlist_alt link_def Nil)
  next
    case (Cons c0 fl0)
    obtain c k where c: "c0 = (c, k)" by force
    have ff: "firstfree st = c" "c \<noteq> NULL" using D(1) Cons c by auto
    have ck: "block_ok (c, k)" "apart (a, n) (c, k)" using D(3) [of c0] ap Cons c by auto
    show ?thesis
    proof (cases "a < c")
      case True
      then have "before (a, n) (c, k)" using ck by (auto simp: apart_def before_def block_ok_def u32_less_iff)
      then have "\<forall>x\<in>set fl. before (a, n) x"
        using D(2) Cons c before_trans by auto
      then have "heap_ok (relink (link []) a (set_next a (firstfree st) st)) ([] @ (a, n) # fl) us"
        using ok b apu D(1) by (intro add_block) auto
      from join_next_ok [OF this] True ff show ?thesis
        by (auto simp: malloc_insertlist_alt link_def)
    next
      case False
      then have "before (c, k) (a, n)" using ck b(1) by (auto simp: apart_def before_def block_ok_def u32_less_iff)
      moreover have "\<forall>x\<in>set fl0. apart (a, n) x" using ap Cons by simp
      ultimately obtain pre' c' k' suf' where L: "fl = pre' @ (c', k') # suf'" "before (c', k') (a, n)"
        "\<forall>b\<in>set suf'. before (a, n) b"
        "insert_loop a c st = Some (if c' + hsize (hdr st c') = a
          then set_size c' (hsize (hdr st c') + hsize (hdr st a)) st
          else set_next c' a (set_next a (nextfree (hdr st c')) st))"
        using insert_loop_ok [of st "[]" c k fl0 us a n] ok Cons c b(1) by auto
      have ok': "heap_ok st (pre' @ (c', k') # suf') us" using ok L(1) by simp
      note F = heap_fseg [OF ok']
      have ck': "block_ok (c', k')" "c' \<noteq> a"
        using D(3) [of "(c', k')"] L(1,2) by (auto simp: before_def block_ok_def)
      show ?thesis
      proof (cases "c' + k' = a")
        case True
        note J = adjacent [OF ck'(1) b(1) True]
        let ?st = "set_size c' (k' + n) st"
        have ok1: "heap_ok ?st (pre' @ (c', k' + n) # suf') us"
        proof (rule grow_block [where mid = "[]" and n = k'])
          show "heap_ok st (pre' @ (c', k') # [] @ suf') us" using ok' by simp
          show "before (c', k' + n) x" if "x \<in> set suf'" for x
            using that L(3) by (intro J(5)) auto
          show "apart u (c', k' + n)" if "u \<in> us" for u
            using that D(3) [of u] D(5) [OF that, of "(c', k')"] apu [OF that] L(1) by (intro J(6)) auto
        qed (use F(4) J(3) in \<open>auto simp: set_size_def\<close>)
        have na: "a \<noteq> fst x" if "x \<in> set (pre' @ (c', k' + n) # suf') \<union> us" for x
        proof (cases "x = (c', k' + n)")
          case False
          with that L(1) have "x \<in> set fl \<union> us" by auto
          with ap D(3) [OF this] apart_neq [OF _ b(1)] show ?thesis by (metis fst_conv)
        qed (use ck'(2) in auto)
        have "heap_ok (join_next a ?st) (pre' @ (c', k' + n) # suf') us"
        proof (rule heap_okI)
          have oth: "hdr (join_next a ?st) x = hdr ?st x" if "x \<noteq> a" for x
            using that by (simp add: join_next_def Let_def set_next_def set_size_def)
          have ff': "firstfree (join_next a ?st) = firstfree ?st"
            by (simp add: join_next_def Let_def set_next_def set_size_def)
          have "a \<notin> fst ` set (pre' @ (c', k' + n) # suf')" using na by blast
          then have "fseg (hdr (join_next a ?st)) p (pre' @ (c', k' + n) # suf') q
              = fseg (hdr ?st) p (pre' @ (c', k' + n) # suf') q" for p q
            by (intro fseg_cong) (metis oth)
          with heap_okD(1) [OF ok1] ff'
          show "fseg (hdr (join_next a ?st)) (firstfree (join_next a ?st)) (pre' @ (c', k' + n) # suf') NULL"
            by simp
          show "hsize (hdr (join_next a ?st) x) = m" if "(x, m) \<in> us" for x m
            using heap_okD(4) [OF ok1 that] oth na [of "(x, m)"] that by auto
        qed (fact heap_okD(2) [OF ok1], fact heap_okD(3) [OF ok1], fact heap_okD(5) [OF ok1], fact heap_okD(6) [OF ok1])
        moreover have "malloc_insertlist a st = Some (join_next a ?st)"
          using L(4) False ff True F(2) b(2) by (simp add: malloc_insertlist_alt)
        moreover have "block_bytes (a, n) \<subseteq> block_bytes (c', k' + n)" using J(4) by blast
        ultimately show ?thesis using J(4) L(1) by (intro exI [of _ "join_next a ?st"] exI [of _ "pre' @ (c', k' + n) # suf'"]) auto
      next
        case apart: False
        let ?pre = "pre' @ [(c', k')]"
        let ?q = "nextfree (hdr st c')"
        have "heap_ok (relink (link ?pre) a (set_next a ?q st)) (?pre @ (a, n) # suf') us"
        proof (rule add_block)
          show "heap_ok st (?pre @ suf') us" using ok' by simp
          show "fseg (hdr st) (firstfree st) ?pre ?q" using F by (auto simp: fseg_append)
          show "before x (a, n)" if "x \<in> set ?pre" for x
            using that L(2) heap_okD(2) [OF ok'] by (auto simp: sorted_wrt_append intro: before_trans [OF _ L(2)])
        qed (use F(4) b L(3) apu in auto)
        from join_next_ok [OF this] L(4) F(2,3) False ff apart show ?thesis
          by (auto simp: malloc_insertlist_alt link_def relink_def L(1))
      qed
    qed
  qed
qed

end
