(* ===== verification/MallocProps.thy ===== *)
theory MallocProps
  imports Malloc
begin

text \<open>
  What the kernel's heap promises: \<open>malloc\<close> returns a block that overlaps no block in use, \<open>free\<close>
  takes one block out of use. The promise is a locale; the properties follow from its
  interpretation on the model of \<open>kernel2/malloc.c\<close>.
\<close>

section \<open>Blocks and their bytes\<close>

lemma apart_iff:
  assumes "block_ok b" "block_ok c"
  shows "apart b c \<longleftrightarrow> block_bytes b \<inter> block_bytes c = {}"
proof
  assume d: "block_bytes b \<inter> block_bytes c = {}"
  have "unat (fst b) \<in> block_bytes b" "unat (fst c) \<in> block_bytes c"
    using assms by (auto simp: block_bytes_def block_ok_def)
  with d have "unat (fst b) \<notin> block_bytes c" "unat (fst c) \<notin> block_bytes b" by auto
  then show "apart b c" by (auto simp: apart_def before_def block_bytes_def)
qed (auto simp: apart_def before_def block_bytes_def)

definition used_bytes :: "block set \<Rightarrow> nat set" where
  "used_bytes us = (\<Union>b\<in>us. block_bytes b)"

text \<open>The pages still to come are whole pages that overlap neither each other nor the heap.\<close>

definition supply_ok :: "nat set \<Rightarrow> u32 list \<Rightarrow> bool" where
  "supply_ok taken pages \<longleftrightarrow>
     distinct (filter (\<lambda>p. p \<noteq> NULL) pages) \<and>
     (\<forall>p\<in>set pages. p \<noteq> NULL \<longrightarrow> block_ok (p, 4096) \<and> block_bytes (p, 4096) \<inter> taken = {}) \<and>
     (\<forall>p\<in>set pages. \<forall>q\<in>set pages. p \<noteq> NULL \<and> q \<noteq> NULL \<and> p \<noteq> q \<longrightarrow> apart (p, 4096) (q, 4096))"

definition heap_inv :: "mheap \<times> u32 list \<Rightarrow> block set \<Rightarrow> bool" where
  "heap_inv s us \<longleftrightarrow> (\<exists>fl. heap_ok (fst s) fl us \<and> supply_ok (free_bytes fl \<union> used_bytes us) (snd s))"

lemma donate_ok:
  assumes ok: "heap_ok st fl us" and sup: "supply_ok (free_bytes fl \<union> used_bytes us) (p # ps)" and p: "p \<noteq> NULL"
  shows "\<exists>st' fl'. malloc_donatemem p 4096 st = Some st' \<and> heap_ok st' fl' us \<and>
    supply_ok (free_bytes fl' \<union> used_bytes us) ps \<and>
    (\<exists>b\<in>set fl'. block_bytes (p, 4096) \<subseteq> block_bytes b)"
proof -
  note D = heap_okD [OF ok]
  have b: "block_ok (p, 4096)" using sup p by (simp add: supply_ok_def)
  have ap: "\<forall>c\<in>set fl \<union> us. apart (p, 4096) c"
  proof
    fix c assume c: "c \<in> set fl \<union> us"
    then have "block_bytes c \<subseteq> free_bytes fl \<union> used_bytes us" by (auto simp: free_bytes_def used_bytes_def)
    with sup p have "block_bytes (p, 4096) \<inter> block_bytes c = {}" by (auto simp: supply_ok_def)
    with apart_iff [OF b D(3) [OF c]] show "apart (p, 4096) c" by simp
  qed
  let ?st = "set_size p 4096 (set_flags p 0 st)"
  have neq: "p \<noteq> fst c" if "c \<in> set fl \<union> us" for c
    using apart_neq [OF bspec [OF ap that] b D(3) [OF that]] by simp
  then have np: "p \<notin> fst ` set fl" "p \<notin> fst ` us" by blast+
  have "heap_ok ?st fl us"
  proof (rule heap_okI)
    show "fseg (hdr ?st) (firstfree ?st) fl NULL"
      using D(1) np(1) by (simp add: set_size_def set_flags_def fseg_upd)
    show "hsize (hdr ?st a) = n" if "(a, n) \<in> us" for a n
      using D(4) [OF that] np(2) that by (force simp: set_size_def set_flags_def)
  qed (fact D(2), fact D(3), fact D(5), fact D(6))
  from malloc_insertlist_ok [OF this b _ ap] obtain st' fl' where st':
    "malloc_insertlist p ?st = Some st'" "heap_ok st' fl' us"
    "free_bytes fl' = free_bytes fl \<union> block_bytes (p, 4096)" "\<exists>b\<in>set fl'. block_bytes (p, 4096) \<subseteq> block_bytes b"
    by (auto simp: set_size_def)
  have "supply_ok (free_bytes fl' \<union> used_bytes us) ps"
  proof -
    have "block_ok (q, 4096) \<and> block_bytes (q, 4096) \<inter> (free_bytes fl' \<union> used_bytes us) = {}"
      if "q \<in> set ps" "q \<noteq> NULL" for q
    proof -
      have q: "block_ok (q, 4096)" "block_bytes (q, 4096) \<inter> (free_bytes fl \<union> used_bytes us) = {}"
        "q \<noteq> p" "apart (q, 4096) (p, 4096)"
        using sup that p by (auto simp: supply_ok_def)
      with apart_iff [OF q(1) b] st'(3) show ?thesis by auto
    qed
    then show ?thesis using sup p by (auto simp: supply_ok_def)
  qed
  with st' p show ?thesis by (intro exI [of _ st'] exI [of _ fl']) (simp add: malloc_donatemem_def)
qed

lemma supply_mono: "supply_ok taken ps \<Longrightarrow> taken' \<subseteq> taken \<Longrightarrow> supply_ok taken' ps"
  unfolding supply_ok_def by blast

section \<open>The search ends when a page fits\<close>

lemma getfree_found:
  assumes ok: "heap_ok st fl us" and sup: "supply_ok (free_bytes fl \<union> used_bytes us) pages"
    and n: "12 \<le> unat n" "unat n + 12 < 2 ^ 32" and fit: "\<exists>(a, m)\<in>set fl. fits n m"
  shows "\<exists>a st'. malloc_getfree pages n st = Some (a, pages, st') \<and> a \<noteq> NULL \<and> (\<forall>u\<in>us. apart u (a, n)) \<and>
    heap_inv (st', pages) (insert (a, n) us)"
proof -
  have "fseg (hdr st) (firstfree st) fl NULL" by (rule heap_okD(1) [OF ok])
  from getfree_scan_ok [of st "[]" fl us, OF _ this n] ok fit obtain ys a m zs st' where g:
    "fl = ys @ (a, m) # zs" "fits n m" "getfree_scan n (firstfree st) NULL st = Some (a, st')"
    "heap_ok st' (ys @ (if m = n then [] else [(a + n, m - n)]) @ zs) (insert (a, n) us)"
    by (auto simp: link_def)
  let ?fl = "ys @ (if m = n then [] else [(a + n, m - n)]) @ zs"
  note F = heap_fseg [OF ok [unfolded g(1)]]
  have am: "block_ok (a, m)" using heap_okD(3) [OF ok, of "(a, m)"] g(1) by simp
  have bytes: "block_bytes (a, m) = block_bytes (a, n) \<union> free_bytes (if m = n then [] else [(a + n, m - n)])"
  proof (cases "m = n")
    case False
    with g(2) have "unat n + 12 \<le> unat m" by (simp add: fits_def)
    note P = split_parts [OF am n(1) this]
    have "n + (m - n) = m" by simp
    with adjacent(4) [OF P(3,4) refl] False show ?thesis by simp
  qed simp
  have "free_bytes ?fl \<union> used_bytes (insert (a, n) us) = free_bytes fl \<union> used_bytes us"
    using bytes g(1) by (auto simp: used_bytes_def)
  then have "heap_inv (st', pages) (insert (a, n) us)"
    using g(4) sup unfolding heap_inv_def by (intro exI [of _ ?fl]) simp
  moreover have "apart u (a, n)" if "u \<in> us" for u
    using heap_okD(6) [OF g(4), of u "(a, n)"] F(7) that by (cases "u = (a, n)") auto
  ultimately show ?thesis
    using g(3) F(3) by (subst malloc_getfree.simps) auto
qed

lemma malloc_getfree_ok:
  assumes "heap_ok st fl us" "supply_ok (free_bytes fl \<union> used_bytes us) pages"
    and n: "12 \<le> unat n" "unat n + 12 \<le> 4096" and "(\<exists>(a, m)\<in>set fl. fits n m) \<or> (\<exists>p\<in>set pages. p \<noteq> NULL)"
  shows "\<exists>a pages' st'. malloc_getfree pages n st = Some (a, pages', st') \<and> a \<noteq> NULL \<and> (\<forall>u\<in>us. apart u (a, n)) \<and>
    heap_inv (st', pages') (insert (a, n) us)"
  using assms(1,2,5)
proof (induction pages arbitrary: st fl)
  case Nil
  then show ?case using getfree_found [of st fl us "[]" n] n by auto
next
  case (Cons p ps)
  show ?case
  proof (cases "\<exists>(a, m)\<in>set fl. fits n m")
    case True
    then show ?thesis using getfree_found [OF Cons.prems(1,2) n(1)] n(2) by fastforce
  next
    case False
    have seg: "fseg (hdr st) (firstfree st) fl NULL" by (rule heap_okD(1) [OF Cons.prems(1)])
    have "unat n + 12 < 2 ^ 32" using n(2) by simp
    from getfree_scan_ok [of st "[]" fl us, OF _ seg n(1) this] Cons.prems(1) False
    have scan: "getfree_scan n (firstfree st) NULL st = Some (NULL, st)" by (fastforce simp: link_def)
    show ?thesis
    proof (cases "p = NULL")
      case True
      have "supply_ok (free_bytes fl \<union> used_bytes us) ps"
        using Cons.prems(2) True by (simp add: supply_ok_def)
      moreover have "\<exists>p\<in>set ps. p \<noteq> NULL" using Cons.prems(3) False True by auto
      ultimately show ?thesis
        using Cons.IH [OF Cons.prems(1)] scan True
        by (subst malloc_getfree.simps) (simp add: malloc_donatemem_def)
    next
      case p: False
      from donate_ok [OF Cons.prems(1,2) p] obtain st' fl' b where d:
        "malloc_donatemem p 4096 st = Some st'" "heap_ok st' fl' us" "supply_ok (free_bytes fl' \<union> used_bytes us) ps"
        "b \<in> set fl'" "block_bytes (p, 4096) \<subseteq> block_bytes b" by blast
      have "4096 \<le> unat (snd b)"
        using d(5) heap_okD(3) [OF d(2), of b] d(4) card_mono [OF _ d(5)] by (simp add: block_bytes_def)
      with d(4) n(2) have "\<exists>(a, m)\<in>set fl'. fits n m"
        by (intro bexI [of _ b]) (auto simp: fits_def split_beta)
      then show ?thesis
        using Cons.IH [OF d(2,3)] scan d(1) by (subst malloc_getfree.simps) simp
    qed
  qed
qed

section \<open>The contract\<close>

text \<open>
  \<open>live s L\<close>: the blocks \<open>L\<close> (address and size, as the caller sees them) are in use.
  \<open>can n s\<close>: a request for \<open>n\<close> bytes will be served.
\<close>

locale allocator =
  fixes live :: "'s \<Rightarrow> block set \<Rightarrow> bool"
    and can :: "u32 \<Rightarrow> 's \<Rightarrow> bool"
    and alloc_op :: "u32 \<Rightarrow> 's \<Rightarrow> (u32 \<times> 's) option"
    and free_op :: "u32 \<Rightarrow> 's \<Rightarrow> 's option"
  assumes live_sep: "live s L \<Longrightarrow> b \<in> L \<Longrightarrow> c \<in> L \<Longrightarrow> b \<noteq> c \<Longrightarrow>
      fst b \<noteq> fst c \<and> block_bytes b \<inter> block_bytes c = {}"
    and alloc_law: "live s L \<Longrightarrow> can n s \<Longrightarrow>
      \<exists>p s'. alloc_op n s = Some (p, s') \<and> p \<noteq> NULL \<and> (p, n) \<notin> L \<and> live s' (insert (p, n) L)"
    and free_law: "live s L \<Longrightarrow> (p, n) \<in> L \<Longrightarrow> \<exists>s'. free_op p s = Some s' \<and> live s' (L - {(p, n)})"
begin

text \<open>A new block overlaps no block in use.\<close>

lemma alloc_fresh:
  assumes "live s L" "can n s"
  shows "\<exists>p s'. alloc_op n s = Some (p, s') \<and> p \<noteq> NULL \<and> live s' (insert (p, n) L) \<and>
    (\<forall>b\<in>L. fst b \<noteq> p \<and> block_bytes (p, n) \<inter> block_bytes b = {})"
proof -
  from alloc_law [OF assms] obtain p s' where a:
    "alloc_op n s = Some (p, s')" "p \<noteq> NULL" "(p, n) \<notin> L" "live s' (insert (p, n) L)" by blast
  have "fst b \<noteq> p \<and> block_bytes (p, n) \<inter> block_bytes b = {}" if "b \<in> L" for b
    using live_sep [OF a(4), of "(p, n)" b] that a(3) by (cases "b = (p, n)") auto
  with a show ?thesis by blast
qed

text \<open>Allocating and releasing again leaves the blocks in use as they were.\<close>

lemma alloc_release:
  assumes "live s L" "can n s"
  shows "\<exists>s'. alloc_op n s \<bind> (\<lambda>(p, s1). free_op p s1) = Some s' \<and> live s' L"
proof -
  from alloc_law [OF assms] obtain p s1 where a:
    "alloc_op n s = Some (p, s1)" "(p, n) \<notin> L" "live s1 (insert (p, n) L)" by blast
  from free_law [OF a(3), of p n] a(2) obtain s' where "free_op p s1 = Some s'" "live s' L" by auto
  with a(1) show ?thesis by simp
qed

end

text \<open>The block behind the header, as the caller sees it.\<close>

definition payload :: "block \<Rightarrow> block" where
  "payload b = (fst b + HEADER, snd b - HEADER)"

definition live_blocks :: "mheap \<times> u32 list \<Rightarrow> block set \<Rightarrow> bool" where
  "live_blocks s L \<longleftrightarrow> (\<exists>us. heap_inv s us \<and> L = payload ` us)"

definition can_serve :: "u32 \<Rightarrow> mheap \<times> u32 list \<Rightarrow> bool" where
  "can_serve n s \<longleftrightarrow> unat n \<le> 4072 \<and> (\<exists>p\<in>set (snd s). p \<noteq> NULL)"

definition kmalloc :: "u32 \<Rightarrow> mheap \<times> u32 list \<Rightarrow> (u32 \<times> mheap \<times> u32 list) option" where
  "kmalloc n s = map_option (\<lambda>(p, pages, st). (p, st, pages)) (malloc (snd s) n (fst s))"

definition kfree :: "u32 \<Rightarrow> mheap \<times> u32 list \<Rightarrow> (mheap \<times> u32 list) option" where
  "kfree p s = map_option (\<lambda>st. (st, snd s)) (mfree p (fst s))"

lemma payload_bytes:
  assumes "block_ok b"
  shows "unat (fst (payload b)) = unat (fst b) + 12" "unat (snd (payload b)) = unat (snd b) - 12"
    "block_bytes (payload b) \<subseteq> block_bytes b" "fst (payload b) \<noteq> NULL"
proof -
  show a: "unat (fst (payload b)) = unat (fst b) + 12"
    using assms by (auto simp: payload_def HEADER_def block_ok_def unat_plus_u32)
  show n: "unat (snd (payload b)) = unat (snd b) - 12"
    using assms by (auto simp: payload_def HEADER_def block_ok_def unat_minus_u32 u32_le_iff)
  show "block_bytes (payload b) \<subseteq> block_bytes b"
    using assms a n by (auto simp: block_bytes_def block_ok_def)
  show "fst (payload b) \<noteq> NULL" using a by (auto simp: word_unat_eq_iff)
qed

lemma heap_inv_sep:
  assumes "heap_inv s us" "b \<in> us" "c \<in> us" "b \<noteq> c"
  shows "block_ok b" "apart b c" "fst b \<noteq> fst c" "block_bytes b \<inter> block_bytes c = {}"
proof -
  from assms(1) obtain fl where ok: "heap_ok (fst s) fl us" by (auto simp: heap_inv_def)
  show b: "block_ok b" and ap: "apart b c"
    using heap_okD(3) [OF ok, of b] heap_okD(6) [OF ok assms(2-4)] assms(2) by auto
  have c: "block_ok c" using heap_okD(3) [OF ok, of c] assms(3) by auto
  show "fst b \<noteq> fst c" "block_bytes b \<inter> block_bytes c = {}"
    using apart_neq [OF ap b c] apart_iff [OF b c] ap by auto
qed

lemma malloc_ok:
  assumes "heap_inv (st, pages) us" "unat n \<le> 4072" "\<exists>p\<in>set pages. p \<noteq> NULL"
  shows "\<exists>a pages' st'. malloc pages n st = Some (a + HEADER, pages', st') \<and> (\<forall>u\<in>us. apart u (a, n + HEADER)) \<and>
    heap_inv (st', pages') (insert (a, n + HEADER) us) \<and> block_ok (a, n + HEADER)"
proof -
  from assms(1) obtain fl where fl: "heap_ok st fl us" "supply_ok (free_bytes fl \<union> used_bytes us) pages"
    by (auto simp: heap_inv_def)
  have n: "unat (n + HEADER) = unat n + 12" using assms(2) by (simp add: HEADER_def unat_plus_u32)
  with malloc_getfree_ok [OF fl, of "n + HEADER"] assms(2,3) obtain a pages' st' where g:
    "malloc_getfree pages (n + HEADER) st = Some (a, pages', st')" "a \<noteq> NULL" "\<forall>u\<in>us. apart u (a, n + HEADER)"
    "heap_inv (st', pages') (insert (a, n + HEADER) us)" by auto
  from g(4) have "block_ok (a, n + HEADER)" by (auto simp: heap_inv_def dest: heap_okD(3))
  with g show ?thesis by (auto simp: malloc_def)
qed

lemma mfree_ok:
  assumes "heap_inv (st, pages) us" "(a, m) \<in> us"
  shows "\<exists>st'. mfree (a + HEADER) st = Some st' \<and> heap_inv (st', pages) (us - {(a, m)})"
proof -
  from assms(1) obtain fl where ok: "heap_ok st fl us" and sup: "supply_ok (free_bytes fl \<union> used_bytes us) pages"
    by (auto simp: heap_inv_def)
  note D = heap_okD [OF ok]
  let ?us = "us - {(a, m)}" and ?st = "set_flags a 0 st"
  have b: "block_ok (a, m)" using D(3) [of "(a, m)"] assms(2) by simp
  have seg: "fseg (hdr ?st) p xs q = fseg (hdr st) p xs q" for p xs q
    by (rule fseg_cong) (simp add: set_flags_def)
  have sz: "hsize (hdr ?st c) = hsize (hdr st c)" for c by (simp add: set_flags_def)
  have ok': "heap_ok ?st fl ?us"
  proof (rule heap_okI)
    show "fseg (hdr ?st) (firstfree ?st) fl NULL" using D(1) seg by (simp add: set_flags_def)
    show "block_ok c" if "c \<in> set fl \<union> ?us" for c using D(3) [of c] that by auto
  qed (use D(2,4,5,6) sz in auto)
  have ap: "\<forall>c\<in>set fl \<union> ?us. apart (a, m) c"
    using D(5) [OF assms(2)] D(6) [OF assms(2)] by auto
  from malloc_insertlist_ok [OF ok' b _ ap] sz D(4) [OF assms(2)] obtain st' fl' where st':
    "malloc_insertlist a ?st = Some st'" "heap_ok st' fl' ?us" "free_bytes fl' = free_bytes fl \<union> block_bytes (a, m)"
    by auto
  have "free_bytes fl' \<union> used_bytes ?us = free_bytes fl \<union> used_bytes us"
    using st'(3) assms(2) by (auto simp: used_bytes_def)
  with st' sup show ?thesis by (auto simp: mfree_def heap_inv_def)
qed

interpretation kh: allocator live_blocks can_serve kmalloc kfree
proof unfold_locales
  fix s :: "mheap \<times> u32 list" and L
  assume "live_blocks s L"
  then obtain us where us: "heap_inv s us" "L = payload ` us" by (auto simp: live_blocks_def)
  have inj: "u = v" if "u \<in> us" "v \<in> us" "fst (payload u) = fst (payload v)" for u v
    using that heap_inv_sep(3) [OF us(1) that(1,2)] by (auto simp: payload_def)
  have okb: "block_ok u" if "u \<in> us" for u
    using us(1) that by (auto simp: heap_inv_def dest: heap_okD(3))
  show "fst b \<noteq> fst c \<and> block_bytes b \<inter> block_bytes c = {}" if bc: "b \<in> L" "c \<in> L" "b \<noteq> c" for b c
  proof -
    from bc us(2) obtain u v where uv: "u \<in> us" "v \<in> us" "b = payload u" "c = payload v" "u \<noteq> v" by auto
    then show ?thesis
      using inj heap_inv_sep(4) [OF us(1) uv(1,2,5)] payload_bytes(3) [OF okb [OF uv(1)]]
        payload_bytes(3) [OF okb [OF uv(2)]] by blast
  qed
  show "\<exists>p s'. kmalloc n s = Some (p, s') \<and> p \<noteq> NULL \<and> (p, n) \<notin> L \<and> live_blocks s' (insert (p, n) L)"
    if "can_serve n s" for n
  proof -
    obtain st pages where s: "s = (st, pages)" by force
    from malloc_ok [of st pages us n] us(1) that s obtain a pages' st' where m:
      "malloc pages n st = Some (a + HEADER, pages', st')" "\<forall>u\<in>us. apart u (a, n + HEADER)"
      "heap_inv (st', pages') (insert (a, n + HEADER) us)" "block_ok (a, n + HEADER)"
      by (auto simp: can_serve_def)
    have pl: "payload (a, n + HEADER) = (a + HEADER, n)" by (simp add: payload_def)
    have "(a + HEADER, n) \<notin> L"
    proof
      assume "(a + HEADER, n) \<in> L"
      then obtain u where "u \<in> us" "payload u = (a + HEADER, n)" using us(2) by auto
      with apart_neq [OF _ okb m(4)] m(2) show False by (auto simp: payload_def)
    qed
    moreover have "live_blocks (st', pages') (insert (a + HEADER, n) L)"
      using m(3) us(2) pl unfolding live_blocks_def by (metis image_insert)
    ultimately show ?thesis
      using m(1) payload_bytes(4) [OF m(4)] pl s by (auto simp: kmalloc_def)
  qed
  show "\<exists>s'. kfree p s = Some s' \<and> live_blocks s' (L - {(p, n)})" if pn: "(p, n) \<in> L" for p n
  proof -
    obtain st pages where s: "s = (st, pages)" by force
    from pn us(2) obtain u where u: "u \<in> us" "payload u = (p, n)" by auto
    then have p: "fst u + HEADER = p" by (simp add: payload_def)
    from mfree_ok [of st pages us "fst u" "snd u"] us(1) u(1) s p obtain st' where
      st': "mfree p st = Some st'" "heap_inv (st', pages) (us - {u})" by auto
    have "inj_on payload us" by (rule inj_onI, rule inj) simp_all
    then have "payload ` (us - {u}) = L - {(p, n)}"
      using us(2) u inj_on_image_set_diff [of payload us us "{u}"] by simp
    with st' s show ?thesis by (auto simp: kfree_def live_blocks_def)
  qed
qed

section \<open>Shrinking a block\<close>

lemma shrink_ok:
  assumes inv: "heap_inv (st, pages) us" and am: "(a, m) \<in> us" and n: "12 \<le> unat n" "unat n + 12 \<le> unat m"
  shows "\<exists>st'. malloc_insertlist (a + n) (set_size (a + n) (m - n) (set_flags (a + n) 0 st)) = Some st' \<and>
    heap_inv (set_size a n st', pages) (insert (a, n) (us - {(a, m)}))"
proof -
  from inv obtain fl where ok: "heap_ok st fl us" and sup: "supply_ok (free_bytes fl \<union> used_bytes us) pages"
    by (auto simp: heap_inv_def)
  note D = heap_okD [OF ok]
  let ?us = "us - {(a, m)}" and ?st = "set_size (a + n) (m - n) (set_flags (a + n) 0 st)"
  have b: "block_ok (a, m)" using D(3) [of "(a, m)"] am by simp
  note P = split_parts [OF b n]
  have ap: "apart c (a, m)" "block_ok c" if "c \<in> set fl \<union> ?us" for c
    using that D(5) [OF am, of c] D(6) [of c "(a, m)"] D(3) [of c] am apart_sym by auto
  have ap': "\<forall>c\<in>set fl \<union> ?us. apart (a + n, m - n) c" using ap(1) P(7) apart_sym by blast
  have fresh: "fst c \<noteq> a + n" if "c \<in> set fl \<union> ?us" for c
    using apart_neq [OF bspec [OF ap' that] P(4) ap(2) [OF that]] by auto
  have oth: "hdr ?st c = hdr st c" if "c \<noteq> a + n" for c using that by (simp add: set_size_def set_flags_def)
  have "heap_ok ?st fl ?us"
  proof (rule heap_okI)
    have "a + n \<notin> fst ` set fl"
    proof
      assume "a + n \<in> fst ` set fl"
      then obtain c where "c \<in> set fl" "fst c = a + n" by (elim imageE) simp
      with fresh [of c] show False by simp
    qed
    then show "fseg (hdr ?st) (firstfree ?st) fl NULL"
      using D(1) by (simp add: set_size_def set_flags_def fseg_upd)
    show "hsize (hdr ?st c) = k" if ck: "(c, k) \<in> ?us" for c k
    proof -
      have "c \<noteq> a + n" using fresh [of "(c, k)"] ck by simp
      moreover have "hsize (hdr st c) = k" using D(4) [of c k] ck by simp
      ultimately show ?thesis by (simp add: oth)
    qed
    show "apart u c" if "u \<in> ?us" "c \<in> set fl" for u c using D(5) that by blast
    show "apart u v" if "u \<in> ?us" "v \<in> ?us" "u \<noteq> v" for u v using D(6) that by blast
  qed (fact D(2), fact ap(2))
  from malloc_insertlist_ok [OF this P(4) _ ap'] obtain st' fl' where st':
    "malloc_insertlist (a + n) ?st = Some st'" "heap_ok st' fl' ?us"
    "free_bytes fl' = free_bytes fl \<union> block_bytes (a + n, m - n)"
    by (auto simp: set_size_def)
  note D' = heap_okD [OF st'(2)]
  have sum: "block_bytes (a, m) = block_bytes (a, n) \<union> block_bytes (a + n, m - n)"
    using adjacent(4) [OF P(3,4) refl] by simp
  have d1: "block_bytes (a, n) \<inter> (free_bytes fl \<union> used_bytes ?us) = {}"
  proof -
    have "block_bytes (a, n) \<inter> block_bytes c = {}" if "c \<in> set fl \<union> ?us" for c
      using P(6) [OF ap(1) [OF that]] apart_iff [OF ap(2) [OF that] P(3)] by blast
    then show ?thesis by (auto simp: free_bytes_def used_bytes_def)
  qed
  have d2: "block_bytes (a, n) \<inter> block_bytes (a + n, m - n) = {}"
    using P(5) apart_iff [OF P(3,4)] by (simp add: apart_def)
  have disj: "block_bytes (a, n) \<inter> block_bytes c = {}" if "c \<in> set fl' \<union> ?us" for c
  proof -
    have "block_bytes c \<subseteq> free_bytes fl' \<union> used_bytes ?us"
      using that by (auto simp: free_bytes_def used_bytes_def)
    with d1 d2 show ?thesis unfolding st'(3) by blast
  qed
  have apf: "apart (a, n) c" "block_ok c" if "c \<in> set fl' \<union> ?us" for c
    using disj [OF that] apart_iff [OF P(3) D'(3) [OF that]] D'(3) [OF that] by auto
  have na: "fst c \<noteq> a" if "c \<in> set fl' \<union> ?us" for c
    using apart_neq [OF apf(1) [OF that] P(3) apf(2) [OF that]] by auto
  have "heap_ok (set_size a n st') fl' (insert (a, n) ?us)"
  proof (rule heap_okI)
    have "a \<notin> fst ` set fl'"
    proof
      assume "a \<in> fst ` set fl'"
      then obtain c where "c \<in> set fl'" "fst c = a" by (elim imageE) simp
      with na [of c] show False by simp
    qed
    then show "fseg (hdr (set_size a n st')) (firstfree (set_size a n st')) fl' NULL"
      using D'(1) by (simp add: set_size_def fseg_upd)
    show "hsize (hdr (set_size a n st') c) = k" if "(c, k) \<in> insert (a, n) ?us" for c k
      using that D'(4) [of c k] na [of "(c, k)"] by (auto simp: set_size_def)
    show "apart u c" if "u \<in> insert (a, n) ?us" "c \<in> set fl'" for u c
      using that apf(1) D'(5) by blast
    show "apart u v" if "u \<in> insert (a, n) ?us" "v \<in> insert (a, n) ?us" "u \<noteq> v" for u v
      using that apf(1) D'(6) apart_sym by blast
    show "block_ok c" if "c \<in> set fl' \<union> insert (a, n) ?us" for c
      using that apf(2) P(3) by blast
  qed (fact D'(2))
  moreover have "free_bytes fl' \<union> used_bytes (insert (a, n) ?us) = free_bytes fl \<union> used_bytes us"
    using st'(3) sum am by (auto simp: used_bytes_def)
  ultimately show ?thesis
    using st'(1) sup unfolding heap_inv_def by (intro exI [of _ st'] conjI exI [of _ fl']) auto
qed

section \<open>Properties\<close>

definition empty_heap :: mheap where
  "empty_heap = \<lparr>firstfree = NULL, hdr = \<lambda>_. \<lparr>hflags = 0, hsize = 0, nextfree = 0\<rparr>, freed_pages = []\<rparr>"

lemma empty_heap_live: "live_blocks (empty_heap, [0x700000, 0x701000]) {}"
proof -
  have "heap_ok empty_heap [] {}" by (simp add: heap_ok_def empty_heap_def)
  moreover have "supply_ok {} [0x700000, 0x701000]"
    by (simp add: supply_ok_def block_ok_def apart_def before_def)
  ultimately have "heap_inv (empty_heap, [0x700000, 0x701000]) {}"
    by (auto simp: heap_inv_def used_bytes_def intro!: exI [of _ "[]"])
  then show ?thesis by (auto simp: live_blocks_def)
qed

text \<open>
  C6. As long as the page allocator has a page to give, \<open>malloc\<close> of at most 4072 bytes terminates
  and returns a block that overlaps no block in use and differs from each in its address; the
  blocks in use are then the old ones and the new one.
\<close>

theorem malloc_fresh_block:
  assumes "live_blocks (st, pages) L" "unat n \<le> 4072" "\<exists>p\<in>set pages. p \<noteq> NULL"
  shows "\<exists>p pages' st'. malloc pages n st = Some (p, pages', st') \<and> p \<noteq> NULL \<and>
    live_blocks (st', pages') (insert (p, n) L) \<and>
    (\<forall>b\<in>L. fst b \<noteq> p \<and> block_bytes (p, n) \<inter> block_bytes b = {})"
proof -
  have "can_serve n (st, pages)" using assms(2,3) by (simp add: can_serve_def)
  from kh.alloc_fresh [OF assms(1) this] show ?thesis by (auto simp: kmalloc_def)
qed

theorem malloc_fresh_block_witness:
  "\<exists>p pages' st'. malloc [0x700000, 0x701000] 100 empty_heap = Some (p, pages', st') \<and>
     live_blocks (st', pages') {(p, 100)}"
  using malloc_fresh_block [OF empty_heap_live, of 100] by auto

text \<open>
  C20. A block that was allocated can be released: \<open>free\<close> terminates and the blocks in use are
  those from before the allocation.
\<close>

theorem malloc_free_restores:
  assumes "live_blocks (st, pages) L" "unat n \<le> 4072" "\<exists>p\<in>set pages. p \<noteq> NULL"
  shows "\<exists>pages' st'. malloc pages n st \<bind> (\<lambda>(p, pages', st1). map_option (\<lambda>st'. (pages', st')) (mfree p st1))
      = Some (pages', st') \<and> live_blocks (st', pages') L"
proof -
  have "can_serve n (st, pages)" using assms(2,3) by (simp add: can_serve_def)
  from kh.alloc_release [OF assms(1) this] show ?thesis
    by (auto simp: kmalloc_def kfree_def split: option.splits Option.bind_splits)
qed

theorem malloc_free_restores_witness:
  "\<exists>pages' st'. malloc [0x700000, 0x701000] 100 empty_heap \<bind>
      (\<lambda>(p, pages', st1). map_option (\<lambda>st'. (pages', st')) (mfree p st1)) = Some (pages', st') \<and>
     live_blocks (st', pages') {}"
  using malloc_free_restores [OF empty_heap_live, of 100] by simp

text \<open>
  C33. \<open>realloc\<close> compares the requested size with the size of the whole block, header included: a
  block of \<open>k\<close> bytes that is to grow by less than twelve bytes is returned unchanged, too small
  for the request.
\<close>

theorem realloc_grow_too_small:
  assumes "live_blocks (st, pages) L" "(p, k) \<in> L" "unat k < unat n" "unat n < unat k + 12"
  shows "realloc pages p n st = Some (p, pages, st)"
proof -
  from assms(1,2) obtain us a m where us: "heap_inv (st, pages) us" "(a, m) \<in> us" "p = a + HEADER" "k = m - HEADER"
    by (auto simp: live_blocks_def payload_def)
  have b: "block_ok (a, m)" "hsize (hdr st a) = m"
    using us(1,2) by (auto simp: heap_inv_def dest: heap_okD(3,4))
  have m: "unat m = unat k + 12" using payload_bytes(2) [OF b(1)] b(1) us(4) by (simp add: payload_def block_ok_def)
  then have "n < m" "n \<noteq> 0" "n \<le> m" using assms(3,4) by (auto simp: u32_less_iff u32_le_iff)
  moreover from this(3) have "m - n < HEADER"
    using m assms(3) by (simp add: u32_less_iff unat_minus_u32 HEADER_def)
  ultimately show ?thesis
    using us(3) b(2) by (simp add: realloc_def Let_def)
qed

text \<open>
  When \<open>realloc\<close> makes a block smaller, the heap stays well formed, but the block that remains
  has twelve bytes less than asked for: of a block of \<open>k\<close> bytes, \<open>n - 12\<close> are left to the caller
  who asked for \<open>n\<close>.
\<close>

theorem realloc_shrink_short:
  assumes "live_blocks (st, pages) L" "(p, k) \<in> L" "12 \<le> unat n" "unat n \<le> unat k"
  shows "\<exists>st'. realloc pages p n st = Some (p, pages, st') \<and>
    live_blocks (st', pages) (insert (p, n - HEADER) (L - {(p, k)}))"
proof -
  from assms(1,2) obtain us a m where us: "heap_inv (st, pages) us" "(a, m) \<in> us" "p = a + HEADER" "k = m - HEADER"
    "L = payload ` us"
    by (auto simp: live_blocks_def payload_def)
  have b: "block_ok (a, m)" "hsize (hdr st a) = m"
    using us(1,2) by (auto simp: heap_inv_def dest: heap_okD(3,4))
  have m: "unat m = unat k + 12" using payload_bytes(2) [OF b(1)] b(1) us(4) by (simp add: payload_def block_ok_def)
  then have le: "n \<le> m" "n < m" "n \<noteq> 0" using assms(3,4) by (auto simp: u32_less_iff u32_le_iff)
  then have "\<not> m - n < HEADER"
    using m assms(4) by (simp add: u32_less_iff unat_minus_u32 HEADER_def)
  moreover from shrink_ok [OF us(1,2) assms(3)] m assms(4) obtain st' where st':
    "malloc_insertlist (a + n) (set_size (a + n) (m - n) (set_flags (a + n) 0 st)) = Some st'"
    "heap_inv (set_size a n st', pages) (insert (a, n) (us - {(a, m)}))" by auto
  ultimately have "realloc pages p n st = Some (p, pages, set_size a n st')"
    using us(3) b(2) le by (simp add: realloc_def Let_def)
  moreover have "payload ` insert (a, n) (us - {(a, m)}) = insert (p, n - HEADER) (L - {(p, k)})"
  proof -
    have "inj_on payload us"
      using heap_inv_sep(3) [OF us(1)] by (intro inj_onI) (auto simp: payload_def)
    from inj_on_image_set_diff [OF this, of us "{(a, m)}"] us show ?thesis by (simp add: payload_def)
  qed
  ultimately show ?thesis using st'(2) unfolding live_blocks_def by metis
qed

text \<open>A heap with one block of 100 bytes, for the two witnesses.\<close>

definition demo_block :: "u32 \<times> u32 list \<times> mheap" where
  "demo_block = the (malloc [0x700000, 0x701000] 100 empty_heap)"

lemma demo_block_live: "live_blocks (snd (snd demo_block), fst (snd demo_block)) {(fst demo_block, 100)}"
  using kh.alloc_law [OF empty_heap_live, of 100]
  by (auto simp: demo_block_def kmalloc_def can_serve_def)

theorem realloc_grow_too_small_witness:
  "realloc (fst (snd demo_block)) (fst demo_block) 110 (snd (snd demo_block))
     = Some (fst demo_block, fst (snd demo_block), snd (snd demo_block))"
  using realloc_grow_too_small [OF demo_block_live, of "fst demo_block" 100 110] by simp

theorem realloc_shrink_short_witness:
  "\<exists>st'. realloc (fst (snd demo_block)) (fst demo_block) 50 (snd (snd demo_block))
       = Some (fst demo_block, fst (snd demo_block), st') \<and>
     live_blocks (st', fst (snd demo_block)) {(fst demo_block, 38)}"
  using realloc_shrink_short [OF demo_block_live, of "fst demo_block" 100 50] by (simp add: HEADER_def)

end
