(* ===== verification/PageFormat.thy ===== *)
theory PageFormat
  imports Prelude
begin

text \<open>
  The page arithmetic and the hardware formats of \<open>kernel2/include/paging.h\<close> and the
  memory map of \<open>kernel2/include/memmap.h\<close>: address macros, page directory and page table
  entries as records with the fields of the C bit-fields, and their 32-bit encodings.
\<close>

unbundle bit_operations_syntax

section \<open>Address arithmetic\<close>

definition PAGE_SIZE :: u32 where "PAGE_SIZE = 4096"

definition PAGE2ADDR :: "u32 \<Rightarrow> u32" where "PAGE2ADDR page = page * PAGE_SIZE"
definition ADDR2PAGE :: "u32 \<Rightarrow> u32" where "ADDR2PAGE addr = addr div PAGE_SIZE"
definition ADDR2PDE :: "u32 \<Rightarrow> u32" where "ADDR2PDE addr = ADDR2PAGE addr div 1024"
definition ADDR2PTE :: "u32 \<Rightarrow> u32" where "ADDR2PTE addr = ADDR2PAGE addr mod 1024"
definition PAGEDOWN :: "u32 \<Rightarrow> u32" where "PAGEDOWN addr = (addr div PAGE_SIZE) * PAGE_SIZE"
definition PAGEUP :: "u32 \<Rightarrow> u32" where "PAGEUP addr = ((addr - 1) div PAGE_SIZE + 1) * PAGE_SIZE"
definition PAGEOFF :: "u32 \<Rightarrow> u32" where "PAGEOFF addr = addr mod PAGE_SIZE"

lemmas page_macros = PAGE2ADDR_def ADDR2PAGE_def ADDR2PDE_def ADDR2PTE_def PAGEDOWN_def
  PAGEUP_def PAGEOFF_def PAGE_SIZE_def

section \<open>The memory map\<close>

definition KBYTES :: u32 where "KBYTES = 1024"
definition MBYTES :: u32 where "MBYTES = 1048576"
definition GBYTES :: u32 where "GBYTES = 1073741824"

definition IVT_ADDRESS :: u32 where "IVT_ADDRESS = 0x00000"
definition IVT_SIZE :: u32 where "IVT_SIZE = 0x00200"
definition BIOSCODE_ADDRESS :: u32 where "BIOSCODE_ADDRESS = 0xC0000"
definition BIOSCODE_SIZE :: u32 where "BIOSCODE_SIZE = 0x40000"
definition BIOSDATA_ADDRESS :: u32 where "BIOSDATA_ADDRESS = 0"
definition BIOSDATA_SIZE :: u32 where "BIOSDATA_SIZE = 1 * MBYTES"
definition KERNELCODE_ADDRESS :: u32 where "KERNELCODE_ADDRESS = BIOSDATA_ADDRESS + BIOSDATA_SIZE"
definition KERNELCODE_SIZE :: u32 where "KERNELCODE_SIZE = 2 * MBYTES"
definition STACKDATA_ADDRESS :: u32 where "STACKDATA_ADDRESS = KERNELCODE_ADDRESS + KERNELCODE_SIZE"
definition STACKDATA_SIZE :: u32 where "STACKDATA_SIZE = 4 * MBYTES"
definition KERNELDATA_ADDRESS :: u32 where "KERNELDATA_ADDRESS = STACKDATA_ADDRESS + STACKDATA_SIZE"
definition KERNELDATA_SIZE :: u32 where "KERNELDATA_SIZE = 1 * GBYTES - KERNELDATA_ADDRESS"
definition USERDATA_ADDRESS :: u32 where "USERDATA_ADDRESS = 1 * GBYTES"
definition USERDATA_SIZE :: u32 where "USERDATA_SIZE = 3068 * MBYTES - 4 * KBYTES"
definition KERNELPD_ADDRESS :: u32 where "KERNELPD_ADDRESS = PAGEUP (KERNELCODE_ADDRESS + KERNELCODE_SIZE)"
definition KERNELPD_SIZE :: u32 where "KERNELPD_SIZE = 3 * PAGE_SIZE"
definition FREEPHYS_ADDRESS :: u32 where "FREEPHYS_ADDRESS = KERNELPD_ADDRESS + KERNELPD_SIZE"
definition BUFPAGE_ADDRESS :: u32 where "BUFPAGE_ADDRESS = 4092 * MBYTES - 4 * KBYTES"
definition USERSTACK_END :: u32 where "USERSTACK_END = BUFPAGE_ADDRESS"
definition USERSTACK_MAXSIZE :: u32 where "USERSTACK_MAXSIZE = 1024 * PAGE_SIZE"
definition PAGETABLES_ADDRESS :: u32 where "PAGETABLES_ADDRESS = 4092 * MBYTES"
definition PAGEDIR_ADDRESS :: u32 where "PAGEDIR_ADDRESS = 4 * GBYTES - 4 * KBYTES"

lemmas memmap_defs = KBYTES_def MBYTES_def GBYTES_def IVT_ADDRESS_def IVT_SIZE_def
  BIOSCODE_ADDRESS_def BIOSCODE_SIZE_def BIOSDATA_ADDRESS_def BIOSDATA_SIZE_def
  KERNELCODE_ADDRESS_def KERNELCODE_SIZE_def STACKDATA_ADDRESS_def STACKDATA_SIZE_def
  KERNELDATA_ADDRESS_def KERNELDATA_SIZE_def USERDATA_ADDRESS_def USERDATA_SIZE_def
  KERNELPD_ADDRESS_def KERNELPD_SIZE_def FREEPHYS_ADDRESS_def BUFPAGE_ADDRESS_def
  USERSTACK_END_def USERSTACK_MAXSIZE_def PAGETABLES_ADDRESS_def PAGEDIR_ADDRESS_def
  PAGE_SIZE_def PAGEUP_def

lemma memmap_values:
  "KERNELPD_ADDRESS = 0x300000" "FREEPHYS_ADDRESS = 0x303000" "STACKDATA_ADDRESS = 0x300000"
  "KERNELDATA_ADDRESS = 0x700000" "KERNELDATA_ADDRESS + KERNELDATA_SIZE = 0x40000000"
  "USERDATA_ADDRESS = 0x40000000" "USERDATA_ADDRESS + USERDATA_SIZE = BUFPAGE_ADDRESS"
  "BUFPAGE_ADDRESS = 0xFFBFF000" "PAGETABLES_ADDRESS = 0xFFC00000" "PAGEDIR_ADDRESS = 0xFFFFF000"
  by (simp_all add: memmap_defs)

section \<open>Page directory and page table entries\<close>

record pde =
  pde_exists :: bool
  pde_writable :: bool
  pde_user :: bool
  pde_write_though :: bool
  pde_cache_disabled :: bool
  pde_accessed :: bool
  pde_zero :: bool
  pde_pagesize :: bool
  pde_unused :: "4 word"
  pde_page :: "20 word"

record pte =
  in_memory :: bool
  writable :: bool
  user :: bool
  write_though :: bool
  cache_disabled :: bool
  accessed :: bool
  dirty :: bool
  cow :: bool
  global :: bool
  exists :: bool
  swappable :: bool
  swapped :: bool
  page :: "20 word"

definition zero_pde :: pde where
  "zero_pde = \<lparr>pde_exists = False, pde_writable = False, pde_user = False, pde_write_though = False,
     pde_cache_disabled = False, pde_accessed = False, pde_zero = False, pde_pagesize = False,
     pde_unused = 0, pde_page = 0\<rparr>"

definition zero_pte :: pte where
  "zero_pte = \<lparr>in_memory = False, writable = False, user = False, write_though = False,
     cache_disabled = False, accessed = False, dirty = False, cow = False, global = False,
     exists = False, swappable = False, swapped = False, page = 0\<rparr>"

definition flag :: "nat \<Rightarrow> bool \<Rightarrow> u32" where
  "flag n b = (if b then push_bit n 1 else 0)"

definition pde_enc :: "pde \<Rightarrow> u32" where
  "pde_enc e =
     flag 0 (pde_exists e) OR flag 1 (pde_writable e) OR flag 2 (pde_user e) OR
     flag 3 (pde_write_though e) OR flag 4 (pde_cache_disabled e) OR flag 5 (pde_accessed e) OR
     flag 6 (pde_zero e) OR flag 7 (pde_pagesize e) OR push_bit 8 (ucast (pde_unused e)) OR
     push_bit 12 (ucast (pde_page e))"

definition pde_dec :: "u32 \<Rightarrow> pde" where
  "pde_dec w = \<lparr>pde_exists = bit w 0, pde_writable = bit w 1, pde_user = bit w 2,
     pde_write_though = bit w 3, pde_cache_disabled = bit w 4, pde_accessed = bit w 5,
     pde_zero = bit w 6, pde_pagesize = bit w 7, pde_unused = ucast (drop_bit 8 w),
     pde_page = ucast (drop_bit 12 w)\<rparr>"

definition pte_enc :: "pte \<Rightarrow> u32" where
  "pte_enc e =
     flag 0 (in_memory e) OR flag 1 (writable e) OR flag 2 (user e) OR flag 3 (write_though e) OR
     flag 4 (cache_disabled e) OR flag 5 (accessed e) OR flag 6 (dirty e) OR flag 7 (cow e) OR
     flag 8 (global e) OR flag 9 (exists e) OR flag 10 (swappable e) OR flag 11 (swapped e) OR
     push_bit 12 (ucast (page e))"

definition pte_dec :: "u32 \<Rightarrow> pte" where
  "pte_dec w = \<lparr>in_memory = bit w 0, writable = bit w 1, user = bit w 2, write_though = bit w 3,
     cache_disabled = bit w 4, accessed = bit w 5, dirty = bit w 6, cow = bit w 7,
     global = bit w 8, exists = bit w 9, swappable = bit w 10, swapped = bit w 11,
     page = ucast (drop_bit 12 w)\<rparr>"

lemma bit_flag: "bit (flag n b) k \<longleftrightarrow> b \<and> k = n \<and> k < 32"
  by (auto simp: flag_def bit_simps)

lemma bit_pte_enc:
  "bit (pte_enc e) k \<longleftrightarrow>
     (if 12 \<le> k then bit (page e) (k - 12)
      else [in_memory e, writable e, user e, write_though e, cache_disabled e, accessed e, dirty e,
            cow e, global e, exists e, swappable e, swapped e] ! k)"
proof (cases "12 \<le> k")
  case True
  then show ?thesis
    by (auto simp: pte_enc_def bit_simps bit_flag dest: bit_imp_le_length)
next
  case False
  then have "k = 0 \<or> k = 1 \<or> k = 2 \<or> k = 3 \<or> k = 4 \<or> k = 5 \<or> k = 6 \<or> k = 7 \<or> k = 8 \<or> k = 9 \<or>
      k = 10 \<or> k = 11" by arith
  then show ?thesis
    by (elim disjE) (simp_all add: pte_enc_def bit_simps bit_flag)
qed

lemma bit_pde_enc:
  "bit (pde_enc e) k \<longleftrightarrow>
     (if 12 \<le> k then bit (pde_page e) (k - 12)
      else if 8 \<le> k then bit (pde_unused e) (k - 8)
      else [pde_exists e, pde_writable e, pde_user e, pde_write_though e, pde_cache_disabled e,
            pde_accessed e, pde_zero e, pde_pagesize e] ! k)"
proof (cases "8 \<le> k")
  case True
  then show ?thesis
    by (auto simp: pde_enc_def bit_simps bit_flag dest: bit_imp_le_length)
next
  case False
  then have "k = 0 \<or> k = 1 \<or> k = 2 \<or> k = 3 \<or> k = 4 \<or> k = 5 \<or> k = 6 \<or> k = 7" by arith
  then show ?thesis
    by (elim disjE) (simp_all add: pde_enc_def bit_simps bit_flag)
qed

lemma pte_dec_enc [simp]: "pte_dec (pte_enc e) = e"
proof -
  have "ucast (drop_bit 12 (pte_enc e)) = page e"
    by (rule bit_word_eqI) (simp add: bit_simps bit_pte_enc)
  then show ?thesis
    by (simp add: pte_dec_def bit_pte_enc)
qed

lemma pde_dec_enc [simp]: "pde_dec (pde_enc e) = e"
proof -
  have "ucast (drop_bit 12 (pde_enc e)) = pde_page e" "ucast (drop_bit 8 (pde_enc e)) = pde_unused e"
    by (rule bit_word_eqI; simp add: bit_simps bit_pde_enc)+
  then show ?thesis
    by (simp add: pde_dec_def bit_pde_enc)
qed

lemma pte_enc_dec [simp]: "pte_enc (pte_dec w) = w"
proof (rule bit_word_eqI)
  fix k :: nat
  assume "k < LENGTH(32)"
  then have "12 \<le> k \<or> k = 0 \<or> k = 1 \<or> k = 2 \<or> k = 3 \<or> k = 4 \<or> k = 5 \<or> k = 6 \<or> k = 7 \<or> k = 8 \<or>
      k = 9 \<or> k = 10 \<or> k = 11" by arith
  with \<open>k < LENGTH(32)\<close> show "bit (pte_enc (pte_dec w)) k = bit w k"
    by (elim disjE) (auto simp: bit_pte_enc pte_dec_def bit_simps)
qed

lemma pde_enc_dec [simp]: "pde_enc (pde_dec w) = w"
proof (rule bit_word_eqI)
  fix k :: nat
  assume "k < LENGTH(32)"
  then have "12 \<le> k \<or> (8 \<le> k \<and> k < 12) \<or> k = 0 \<or> k = 1 \<or> k = 2 \<or> k = 3 \<or> k = 4 \<or> k = 5 \<or> k = 6 \<or> k = 7"
    by arith
  with \<open>k < LENGTH(32)\<close> show "bit (pde_enc (pde_dec w)) k = bit w k"
    by (elim disjE) (auto simp: bit_pde_enc pde_dec_def bit_simps)
qed

lemma pte_enc_inj: "pte_enc a = pte_enc b \<longleftrightarrow> a = b"
  by (metis pte_dec_enc)

lemma pte_dec_zero: "pte_dec 0 = zero_pte"
  by (simp add: pte_dec_def zero_pte_def)

lemma pde_dec_zero: "pde_dec 0 = zero_pde"
  by (simp add: pde_dec_def zero_pde_def)

section \<open>Facts on the page arithmetic\<close>

lemma unat_PAGE_SIZE [simp]: "unat PAGE_SIZE = 4096"
  by (simp add: PAGE_SIZE_def)

lemma unat_macros:
  "unat (ADDR2PAGE a) = unat a div 4096"
  "unat (ADDR2PDE a) = unat a div 4194304"
  "unat (ADDR2PTE a) = (unat a div 4096) mod 1024"
  "unat (PAGEOFF a) = unat a mod 4096"
  "unat (PAGEDOWN a) = unat a div 4096 * 4096"
proof -
  show page: "unat (ADDR2PAGE a) = unat a div 4096"
    by (simp add: ADDR2PAGE_def unat_div)
  show "unat (ADDR2PDE a) = unat a div 4194304"
    by (simp add: ADDR2PDE_def unat_div page div_mult2_eq [symmetric])
  show "unat (ADDR2PTE a) = (unat a div 4096) mod 1024"
    by (simp add: ADDR2PTE_def unat_mod page)
  show "unat (PAGEOFF a) = unat a mod 4096"
    by (simp add: PAGEOFF_def unat_mod)
  have "unat a div 4096 * 4096 < 2 ^ 32"
    by (simp add: less_mult_imp_div_less)
  then show "unat (PAGEDOWN a) = unat a div 4096 * 4096"
    by (simp add: PAGEDOWN_def unat_word_ariths unat_div)
qed

lemma ADDR2PDE_lt: "unat (ADDR2PDE a) < 1024"
  by (simp add: unat_macros less_mult_imp_div_less)

lemma ADDR2PTE_lt: "unat (ADDR2PTE a) < 1024"
  by (simp add: unat_macros)

lemma PAGEOFF_lt: "unat (PAGEOFF a) < 4096"
  by (simp add: unat_macros)

text \<open>A page number of an entry, read back as an address.\<close>

lemma unat_PAGE2ADDR_ucast: "unat (PAGE2ADDR (ucast (p :: 20 word))) = unat p * 4096"
proof -
  have "unat p < 2 ^ 20" using unsigned_less [of p] by simp
  then show ?thesis
    by (simp add: PAGE2ADDR_def unat_word_ariths unsigned_ucast_eq take_bit_nat_eq_self)
qed

lemma PAGE2ADDR_ADDR2PAGE:
  "PAGE2ADDR (ucast (ucast (ADDR2PAGE a) :: 20 word)) = PAGEDOWN a"
proof (rule word_unat_eq_iff [THEN iffD2])
  have "unat a div 4096 < 2 ^ 20" by (simp add: less_mult_imp_div_less)
  then show "unat (PAGE2ADDR (ucast (ucast (ADDR2PAGE a) :: 20 word))) = unat (PAGEDOWN a)"
    by (simp only: unat_PAGE2ADDR_ucast unat_macros)
       (simp add: unsigned_ucast_eq take_bit_nat_eq_self unat_macros)
qed

lemma PAGEDOWN_PAGEOFF: "PAGEDOWN a + PAGEOFF a = a"
  by (simp add: PAGEDOWN_def PAGEOFF_def div_mult_mod_eq)

end
