(* ===== verification/PhysMem.thy ===== *)
theory PhysMem
  imports PageFormat
begin

text \<open>
  Physical memory as bytes, the address translation of the i386 memory management unit, and
  the part of the kernel state that \<open>kernel2/paging.c\<close> and \<open>kernel2/memphys.c\<close> keep in
  global variables.

  The kernel runs in ring 0 with write protection of supervisor accesses off, so a kernel
  access needs the present bits only (bit 0 of the directory entry, \<open>exists\<close>, and bit 0 of
  the table entry, \<open>in_memory\<close>). Translation is taken from memory on every access: the
  translation lookaside buffer is not modelled.
\<close>

unbundle bit_operations_syntax

section \<open>Bytes and double words\<close>

type_synonym pmem = "u32 \<Rightarrow> u8"

definition byte_of :: "nat \<Rightarrow> u32 \<Rightarrow> u8" where
  "byte_of k v = ucast (drop_bit (8 * k) v)"

definition join32 :: "u8 \<Rightarrow> u8 \<Rightarrow> u8 \<Rightarrow> u8 \<Rightarrow> u32" where
  "join32 a b c d = ucast a OR push_bit 8 (ucast b) OR push_bit 16 (ucast c) OR push_bit 24 (ucast d)"

definition rd32 :: "pmem \<Rightarrow> u32 \<Rightarrow> u32" where
  "rd32 m a = join32 (m a) (m (a + 1)) (m (a + 2)) (m (a + 3))"

definition wr32 :: "pmem \<Rightarrow> u32 \<Rightarrow> u32 \<Rightarrow> pmem" where
  "wr32 m a v = m(a := byte_of 0 v, a + 1 := byte_of 1 v, a + 2 := byte_of 2 v, a + 3 := byte_of 3 v)"

lemma bit_join32:
  "bit (join32 a b c d) k \<longleftrightarrow>
     (if k < 8 then bit a k else if k < 16 then bit b (k - 8) else if k < 24 then bit c (k - 16)
      else bit d (k - 24))"
  by (auto simp: join32_def bit_simps dest: bit_imp_le_length)

lemma join32_bytes [simp]: "join32 (byte_of 0 v) (byte_of 1 v) (byte_of 2 v) (byte_of 3 v) = v"
  by (rule bit_word_eqI) (auto simp: bit_join32 byte_of_def bit_simps)

lemmas join32_bytes_Suc [simp] = join32_bytes [unfolded One_nat_def]

lemma byte_of_join32 [simp]:
  "byte_of 0 (join32 a b c d) = a" "byte_of 1 (join32 a b c d) = b"
  "byte_of 2 (join32 a b c d) = c" "byte_of 3 (join32 a b c d) = d"
  by (rule bit_word_eqI; simp add: byte_of_def bit_join32 bit_simps)+

definition aligned4 :: "u32 \<Rightarrow> bool" where
  "aligned4 a \<longleftrightarrow> unat a mod 4 = 0"

lemma unat_aligned4_add:
  assumes "aligned4 a" "k < 4"
  shows "unat (a + of_nat k) = unat a + k"
proof -
  have "unat a \<le> 4294967292"
    using assms(1) unat_u32_lt [of a] unfolding aligned4_def by presburger
  with assms(2) have "unat a + unat (of_nat k :: u32) < 2 ^ 32" by simp
  with assms(2) show ?thesis by (simp add: unat_plus_u32)
qed

lemma aligned4_add_eq:
  assumes "aligned4 a" "aligned4 b" "k < 4" "j < 4"
  shows "a + of_nat k = b + of_nat j \<longleftrightarrow> a = b \<and> k = j"
proof
  assume "a + of_nat k = b + of_nat j"
  then have eq: "unat a + k = unat b + j"
    using unat_aligned4_add assms by metis
  then have "unat a = unat b"
    using assms unfolding aligned4_def by presburger
  with eq show "a = b \<and> k = j" by (simp add: word_unat_eq_iff)
qed auto

lemmas aligned4_neq =
  aligned4_add_eq [of _ _ 0 0, simplified] aligned4_add_eq [of _ _ 0 1, simplified]
  aligned4_add_eq [of _ _ 0 2, simplified] aligned4_add_eq [of _ _ 0 3, simplified]
  aligned4_add_eq [of _ _ 1 0, simplified] aligned4_add_eq [of _ _ 1 1, simplified]
  aligned4_add_eq [of _ _ 1 2, simplified] aligned4_add_eq [of _ _ 1 3, simplified]
  aligned4_add_eq [of _ _ 2 0, simplified] aligned4_add_eq [of _ _ 2 1, simplified]
  aligned4_add_eq [of _ _ 2 2, simplified] aligned4_add_eq [of _ _ 2 3, simplified]
  aligned4_add_eq [of _ _ 3 0, simplified] aligned4_add_eq [of _ _ 3 1, simplified]
  aligned4_add_eq [of _ _ 3 2, simplified] aligned4_add_eq [of _ _ 3 3, simplified]

lemma rd32_wr32 [simp]: "rd32 (wr32 m a v) a = v"
  by (simp add: rd32_def wr32_def)

lemma rd32_wr32_other:
  assumes "aligned4 a" "aligned4 b" "a \<noteq> b"
  shows "rd32 (wr32 m a v) b = rd32 m b"
  using assms by (simp add: rd32_def wr32_def aligned4_neq)

lemma rd32_cong:
  assumes "\<And>k. k < 4 \<Longrightarrow> m' (a + of_nat k) = m (a + of_nat k)"
  shows "rd32 m' a = rd32 m a"
  using assms [of 0] assms [of 1] assms [of 2] assms [of 3] by (simp add: rd32_def)

section \<open>The state of the memory managers\<close>

record mem =
  phys :: pmem
  cr3 :: u32
  paging_enabled :: bool
  paging_curpd :: u32
  paging_kernelpd :: u32
  paging_physrw_lastpage :: u32
  paging_physrw_lastpd :: u32
  memphys_memory :: u32
  memphys_stackbase :: u32
  memphys_stackend :: u32
  memphys_stackptr :: u32
  memphys_dma_bitmap :: "u32 \<Rightarrow> u32"
  memphys_dma_bitmap_size :: u32
  multiboot_info :: u32

section \<open>Address translation\<close>

definition pde_at :: "pmem \<Rightarrow> u32 \<Rightarrow> u32 \<Rightarrow> pde" where
  "pde_at m pd i = pde_dec (rd32 m (pd + 4 * i))"

definition pte_at :: "pmem \<Rightarrow> u32 \<Rightarrow> u32 \<Rightarrow> pte" where
  "pte_at m pt i = pte_dec (rd32 m (pt + 4 * i))"

definition frame_of_pde :: "pde \<Rightarrow> u32" where
  "frame_of_pde e = PAGE2ADDR (ucast (pde_page e))"

definition frame_of_pte :: "pte \<Rightarrow> u32" where
  "frame_of_pte e = PAGE2ADDR (ucast (page e))"

text \<open>The page walk: the entry that governs the page of \<open>v\<close>, if its table exists.\<close>

definition walk :: "pmem \<Rightarrow> u32 \<Rightarrow> u32 \<Rightarrow> pte option" where
  "walk m pd v =
     (let e = pde_at m pd (ADDR2PDE v)
      in if pde_exists e then Some (pte_at m (frame_of_pde e) (ADDR2PTE v)) else None)"

definition xlate :: "pmem \<Rightarrow> u32 \<Rightarrow> u32 \<Rightarrow> u32 option" where
  "xlate m pd v =
     (case walk m pd v of None \<Rightarrow> None
      | Some t \<Rightarrow> if in_memory t then Some (frame_of_pte t + PAGEOFF v) else None)"

definition vaddr :: "'a mem_scheme \<Rightarrow> u32 \<Rightarrow> u32 option" where
  "vaddr s v = (if paging_enabled s then xlate (phys s) (PAGEDOWN (cr3 s)) v else Some v)"

section \<open>Kernel loads and stores\<close>

definition load8 :: "u32 \<Rightarrow> 'a mem_scheme \<Rightarrow> (u8, 'a mem_scheme) res" where
  "load8 v s = (case vaddr s v of None \<Rightarrow> Stop (Fault v) s | Some p \<Rightarrow> Ret (phys s p) s)"

definition store8 :: "u32 \<Rightarrow> u8 \<Rightarrow> 'a mem_scheme \<Rightarrow> (unit, 'a mem_scheme) res" where
  "store8 v x s =
     (case vaddr s v of None \<Rightarrow> Stop (Fault v) s | Some p \<Rightarrow> Ret () (s\<lparr>phys := (phys s)(p := x)\<rparr>))"

definition load32 :: "u32 \<Rightarrow> 'a mem_scheme \<Rightarrow> (u32, 'a mem_scheme) res" where
  "load32 v s =
     (case (vaddr s v, vaddr s (v + 1), vaddr s (v + 2), vaddr s (v + 3)) of
        (Some p, Some q, Some r, Some t) \<Rightarrow> Ret (join32 (phys s p) (phys s q) (phys s r) (phys s t)) s
      | _ \<Rightarrow> Stop (Fault v) s)"

definition store32 :: "u32 \<Rightarrow> u32 \<Rightarrow> 'a mem_scheme \<Rightarrow> (unit, 'a mem_scheme) res" where
  "store32 v x s =
     (case (vaddr s v, vaddr s (v + 1), vaddr s (v + 2), vaddr s (v + 3)) of
        (Some p, Some q, Some r, Some t) \<Rightarrow>
          Ret () (s\<lparr>phys := (phys s)(p := byte_of 0 x, q := byte_of 1 x, r := byte_of 2 x, t := byte_of 3 x)\<rparr>)
      | _ \<Rightarrow> Stop (Fault v) s)"

text \<open>\<open>memset\<close> on virtual memory: one byte store per iteration.\<close>

fun memset_v :: "nat \<Rightarrow> u32 \<Rightarrow> u8 \<Rightarrow> 'a mem_scheme \<Rightarrow> (unit, 'a mem_scheme) res" where
  "memset_v 0 v x s = Ret () s"
| "memset_v (Suc n) v x s = bindr (store8 v x s) (\<lambda>_. memset_v n (v + 1) x)"

text \<open>Reading and writing a run of bytes, as \<open>memcpy\<close> from or to kernel memory does.\<close>

fun load_bytes :: "nat \<Rightarrow> u32 \<Rightarrow> 'a mem_scheme \<Rightarrow> (u8 list, 'a mem_scheme) res" where
  "load_bytes 0 v s = Ret [] s"
| "load_bytes (Suc n) v s =
     bindr (load8 v s) (\<lambda>b s. bindr (load_bytes n (v + 1) s) (\<lambda>bs s. Ret (b # bs) s))"

fun store_bytes :: "u8 list \<Rightarrow> u32 \<Rightarrow> 'a mem_scheme \<Rightarrow> (unit, 'a mem_scheme) res" where
  "store_bytes [] v s = Ret () s"
| "store_bytes (b # bs) v s = bindr (store8 v b s) (\<lambda>_. store_bytes bs (v + 1))"

section \<open>Aligned accesses stay within a page\<close>

lemma aligned4_page:
  assumes "aligned4 v" "k < 4"
  shows "ADDR2PAGE (v + of_nat k) = ADDR2PAGE v" "PAGEOFF (v + of_nat k) = PAGEOFF v + of_nat k"
proof -
  have eq: "unat (v + of_nat k) = unat v + k" by (rule unat_aligned4_add [OF assms])
  have "(unat v + k) div 4 = unat v div 4"
    using assms unfolding aligned4_def by presburger
  then have "(unat v + k) div 4 div 1024 = unat v div 4 div 1024" by simp
  then have d: "(unat v + k) div 4096 = unat v div 4096" by (simp add: div_mult2_eq [symmetric])
  then have "(unat v + k) mod 4096 = unat v mod 4096 + k"
    using div_mult_mod_eq [of "unat v + k" 4096] div_mult_mod_eq [of "unat v" 4096] by linarith
  with d have "(unat v + k) div 4096 = unat v div 4096" "(unat v + k) mod 4096 = unat v mod 4096 + k"
    by auto
  then show "ADDR2PAGE (v + of_nat k) = ADDR2PAGE v" "PAGEOFF (v + of_nat k) = PAGEOFF v + of_nat k"
    using assms(2) by (simp_all add: word_unat_eq_iff unat_macros eq unat_plus_u32)
qed

lemma page_parts_cong:
  assumes "ADDR2PAGE v = ADDR2PAGE w"
  shows "ADDR2PDE v = ADDR2PDE w \<and> ADDR2PTE v = ADDR2PTE w"
proof -
  have eq: "unat v div 4096 = unat w div 4096"
    using assms by (simp add: word_unat_eq_iff unat_macros)
  have "unat v div 4096 div 1024 = unat w div 4096 div 1024" by (simp only: eq)
  then have "unat v div 4194304 = unat w div 4194304" by (simp add: div_mult2_eq [symmetric])
  with eq show ?thesis by (simp add: word_unat_eq_iff unat_macros)
qed

lemma walk_page_cong: "ADDR2PAGE v = ADDR2PAGE w \<Longrightarrow> walk m pd v = walk m pd w"
  using page_parts_cong [of v w] by (simp add: walk_def Let_def)

lemma vaddr_aligned_add:
  assumes "aligned4 v" "k < 4"
  shows "vaddr s (v + of_nat k) = map_option (\<lambda>p. p + of_nat k) (vaddr s v)"
  using aligned4_page [OF assms] walk_page_cong [OF aligned4_page(1) [OF assms]]
  by (simp add: vaddr_def xlate_def add.assoc split: option.splits)

lemma load32_aligned:
  assumes "aligned4 v"
  shows "load32 v s = (case vaddr s v of None \<Rightarrow> Stop (Fault v) s | Some p \<Rightarrow> Ret (rd32 (phys s) p) s)"
  using vaddr_aligned_add [OF assms, of 1 s] vaddr_aligned_add [OF assms, of 2 s]
    vaddr_aligned_add [OF assms, of 3 s]
  by (cases "vaddr s v") (simp_all add: load32_def rd32_def)

lemma store32_aligned:
  assumes "aligned4 v"
  shows "store32 v x s =
    (case vaddr s v of None \<Rightarrow> Stop (Fault v) s | Some p \<Rightarrow> Ret () (s\<lparr>phys := wr32 (phys s) p x\<rparr>))"
  using vaddr_aligned_add [OF assms, of 1 s] vaddr_aligned_add [OF assms, of 2 s]
    vaddr_aligned_add [OF assms, of 3 s]
  by (cases "vaddr s v") (simp_all add: store32_def wr32_def)

end
