(* ===== verification/PageWalk.thy ===== *)
theory PageWalk
  imports PhysMem
begin

text \<open>
  Page tables in byte memory, independent of the code that edits them: when a page directory
  with a recursive last entry is well formed, what its window at \<open>PAGETABLES_ADDRESS\<close> shows,
  and how the walk changes when one table entry is written or a zeroed table is added.
\<close>

section \<open>Frames and slots\<close>

definition page_aligned :: "u32 \<Rightarrow> bool" where
  "page_aligned a \<longleftrightarrow> unat a mod 4096 = 0"

lemma page_aligned_frames [simp]: "page_aligned (frame_of_pde e)" "page_aligned (frame_of_pte t)"
  by (simp_all add: page_aligned_def frame_of_pde_def frame_of_pte_def unat_PAGE2ADDR_ucast)

lemma page_aligned_PAGEDOWN [simp]: "page_aligned (PAGEDOWN a)"
  by (simp add: page_aligned_def unat_macros)

lemma PAGEDOWN_aligned [simp]: "page_aligned a \<Longrightarrow> PAGEDOWN a = a"
  by (simp add: page_aligned_def word_unat_eq_iff unat_macros) (metis mod_0_imp_dvd dvd_div_mult_self)

lemma page_alignedE:
  assumes "page_aligned f"
  obtains q where "unat f = 4096 * q" "q < 1048576"
proof -
  obtain q where q: "unat f = 4096 * q" using assms by (auto simp: page_aligned_def)
  with unat_u32_lt [of f] have "q < 1048576" by linarith
  with q show ?thesis by (rule that)
qed

lemma page_aligned_max: "page_aligned f \<Longrightarrow> unat f \<le> 4294963200"
  by (erule page_alignedE) simp

lemma unat_page_add:
  assumes "page_aligned f" "unat off < 4096"
  shows "unat (f + off) = unat f + unat off"
  using page_aligned_max [OF assms(1)] assms(2) by (simp add: unat_plus_u32)

lemma page_add_parts:
  assumes "page_aligned f" "unat off < 4096"
  shows "ADDR2PAGE (f + off) = ADDR2PAGE f" "PAGEOFF (f + off) = off"
proof -
  from assms(1) obtain q where "unat f = 4096 * q" by (rule page_alignedE)
  then show "ADDR2PAGE (f + off) = ADDR2PAGE f" "PAGEOFF (f + off) = off"
    using unat_page_add [OF assms] assms(2) by (simp_all add: word_unat_eq_iff unat_macros)
qed

lemma ADDR2PAGE_inj:
  assumes "page_aligned f" "page_aligned g" "ADDR2PAGE f = ADDR2PAGE g"
  shows "f = g"
  using assms PAGEDOWN_aligned by (metis ADDR2PAGE_def PAGEDOWN_def)

lemma unat_4_times: "unat i < 1024 \<Longrightarrow> unat (4 * i :: u32) = 4 * unat i"
  by (simp add: unat_word_ariths)

lemma unat_slot: "page_aligned f \<Longrightarrow> unat i < 1024 \<Longrightarrow> unat (f + 4 * i) = unat f + 4 * unat i"
  using unat_page_add [of f "4 * i"] by (simp add: unat_4_times)

lemma slot_aligned4: "page_aligned f \<Longrightarrow> unat i < 1024 \<Longrightarrow> aligned4 (f + 4 * i)"
  by (erule page_alignedE) (simp add: aligned4_def unat_slot page_aligned_def flip: distrib_left_numeral)

lemma slot_page:
  assumes "page_aligned f" "unat i < 1024" "k < 4"
  shows "ADDR2PAGE (f + 4 * i + of_nat k) = ADDR2PAGE f"
  using aligned4_page(1) [OF slot_aligned4 [OF assms(1,2)] assms(3)]
    page_add_parts(1) [OF assms(1), of "4 * i"] assms(2) by (simp add: unat_4_times)

lemma slot_eq:
  assumes "page_aligned f" "page_aligned g" "unat i < 1024" "unat j < 1024"
  shows "f + 4 * i = g + 4 * j \<longleftrightarrow> f = g \<and> i = j"
proof
  assume eq: "f + 4 * i = g + 4 * j"
  have "ADDR2PAGE f = ADDR2PAGE g"
    using slot_page [OF assms(1,3), of 0] slot_page [OF assms(2,4), of 0] eq by simp
  then have "f = g" by (rule ADDR2PAGE_inj [OF assms(1,2)])
  moreover have "4 * unat i = 4 * unat j"
    using arg_cong [OF eq, of unat] unat_slot assms \<open>f = g\<close> by simp
  ultimately show "f = g \<and> i = j" by (simp add: word_unat_eq_iff)
qed simp

lemma page_eq_iff: "ADDR2PAGE v = ADDR2PAGE w \<longleftrightarrow> ADDR2PDE v = ADDR2PDE w \<and> ADDR2PTE v = ADDR2PTE w"
  by (metis ADDR2PDE_def ADDR2PTE_def div_mult_mod_eq)

text \<open>A table entry is read as a directory entry when the walk goes through the window.\<close>

lemma pte_dec_as_pde:
  "in_memory (pte_dec w) = pde_exists (pde_dec w)" "frame_of_pte (pte_dec w) = frame_of_pde (pde_dec w)"
  by (simp_all add: pte_dec_def pde_dec_def frame_of_pte_def frame_of_pde_def)

section \<open>Well-formed directories\<close>

definition table_exists :: "pmem \<Rightarrow> u32 \<Rightarrow> u32 \<Rightarrow> bool" where
  "table_exists m pd i \<longleftrightarrow> pde_exists (pde_at m pd i)"

definition table_frame :: "pmem \<Rightarrow> u32 \<Rightarrow> u32 \<Rightarrow> u32" where
  "table_frame m pd i = frame_of_pde (pde_at m pd i)"

text \<open>
  The directory lies on a page border, its last entry points at itself, and no two existing
  entries share a frame.
\<close>

definition pd_ok :: "pmem \<Rightarrow> u32 \<Rightarrow> bool" where
  "pd_ok m pd \<longleftrightarrow>
     page_aligned pd \<and> table_exists m pd 1023 \<and> table_frame m pd 1023 = pd \<and>
     (\<forall>i j. unat i < 1024 \<and> unat j < 1024 \<and> table_exists m pd i \<and> table_exists m pd j \<and>
            table_frame m pd i = table_frame m pd j \<longrightarrow> i = j)"

lemma page_aligned_table_frame [simp]: "page_aligned (table_frame m pd i)"
  by (simp add: table_frame_def)

lemma pd_okD:
  assumes "pd_ok m pd"
  shows "page_aligned pd" "table_exists m pd 1023" "table_frame m pd 1023 = pd"
  using assms by (auto simp: pd_ok_def)

lemma pd_ok_inj:
  "pd_ok m pd \<Longrightarrow> unat i < 1024 \<Longrightarrow> unat j < 1024 \<Longrightarrow> table_exists m pd i \<Longrightarrow> table_exists m pd j \<Longrightarrow>
   table_frame m pd i = table_frame m pd j \<Longrightarrow> i = j"
  by (auto simp: pd_ok_def)

lemma table_frame_pd:
  assumes "pd_ok m pd" "unat i < 1024" "table_exists m pd i" "i \<noteq> 1023"
  shows "table_frame m pd i \<noteq> pd"
  using pd_ok_inj [OF assms(1,2), of 1023] assms pd_okD [OF assms(1)] by auto

lemma walk_alt:
  "walk m pd v = (if table_exists m pd (ADDR2PDE v)
                  then Some (pte_at m (table_frame m pd (ADDR2PDE v)) (ADDR2PTE v)) else None)"
  by (simp add: walk_def table_exists_def table_frame_def Let_def)

section \<open>The window\<close>

lemma window_parts:
  assumes "unat i < 1024" "unat off < 4096"
  defines "a \<equiv> PAGETABLES_ADDRESS + i * PAGE_SIZE + off"
  shows "ADDR2PDE a = 1023" "ADDR2PTE a = i" "PAGEOFF a = off" "unat a = 0xFFC00000 + 4096 * unat i + unat off"
proof -
  have "unat (i * PAGE_SIZE) = 4096 * unat i"
    using assms(1) by (simp add: unat_word_ariths)
  then have "unat (PAGETABLES_ADDRESS + i * PAGE_SIZE) = 0xFFC00000 + 4096 * unat i"
    using assms(1) by (simp add: unat_plus_u32 memmap_values)
  then show a: "unat a = 0xFFC00000 + 4096 * unat i + unat off"
    using assms(1,2) by (simp add: a_def unat_plus_u32)
  then have p: "unat a div 4096 = unat i + 1023 * 1024"
    using assms(2) by simp
  then have d: "unat a div 4096 div 1024 = 1023" using assms(1) by simp
  have md: "(unat i + 1023 * 1024) mod 1024 = unat i"
    using assms(1) by (simp only: mod_mult_self1 mod_less)
  from d show "ADDR2PDE a = 1023"
    by (simp add: word_unat_eq_iff unat_macros div_mult2_eq [symmetric])
  show "ADDR2PTE a = i"
    by (simp only: word_unat_eq_iff unat_macros p md)
  have "unat a = unat off + (0xFFC00 + unat i) * 4096" by (simp add: a)
  then have "unat a mod 4096 = unat off"
    using assms(2) by (simp only: mod_mult_self1 mod_less)
  then show "PAGEOFF a = off"
    by (simp add: word_unat_eq_iff unat_macros)
qed

lemma xlate_window:
  assumes "pd_ok m pd" "unat i < 1024" "unat off < 4096" "table_exists m pd i"
  shows "xlate m pd (PAGETABLES_ADDRESS + i * PAGE_SIZE + off) = Some (table_frame m pd i + off)"
proof -
  have "pte_at m pd i = pte_dec (rd32 m (pd + 4 * i))" by (simp add: pte_at_def)
  then show ?thesis
    using assms pd_okD [OF assms(1)] window_parts [OF assms(2,3)]
    by (simp add: xlate_def walk_alt pte_dec_as_pde table_exists_def table_frame_def pde_at_def)
qed

lemma PAGEDIR_window: "PAGEDIR_ADDRESS + off = PAGETABLES_ADDRESS + 1023 * PAGE_SIZE + off"
  by (simp add: memmap_values PAGE_SIZE_def)

lemma xlate_pagedir:
  assumes "pd_ok m pd" "unat i < 1024"
  shows "xlate m pd (PAGEDIR_ADDRESS + 4 * i) = Some (pd + 4 * i)"
  using xlate_window [OF assms(1), of 1023 "4 * i"] pd_okD [OF assms(1)] assms(2)
  by (simp add: PAGEDIR_window unat_4_times)

lemma window_aligned4:
  assumes "unat i < 1024" "unat j < 1024"
  shows "aligned4 (PAGETABLES_ADDRESS + i * PAGE_SIZE + 4 * j)"
  using window_parts(4) [OF assms(1), of "4 * j"] assms(2)
  by (simp add: aligned4_def unat_4_times)

lemma pagedir_aligned4: "unat i < 1024 \<Longrightarrow> aligned4 (PAGEDIR_ADDRESS + 4 * i)"
  using window_aligned4 [of 1023 i] by (simp add: PAGEDIR_window)

section \<open>Writing one table entry\<close>

lemma rd32_write_slot:
  assumes "page_aligned f" "page_aligned g" "unat i < 1024" "unat j < 1024"
  shows "rd32 (wr32 m (f + 4 * i) w) (g + 4 * j) = (if f = g \<and> i = j then w else rd32 m (g + 4 * j))"
  using rd32_wr32_other [OF slot_aligned4 [OF assms(1,3)] slot_aligned4 [OF assms(2,4)], of m w]
    slot_eq [OF assms] by auto

lemma table_write_other:
  assumes "page_aligned pd" "page_aligned f" "f \<noteq> pd" "unat i < 1024" "unat j < 1024"
  shows "table_exists (wr32 m (f + 4 * i) w) pd j = table_exists m pd j"
    "table_frame (wr32 m (f + 4 * i) w) pd j = table_frame m pd j"
  using assms by (simp_all add: table_exists_def table_frame_def pde_at_def rd32_write_slot)

lemma pd_ok_cong:
  assumes "pd_ok m pd"
    "\<And>i. unat i < 1024 \<Longrightarrow> table_exists m' pd i = table_exists m pd i"
    "\<And>i. unat i < 1024 \<Longrightarrow> table_frame m' pd i = table_frame m pd i"
  shows "pd_ok m' pd"
proof -
  have "i = j" if "unat i < 1024" "unat j < 1024" "table_exists m' pd i" "table_exists m' pd j"
    "table_frame m' pd i = table_frame m' pd j" for i j
    using that pd_ok_inj [OF assms(1) that(1,2)] assms(2,3) by simp
  then show ?thesis
    using pd_okD [OF assms(1)] assms(2,3) [of 1023] unfolding pd_ok_def by auto
qed

lemma write_pte:
  fixes t :: pte
  assumes ok: "pd_ok m pd" and ex: "table_exists m pd (ADDR2PDE v)" and nw: "ADDR2PDE v \<noteq> 1023"
  defines "m' \<equiv> wr32 m (table_frame m pd (ADDR2PDE v) + 4 * ADDR2PTE v) (pte_enc t)"
  shows "pd_ok m' pd"
    and "walk m' pd w = (if ADDR2PAGE w = ADDR2PAGE v then Some t else walk m pd w)"
    and "table_exists m' pd (ADDR2PDE w) = table_exists m pd (ADDR2PDE w)"
    and "table_frame m' pd (ADDR2PDE w) = table_frame m pd (ADDR2PDE w)"
proof -
  let ?f = "table_frame m pd (ADDR2PDE v)"
  have neq: "?f \<noteq> pd" by (rule table_frame_pd [OF ok ADDR2PDE_lt ex nw])
  note same = table_write_other [OF pd_okD(1) [OF ok] _ neq ADDR2PTE_lt, of _ m v "pte_enc t", folded m'_def, simplified]
  show "pd_ok m' pd" using ok same by (rule pd_ok_cong)
  show w: "table_exists m' pd (ADDR2PDE w) = table_exists m pd (ADDR2PDE w)"
    "table_frame m' pd (ADDR2PDE w) = table_frame m pd (ADDR2PDE w)"
    using same [OF ADDR2PDE_lt] by auto
  have rd: "rd32 m' (table_frame m pd (ADDR2PDE w) + 4 * ADDR2PTE w)
      = (if ?f = table_frame m pd (ADDR2PDE w) \<and> ADDR2PTE v = ADDR2PTE w then pte_enc t
         else rd32 m (table_frame m pd (ADDR2PDE w) + 4 * ADDR2PTE w))"
    unfolding m'_def by (rule rd32_write_slot [OF _ _ ADDR2PTE_lt ADDR2PTE_lt]) simp_all
  show "walk m' pd w = (if ADDR2PAGE w = ADDR2PAGE v then Some t else walk m pd w)"
  proof (cases "table_exists m pd (ADDR2PDE w)")
    case True
    then have "?f = table_frame m pd (ADDR2PDE w) \<longleftrightarrow> ADDR2PDE v = ADDR2PDE w"
      using pd_ok_inj [OF ok ADDR2PDE_lt ADDR2PDE_lt ex True] by auto
    with True w rd show ?thesis by (auto simp: walk_alt pte_at_def page_eq_iff)
  next
    case False
    with ex w show ?thesis by (auto simp: walk_alt page_eq_iff)
  qed
qed

section \<open>Adding a zeroed table\<close>

definition clear_page :: "pmem \<Rightarrow> u32 \<Rightarrow> pmem" where
  "clear_page m f = (\<lambda>a. if ADDR2PAGE a = ADDR2PAGE f then 0 else m a)"

lemma join32_0 [simp]: "join32 0 0 0 0 = 0"
  by (simp add: join32_def)

lemma rd32_clear_page:
  assumes "page_aligned f" "page_aligned g" "unat i < 1024"
  shows "rd32 (clear_page m f) (g + 4 * i) = (if f = g then 0 else rd32 m (g + 4 * i))"
proof (cases "f = g")
  case True
  then show ?thesis
    using slot_page [OF assms(2,3), of 0] slot_page [OF assms(2,3), of 1]
      slot_page [OF assms(2,3), of 2] slot_page [OF assms(2,3), of 3]
    by (simp add: rd32_def clear_page_def)
next
  case False
  then have "ADDR2PAGE f \<noteq> ADDR2PAGE g" using ADDR2PAGE_inj assms by blast
  then show ?thesis
    using False slot_page [OF assms(2,3)] by (simp add: clear_page_def) (rule rd32_cong; simp)
qed

text \<open>The frame \<open>f\<close> belongs neither to the directory nor to one of its tables.\<close>

definition frame_unused :: "pmem \<Rightarrow> u32 \<Rightarrow> u32 \<Rightarrow> bool" where
  "frame_unused m pd f \<longleftrightarrow>
     page_aligned f \<and> f \<noteq> NULL \<and> (\<forall>i. unat i < 1024 \<and> table_exists m pd i \<longrightarrow> table_frame m pd i \<noteq> f)"

lemma frame_unused_pd: "pd_ok m pd \<Longrightarrow> frame_unused m pd f \<Longrightarrow> f \<noteq> pd"
  using pd_okD by (fastforce simp: frame_unused_def)

lemma add_table:
  assumes ok: "pd_ok m pd" and un: "frame_unused m pd f" and i: "unat i < 1024" and nex: "\<not> table_exists m pd i"
    and e: "pde_exists e" "frame_of_pde e = f"
  defines "m' \<equiv> clear_page (wr32 m (pd + 4 * i) (pde_enc e)) f"
  shows "\<And>j. unat j < 1024 \<Longrightarrow> table_exists m' pd j = (if j = i then True else table_exists m pd j)"
    and "\<And>j. unat j < 1024 \<Longrightarrow> table_frame m' pd j = (if j = i then f else table_frame m pd j)"
    and "pd_ok m' pd"
    and "ADDR2PDE w \<noteq> 1023 \<Longrightarrow> walk m' pd w = (if ADDR2PDE w = i then Some zero_pte else walk m pd w)"
proof -
  note pd = pd_okD [OF ok]
  have f: "page_aligned f" "f \<noteq> pd"
    using un frame_unused_pd [OF ok un] by (auto simp: frame_unused_def)
  have rd: "rd32 m' (pd + 4 * j) = (if j = i then pde_enc e else rd32 m (pd + 4 * j))" if "unat j < 1024" for j
    using that f pd i by (auto simp: m'_def rd32_clear_page rd32_write_slot)
  show ex: "table_exists m' pd j = (if j = i then True else table_exists m pd j)" if "unat j < 1024" for j
    using that e rd by (simp add: table_exists_def pde_at_def)
  show fr: "table_frame m' pd j = (if j = i then f else table_frame m pd j)" if "unat j < 1024" for j
    using that e rd by (simp add: table_frame_def pde_at_def)
  have "i \<noteq> 1023" using nex pd by auto
  have "a = b" if "unat a < 1024" "unat b < 1024" "table_exists m' pd a" "table_exists m' pd b"
    "table_frame m' pd a = table_frame m' pd b" for a b
    using that ex [OF that(1)] ex [OF that(2)] fr [OF that(1)] fr [OF that(2)] un
      pd_ok_inj [OF ok that(1,2)]
    by (cases "a = i"; cases "b = i") (auto simp: frame_unused_def)
  then show "pd_ok m' pd"
    using pd ex [of 1023] fr [of 1023] \<open>i \<noteq> 1023\<close> unfolding pd_ok_def by auto
  have tbl: "rd32 m' (table_frame m pd k + 4 * l) = rd32 m (table_frame m pd k + 4 * l)"
    if "unat k < 1024" "table_exists m pd k" "k \<noteq> 1023" "unat l < 1024" for k l
    using that un f pd i table_frame_pd [OF ok that(1,2,3)]
    by (auto simp: m'_def rd32_clear_page rd32_write_slot frame_unused_def)
  have new: "rd32 m' (f + 4 * l) = 0" if "unat l < 1024" for l
    using that f by (simp add: m'_def rd32_clear_page)
  show "walk m' pd w = (if ADDR2PDE w = i then Some zero_pte else walk m pd w)" if "ADDR2PDE w \<noteq> 1023"
    using that ex [OF ADDR2PDE_lt] fr [OF ADDR2PDE_lt] tbl [OF ADDR2PDE_lt _ that ADDR2PTE_lt] new [OF ADDR2PTE_lt]
    by (auto simp: walk_alt pte_at_def pte_dec_zero)
qed

section \<open>Filling a mapped range\<close>

lemma memset_v_mapped:
  assumes "\<And>m' k. (\<forall>a. (\<forall>k<n. a \<noteq> p + of_nat k) \<longrightarrow> m' a = phys s a) \<Longrightarrow> k < n \<Longrightarrow>
      vaddr (s\<lparr>phys := m'\<rparr>) (v + of_nat k) = Some (p + of_nat k)"
  shows "memset_v n v x s = Ret () (s\<lparr>phys := \<lambda>a. if \<exists>k<n. a = p + of_nat k then x else phys s a\<rparr>)"
  using assms
proof (induction n arbitrary: v p s)
  case 0
  then show ?case by simp
next
  case (Suc n)
  have v0: "vaddr s v = Some p"
    using Suc.prems [of "phys s" 0] by simp
  let ?s = "s\<lparr>phys := (phys s)(p := x)\<rparr>"
  have IH: "memset_v n (v + 1) x ?s
      = Ret () (?s\<lparr>phys := \<lambda>a. if \<exists>k<n. a = p + 1 + of_nat k then x else phys ?s a\<rparr>)"
  proof (rule Suc.IH)
    fix m' k
    assume m': "\<forall>a. (\<forall>k<n. a \<noteq> p + 1 + of_nat k) \<longrightarrow> m' a = phys ?s a" and k: "k < n"
    have "m' a = phys s a" if "\<forall>k<Suc n. a \<noteq> p + of_nat k" for a
    proof -
      have "a \<noteq> p" using that [rule_format, of 0] by simp
      moreover have "a \<noteq> p + 1 + of_nat k" if "k < n" for k
        using \<open>\<forall>k<Suc n. a \<noteq> p + of_nat k\<close> [rule_format, of "Suc k"] that by (simp add: add.assoc)
      ultimately show ?thesis using m' by simp
    qed
    with Suc.prems [of m' "Suc k"] k
    show "vaddr (?s\<lparr>phys := m'\<rparr>) (v + 1 + of_nat k) = Some (p + 1 + of_nat k)"
      by (simp add: add.assoc)
  qed
  have ex: "(\<exists>k<Suc n. a = p + of_nat k) \<longleftrightarrow> a = p \<or> (\<exists>k<n. a = p + 1 + of_nat k)" for a
    by (auto simp: Ex_less_Suc2 add.assoc)
  have "memset_v (Suc n) v x s
      = Ret () (?s\<lparr>phys := \<lambda>a. if \<exists>k<n. a = p + 1 + of_nat k then x else phys ?s a\<rparr>)"
    using v0 IH by (simp add: store8_def)
  moreover have "(\<lambda>a. if \<exists>k<n. a = p + 1 + of_nat k then x else phys ?s a)
      = (\<lambda>a. if \<exists>k<Suc n. a = p + of_nat k then x else phys s a)"
    unfolding ex by (rule ext) auto
  ultimately show ?case by simp
qed

lemma load_bytes_mapped:
  assumes "\<And>k. k < n \<Longrightarrow> vaddr s (v + of_nat k) = Some (p + of_nat k)"
  shows "load_bytes n v s = Ret (map (\<lambda>k. phys s (p + of_nat k)) [0..<n]) s"
  using assms
proof (induction n arbitrary: v p)
  case (Suc n)
  have "load_bytes n (v + 1) s = Ret (map (\<lambda>k. phys s (p + 1 + of_nat k)) [0..<n]) s"
    using Suc.prems [of "Suc k" for k] by (intro Suc.IH) (simp add: add.assoc)
  then show ?case
    using Suc.prems [of 0] by (simp add: load8_def map_upt_Suc add.assoc del: upt_Suc)
qed simp

text \<open>Memory after a run of bytes was stored from address \<open>p\<close> on.\<close>

fun upd_bytes :: "pmem \<Rightarrow> u32 \<Rightarrow> u8 list \<Rightarrow> pmem" where
  "upd_bytes m p [] = m"
| "upd_bytes m p (b # bs) = upd_bytes (m(p := b)) (p + 1) bs"

lemma upd_bytes_other: "(\<And>k. k < length bs \<Longrightarrow> a \<noteq> p + of_nat k) \<Longrightarrow> upd_bytes m p bs a = m a"
proof (induction bs arbitrary: m p)
  case (Cons b bs)
  have "a \<noteq> p" using Cons.prems [of 0] by simp
  moreover have "a \<noteq> p + 1 + of_nat k" if "k < length bs" for k
    using Cons.prems [of "Suc k"] that by (simp add: add.assoc)
  ultimately show ?case using Cons.IH by simp
qed simp

lemma upd_bytes_nth:
  "length bs \<le> 2 ^ 32 \<Longrightarrow> k < length bs \<Longrightarrow> upd_bytes m p bs (p + of_nat k) = bs ! k"
proof (induction bs arbitrary: m p k)
  case (Cons b bs)
  show ?case
  proof (cases k)
    case 0
    have "p \<noteq> p + 1 + of_nat j" if "j < length bs" for j
    proof
      assume "p = p + 1 + of_nat j"
      then have "(of_nat (Suc j) :: u32) = 0" by (metis add.assoc add_cancel_right_right of_nat_Suc)
      then have "2 ^ 32 dvd Suc j" by (simp only: word_of_nat_eq_0_iff) simp
      with that Cons.prems show False by (auto dest: dvd_imp_le)
    qed
    with 0 show ?thesis by (simp add: upd_bytes_other)
  next
    case (Suc j)
    with Cons.prems Cons.IH [of j "m(p := b)" "p + 1"] show ?thesis
      by (simp add: add.assoc fun_upd_def)
  qed
qed simp

lemma store_bytes_mapped:
  assumes "\<And>m' k. (\<forall>a. (\<forall>k<length bs. a \<noteq> p + of_nat k) \<longrightarrow> m' a = phys s a) \<Longrightarrow> k < length bs \<Longrightarrow>
      vaddr (s\<lparr>phys := m'\<rparr>) (v + of_nat k) = Some (p + of_nat k)"
  shows "store_bytes bs v s = Ret () (s\<lparr>phys := upd_bytes (phys s) p bs\<rparr>)"
  using assms
proof (induction bs arbitrary: v p s)
  case (Cons b bs)
  have v0: "vaddr s v = Some p"
    using Cons.prems [of "phys s" 0] by simp
  let ?s = "s\<lparr>phys := (phys s)(p := b)\<rparr>"
  have "store_bytes bs (v + 1) ?s = Ret () (?s\<lparr>phys := upd_bytes (phys ?s) (p + 1) bs\<rparr>)"
  proof (rule Cons.IH)
    fix m' k
    assume m': "\<forall>a. (\<forall>k<length bs. a \<noteq> p + 1 + of_nat k) \<longrightarrow> m' a = phys ?s a" and k: "k < length bs"
    have "m' a = phys s a" if out: "\<forall>k<length (b # bs). a \<noteq> p + of_nat k" for a
    proof -
      have "a \<noteq> p" using out [rule_format, of 0] by simp
      moreover have "a \<noteq> p + 1 + of_nat k" if "k < length bs" for k
        using out [rule_format, of "Suc k"] that by (simp add: add.assoc)
      ultimately show ?thesis using m' by simp
    qed
    with Cons.prems [of m' "Suc k"] k
    show "vaddr (?s\<lparr>phys := m'\<rparr>) (v + 1 + of_nat k) = Some (p + 1 + of_nat k)"
      by (simp add: add.assoc)
  qed
  then show ?case using v0 by (simp add: store8_def)
qed simp

text \<open>The bytes of a page are the offsets below the page size.\<close>

lemma page_bytes:
  assumes "page_aligned f"
  shows "(\<exists>k<4096. a = f + of_nat k) \<longleftrightarrow> ADDR2PAGE a = ADDR2PAGE f"
proof
  assume "\<exists>k<4096. a = f + of_nat k"
  then obtain k where "k < 4096" "a = f + of_nat k" by auto
  then show "ADDR2PAGE a = ADDR2PAGE f"
    using page_add_parts(1) [OF assms, of "of_nat k"] by simp
next
  assume "ADDR2PAGE a = ADDR2PAGE f"
  then have "PAGEDOWN a = f"
    using PAGEDOWN_aligned [OF assms] by (simp add: PAGEDOWN_def ADDR2PAGE_def)
  then have "a = f + of_nat (unat (PAGEOFF a))"
    using PAGEDOWN_PAGEOFF [of a] by (simp add: unat_of_nat)
  with PAGEOFF_lt [of a] show "\<exists>k<4096. a = f + of_nat k" by blast
qed

lemma directory_page_cong:
  assumes "page_aligned pd" "\<forall>a. ADDR2PAGE a = ADDR2PAGE pd \<longrightarrow> m' a = m a"
  shows "unat i < 1024 \<Longrightarrow> pde_at m' pd i = pde_at m pd i"
    and "unat i < 1024 \<Longrightarrow> table_exists m' pd i = table_exists m pd i"
    and "unat i < 1024 \<Longrightarrow> table_frame m' pd i = table_frame m pd i"
    and "pd_ok m' pd = pd_ok m pd"
proof -
  have "rd32 m' (pd + 4 * i) = rd32 m (pd + 4 * i)" if "unat i < 1024" for i
    by (rule rd32_cong) (simp add: assms(2) slot_page [OF assms(1) that])
  then show pde: "pde_at m' pd i = pde_at m pd i" if "unat i < 1024" for i
    using that by (simp add: pde_at_def)
  then show ex: "table_exists m' pd i = table_exists m pd i" if "unat i < 1024" for i
    using that by (simp add: table_exists_def)
  show fr: "table_frame m' pd i = table_frame m pd i" if "unat i < 1024" for i
    using that pde by (simp add: table_frame_def)
  show "pd_ok m' pd = pd_ok m pd"
    using pd_ok_cong [of m pd m'] pd_ok_cong [of m' pd m] ex fr by auto
qed

text \<open>Zeroing the table that was just entered in the directory, through the window.\<close>

lemma memset_window:
  assumes ok: "pd_ok (phys s) pd" and s: "paging_enabled s" "cr3 s = pd"
    and i: "unat i < 1024" "table_exists (phys s) pd i" "i \<noteq> 1023"
  shows "memset_v 4096 (PAGETABLES_ADDRESS + i * PAGE_SIZE) 0 s
    = Ret () (s\<lparr>phys := clear_page (phys s) (table_frame (phys s) pd i)\<rparr>)"
proof -
  let ?f = "table_frame (phys s) pd i"
  have al: "page_aligned pd" by (rule pd_okD(1) [OF ok])
  have neq: "ADDR2PAGE pd \<noteq> ADDR2PAGE ?f"
    using ADDR2PAGE_inj [OF al, of ?f] table_frame_pd [OF ok i] by auto
  have "memset_v 4096 (PAGETABLES_ADDRESS + i * PAGE_SIZE) 0 s
      = Ret () (s\<lparr>phys := \<lambda>a. if \<exists>k<4096. a = ?f + of_nat k then 0 else phys s a\<rparr>)"
  proof (rule memset_v_mapped)
    fix m' :: pmem and k :: nat
    assume m': "\<forall>a. (\<forall>k<4096. a \<noteq> ?f + of_nat k) \<longrightarrow> m' a = phys s a" and k: "k < 4096"
    have "\<forall>a. ADDR2PAGE a = ADDR2PAGE pd \<longrightarrow> m' a = phys s a"
      using m' neq by (metis page_bytes page_aligned_table_frame)
    note same = directory_page_cong [OF al this]
    have "xlate m' pd (PAGETABLES_ADDRESS + i * PAGE_SIZE + of_nat k) = Some (table_frame m' pd i + of_nat k)"
      using same i ok k by (intro xlate_window) auto
    then show "vaddr (s\<lparr>phys := m'\<rparr>) (PAGETABLES_ADDRESS + i * PAGE_SIZE + of_nat k) = Some (?f + of_nat k)"
      using s same(3) [OF i(1)] al by (simp add: vaddr_def)
  qed
  also have "(\<lambda>a. if \<exists>k<4096. a = ?f + of_nat k then 0 else phys s a) = clear_page (phys s) ?f"
    by (simp add: clear_page_def page_bytes)
  finally show ?thesis .
qed

end
