(* ===== verification/Paging.thy ===== *)
theory Paging
  imports PageWalk
begin

text \<open>
  \<open>kernel2/paging.c\<close>: access to page directories and page tables through the recursive
  mapping (the last directory entry points at the directory itself), the buffer page for
  physical memory, mapping and unmapping of pages; and the allocator of frames that
  \<open>paging_map_pd\<close> calls for a new page table (\<open>memphys_pop\<close> of \<open>kernel2/memphys.c\<close>).

  \<open>paging_flushtlb\<close> has no counterpart here, because every address is translated by a walk through the tables; what
  changes when the processor remembers translations is the subject of the theory \<open>Tlb\<close>.
\<close>

section \<open>Entries of the loaded directory\<close>

definition paging_loadpagedir :: "u32 \<Rightarrow> 'a mem_scheme \<Rightarrow> (u32, 'a mem_scheme) res" where
  "paging_loadpagedir pd s = Ret 0 (s\<lparr>cr3 := pd, paging_curpd := pd\<rparr>)"

definition paging_getpde :: "u32 \<Rightarrow> 'a mem_scheme \<Rightarrow> (pde, 'a mem_scheme) res" where
  "paging_getpde virt s =
     bindr (if paging_enabled s then load32 (PAGEDIR_ADDRESS + 4 * ADDR2PDE virt) s
            else load32 (paging_curpd s + 4 * ADDR2PDE virt) s)
       (\<lambda>w. Ret (pde_dec w))"

definition paging_setpde :: "u32 \<Rightarrow> pde \<Rightarrow> 'a mem_scheme \<Rightarrow> (u32, 'a mem_scheme) res" where
  "paging_setpde virt e s =
     bindr (if paging_enabled s then store32 (PAGEDIR_ADDRESS + 4 * ADDR2PDE virt) (pde_enc e) s
            else store32 (paging_curpd s + 4 * ADDR2PDE virt) (pde_enc e) s)
       (\<lambda>_. Ret 0)"

definition paging_getpte :: "u32 \<Rightarrow> 'a mem_scheme \<Rightarrow> (pte, 'a mem_scheme) res" where
  "paging_getpte virt s =
     bindr (paging_getpde virt s) (\<lambda>e s.
       if \<not> pde_exists e then Ret zero_pte s
       else bindr (if paging_enabled s
                   then load32 (PAGETABLES_ADDRESS + ADDR2PDE virt * PAGE_SIZE + 4 * ADDR2PTE virt) s
                   else load32 (PAGE2ADDR (ucast (pde_page e)) + 4 * ADDR2PTE virt) s)
              (\<lambda>w. Ret (pte_dec w)))"

definition paging_setpte :: "u32 \<Rightarrow> pte \<Rightarrow> 'a mem_scheme \<Rightarrow> (u32, 'a mem_scheme) res" where
  "paging_setpte virt t s =
     bindr (paging_getpde virt s) (\<lambda>e s.
       if \<not> pde_exists e then Ret (-1) s
       else bindr (if paging_enabled s
                   then store32 (PAGETABLES_ADDRESS + ADDR2PDE virt * PAGE_SIZE + 4 * ADDR2PTE virt) (pte_enc t) s
                   else store32 (PAGE2ADDR (ucast (pde_page e)) + 4 * ADDR2PTE virt) (pte_enc t) s)
              (\<lambda>_. Ret 0))"

definition paging_unmap :: "u32 \<Rightarrow> 'a mem_scheme \<Rightarrow> (u32, 'a mem_scheme) res" where
  "paging_unmap virt s =
     bindr (paging_getpte virt s) (\<lambda>t s.
       let addr = (if in_memory t then PAGE2ADDR (ucast (page t)) else NULL)
       in bindr (paging_setpte virt zero_pte s) (\<lambda>_. Ret addr))"

definition paging_getphysaddr :: "u32 \<Rightarrow> 'a mem_scheme \<Rightarrow> (u32, 'a mem_scheme) res" where
  "paging_getphysaddr virt s =
     bindr (paging_getpte virt s) (\<lambda>t.
       Ret (if exists t \<and> in_memory t then PAGE2ADDR (ucast (page t)) + PAGEOFF virt else NULL))"

section \<open>The stack of free frames\<close>

text \<open>
  The cells of the stack are virtual memory at \<open>STACKDATA_ADDRESS\<close>. The pointers are
  \<open>void **\<close>, so their difference counts cells and a step of one is four bytes.
\<close>

definition memphys_pop :: "'a mem_scheme \<Rightarrow> (u32, 'a mem_scheme) res" where
  "memphys_pop s =
     (if memphys_stackptr s > memphys_stackbase s then
        if sint (memphys_stackptr s - memphys_stackend s) div 4 > 4096 then
          let e = memphys_stackend s - PAGE_SIZE * 4
          in bindr (paging_unmap e (s\<lparr>memphys_stackend := e\<rparr>)) (\<lambda>_. Ret e)
        else
          load32 (memphys_stackptr s - 4) (s\<lparr>memphys_stackptr := memphys_stackptr s - 4\<rparr>)
      else Stop Panic s)"

section \<open>Mapping\<close>

definition new_pde :: "u32 \<Rightarrow> pde" where
  "new_pde frame = zero_pde\<lparr>pde_page := ucast (ADDR2PAGE frame), pde_pagesize := False,
     pde_user := True, pde_writable := True, pde_exists := True\<rparr>"

definition new_pte :: "u32 \<Rightarrow> u32 \<Rightarrow> u32 \<Rightarrow> u32 \<Rightarrow> u32 \<Rightarrow> pte" where
  "new_pte frame usr wrt swp cw = zero_pte\<lparr>page := ucast (ADDR2PAGE frame), exists := True,
     user := usr \<noteq> 0, writable := wrt \<noteq> 0, in_memory := True, swappable := bit swp 0, cow := bit cw 0\<rparr>"

text \<open>
  The text of \<open>paging_map_pd\<close> over the three accessors it calls. For the current directory
  they are \<open>paging_getpde\<close>, \<open>paging_setpde\<close> and \<open>paging_setpte\<close>; for another directory they
  go through \<open>paging_physread\<close> and \<open>paging_physwrite\<close>, which map the buffer page in the current
  one. That nesting is one level deep, so the two instances are defined one after the other.
\<close>

definition paging_map_with ::
  "(u32 \<Rightarrow> 'a mem_scheme \<Rightarrow> (pde, 'a mem_scheme) res) \<Rightarrow>
   (u32 \<Rightarrow> pde \<Rightarrow> 'a mem_scheme \<Rightarrow> (u32, 'a mem_scheme) res) \<Rightarrow>
   (u32 \<Rightarrow> pte \<Rightarrow> 'a mem_scheme \<Rightarrow> (u32, 'a mem_scheme) res) \<Rightarrow>
   u32 \<Rightarrow> u32 \<Rightarrow> u32 \<Rightarrow> u32 \<Rightarrow> u32 \<Rightarrow> u32 \<Rightarrow> 'a mem_scheme \<Rightarrow> (u32, 'a mem_scheme) res" where
  "paging_map_with getpde setpde setpte virt frame usr wrt swp cw s =
     bindr (getpde virt s) (\<lambda>e s.
     bindr (if \<not> pde_exists e then
              bindr (memphys_pop s) (\<lambda>f s.
              bindr (setpde virt (new_pde f) s) (\<lambda>r s.
                if r <s 0 then Ret (-1) s
                else bindr (memset_v 4096 (PAGETABLES_ADDRESS + ADDR2PDE virt * PAGE_SIZE) 0 s)
                       (\<lambda>_. Ret 0)))
            else Ret (0 :: u32) s) (\<lambda>r s.
       if r <s 0 then Ret (-1) s
       else bindr (setpte virt (new_pte frame usr wrt swp cw) s) (\<lambda>r.
              if r <s 0 then Ret (-1) else Ret 0)))"

definition paging_map :: "u32 \<Rightarrow> u32 \<Rightarrow> u32 \<Rightarrow> u32 \<Rightarrow> 'a mem_scheme \<Rightarrow> (u32, 'a mem_scheme) res" where
  "paging_map virt frame usr wrt =
     paging_map_with paging_getpde paging_setpde paging_setpte virt frame usr wrt 0 0"

section \<open>Physical memory through the buffer page\<close>

text \<open>
  \<open>paging_physread\<close> returns the bytes it copies to its destination; their number is the
  return value of the C function.
\<close>

definition paging_physread :: "u32 \<Rightarrow> u32 \<Rightarrow> 'a mem_scheme \<Rightarrow> (u8 list, 'a mem_scheme) res" where
  "paging_physread src count s =
     (let src_rounded = PAGEDOWN src in
      bindr (if src_rounded \<noteq> paging_physrw_lastpage s \<or> paging_curpd s \<noteq> paging_physrw_lastpd s then
               bindr (paging_map BUFPAGE_ADDRESS src_rounded 0 1 s) (\<lambda>r s.
                 if r <s 0 then Ret False s
                 else Ret True (s\<lparr>paging_physrw_lastpage := src_rounded,
                                  paging_physrw_lastpd := paging_curpd s\<rparr>))
             else Ret True s) (\<lambda>ok s.
        if \<not> ok then Ret [] s
        else load_bytes (unat count) (BUFPAGE_ADDRESS + PAGEOFF src) s))"

definition paging_physwrite :: "u32 \<Rightarrow> u8 list \<Rightarrow> 'a mem_scheme \<Rightarrow> (u32, 'a mem_scheme) res" where
  "paging_physwrite dest bytes s =
     (let dest_rounded = PAGEDOWN dest in
      bindr (paging_map BUFPAGE_ADDRESS dest_rounded 0 1 s) (\<lambda>r s.
        if r <s 0 then Ret 0 s
        else bindr (store_bytes bytes (BUFPAGE_ADDRESS + PAGEOFF dest)
                      (s\<lparr>paging_physrw_lastpage := dest_rounded, paging_physrw_lastpd := paging_curpd s\<rparr>))
               (\<lambda>_. Ret (of_nat (length bytes)))))"

definition paging_cleanpage :: "u32 \<Rightarrow> 'a mem_scheme \<Rightarrow> (u32, 'a mem_scheme) res" where
  "paging_cleanpage pg s =
     (if paging_enabled s then
        let page_rounded = PAGEDOWN pg in
        bindr (if page_rounded \<noteq> paging_physrw_lastpage s \<or> paging_curpd s \<noteq> paging_physrw_lastpd s then
                 bindr (paging_map BUFPAGE_ADDRESS page_rounded 0 1 s) (\<lambda>r s.
                   if r <s 0 then Ret False s
                   else Ret True (s\<lparr>paging_physrw_lastpage := page_rounded,
                                    paging_physrw_lastpd := paging_curpd s\<rparr>))
               else Ret True s) (\<lambda>ok s.
          if \<not> ok then Ret 0 s
          else bindr (memset_v 4096 BUFPAGE_ADDRESS 0 s) (\<lambda>_. Ret pg))
      else bindr (memset_v 4096 pg 0 s) (\<lambda>_. Ret pg))"

section \<open>Entries of a directory that is not loaded\<close>

text \<open>An entry as the bytes of its C object, and back; reading it from bytes that were never
  written is undefined.\<close>

definition bytes_of32 :: "u32 \<Rightarrow> u8 list" where
  "bytes_of32 w = [byte_of 0 w, byte_of 1 w, byte_of 2 w, byte_of 3 w]"

definition word_of_bytes :: "u8 list \<Rightarrow> 's \<Rightarrow> (u32, 's) res" where
  "word_of_bytes bs s = (case bs of [a, b, c, d] \<Rightarrow> Ret (join32 a b c d) s | _ \<Rightarrow> Stop Dangling s)"

definition paging_getpde_pd :: "u32 \<Rightarrow> u32 \<Rightarrow> 'a mem_scheme \<Rightarrow> (pde, 'a mem_scheme) res" where
  "paging_getpde_pd virt pagedir s =
     (if pagedir = paging_curpd s then paging_getpde virt s
      else bindr (paging_physread (pagedir + 4 * ADDR2PDE virt) 4 s) (\<lambda>bs s.
           bindr (word_of_bytes bs s) (\<lambda>w. Ret (pde_dec w))))"

definition paging_setpde_pd :: "u32 \<Rightarrow> pde \<Rightarrow> u32 \<Rightarrow> 'a mem_scheme \<Rightarrow> (u32, 'a mem_scheme) res" where
  "paging_setpde_pd virt e pagedir s =
     (if pagedir = paging_curpd s then paging_setpde virt e s
      else bindr (paging_physwrite (pagedir + 4 * ADDR2PDE virt) (bytes_of32 (pde_enc e)) s)
             (\<lambda>n. Ret (if n = 4 then 0 else -1)))"

definition paging_getpte_pd :: "u32 \<Rightarrow> u32 \<Rightarrow> 'a mem_scheme \<Rightarrow> (pte, 'a mem_scheme) res" where
  "paging_getpte_pd virt pagedir s =
     (if pagedir = paging_curpd s then paging_getpte virt s
      else bindr (paging_getpde_pd virt pagedir s) (\<lambda>e s.
           let pt = PAGE2ADDR (ucast (pde_page e)) in
           if pt = NULL then Ret zero_pte s
           else bindr (paging_physread (pt + 4 * ADDR2PTE virt) 4 s) (\<lambda>bs s.
                bindr (word_of_bytes bs s) (\<lambda>w. Ret (pte_dec w)))))"

definition paging_setpte_pd :: "u32 \<Rightarrow> pte \<Rightarrow> u32 \<Rightarrow> 'a mem_scheme \<Rightarrow> (u32, 'a mem_scheme) res" where
  "paging_setpte_pd virt t pagedir s =
     (if pagedir = paging_curpd s then paging_setpte virt t s
      else bindr (paging_getpde_pd virt pagedir s) (\<lambda>e s.
           let pt = PAGE2ADDR (ucast (pde_page e)) in
           bindr (paging_physwrite (pt + 4 * ADDR2PTE virt) (bytes_of32 (pte_enc t)) s)
             (\<lambda>n. Ret (if n = 4 then 0 else -1))))"

definition paging_map_pd ::
  "u32 \<Rightarrow> u32 \<Rightarrow> u32 \<Rightarrow> u32 \<Rightarrow> u32 \<Rightarrow> u32 \<Rightarrow> u32 \<Rightarrow> 'a mem_scheme \<Rightarrow> (u32, 'a mem_scheme) res" where
  "paging_map_pd virt frame usr wrt swp cw pagedir =
     paging_map_with (\<lambda>v. paging_getpde_pd v pagedir) (\<lambda>v e. paging_setpde_pd v e pagedir)
       (\<lambda>v t. paging_setpte_pd v t pagedir) virt frame usr wrt swp cw"

section \<open>Initialisation\<close>

text \<open>An assignment to fields of a directory entry, with paging off.\<close>

definition update_pde :: "u32 \<Rightarrow> (pde \<Rightarrow> pde) \<Rightarrow> 'a mem_scheme \<Rightarrow> (unit, 'a mem_scheme) res" where
  "update_pde a f s = bindr (load32 a s) (\<lambda>w. store32 a (pde_enc (f (pde_dec w))))"

function paging_init_loop :: "u32 \<Rightarrow> 'a mem_scheme \<Rightarrow> (unit, 'a mem_scheme) res" where
  "paging_init_loop i s =
     (if i < KERNELCODE_ADDRESS + KERNELCODE_SIZE then
        bindr (if (i \<ge> IVT_ADDRESS \<and> i < IVT_ADDRESS + IVT_SIZE) \<or>
                  (i \<ge> BIOSCODE_ADDRESS \<and> i < BIOSCODE_ADDRESS + BIOSCODE_SIZE)
               then paging_map i i 1 0 s else paging_map i i 0 1 s)
          (\<lambda>_. paging_init_loop (i + PAGE_SIZE))
      else Ret () s)"
  by pat_completeness auto
termination
proof (relation "measure (\<lambda>(i, s). 0x400000 - unat i)"; clarsimp)
  fix i :: u32
  assume "i < KERNELCODE_ADDRESS + KERNELCODE_SIZE"
  then have "unat i < 0x300000" by (simp add: memmap_defs u32_less_iff)
  then show "0x400000 - unat (i + PAGE_SIZE) < 0x400000 - unat i"
    by (simp add: unat_plus_u32 PAGE_SIZE_def)
qed

declare paging_init_loop.simps [simp del]

definition paging_init :: "'a mem_scheme \<Rightarrow> (u32, 'a mem_scheme) res" where
  "paging_init s0 =
     (let s = s0\<lparr>paging_enabled := False, paging_physrw_lastpage := NULL, paging_physrw_lastpd := NULL,
                 paging_kernelpd := KERNELPD_ADDRESS, paging_curpd := KERNELPD_ADDRESS\<rparr>;
          entry = (\<lambda>frame e. e\<lparr>pde_page := ucast (ADDR2PAGE frame), pde_pagesize := False,
                              pde_user := True, pde_writable := True, pde_exists := True\<rparr>)
      in bindr (memset_v 4096 KERNELPD_ADDRESS 0 s) (\<lambda>_ s.
         bindr (update_pde KERNELPD_ADDRESS (entry (KERNELPD_ADDRESS + PAGE_SIZE)) s) (\<lambda>_ s.
         bindr (update_pde (KERNELPD_ADDRESS + 4) (entry (KERNELPD_ADDRESS + PAGE_SIZE * 2)) s) (\<lambda>_ s.
         bindr (memset_v 4096 (KERNELPD_ADDRESS + PAGE_SIZE) 0 s) (\<lambda>_ s.
         bindr (paging_init_loop 0 s) (\<lambda>_ s.
         bindr (memset_v 4096 (KERNELPD_ADDRESS + PAGE_SIZE * 2) 0 s) (\<lambda>_ s.
         bindr (memset_v 4 (KERNELPD_ADDRESS + 4 * 1023) 0 s) (\<lambda>_ s.
         bindr (update_pde (KERNELPD_ADDRESS + 4 * 1023)
                  (\<lambda>e. e\<lparr>pde_page := ucast (ADDR2PAGE KERNELPD_ADDRESS), pde_pagesize := False,
                         pde_user := False, pde_writable := True, pde_exists := True\<rparr>) s) (\<lambda>_ s.
         bindr (paging_loadpagedir KERNELPD_ADDRESS s) (\<lambda>_ s.
           Ret 0 (s\<lparr>paging_enabled := True\<rparr>)))))))))))"

end
