(* ===== verification/PagingInv.thy ===== *)
theory PagingInv
  imports Paging
begin

text \<open>
  Correctness of \<open>kernel2/paging.c\<close> and of the frame allocator it calls: the accessors read
  and write the page walk of the loaded directory, \<open>paging_map\<close> changes the translation of
  one page, taking a frame from the stack of free frames when a page table is missing, and
  the buffer page gives access to physical memory.
\<close>

section \<open>The accessors of the loaded directory\<close>

definition paging_ok :: "'a mem_scheme \<Rightarrow> bool" where
  "paging_ok s \<longleftrightarrow> paging_enabled s \<and> cr3 s = paging_curpd s \<and> pd_ok (phys s) (paging_curpd s)"

abbreviation cur_walk :: "'a mem_scheme \<Rightarrow> u32 \<Rightarrow> pte option" where
  "cur_walk s \<equiv> walk (phys s) (paging_curpd s)"

abbreviation cur_table :: "'a mem_scheme \<Rightarrow> u32 \<Rightarrow> bool" where
  "cur_table s v \<equiv> table_exists (phys s) (paging_curpd s) (ADDR2PDE v)"

lemma paging_okD:
  assumes "paging_ok s"
  shows "paging_enabled s" "cr3 s = paging_curpd s" "pd_ok (phys s) (paging_curpd s)"
    "page_aligned (paging_curpd s)" "vaddr s = xlate (phys s) (paging_curpd s)"
  using assms pd_okD(1) [of "phys s" "paging_curpd s"]
  by (auto simp: paging_ok_def vaddr_def fun_eq_iff)

lemma paging_getpde_ok:
  assumes "paging_ok s"
  shows "paging_getpde v s = Ret (pde_at (phys s) (paging_curpd s) (ADDR2PDE v)) s"
  using paging_okD [OF assms] xlate_pagedir [OF paging_okD(3) [OF assms] ADDR2PDE_lt, of v]
  by (simp add: paging_getpde_def load32_aligned pagedir_aligned4 ADDR2PDE_lt pde_at_def)

lemma paging_setpde_ok:
  assumes "paging_ok s"
  shows "paging_setpde v e s = Ret 0 (s\<lparr>phys := wr32 (phys s) (paging_curpd s + 4 * ADDR2PDE v) (pde_enc e)\<rparr>)"
  using paging_okD [OF assms] xlate_pagedir [OF paging_okD(3) [OF assms] ADDR2PDE_lt, of v]
  by (simp add: paging_setpde_def store32_aligned pagedir_aligned4 ADDR2PDE_lt)

lemma vaddr_pte_window:
  assumes "paging_ok s" "cur_table s v"
  shows "vaddr s (PAGETABLES_ADDRESS + ADDR2PDE v * PAGE_SIZE + 4 * ADDR2PTE v)
    = Some (table_frame (phys s) (paging_curpd s) (ADDR2PDE v) + 4 * ADDR2PTE v)"
  using xlate_window [OF paging_okD(3) [OF assms(1)] ADDR2PDE_lt, of "4 * ADDR2PTE v" v]
    paging_okD(5) [OF assms(1)] assms(2) ADDR2PTE_lt [of v] by (simp add: unat_4_times)

lemma paging_getpte_ok:
  assumes "paging_ok s"
  shows "paging_getpte v s = Ret (case cur_walk s v of None \<Rightarrow> zero_pte | Some t \<Rightarrow> t) s"
  using vaddr_pte_window [OF assms, of v] paging_okD(1) [OF assms]
  by (simp add: paging_getpte_def paging_getpde_ok [OF assms] walk_alt load32_aligned window_aligned4
      ADDR2PDE_lt ADDR2PTE_lt pte_at_def flip: table_exists_def)

lemma paging_setpte_ok:
  assumes "paging_ok s"
  shows "paging_setpte v t s =
    (if cur_table s v
     then Ret 0 (s\<lparr>phys := wr32 (phys s) (table_frame (phys s) (paging_curpd s) (ADDR2PDE v) + 4 * ADDR2PTE v)
                          (pte_enc t)\<rparr>)
     else Ret (-1) s)"
  using vaddr_pte_window [OF assms, of v] paging_okD(1) [OF assms]
  by (simp add: paging_setpte_def paging_getpde_ok [OF assms] store32_aligned window_aligned4
      ADDR2PDE_lt ADDR2PTE_lt flip: table_exists_def)

lemma setpte_walk:
  assumes "paging_ok s" "cur_table s v" "ADDR2PDE v \<noteq> 1023"
  shows "\<exists>s'. paging_setpte v t s = Ret 0 s' \<and> paging_ok s' \<and> paging_curpd s' = paging_curpd s \<and>
    (\<forall>w. cur_walk s' w = (if ADDR2PAGE w = ADDR2PAGE v then Some t else cur_walk s w))"
  using assms write_pte [OF paging_okD(3) [OF assms(1)] assms(2,3)]
  by (simp add: paging_setpte_ok paging_ok_def)

lemma frame_of_new [simp]:
  "page_aligned f \<Longrightarrow> frame_of_pde (new_pde f) = f" "frame_of_pte (new_pte f u w p c) = PAGEDOWN f"
  "pde_exists (new_pde f)" "in_memory (new_pte f u w p c)" "exists (new_pte f u w p c)"
  by (simp_all add: frame_of_pde_def frame_of_pte_def new_pde_def new_pte_def PAGE2ADDR_ADDR2PAGE)

section \<open>The stack of free frames\<close>

text \<open>
  \<open>frames_ok s gs fs\<close>: the free frames are \<open>fs\<close>, the last one on top; they are stored in the
  frames \<open>gs\<close>, which are mapped one after the other from \<open>STACKDATA_ADDRESS\<close>. None of these
  frames is the directory or one of its tables.
\<close>

definition stack_page :: "nat \<Rightarrow> u32" where
  "stack_page j = STACKDATA_ADDRESS + of_nat (4096 * j)"

definition frames_ok :: "'a mem_scheme \<Rightarrow> u32 list \<Rightarrow> u32 list \<Rightarrow> bool" where
  "frames_ok s gs fs \<longleftrightarrow>
     paging_ok s \<and>
     memphys_stackbase s = STACKDATA_ADDRESS \<and>
     memphys_stackend s = stack_page (length gs) \<and>
     memphys_stackptr s = STACKDATA_ADDRESS + of_nat (4 * length fs) \<and>
     length fs \<le> 1024 * length gs \<and> length gs \<le> 1024 \<and>
     (\<forall>j<length gs. xlate (phys s) (paging_curpd s) (stack_page j) = Some (gs ! j)) \<and>
     distinct (gs @ fs) \<and> (\<forall>f\<in>set (gs @ fs). frame_unused (phys s) (paging_curpd s) f) \<and>
     (\<forall>i<length fs. rd32 (phys s) (gs ! (i div 1024) + 4 * of_nat (i mod 1024)) = fs ! i)"

lemma frames_okD:
  assumes "frames_ok s gs fs"
  shows "paging_ok s" "memphys_stackbase s = STACKDATA_ADDRESS" "memphys_stackend s = stack_page (length gs)"
    "memphys_stackptr s = STACKDATA_ADDRESS + of_nat (4 * length fs)"
    "length fs \<le> 1024 * length gs" "length gs \<le> 1024"
    "\<And>j. j < length gs \<Longrightarrow> xlate (phys s) (paging_curpd s) (stack_page j) = Some (gs ! j)"
    "distinct (gs @ fs)" "\<And>f. f \<in> set (gs @ fs) \<Longrightarrow> frame_unused (phys s) (paging_curpd s) f"
    "\<And>i. i < length fs \<Longrightarrow> rd32 (phys s) (gs ! (i div 1024) + 4 * of_nat (i mod 1024)) = fs ! i"
  using assms by (auto simp: frames_ok_def)

lemma unat_stack_addr: "n \<le> 4194304 \<Longrightarrow> unat (STACKDATA_ADDRESS + of_nat n) = 0x300000 + n"
  by (simp add: unat_plus_u32 memmap_values)

text \<open>The i-th cell, in its page.\<close>

lemma cell_split: "STACKDATA_ADDRESS + of_nat (4 * i) = stack_page (i div 1024) + 4 * of_nat (i mod 1024)"
proof -
  have "4 * i = 4096 * (i div 1024) + 4 * (i mod 1024)" 
    using mult_div_mod_eq [of 1024 i] by linarith
  then have "(of_nat (4 * i) :: u32) = of_nat (4096 * (i div 1024)) + 4 * of_nat (i mod 1024)"
    by (metis of_nat_add of_nat_mult of_nat_numeral)
  then show ?thesis by (simp add: stack_page_def)
qed

lemma stack_page_aligned: "j \<le> 1024 \<Longrightarrow> page_aligned (stack_page j)"
  using unat_stack_addr [of "4096 * j"] by (simp add: stack_page_def page_aligned_def)

lemma vaddr_cell:
  assumes "frames_ok s gs fs" "i < 1024 * length gs"
  shows "vaddr s (STACKDATA_ADDRESS + of_nat (4 * i)) = Some (gs ! (i div 1024) + 4 * of_nat (i mod 1024))"
    and "aligned4 (STACKDATA_ADDRESS + of_nat (4 * i))"
proof -
  have j: "i div 1024 < length gs" using assms(2) by (simp add: less_mult_imp_div_less mult.commute)
  then have al: "page_aligned (stack_page (i div 1024))"
    using frames_okD(6) [OF assms(1)] by (intro stack_page_aligned) simp
  let ?o = "of_nat (i mod 1024) :: u32"
  have o: "unat ?o < 1024" by (simp add: order.strict_trans2)
  then have off: "unat (4 * ?o) < 4096" by (simp add: unat_4_times)
  show "aligned4 (STACKDATA_ADDRESS + of_nat (4 * i))"
    unfolding cell_split by (rule slot_aligned4 [OF al o])
  show "vaddr s (STACKDATA_ADDRESS + of_nat (4 * i)) = Some (gs ! (i div 1024) + 4 * ?o)"
    using frames_okD(7) [OF assms(1) j] page_add_parts [OF al off]
      walk_page_cong [OF page_add_parts(1) [OF al off]] paging_okD(5) [OF frames_okD(1) [OF assms(1)]]
      page_add_parts(2) [OF al, of 0]
    unfolding cell_split by (auto simp: xlate_def split: option.splits if_splits)
qed

lemma not_shrinking:
  assumes "frames_ok s gs fs"
  shows "\<not> sint (memphys_stackptr s - memphys_stackend s) div 4 > 4096"
proof -
  let ?d = "4096 * length gs - 4 * length fs"
  note D = frames_okD [OF assms]
  have le: "4 * length fs \<le> 4096 * length gs" "?d \<le> 4194304" using D(5,6) by linarith+
  have "memphys_stackend s = memphys_stackptr s + of_nat ?d"
    using le(1) by (simp only: D(3,4) stack_page_def add.assoc of_nat_add [symmetric] le_add_diff_inverse)
  then have "memphys_stackptr s - memphys_stackend s = - of_nat ?d" by simp
  moreover have "sint (- (of_nat ?d :: u32)) \<le> 0"
  proof (cases "?d = 0")
    case False
    have "sint (- (of_nat ?d :: u32)) = - int ?d"
      using le(2) by (simp add: sint_word_ariths signed_of_nat signed_take_bit_int_eq_self)
    then show ?thesis by simp
  qed simp
  ultimately show ?thesis by simp
qed

lemma memphys_pop_ok:
  assumes "frames_ok s gs (fs @ [f])"
  shows "memphys_pop s = Ret f (s\<lparr>memphys_stackptr := memphys_stackptr s - 4\<rparr>)"
    and "frames_ok (s\<lparr>memphys_stackptr := memphys_stackptr s - 4\<rparr>) gs fs"
proof -
  note D = frames_okD [OF assms]
  have n: "length fs < 1024 * length gs" using D(5) by simp
  have ptr: "memphys_stackptr s - 4 = STACKDATA_ADDRESS + of_nat (4 * length fs)"
    using D(4) by simp
  have "unat (memphys_stackptr s) = 0x300000 + (4 * length fs + 4)"
    using n D(4,6) unat_stack_addr [of "4 * length fs + 4"] by (simp add: ac_simps)
  then have gt: "memphys_stackptr s > memphys_stackbase s"
    by (simp add: D(2) u32_less_iff memmap_values)
  let ?s = "s\<lparr>memphys_stackptr := memphys_stackptr s - 4\<rparr>"
  have v: "vaddr ?s = vaddr s" by (simp add: vaddr_def fun_eq_iff)
  show "memphys_pop s = Ret f ?s"
    using gt not_shrinking [OF assms] vaddr_cell [OF assms n] D(10) [of "length fs"] v ptr
    by (simp add: memphys_pop_def load32_aligned)
  show "frames_ok ?s gs fs"
    using assms n ptr D(10) by (auto simp: frames_ok_def paging_ok_def nth_append split: if_splits)
qed

lemma memphys_pop_empty:
  assumes "frames_ok s gs []"
  shows "memphys_pop s = Stop Panic s"
  using frames_okD [OF assms] by (simp add: memphys_pop_def)

section \<open>Edits of the page tables keep the free frames\<close>

definition table_page :: "pmem \<Rightarrow> u32 \<Rightarrow> u32 \<Rightarrow> bool" where
  "table_page m pd f \<longleftrightarrow> (\<exists>i. unat i < 1024 \<and> table_exists m pd i \<and> table_frame m pd i = f)"

lemma frame_unused_alt:
  "frame_unused m pd f \<longleftrightarrow> page_aligned f \<and> f \<noteq> NULL \<and> \<not> table_page m pd f"
  by (auto simp: frame_unused_def table_page_def)

lemma wr32_slot_other:
  assumes "page_aligned f" "unat i < 1024" "PAGEDOWN a \<noteq> f"
  shows "wr32 m (f + 4 * i) w a = m a"
proof -
  have "a \<noteq> f + 4 * i + of_nat k" if "k < 4" for k
  proof
    assume "a = f + 4 * i + of_nat k"
    then have "ADDR2PAGE a = ADDR2PAGE f" using slot_page [OF assms(1,2) that] by simp
    then have "PAGEDOWN a = f"
      using PAGEDOWN_aligned [OF assms(1)] by (simp add: PAGEDOWN_def ADDR2PAGE_def)
    with assms(3) show False by simp
  qed
  from this [of 0] this [of 1] this [of 2] this [of 3] show ?thesis
    by (simp add: wr32_def)
qed

lemma clear_page_other: "page_aligned f \<Longrightarrow> PAGEDOWN a \<noteq> f \<Longrightarrow> clear_page m f a = m a"
  using page_bytes PAGEDOWN_aligned by (auto simp: clear_page_def PAGEDOWN_def ADDR2PAGE_def)

text \<open>The memory of a frame that holds no table is what decides the cells of the stack.\<close>

lemma frames_okI:
  assumes "frames_ok s gs fs" "paging_ok s'" "paging_curpd s' = paging_curpd s"
    and ptrs: "memphys_stackbase s' = memphys_stackbase s" "memphys_stackend s' = memphys_stackend s"
      "memphys_stackptr s' = memphys_stackptr s"
    and tr: "\<And>j. j < length gs \<Longrightarrow> xlate (phys s') (paging_curpd s) (stack_page j) = xlate (phys s) (paging_curpd s) (stack_page j)"
    and un: "\<And>f. f \<in> set (gs @ fs) \<Longrightarrow> \<not> table_page (phys s') (paging_curpd s) f"
    and mem: "\<And>a. PAGEDOWN a \<in> set gs \<Longrightarrow> phys s' a = phys s a"
  shows "frames_ok s' gs fs"
proof -
  note D = frames_okD [OF assms(1)]
  have "rd32 (phys s') (gs ! (i div 1024) + 4 * of_nat (i mod 1024)) = fs ! i" if i: "i < length fs" for i
  proof -
    have g: "gs ! (i div 1024) \<in> set gs"
      using i D(5) by (intro nth_mem) (simp add: less_mult_imp_div_less mult.commute)
    then have al: "page_aligned (gs ! (i div 1024))" using D(9) by (simp add: frame_unused_def)
    have o: "unat (of_nat (i mod 1024) :: u32) < 1024" by (simp add: order.strict_trans2)
    have "rd32 (phys s') (gs ! (i div 1024) + 4 * of_nat (i mod 1024))
        = rd32 (phys s) (gs ! (i div 1024) + 4 * of_nat (i mod 1024))"
    proof (rule rd32_cong)
      fix k :: nat
      assume "k < 4"
      from slot_page [OF al o this] PAGEDOWN_aligned [OF al] g
      show "phys s' (gs ! (i div 1024) + 4 * of_nat (i mod 1024) + of_nat k)
          = phys s (gs ! (i div 1024) + 4 * of_nat (i mod 1024) + of_nat k)"
        by (intro mem) (simp add: PAGEDOWN_def ADDR2PAGE_def)
    qed
    with D(10) [OF i] show ?thesis by simp
  qed
  moreover have "frame_unused (phys s') (paging_curpd s) f" if "f \<in> set (gs @ fs)" for f
    using un [OF that] D(9) [OF that] by (simp add: frame_unused_alt)
  ultimately show ?thesis
    using D assms(2,3) ptrs tr unfolding frames_ok_def by auto
qed

definition off_stack :: "u32 \<Rightarrow> u32 list \<Rightarrow> bool" where
  "off_stack v gs \<longleftrightarrow> ADDR2PDE v \<noteq> 1023 \<and> (\<forall>j<length gs. ADDR2PAGE (stack_page j) \<noteq> ADDR2PAGE v)"

lemma stack_page_pde: "j < 1024 \<Longrightarrow> ADDR2PDE (stack_page j) \<noteq> 1023"
  using unat_stack_addr [of "4096 * j"] by (simp add: stack_page_def word_unat_eq_iff unat_macros)

lemma xlate_walk_cong: "walk m' pd v = walk m pd v \<Longrightarrow> xlate m' pd v = xlate m pd v"
  by (simp add: xlate_def)

lemma write_pte_frames:
  fixes t :: pte
  assumes fr: "frames_ok s gs fs" and ex: "cur_table s v" and off: "off_stack v gs"
  defines "pd \<equiv> paging_curpd s"
  defines "s' \<equiv> s\<lparr>phys := wr32 (phys s) (table_frame (phys s) pd (ADDR2PDE v) + 4 * ADDR2PTE v) (pte_enc t)\<rparr>"
  shows "frames_ok s' gs fs"
    and "table_page (phys s') pd f = table_page (phys s) pd f"
    and "\<not> table_page (phys s) pd (PAGEDOWN a) \<Longrightarrow> phys s' a = phys s a"
    and "walk (phys s') pd w = (if ADDR2PAGE w = ADDR2PAGE v then Some t else walk (phys s) pd w)"
proof -
  have ok: "pd_ok (phys s) pd" using frames_okD(1) [OF fr] by (simp add: paging_ok_def pd_def)
  have nw: "ADDR2PDE v \<noteq> 1023" using off by (simp add: off_stack_def)
  note W = write_pte [OF ok ex [folded pd_def] nw, of t]
  have s': "phys s' = wr32 (phys s) (table_frame (phys s) pd (ADDR2PDE v) + 4 * ADDR2PTE v) (pte_enc t)"
    "paging_curpd s' = pd" "paging_enabled s' = paging_enabled s" "cr3 s' = cr3 s"
    by (simp_all add: s'_def pd_def)
  show walk: "walk (phys s') pd w = (if ADDR2PAGE w = ADDR2PAGE v then Some t else walk (phys s) pd w)" for w
    using W(2) by (simp add: s')
  have tbl: "table_page (phys s) pd (table_frame (phys s) pd (ADDR2PDE v))"
    using ex ADDR2PDE_lt unfolding table_page_def pd_def by blast
  show mem: "phys s' a = phys s a" if "\<not> table_page (phys s) pd (PAGEDOWN a)" for a
    unfolding s'(1) by (rule wr32_slot_other [OF _ ADDR2PTE_lt]) (use that tbl in auto)
  have neq: "table_frame (phys s) pd (ADDR2PDE v) \<noteq> pd"
    by (rule table_frame_pd [OF ok ADDR2PDE_lt ex [folded pd_def] nw])
  show tp: "table_page (phys s') pd f = table_page (phys s) pd f" for f
    unfolding table_page_def s'(1)
    using table_write_other [OF pd_okD(1) [OF ok] page_aligned_table_frame neq ADDR2PTE_lt] by auto
  have ok': "paging_ok s'"
    using frames_okD(1) [OF fr] W(1) by (simp add: paging_ok_def s' pd_def)
  show "frames_ok s' gs fs"
  proof (rule frames_okI [OF fr ok'])
    fix j assume "j < length gs"
    then show "xlate (phys s') (paging_curpd s) (stack_page j) = xlate (phys s) (paging_curpd s) (stack_page j)"
      using walk off by (intro xlate_walk_cong) (simp add: off_stack_def pd_def)
  next
    fix f assume "f \<in> set (gs @ fs)"
    then show "\<not> table_page (phys s') (paging_curpd s) f"
      using frames_okD(9) [OF fr] tp by (auto simp: frame_unused_alt pd_def)
  next
    fix a assume "PAGEDOWN a \<in> set gs"
    then show "phys s' a = phys s a"
      using frames_okD(9) [OF fr] by (intro mem) (auto simp: frame_unused_alt pd_def)
  qed (simp_all add: s'_def)
qed

lemma add_table_frames:
  fixes s :: "'a mem_scheme"
  assumes fr: "frames_ok s gs fs" and nex: "\<not> cur_table s v" and f: "frame_unused (phys s) (paging_curpd s) f"
    and nf: "f \<notin> set (gs @ fs)"
  defines "pd \<equiv> paging_curpd s"
  defines "s' \<equiv> s\<lparr>phys := clear_page (wr32 (phys s) (pd + 4 * ADDR2PDE v) (pde_enc (new_pde f))) f\<rparr>"
  shows "frames_ok s' gs fs"
    and "cur_table s' v"
    and "table_page (phys s') pd g \<longleftrightarrow> table_page (phys s) pd g \<or> g = f"
    and "\<not> table_page (phys s') pd (PAGEDOWN a) \<Longrightarrow> phys s' a = phys s a"
    and "ADDR2PDE w \<noteq> 1023 \<Longrightarrow> xlate (phys s') pd w = xlate (phys s) pd w"
proof -
  have ok: "pd_ok (phys s) pd" using frames_okD(1) [OF fr] by (simp add: paging_ok_def pd_def)
  have al: "page_aligned f" using f by (simp add: frame_unused_def)
  note A = add_table [OF ok f [folded pd_def] ADDR2PDE_lt nex [folded pd_def] frame_of_new(3) frame_of_new(1) [OF al]]
  have s': "phys s' = clear_page (wr32 (phys s) (pd + 4 * ADDR2PDE v) (pde_enc (new_pde f))) f"
    "paging_curpd s' = pd" "paging_enabled s' = paging_enabled s" "cr3 s' = cr3 s"
    by (simp_all add: s'_def pd_def)
  show "cur_table s' v" using A(1) [OF ADDR2PDE_lt] by (simp add: s')
  show tp: "table_page (phys s') pd g \<longleftrightarrow> table_page (phys s) pd g \<or> g = f" for g
    unfolding table_page_def s'(1) using A(1,2) ADDR2PDE_lt [of v] nex [folded pd_def] by (auto split: if_splits)
  have "table_page (phys s) pd pd"
    using pd_okD [OF ok] unfolding table_page_def by (intro exI [of _ 1023]) simp
  then show mem: "phys s' a = phys s a" if "\<not> table_page (phys s') pd (PAGEDOWN a)" for a
    using that tp al pd_okD(1) [OF ok] unfolding s'(1)
    by (subst clear_page_other) (auto intro!: wr32_slot_other [OF _ ADDR2PDE_lt])
  show xl: "xlate (phys s') pd w = xlate (phys s) pd w" if "ADDR2PDE w \<noteq> 1023" for w
    using A(4) [OF that] nex [folded pd_def] by (auto simp: s' xlate_def walk_alt zero_pte_def)
  have ok': "paging_ok s'"
    using frames_okD(1) [OF fr] A(3) by (simp add: paging_ok_def s' pd_def)
  show "frames_ok s' gs fs"
  proof (rule frames_okI [OF fr ok'])
    fix j assume "j < length gs"
    then show "xlate (phys s') (paging_curpd s) (stack_page j) = xlate (phys s) (paging_curpd s) (stack_page j)"
      using frames_okD(6) [OF fr] by (intro xl [unfolded pd_def] stack_page_pde) simp
  next
    fix g assume "g \<in> set (gs @ fs)"
    then show "\<not> table_page (phys s') (paging_curpd s) g"
      using frames_okD(9) [OF fr] tp nf by (auto simp: frame_unused_alt pd_def)
  next
    fix a assume "PAGEDOWN a \<in> set gs"
    then show "phys s' a = phys s a"
      using frames_okD(9) [OF fr] tp nf by (intro mem) (auto simp: frame_unused_alt pd_def)
  qed (simp_all add: s'_def)
qed

section \<open>Mapping a page in the loaded directory\<close>

abbreviation map_loaded where
  "map_loaded \<equiv> paging_map_with paging_getpde paging_setpde paging_setpte"

lemma map_loaded_present:
  assumes "paging_ok s" "cur_table s v"
  shows "map_loaded v p u w sw c s = Ret 0 (s\<lparr>phys :=
    wr32 (phys s) (table_frame (phys s) (paging_curpd s) (ADDR2PDE v) + 4 * ADDR2PTE v)
      (pte_enc (new_pte p u w sw c))\<rparr>)"
  using assms by (simp add: paging_map_with_def paging_getpde_ok paging_setpte_ok flip: table_exists_def)

lemma map_loaded_absent:
  assumes fr: "frames_ok s gs (fs @ [f])" and nex: "\<not> cur_table s v" and off: "off_stack v gs"
  defines "s1 \<equiv> s\<lparr>memphys_stackptr := memphys_stackptr s - 4,
      phys := clear_page (wr32 (phys s) (paging_curpd s + 4 * ADDR2PDE v) (pde_enc (new_pde f))) f\<rparr>"
  shows "map_loaded v p u w sw c s = map_loaded v p u w sw c s1" (is ?run)
    and "frames_ok s1 gs fs" "cur_table s1 v"
    and "table_page (phys s1) (paging_curpd s) g \<longleftrightarrow> table_page (phys s) (paging_curpd s) g \<or> g = f"
    and "\<not> table_page (phys s1) (paging_curpd s) (PAGEDOWN a) \<Longrightarrow> phys s1 a = phys s a"
    and "ADDR2PDE x \<noteq> 1023 \<Longrightarrow> xlate (phys s1) (paging_curpd s) x = xlate (phys s) (paging_curpd s) x"
proof -
  let ?s = "s\<lparr>memphys_stackptr := memphys_stackptr s - 4\<rparr>"
  let ?pd = "paging_curpd s"
  note pop = memphys_pop_ok [OF fr]
  have f: "frame_unused (phys ?s) (paging_curpd ?s) f" "f \<notin> set (gs @ fs)" "page_aligned f"
    using frames_okD(8,9) [OF fr] by (auto simp: frame_unused_def)
  have nex': "\<not> cur_table ?s v" using nex by simp
  note A = add_table_frames [OF pop(2) nex' f(1,2)]
  show fr1: "frames_ok s1 gs fs" using A(1) by (simp add: s1_def)
  show ex1: "cur_table s1 v" using A(2) by (simp add: s1_def)
  show "table_page (phys s1) ?pd g \<longleftrightarrow> table_page (phys s) ?pd g \<or> g = f"
    "\<not> table_page (phys s1) ?pd (PAGEDOWN a) \<Longrightarrow> phys s1 a = phys s a"
    "ADDR2PDE x \<noteq> 1023 \<Longrightarrow> xlate (phys s1) ?pd x = xlate (phys s) ?pd x"
    using A(3,4,5) by (simp_all add: s1_def)
  let ?t = "?s\<lparr>phys := wr32 (phys s) (?pd + 4 * ADDR2PDE v) (pde_enc (new_pde f))\<rparr>"
  have al: "page_aligned ?pd" by (rule paging_okD(4) [OF frames_okD(1) [OF fr]])
  have pd1: "paging_curpd s1 = ?pd" by (simp add: s1_def)
  have "f \<noteq> ?pd"
    using f(1) frame_unused_pd [OF paging_okD(3) [OF frames_okD(1) [OF fr]], of f] by simp
  then have "ADDR2PAGE f \<noteq> ADDR2PAGE ?pd" using ADDR2PAGE_inj [OF f(3) al] by blast
  then have "\<forall>a. ADDR2PAGE a = ADDR2PAGE ?pd \<longrightarrow> phys ?t a = phys s1 a"
    by (simp add: s1_def clear_page_def)
  note same = directory_page_cong [OF al this]
  have ok: "pd_ok (phys ?t) ?pd"
    using same(4) paging_okD(3) [OF frames_okD(1) [OF fr1]] pd1 by simp
  have ex: "table_exists (phys ?t) ?pd (ADDR2PDE v)"
    using same(2) [OF ADDR2PDE_lt] ex1 pd1 by simp
  have fr_t: "table_frame (phys ?t) ?pd (ADDR2PDE v) = f"
    using f(3) by (simp add: table_frame_def pde_at_def)
  have on: "paging_enabled ?t" "cr3 ?t = ?pd" using paging_okD [OF frames_okD(1) [OF fr]] by simp_all
  have ms: "memset_v 4096 (PAGETABLES_ADDRESS + ADDR2PDE v * PAGE_SIZE) 0 ?t = Ret () s1"
    using memset_window [OF ok on ADDR2PDE_lt ex] off fr_t by (simp add: off_stack_def s1_def)
  have "paging_ok ?s" by (rule frames_okD(1) [OF pop(2)])
  then have "paging_setpde v (new_pde f) ?s = Ret 0 ?t" by (simp add: paging_setpde_ok)
  then show ?run
    using pop(1) ms nex ex1 frames_okD(1) [OF fr] frames_okD(1) [OF fr1]
    by (simp add: paging_map_with_def paging_getpde_ok table_exists_def)
qed

text \<open>What a successful mapping of the page of \<open>v\<close> means.\<close>

definition mapped_to :: "'a mem_scheme \<Rightarrow> u32 \<Rightarrow> pte \<Rightarrow> 'a mem_scheme \<Rightarrow> bool" where
  "mapped_to s v t s' \<longleftrightarrow>
     paging_curpd s' = paging_curpd s \<and>
     paging_physrw_lastpage s' = paging_physrw_lastpage s \<and> paging_physrw_lastpd s' = paging_physrw_lastpd s \<and>
     cur_walk s' v = Some t \<and>
     (\<forall>x. ADDR2PDE x \<noteq> 1023 \<and> ADDR2PAGE x \<noteq> ADDR2PAGE v \<longrightarrow> vaddr s' x = vaddr s x) \<and>
     (\<forall>a. \<not> table_page (phys s') (paging_curpd s) (PAGEDOWN a) \<longrightarrow> phys s' a = phys s a)"

lemma map_loaded_ok:
  assumes fr: "frames_ok s gs fs" and off: "off_stack v gs" and mem: "cur_table s v \<or> fs \<noteq> []"
  shows "\<exists>s'. map_loaded v p u w sw c s = Ret 0 s' \<and> mapped_to s v (new_pte p u w sw c) s' \<and>
    frames_ok s' gs (if cur_table s v then fs else butlast fs) \<and>
    (\<forall>f. table_page (phys s') (paging_curpd s) f \<longleftrightarrow>
         table_page (phys s) (paging_curpd s) f \<or> \<not> cur_table s v \<and> f = last fs)"
proof (cases "cur_table s v")
  case True
  let ?s' = "s\<lparr>phys := wr32 (phys s) (table_frame (phys s) (paging_curpd s) (ADDR2PDE v) + 4 * ADDR2PTE v)
      (pte_enc (new_pte p u w sw c))\<rparr>"
  note W = write_pte_frames [OF fr True off, where t = "new_pte p u w sw c"]
  have "vaddr ?s' x = vaddr s x" if "ADDR2PAGE x \<noteq> ADDR2PAGE v" for x
    using W(4) [of x] that paging_okD(5) [OF frames_okD(1) [OF fr]] paging_okD(5) [OF frames_okD(1) [OF W(1)]]
    by (simp add: xlate_def)
  then have "mapped_to s v (new_pte p u w sw c) ?s'"
    using W(2,3,4) by (simp add: mapped_to_def)
  with W(1,2) True show ?thesis
    by (simp add: map_loaded_present [OF frames_okD(1) [OF fr] True])
next
  case False
  with mem obtain fs' f where fs: "fs = fs' @ [f]" by (cases fs rule: rev_cases) auto
  let ?s1 = "s\<lparr>memphys_stackptr := memphys_stackptr s - 4,
      phys := clear_page (wr32 (phys s) (paging_curpd s + 4 * ADDR2PDE v) (pde_enc (new_pde f))) f\<rparr>"
  note A = map_loaded_absent [OF fr [unfolded fs] False off]
  let ?s' = "?s1\<lparr>phys := wr32 (phys ?s1) (table_frame (phys ?s1) (paging_curpd ?s1) (ADDR2PDE v) + 4 * ADDR2PTE v)
      (pte_enc (new_pte p u w sw c))\<rparr>"
  note W = write_pte_frames [OF A(2,3) off, where t = "new_pte p u w sw c"]
  have "vaddr ?s' x = vaddr s x" if "ADDR2PAGE x \<noteq> ADDR2PAGE v" "ADDR2PDE x \<noteq> 1023" for x
    using W(4) [of x] A(6) [of x] that paging_okD(5) [OF frames_okD(1) [OF fr]] paging_okD(5) [OF frames_okD(1) [OF W(1)]]
    by (simp add: xlate_def)
  moreover have "phys ?s' a = phys s a" if "\<not> table_page (phys ?s') (paging_curpd s) (PAGEDOWN a)" for a
    using W(2) [of "PAGEDOWN a"] W(3) [of a] A(5) [of a] that by simp
  ultimately have "mapped_to s v (new_pte p u w sw c) ?s'"
    using W(4) [of v] by (simp add: mapped_to_def)
  moreover have "map_loaded v p u w sw c s = Ret 0 ?s'"
    using A(1) map_loaded_present [OF frames_okD(1) [OF A(2)] A(3)] by simp
  moreover have "table_page (phys ?s') (paging_curpd s) g \<longleftrightarrow>
      table_page (phys s) (paging_curpd s) g \<or> g = f" for g
    using W(2) [of g] A(4) [of g] by simp
  ultimately show ?thesis using W(1) False fs by auto
qed

lemma map_loaded_oom:
  assumes "frames_ok s gs []" "\<not> cur_table s v"
  shows "map_loaded v p u w sw c s = Stop Panic s"
  using assms memphys_pop_empty [OF assms(1)] frames_okD(1) [OF assms(1)]
  by (simp add: paging_map_with_def paging_getpde_ok table_exists_def)

section \<open>Memory outside the page tables\<close>

lemma table_page_pd: "pd_ok m pd \<Longrightarrow> table_page m pd pd"
  using pd_okD unfolding table_page_def by (intro exI [of _ 1023]) simp

text \<open>Writes to frames that hold no table do not change the translation.\<close>

lemma walk_data_cong:
  assumes ok: "pd_ok m pd" and eq: "\<And>a. table_page m pd (PAGEDOWN a) \<Longrightarrow> m' a = m a"
  shows "pd_ok m' pd" "walk m' pd v = walk m pd v" "table_page m' pd f = table_page m pd f"
    "table_exists m' pd (ADDR2PDE v) = table_exists m pd (ADDR2PDE v)"
proof -
  have al: "page_aligned pd" by (rule pd_okD(1) [OF ok])
  have page: "PAGEDOWN a = g" if "ADDR2PAGE a = ADDR2PAGE g" "page_aligned g" for a g
    using that PAGEDOWN_aligned [OF that(2)] by (simp add: PAGEDOWN_def ADDR2PAGE_def)
  have "\<forall>a. ADDR2PAGE a = ADDR2PAGE pd \<longrightarrow> m' a = m a"
    using eq table_page_pd [OF ok] page [OF _ al] by auto
  note same = directory_page_cong [OF al this]
  show "pd_ok m' pd" using ok same(4) by simp
  show "table_page m' pd f = table_page m pd f" using same by (auto simp: table_page_def)
  show "table_exists m' pd (ADDR2PDE v) = table_exists m pd (ADDR2PDE v)" using same(2) [OF ADDR2PDE_lt] .
  show "walk m' pd v = walk m pd v"
  proof (cases "table_exists m pd (ADDR2PDE v)")
    case True
    let ?f = "table_frame m pd (ADDR2PDE v)"
    have "table_page m pd ?f" using True ADDR2PDE_lt unfolding table_page_def by blast
    then have "rd32 m' (?f + 4 * ADDR2PTE v) = rd32 m (?f + 4 * ADDR2PTE v)"
      using eq page [OF slot_page [OF _ ADDR2PTE_lt]] by (intro rd32_cong) simp
    then show ?thesis
      using same(2,3) [OF ADDR2PDE_lt] by (simp add: walk_alt pte_at_def)
  next
    case False
    then show ?thesis using same(2) [OF ADDR2PDE_lt] by (simp add: walk_alt)
  qed
qed

lemma frames_ok_data:
  assumes fr: "frames_ok s gs fs"
    and eq: "\<And>a. table_page (phys s) (paging_curpd s) (PAGEDOWN a) \<or> PAGEDOWN a \<in> set gs \<Longrightarrow> m' a = phys s a"
  shows "frames_ok (s\<lparr>phys := m'\<rparr>) gs fs" "vaddr (s\<lparr>phys := m'\<rparr>) x = vaddr s x"
    "cur_walk (s\<lparr>phys := m'\<rparr>) x = cur_walk s x"
    "table_page m' (paging_curpd s) f = table_page (phys s) (paging_curpd s) f"
proof -
  let ?s = "s\<lparr>phys := m'\<rparr>"
  have ok: "pd_ok (phys s) (paging_curpd s)" by (rule paging_okD(3) [OF frames_okD(1) [OF fr]])
  have eq': "m' a = phys s a" if "table_page (phys s) (paging_curpd s) (PAGEDOWN a)" for a
    using eq that by blast
  note W = walk_data_cong [of "phys s" "paging_curpd s" m', OF ok eq']
  have ok': "paging_ok ?s" using W(1) frames_okD(1) [OF fr] by (simp add: paging_ok_def)
  show "cur_walk ?s x = cur_walk s x" using W(2) by simp
  show "table_page m' (paging_curpd s) f = table_page (phys s) (paging_curpd s) f" using W(3) by simp
  show "vaddr ?s x = vaddr s x"
    using W(2) paging_okD(5) [OF ok'] paging_okD(5) [OF frames_okD(1) [OF fr]] by (simp add: xlate_def)
  show "frames_ok ?s gs fs"
  proof (rule frames_okI [OF fr ok'])
    fix f assume "f \<in> set (gs @ fs)"
    then show "\<not> table_page (phys ?s) (paging_curpd s) f"
      using frames_okD(9) [OF fr] W(3) by (simp add: frame_unused_alt)
  qed (use W(2) eq in \<open>simp_all add: xlate_def\<close>)
qed

section \<open>The buffer page\<close>

text \<open>
  The cache of the buffer page is right: when it was last used with the loaded directory, it
  still maps the remembered frame.
\<close>

definition buf_ok :: "'a mem_scheme \<Rightarrow> bool" where
  "buf_ok s \<longleftrightarrow> (paging_physrw_lastpd s = paging_curpd s \<longrightarrow>
     vaddr s BUFPAGE_ADDRESS = Some (paging_physrw_lastpage s))"

lemma off_stack_BUFPAGE: "length gs \<le> 1024 \<Longrightarrow> off_stack BUFPAGE_ADDRESS gs"
proof -
  assume le: "length gs \<le> 1024"
  have "ADDR2PAGE (stack_page j) \<noteq> ADDR2PAGE BUFPAGE_ADDRESS" if "j < length gs" for j
    using unat_stack_addr [of "4096 * j"] that le
    by (simp add: stack_page_def word_unat_eq_iff unat_macros memmap_values)
  then show ?thesis
    by (simp add: off_stack_def word_unat_eq_iff unat_macros memmap_values)
qed

lemma BUFPAGE_aligned [simp]: "page_aligned BUFPAGE_ADDRESS"
  by (simp add: page_aligned_def memmap_values)

lemma vaddr_page_offset:
  assumes "paging_ok s" "page_aligned v" "unat off < 4096" "vaddr s v = Some p"
  shows "vaddr s (v + off) = Some (p + off)"
  using assms(4) page_add_parts [OF assms(2,3)] walk_page_cong [OF page_add_parts(1) [OF assms(2,3)]]
    page_add_parts(2) [OF assms(2), of 0]
  by (auto simp: paging_okD(5) [OF assms(1)] xlate_def split: option.splits if_splits)

text \<open>The step the three users of the buffer page share: put a frame under it.\<close>

lemma map_buffer:
  assumes fr: "frames_ok s gs fs" and mem: "cur_table s BUFPAGE_ADDRESS \<or> fs \<noteq> []" and al: "page_aligned p"
  shows "\<exists>s'. paging_map BUFPAGE_ADDRESS p 0 1 s = Ret 0 s' \<and>
    frames_ok s' gs (if cur_table s BUFPAGE_ADDRESS then fs else butlast fs) \<and>
    paging_curpd s' = paging_curpd s \<and> vaddr s' BUFPAGE_ADDRESS = Some p \<and>
    (\<forall>x. ADDR2PDE x \<noteq> 1023 \<and> ADDR2PAGE x \<noteq> ADDR2PAGE BUFPAGE_ADDRESS \<longrightarrow> vaddr s' x = vaddr s x) \<and>
    (\<forall>a. \<not> table_page (phys s') (paging_curpd s) (PAGEDOWN a) \<longrightarrow> phys s' a = phys s a) \<and>
    (\<forall>f. table_page (phys s') (paging_curpd s) f \<longrightarrow> table_page (phys s) (paging_curpd s) f \<or> f \<in> set fs)"
proof -
  from map_loaded_ok [OF fr off_stack_BUFPAGE [OF frames_okD(6) [OF fr]] mem, of p 0 1 0 0] obtain s' where
    s': "map_loaded BUFPAGE_ADDRESS p 0 1 0 0 s = Ret 0 s'"
    "mapped_to s BUFPAGE_ADDRESS (new_pte p 0 1 0 0) s'"
    "frames_ok s' gs (if cur_table s BUFPAGE_ADDRESS then fs else butlast fs)"
    "\<And>f. table_page (phys s') (paging_curpd s) f \<Longrightarrow>
         table_page (phys s) (paging_curpd s) f \<or> \<not> cur_table s BUFPAGE_ADDRESS \<and> f = last fs"
    by blast
  have wk: "cur_walk s' BUFPAGE_ADDRESS = Some (new_pte p 0 1 0 0)"
    using s'(2) unfolding mapped_to_def by blast
  have "vaddr s' BUFPAGE_ADDRESS = Some p"
    using wk al paging_okD(5) [OF frames_okD(1) [OF s'(3)]] page_add_parts(2) [of BUFPAGE_ADDRESS 0]
    by (simp add: xlate_def)
  moreover have "table_page (phys s) (paging_curpd s) f \<or> f \<in> set fs"
    if "table_page (phys s') (paging_curpd s) f" for f
    using s'(4) [OF that] mem by auto
  ultimately show ?thesis
    using s' by (auto simp: paging_map_def mapped_to_def)
qed

lemma page_range:
  assumes "unat (PAGEOFF a) + n \<le> 4096" "k < n"
  shows "unat (PAGEOFF a + of_nat k) < 4096" "PAGEDOWN (a + of_nat k) = PAGEDOWN a"
    "PAGEDOWN a + (PAGEOFF a + of_nat k) = a + of_nat k"
proof -
  show lt: "unat (PAGEOFF a + of_nat k) < 4096"
    using assms by (simp add: unat_plus_u32)
  show eq: "PAGEDOWN a + (PAGEOFF a + of_nat k) = a + of_nat k"
    by (metis PAGEDOWN_PAGEOFF add.assoc)
  show "PAGEDOWN (a + of_nat k) = PAGEDOWN a"
    using page_add_parts(1) [OF page_aligned_PAGEDOWN lt, of a] PAGEDOWN_aligned [OF page_aligned_PAGEDOWN, of a]
    unfolding eq by (simp add: PAGEDOWN_def ADDR2PAGE_def)
qed

lemma buffer_addr:
  assumes ok: "paging_ok s" and buf: "vaddr s BUFPAGE_ADDRESS = Some (PAGEDOWN a)"
    and n: "unat (PAGEOFF a) + n \<le> 4096" "k < n"
  shows "vaddr s (BUFPAGE_ADDRESS + PAGEOFF a + of_nat k) = Some (a + of_nat k)"
  using vaddr_page_offset [OF ok BUFPAGE_aligned page_range(1) [OF n] buf] page_range(3) [OF n]
  by (simp add: add.assoc)

text \<open>The state in which the bytes are copied.\<close>

lemma prepare_buffer:
  assumes fr: "frames_ok s gs fs" and buf: "buf_ok s" and mem: "cur_table s BUFPAGE_ADDRESS \<or> fs \<noteq> []"
    and al: "page_aligned p"
  shows "\<exists>s' fs'. (if p \<noteq> paging_physrw_lastpage s \<or> paging_curpd s \<noteq> paging_physrw_lastpd s then
             bindr (paging_map BUFPAGE_ADDRESS p 0 1 s) (\<lambda>r s.
               if r <s 0 then Ret False s
               else Ret True (s\<lparr>paging_physrw_lastpage := p, paging_physrw_lastpd := paging_curpd s\<rparr>))
           else Ret True s) = Ret True s' \<and>
    frames_ok s' gs fs' \<and> set fs' \<subseteq> set fs \<and> buf_ok s' \<and> paging_curpd s' = paging_curpd s \<and>
    vaddr s' BUFPAGE_ADDRESS = Some p \<and>
    (\<forall>x. ADDR2PDE x \<noteq> 1023 \<and> ADDR2PAGE x \<noteq> ADDR2PAGE BUFPAGE_ADDRESS \<longrightarrow> vaddr s' x = vaddr s x) \<and>
    (\<forall>a. \<not> table_page (phys s) (paging_curpd s) (PAGEDOWN a) \<and> PAGEDOWN a \<notin> set fs \<longrightarrow> phys s' a = phys s a) \<and>
    (\<forall>f. table_page (phys s') (paging_curpd s) f \<longrightarrow> table_page (phys s) (paging_curpd s) f \<or> f \<in> set fs)"
proof (cases "p \<noteq> paging_physrw_lastpage s \<or> paging_curpd s \<noteq> paging_physrw_lastpd s")
  case False
  with fr buf show ?thesis by (intro exI [of _ s] exI [of _ fs]) (auto simp: buf_ok_def)
next
  case True
  from map_buffer [OF fr mem al] obtain s1 fs1 where s1:
    "paging_map BUFPAGE_ADDRESS p 0 1 s = Ret 0 s1" "frames_ok s1 gs fs1" "set fs1 \<subseteq> set fs"
    "paging_curpd s1 = paging_curpd s" "vaddr s1 BUFPAGE_ADDRESS = Some p"
    "\<And>x. ADDR2PDE x \<noteq> 1023 \<and> ADDR2PAGE x \<noteq> ADDR2PAGE BUFPAGE_ADDRESS \<Longrightarrow> vaddr s1 x = vaddr s x"
    "\<And>a. \<not> table_page (phys s1) (paging_curpd s) (PAGEDOWN a) \<Longrightarrow> phys s1 a = phys s a"
    "\<And>f. table_page (phys s1) (paging_curpd s) f \<Longrightarrow> table_page (phys s) (paging_curpd s) f \<or> f \<in> set fs"
    by (auto dest: in_set_butlastD split: if_splits)
  let ?s = "s1\<lparr>paging_physrw_lastpage := p, paging_physrw_lastpd := paging_curpd s1\<rparr>"
  have v: "vaddr ?s = vaddr s1" by (simp add: vaddr_def fun_eq_iff)
  have "frames_ok ?s gs fs1" using s1(2) by (simp add: frames_ok_def paging_ok_def)
  moreover have "buf_ok ?s" using s1(5) v by (simp add: buf_ok_def)
  ultimately show ?thesis
    using True s1 v by (intro exI [of _ ?s] exI [of _ fs1]) auto
qed

lemma paging_physread_ok:
  assumes fr: "frames_ok s gs fs" and buf: "buf_ok s" and mem: "cur_table s BUFPAGE_ADDRESS \<or> fs \<noteq> []"
    and n: "unat (PAGEOFF src) + unat count \<le> 4096"
    and data: "\<not> table_page (phys s) (paging_curpd s) (PAGEDOWN src)" "PAGEDOWN src \<notin> set fs"
  shows "\<exists>s' fs'. paging_physread src count s = Ret (map (\<lambda>k. phys s (src + of_nat k)) [0..<unat count]) s' \<and>
    frames_ok s' gs fs' \<and> set fs' \<subseteq> set fs \<and> buf_ok s' \<and> paging_curpd s' = paging_curpd s \<and>
    (\<forall>a. \<not> table_page (phys s) (paging_curpd s) (PAGEDOWN a) \<and> PAGEDOWN a \<notin> set fs \<longrightarrow> phys s' a = phys s a)"
proof -
  from prepare_buffer [OF fr buf mem page_aligned_PAGEDOWN, of src] obtain s' fs' where s':
    "(if PAGEDOWN src \<noteq> paging_physrw_lastpage s \<or> paging_curpd s \<noteq> paging_physrw_lastpd s then
        bindr (paging_map BUFPAGE_ADDRESS (PAGEDOWN src) 0 1 s) (\<lambda>r s.
          if r <s 0 then Ret False s
          else Ret True (s\<lparr>paging_physrw_lastpage := PAGEDOWN src, paging_physrw_lastpd := paging_curpd s\<rparr>))
      else Ret True s) = Ret True s'"
    "frames_ok s' gs fs'" "set fs' \<subseteq> set fs" "buf_ok s'" "paging_curpd s' = paging_curpd s"
    "vaddr s' BUFPAGE_ADDRESS = Some (PAGEDOWN src)"
    "\<And>a. \<not> table_page (phys s) (paging_curpd s) (PAGEDOWN a) \<and> PAGEDOWN a \<notin> set fs \<Longrightarrow> phys s' a = phys s a"
    by blast
  have "load_bytes (unat count) (BUFPAGE_ADDRESS + PAGEOFF src) s'
      = Ret (map (\<lambda>k. phys s' (src + of_nat k)) [0..<unat count]) s'"
    by (rule load_bytes_mapped, rule buffer_addr [OF frames_okD(1) [OF s'(2)] s'(6) n])
  moreover have "phys s' (src + of_nat k) = phys s (src + of_nat k)" if "k < unat count" for k
    using s'(7) data page_range(2) [OF n that] by simp
  ultimately have "paging_physread src count s = Ret (map (\<lambda>k. phys s (src + of_nat k)) [0..<unat count]) s'"
    unfolding paging_physread_def Let_def s'(1) by simp
  with s' show ?thesis by blast
qed

lemma paging_physwrite_ok:
  assumes fr: "frames_ok s gs fs" and mem: "cur_table s BUFPAGE_ADDRESS \<or> fs \<noteq> []"
    and n: "unat (PAGEOFF dest) + length bs \<le> 4096"
    and data: "\<not> table_page (phys s) (paging_curpd s) (PAGEDOWN dest)" "PAGEDOWN dest \<notin> set (gs @ fs)"
  shows "\<exists>s' fs'. paging_physwrite dest bs s = Ret (of_nat (length bs)) s' \<and>
    frames_ok s' gs fs' \<and> set fs' \<subseteq> set fs \<and> buf_ok s' \<and> paging_curpd s' = paging_curpd s \<and>
    cur_table s' BUFPAGE_ADDRESS \<and>
    (\<forall>f. table_page (phys s') (paging_curpd s) f \<longrightarrow> table_page (phys s) (paging_curpd s) f \<or> f \<in> set fs) \<and>
    (\<forall>k<length bs. phys s' (dest + of_nat k) = bs ! k) \<and>
    (\<forall>a. \<not> table_page (phys s) (paging_curpd s) (PAGEDOWN a) \<and> PAGEDOWN a \<notin> set fs \<and>
         (\<forall>k<length bs. a \<noteq> dest + of_nat k) \<longrightarrow> phys s' a = phys s a)"
proof -
  from map_buffer [OF fr mem page_aligned_PAGEDOWN, of dest] obtain s1 fs1 where s1:
    "paging_map BUFPAGE_ADDRESS (PAGEDOWN dest) 0 1 s = Ret 0 s1" "frames_ok s1 gs fs1" "set fs1 \<subseteq> set fs"
    "paging_curpd s1 = paging_curpd s" "vaddr s1 BUFPAGE_ADDRESS = Some (PAGEDOWN dest)"
    "\<And>a. \<not> table_page (phys s1) (paging_curpd s) (PAGEDOWN a) \<Longrightarrow> phys s1 a = phys s a"
    "\<And>f. table_page (phys s1) (paging_curpd s) f \<Longrightarrow> table_page (phys s) (paging_curpd s) f \<or> f \<in> set fs"
    by (auto dest: in_set_butlastD split: if_splits)
  let ?s = "s1\<lparr>paging_physrw_lastpage := PAGEDOWN dest, paging_physrw_lastpd := paging_curpd s1\<rparr>"
  have v: "vaddr ?s = vaddr s1" by (simp add: vaddr_def fun_eq_iff)
  have fr2: "frames_ok ?s gs fs1" using s1(2) by (simp add: frames_ok_def paging_ok_def)
  have nt: "\<not> table_page (phys ?s) (paging_curpd ?s) (PAGEDOWN dest)" "PAGEDOWN dest \<notin> set gs"
    using s1(4) s1(7) [of "PAGEDOWN dest"] data by auto
  have keep: "m' a = phys ?s a"
    if "\<forall>a. (\<forall>k<length bs. a \<noteq> dest + of_nat k) \<longrightarrow> m' a = phys ?s a"
      and "table_page (phys ?s) (paging_curpd ?s) (PAGEDOWN a) \<or> PAGEDOWN a \<in> set gs" for m' a
    using that nt page_range(2) [OF n] by metis
  let ?m = "upd_bytes (phys ?s) dest bs"
  have "store_bytes bs (BUFPAGE_ADDRESS + PAGEOFF dest) ?s = Ret () (?s\<lparr>phys := ?m\<rparr>)"
  proof (rule store_bytes_mapped)
    fix m' :: pmem and k :: nat
    assume m': "\<forall>a. (\<forall>k<length bs. a \<noteq> dest + of_nat k) \<longrightarrow> m' a = phys ?s a" and k: "k < length bs"
    have "vaddr (?s\<lparr>phys := m'\<rparr>) x = vaddr ?s x" for x
      by (rule frames_ok_data(2) [OF fr2 keep [OF m']])
    then show "vaddr (?s\<lparr>phys := m'\<rparr>) (BUFPAGE_ADDRESS + PAGEOFF dest + of_nat k) = Some (dest + of_nat k)"
      using buffer_addr [OF frames_okD(1) [OF fr2] _ n k] s1(5) v by simp
  qed
  then have run: "paging_physwrite dest bs s = Ret (of_nat (length bs)) (?s\<lparr>phys := ?m\<rparr>)"
    using s1(1) by (simp add: paging_physwrite_def Let_def)
  have out: "\<forall>a. (\<forall>k<length bs. a \<noteq> dest + of_nat k) \<longrightarrow> ?m a = phys ?s a"
    by (auto intro: upd_bytes_other)
  note D = frames_ok_data [OF fr2 keep [OF out]]
  have "buf_ok (?s\<lparr>phys := ?m\<rparr>)" using D(2) s1(5) v by (simp add: buf_ok_def)
  moreover have "cur_table (?s\<lparr>phys := ?m\<rparr>) BUFPAGE_ADDRESS"
    using D(2) [of BUFPAGE_ADDRESS] s1(5) v paging_okD(5) [OF frames_okD(1) [OF D(1)]]
    by (auto simp: xlate_def walk_alt split: if_splits)
  moreover have "?m (dest + of_nat k) = bs ! k" if "k < length bs" for k
    using upd_bytes_nth [OF _ that] n by simp
  moreover have "?m a = phys s a" if "\<not> table_page (phys s) (paging_curpd s) (PAGEDOWN a)" "PAGEDOWN a \<notin> set fs"
    "\<forall>k<length bs. a \<noteq> dest + of_nat k" for a
    using out s1(6) [of a] s1(7) [of "PAGEDOWN a"] that by auto
  ultimately show ?thesis
    using run D(1,4) s1 by (intro exI [of _ "?s\<lparr>phys := ?m\<rparr>"] exI [of _ fs1]) simp
qed

end
