(* ===== verification/MemPhys.thy ===== *)
theory MemPhys
  imports PagingInv
begin

text \<open>
  \<open>kernel2/memphys.c\<close> and the part of \<open>kernel2/multiboot.c\<close> it starts from: the memory map of
  the boot loader, the stack of free frames, and the bitmap of pages for DMA below 16 MB.
  \<open>memphys_pop\<close> is in the theory of paging, which calls it.
\<close>

unbundle bit_operations_syntax

section \<open>The multiboot structures\<close>

text \<open>Fields are read from memory at their offset in the packed structures.\<close>

definition multiboot_init :: "u32 \<Rightarrow> 'a mem_scheme \<Rightarrow> (u32, 'a mem_scheme) res" where
  "multiboot_init mbi s = Ret 0 (s\<lparr>multiboot_info := mbi\<rparr>)"

definition mbi_field :: "u32 \<Rightarrow> 'a mem_scheme \<Rightarrow> (u32, 'a mem_scheme) res" where
  "mbi_field off s = load32 (multiboot_info s + off) s"

definition multiboot_get_memlower :: "'a mem_scheme \<Rightarrow> (u32, 'a mem_scheme) res" where
  "multiboot_get_memlower s = bindr (mbi_field 4 s) (\<lambda>n. Ret (n * KBYTES))"

definition multiboot_get_memupper :: "'a mem_scheme \<Rightarrow> (u32, 'a mem_scheme) res" where
  "multiboot_get_memupper s = bindr (mbi_field 8 s) (\<lambda>n. Ret (n * KBYTES))"

definition multiboot_get_bootdev :: "'a mem_scheme \<Rightarrow> (u32, 'a mem_scheme) res" where
  "multiboot_get_bootdev s = mbi_field 12 s"

definition multiboot_get_cmdline :: "'a mem_scheme \<Rightarrow> (u32, 'a mem_scheme) res" where
  "multiboot_get_cmdline s = mbi_field 16 s"

text \<open>The module's start, name and size; \<open>None\<close> is the NULL result.\<close>

definition multiboot_get_mod :: "u32 \<Rightarrow> 'a mem_scheme \<Rightarrow> ((u32 \<times> u32 \<times> u32) option, 'a mem_scheme) res" where
  "multiboot_get_mod i s =
     bindr (mbi_field 20 s) (\<lambda>cnt s.
       if i \<ge> cnt then Ret None s
       else bindr (mbi_field 24 s) (\<lambda>base s. let m = base + 16 * i in
            bindr (load32 (m + 8) s) (\<lambda>name s.
            bindr (load32 (m + 4) s) (\<lambda>mend s.
            bindr (load32 m s) (\<lambda>mstart s. Ret (Some (mstart, name, mend - mstart)) s)))))"

definition multiboot_get_bootloader :: "'a mem_scheme \<Rightarrow> (u32, 'a mem_scheme) res" where
  "multiboot_get_bootloader s = mbi_field 64 s"

text \<open>
  The loop of \<open>multiboot_get_mmap\<close> counts up to the item asked for, so the recursion is on
  the number of entries still to skip. An entry is \<open>(base, length, type)\<close>.
\<close>

fun mmap_walk :: "nat \<Rightarrow> u32 \<Rightarrow> u32 \<Rightarrow> 'a mem_scheme \<Rightarrow> ((u32 \<times> u32 \<times> u32) option, 'a mem_scheme) res" where
  "mmap_walk n mmap stop s =
     (if \<not> mmap < stop then Ret None s
      else case n of
        0 \<Rightarrow> bindr (load32 (mmap + 4) s) (\<lambda>base s.
             bindr (load32 (mmap + 12) s) (\<lambda>len s.
             bindr (load32 (mmap + 20) s) (\<lambda>typ. Ret (Some (base, len, typ)))))
      | Suc k \<Rightarrow> bindr (load32 mmap s) (\<lambda>size. mmap_walk k (mmap + size + 4) stop))"

declare mmap_walk.simps [simp del]

definition multiboot_get_mmap :: "u32 \<Rightarrow> 'a mem_scheme \<Rightarrow> ((u32 \<times> u32 \<times> u32) option, 'a mem_scheme) res" where
  "multiboot_get_mmap item s =
     bindr (mbi_field 0 s) (\<lambda>flags s.
       if flags AND push_bit 6 1 = 0 then Ret None s
       else bindr (mbi_field 48 s) (\<lambda>addr s.
            bindr (mbi_field 44 s) (\<lambda>len. mmap_walk (unat item) addr (addr + len))))"

section \<open>The stack of free frames\<close>

definition memphys_push :: "u32 \<Rightarrow> 'a mem_scheme \<Rightarrow> (unit, 'a mem_scheme) res" where
  "memphys_push addr s =
     (if addr = NULL then Ret () s
      else if memphys_stackptr s = memphys_stackend s then
        bindr (paging_map (memphys_stackend s) addr 0 1 s) (\<lambda>r s.
          if r <s 0 then Stop Panic s
          else Ret () (s\<lparr>memphys_stackend := memphys_stackend s + PAGE_SIZE\<rparr>))
      else
        bindr (store32 (memphys_stackptr s) addr s) (\<lambda>_ s.
          Ret () (s\<lparr>memphys_stackptr := memphys_stackptr s + 4\<rparr>)))"

definition memphys_memleft :: "'a mem_scheme \<Rightarrow> u32" where
  "memphys_memleft s = (memphys_stackptr s - memphys_stackbase s) * PAGE_SIZE div 4"

text \<open>The pages of one entry of the memory map: \<open>n\<close> pages from \<open>addr\<close> on.\<close>

fun memphys_push_region :: "nat \<Rightarrow> u32 \<Rightarrow> 'a mem_scheme \<Rightarrow> (unit, 'a mem_scheme) res" where
  "memphys_push_region 0 addr s = Ret () s"
| "memphys_push_region (Suc n) addr s =
     bindr (if addr \<ge> FREEPHYS_ADDRESS then memphys_push addr s else Ret () s)
       (\<lambda>_. memphys_push_region n (addr + PAGE_SIZE))"

text \<open>The memory map comes from the boot loader; \<open>fuel\<close> bounds its entries.\<close>

fun memphys_init_loop :: "nat \<Rightarrow> u32 \<Rightarrow> 'a mem_scheme \<Rightarrow> (unit, 'a mem_scheme) res" where
  "memphys_init_loop 0 i s = Stop Diverge s"
| "memphys_init_loop (Suc fuel) i s =
     bindr (multiboot_get_mmap i s) (\<lambda>entry s.
       case entry of None \<Rightarrow> Ret () s
       | Some (addr, len, typ) \<Rightarrow>
           bindr (if typ = 1 then memphys_push_region (unat (len div PAGE_SIZE)) addr s else Ret () s)
             (\<lambda>_. memphys_init_loop fuel (i + 1)))"

definition memphys_init :: "nat \<Rightarrow> 'a mem_scheme \<Rightarrow> (u32, 'a mem_scheme) res" where
  "memphys_init fuel s =
     bindr (multiboot_get_memlower s) (\<lambda>a s.
     bindr (multiboot_get_memlower s) (\<lambda>b s.
     bindr (memphys_init_loop fuel 0
              (s\<lparr>memphys_memory := a + b, memphys_stackbase := STACKDATA_ADDRESS,
                 memphys_stackend := STACKDATA_ADDRESS, memphys_stackptr := STACKDATA_ADDRESS\<rparr>))
       (\<lambda>_. Ret 0)))"

section \<open>Pages for DMA\<close>

definition MEMPHYS_DMALIMIT :: u32 where "MEMPHYS_DMALIMIT = 16 * MBYTES"

text \<open>
  The bitmap is an array of \<open>int\<close>. Initialisation fills it bytewise; both fills end at a
  multiple of four bytes.
\<close>

definition memphys_dma_init :: "'a mem_scheme \<Rightarrow> (u32, 'a mem_scheme) res" where
  "memphys_dma_init s =
     (let size = MEMPHYS_DMALIMIT div (PAGE_SIZE * 8); used = FREEPHYS_ADDRESS div (PAGE_SIZE * 8)
      in Ret 0 (s\<lparr>memphys_dma_bitmap_size := size,
                  memphys_dma_bitmap := \<lambda>i. if i < used div 4 then -1 else if i < size div 4 then 0
                                            else memphys_dma_bitmap s i\<rparr>))"

definition dma_used :: "(u32 \<Rightarrow> u32) \<Rightarrow> u32 \<Rightarrow> bool" where
  "dma_used b i \<longleftrightarrow> b (i div 32) AND push_bit (unat (i mod 32)) 1 \<noteq> 0"

definition dma_set :: "(u32 \<Rightarrow> u32) \<Rightarrow> u32 \<Rightarrow> u32 \<Rightarrow> u32" where
  "dma_set b i = b(i div 32 := b (i div 32) OR push_bit (unat (i mod 32)) 1)"

text \<open>The inner loop \<open>for (j = i-(found-1); j <= i; j++)\<close>, entered with its first index; it runs
  \<open>found\<close> times.\<close>

fun dma_mark :: "nat \<Rightarrow> u32 \<Rightarrow> (u32 \<Rightarrow> u32) \<Rightarrow> u32 \<Rightarrow> u32" where
  "dma_mark 0 j b = b"
| "dma_mark (Suc n) j b = dma_mark n (j + 1) (dma_set b j)"

text \<open>The outer loop with \<open>k\<close> indices to go.\<close>

fun dma_search :: "nat \<Rightarrow> u32 \<Rightarrow> u32 \<Rightarrow> u32 \<Rightarrow> (u32 \<Rightarrow> u32) \<Rightarrow> u32 \<times> (u32 \<Rightarrow> u32)" where
  "dma_search 0 i found pages b = (NULL, b)"
| "dma_search (Suc k) i found pages b =
     (let found = (if \<not> dma_used b i then found + 1 else 0) in
      if found = pages then
        ((i - (found - 1)) * PAGE_SIZE, dma_mark (unat found) (i - (found - 1)) b)
      else dma_search k (i + 1) found pages b)"

definition memphys_dma_alloc :: "u32 \<Rightarrow> 'a mem_scheme \<Rightarrow> (u32, 'a mem_scheme) res" where
  "memphys_dma_alloc pages s =
     (let (r, b) = dma_search (unat (MEMPHYS_DMALIMIT div PAGE_SIZE)) 0 0 pages (memphys_dma_bitmap s)
      in Ret r (s\<lparr>memphys_dma_bitmap := b\<rparr>))"

definition memphys_dma_free :: "u32 \<Rightarrow> 'a mem_scheme \<Rightarrow> (unit, 'a mem_scheme) res" where
  "memphys_dma_free addr s =
     (let i = addr div PAGE_SIZE; b = memphys_dma_bitmap s
      in Ret () (s\<lparr>memphys_dma_bitmap :=
           b(i div 32 := b (i div 32) AND NOT (push_bit (unat (i mod 32)) 1))\<rparr>))"

section \<open>Pushing a frame\<close>

lemma stack_page_inj: "i \<le> 1024 \<Longrightarrow> j \<le> 1024 \<Longrightarrow> ADDR2PAGE (stack_page i) = ADDR2PAGE (stack_page j) \<Longrightarrow> i = j"
  using unat_stack_addr [of "4096 * i"] unat_stack_addr [of "4096 * j"]
  by (simp add: stack_page_def word_unat_eq_iff unat_macros)

text \<open>A frame that is pushed when the stack is full becomes the next page of the stack.\<close>

lemma memphys_push_page:
  assumes fr: "frames_ok s gs fs" and full: "length fs = 1024 * length gs" "length gs < 1024"
    and tbl: "cur_table s (stack_page (length gs))"
    and a: "frame_unused (phys s) (paging_curpd s) a" "a \<notin> set (gs @ fs)"
  shows "\<exists>s'. memphys_push a s = Ret () s' \<and> frames_ok s' (gs @ [a]) fs \<and> paging_curpd s' = paging_curpd s \<and>
    (\<forall>f. table_page (phys s') (paging_curpd s) f = table_page (phys s) (paging_curpd s) f) \<and>
    (\<forall>x. table_exists (phys s') (paging_curpd s) (ADDR2PDE x) = table_exists (phys s) (paging_curpd s) (ADDR2PDE x))"
proof -
  note D = frames_okD [OF fr]
  let ?v = "stack_page (length gs)"
  let ?t = "new_pte a 0 1 0 0"
  let ?m = "wr32 (phys s) (table_frame (phys s) (paging_curpd s) (ADDR2PDE ?v) + 4 * ADDR2PTE ?v) (pte_enc ?t)"
  let ?s1 = "s\<lparr>phys := ?m\<rparr>"
  let ?s2 = "?s1\<lparr>memphys_stackend := memphys_stackend s + PAGE_SIZE\<rparr>"
  have al: "page_aligned a" "a \<noteq> NULL" using a(1) by (auto simp: frame_unused_def)
  have "ADDR2PAGE (stack_page j) \<noteq> ADDR2PAGE ?v" if "j < length gs" for j
    using stack_page_inj [of j "length gs"] that full(2) by auto
  then have off: "off_stack ?v gs"
    using stack_page_pde [OF full(2)] by (simp add: off_stack_def)
  note W = write_pte_frames [OF fr tbl off, where t = ?t]
  have same: "table_exists ?m (paging_curpd s) (ADDR2PDE x) = table_exists (phys s) (paging_curpd s) (ADDR2PDE x)" for x
    using write_pte(3) [OF paging_okD(3) [OF D(1)] tbl stack_page_pde [OF full(2)]] by simp
  have ptr: "memphys_stackptr s = memphys_stackend s"
    using D(3,4) full(1) by (simp add: stack_page_def)
  have run: "memphys_push a s = Ret () ?s2"
    using map_loaded_present [OF D(1) tbl] al(2) ptr D(3) by (simp add: memphys_push_def paging_map_def)
  have "xlate ?m (paging_curpd s) ?v = Some a"
    using W(4) [of ?v] al(1) page_add_parts(2) [OF stack_page_aligned, of "length gs" 0] full(2)
    by (simp add: xlate_def)
  moreover have "frame_unused ?m (paging_curpd s) a"
    using a(1) W(2) [of a] by (simp add: frame_unused_alt)
  moreover have "stack_page (length gs) + PAGE_SIZE = stack_page (Suc (length gs))"
    by (simp add: stack_page_def PAGE_SIZE_def)
  moreover have "i div 1024 < length gs" if "i < length fs" for i
    using that full by (simp add: less_mult_imp_div_less mult.commute)
  ultimately have "frames_ok ?s2 (gs @ [a]) fs"
    using frames_okD [OF W(1)] full a(2) D(3)
    unfolding frames_ok_def by (auto simp: paging_ok_def nth_append less_Suc_eq)
  moreover have "table_page (phys ?s2) (paging_curpd s) f = table_page (phys s) (paging_curpd s) f" for f
    using W(2) by simp
  ultimately show ?thesis using run same by (intro exI [of _ ?s2]) simp
qed

text \<open>Otherwise it is stored in the next cell.\<close>

lemma memphys_push_cell:
  assumes fr: "frames_ok s gs fs" and room: "length fs < 1024 * length gs"
    and a: "frame_unused (phys s) (paging_curpd s) a" "a \<notin> set (gs @ fs)"
  shows "\<exists>s'. memphys_push a s = Ret () s' \<and> frames_ok s' gs (fs @ [a]) \<and> paging_curpd s' = paging_curpd s \<and>
    (\<forall>f. table_page (phys s') (paging_curpd s) f = table_page (phys s) (paging_curpd s) f) \<and>
    (\<forall>x. table_exists (phys s') (paging_curpd s) (ADDR2PDE x) = table_exists (phys s) (paging_curpd s) (ADDR2PDE x))"
proof -
  note D = frames_okD [OF fr]
  let ?n = "length fs"
  let ?g = "gs ! (?n div 1024)" and ?o = "of_nat (?n mod 1024) :: u32"
  let ?m = "wr32 (phys s) (?g + 4 * ?o) a"
  let ?s2 = "s\<lparr>phys := ?m, memphys_stackptr := memphys_stackptr s + 4\<rparr>"
  have al: "a \<noteq> NULL" using a(1) by (simp add: frame_unused_def)
  have idx: "i div 1024 < length gs" if "i \<le> ?n" for i
    using that room by (simp add: less_mult_imp_div_less mult.commute)
  have gal: "page_aligned (gs ! (i div 1024))" "\<not> table_page (phys s) (paging_curpd s) (gs ! (i div 1024))"
    if "i \<le> ?n" for i
    using D(9) [of "gs ! (i div 1024)"] nth_mem [OF idx [OF that]] by (simp_all add: frame_unused_alt)
  have o: "unat (of_nat (i mod 1024) :: u32) < 1024" for i by (simp add: order.strict_trans2)
  have "4 * ?n \<noteq> 4096 * length gs" using room by linarith
  moreover have "4 * ?n \<le> 4194304" "4096 * length gs \<le> 4194304" using room D(6) by linarith+
  ultimately have "memphys_stackptr s \<noteq> memphys_stackend s"
    using unat_stack_addr [of "4 * ?n"] unat_stack_addr [of "4096 * length gs"]
    by (auto simp: D(3,4) stack_page_def dest: arg_cong [of _ _ unat])
  moreover have "store32 (memphys_stackptr s) a s = Ret () (s\<lparr>phys := ?m\<rparr>)"
    using vaddr_cell [OF fr room] by (simp add: store32_aligned D(4))
  ultimately have run: "memphys_push a s = Ret () ?s2"
    using al by (simp add: memphys_push_def)
  have "?m x = phys s x" if "table_page (phys s) (paging_curpd s) (PAGEDOWN x)" for x
    using that gal [of ?n] by (intro wr32_slot_other o) auto
  note W = walk_data_cong [of "phys s" "paging_curpd s" ?m, OF paging_okD(3) [OF D(1)] this]
  have "rd32 ?m (gs ! (i div 1024) + 4 * of_nat (i mod 1024)) = (fs @ [a]) ! i" if "i < Suc ?n" for i
  proof (cases "i = ?n")
    case False
    with that have i: "i < ?n" by simp
    have "gs ! (i div 1024) = ?g \<and> (of_nat (i mod 1024) :: u32) = ?o \<longleftrightarrow> i div 1024 = ?n div 1024 \<and> i mod 1024 = ?n mod 1024"
      using nth_eq_iff_index_eq [of gs "i div 1024" "?n div 1024"] D(8) idx [of i] idx [of ?n] i o [of i] o [of ?n]
      by (auto simp: word_unat_eq_iff)
    then have "\<not> (?g = gs ! (i div 1024) \<and> ?o = of_nat (i mod 1024))"
      using i by (metis div_mult_mod_eq less_irrefl)
    then have "rd32 ?m (gs ! (i div 1024) + 4 * of_nat (i mod 1024))
        = rd32 (phys s) (gs ! (i div 1024) + 4 * of_nat (i mod 1024))"
      using gal(1) [of i] gal(1) [of ?n] i by (subst rd32_write_slot) (auto simp: o)
    then show ?thesis using D(10) [OF i] i by (simp add: nth_append)
  qed (simp add: nth_append)
  moreover have "frame_unused ?m (paging_curpd s) f" if "f \<in> set (gs @ fs @ [a])" for f
    using that D(9) [of f] a(1) W(3) [of f] by (auto simp: frame_unused_alt)
  moreover have "xlate ?m (paging_curpd s) x = xlate (phys s) (paging_curpd s) x" for x
    using W(2) by (simp add: xlate_def)
  ultimately have "frames_ok ?s2 gs (fs @ [a])"
    using D room a(2) W(1) unfolding frames_ok_def by (auto simp: paging_ok_def)
  then show ?thesis using run W(3,4) by (intro exI [of _ ?s2]) simp
qed

section \<open>The DMA bitmap\<close>

lemma dma_used_bit: "dma_used b i \<longleftrightarrow> bit (b (i div 32)) (unat (i mod 32))"
  by (simp add: dma_used_def push_bit_of_1 and_exp_eq_0_iff_not_bit)

lemma dma_index_eq: "i div 32 = j div 32 \<and> unat (i mod 32) = unat (j mod 32 :: u32) \<longleftrightarrow> i = j"
  by (metis div_mult_mod_eq word_unat_eq_iff)

lemma mod32_lt: "unat (i mod 32 :: u32) < 32"
  by (simp add: unat_mod)

lemma dma_used_set: "dma_used (dma_set b i) j \<longleftrightarrow> j = i \<or> dma_used b j"
  using dma_index_eq [of i j] mod32_lt [of j]
  by (auto simp: dma_used_bit dma_set_def bit_simps)

lemma dma_used_mark:
  "unat j + n \<le> 2 ^ 32 \<Longrightarrow>
   dma_used (dma_mark n j b) i \<longleftrightarrow> dma_used b i \<or> (unat j \<le> unat i \<and> unat i < unat j + n)"
proof (induction n arbitrary: j b)
  case (Suc n)
  show ?case
  proof (cases "unat j + 1 < 2 ^ 32")
    case True
    then have "unat (j + 1) = unat j + 1" by (simp add: unat_plus_u32)
    with Suc show ?thesis by (auto simp: dma_used_set word_unat_eq_iff)
  next
    case False
    with Suc.prems have "n = 0" by simp
    then show ?thesis by (auto simp: dma_used_set word_unat_eq_iff)
  qed
qed auto

text \<open>A run of free pages, by page number.\<close>

definition dma_run :: "(u32 \<Rightarrow> u32) \<Rightarrow> nat \<Rightarrow> nat \<Rightarrow> bool" where
  "dma_run b p n \<longleftrightarrow> (\<forall>j. p \<le> j \<and> j < p + n \<longrightarrow> \<not> dma_used b (of_nat j))"

definition first_fit :: "(u32 \<Rightarrow> u32) \<Rightarrow> nat \<Rightarrow> nat \<Rightarrow> u32 \<times> (u32 \<Rightarrow> u32) \<Rightarrow> bool" where
  "first_fit b lim n r \<longleftrightarrow>
     (\<exists>p. p + n \<le> lim \<and> dma_run b p n \<and> (\<forall>q<p. \<not> dma_run b q n) \<and>
          r = (of_nat (p * 4096), dma_mark n (of_nat p) b)) \<or>
     (\<forall>p. p + n \<le> lim \<longrightarrow> \<not> dma_run b p n) \<and> r = (NULL, b)"

lemma dma_search_first_fit:
  assumes "i + k = lim" "lim \<le> 4096" "f \<le> i" "f < n" "n < 2 ^ 32"
    and "\<And>j. i - f \<le> j \<Longrightarrow> j < i \<Longrightarrow> \<not> dma_used b (of_nat j)"
    and "f < i \<Longrightarrow> dma_used b (of_nat (i - f - 1))"
    and "\<And>p. p + n \<le> i \<Longrightarrow> \<not> dma_run b p n"
  shows "first_fit b lim n (dma_search k (of_nat i) (of_nat f) (of_nat n) b)"
  using assms
proof (induction k arbitrary: i f)
  case 0
  then show ?case by (simp add: first_fit_def)
next
  case (Suc k)
  let ?g = "if \<not> dma_used b (of_nat i) then Suc f else 0"
  have g: "?g \<le> Suc i" "?g \<le> n" using Suc.prems by auto
  have free: "\<not> dma_used b (of_nat j)" if "Suc i - ?g \<le> j" "j < Suc i" for j
    using that Suc.prems(3) Suc.prems(6) [of j] by (cases "j = i") (auto split: if_splits)
  have used: "dma_used b (of_nat (Suc i - ?g - 1))" if "?g < Suc i"
    using that Suc.prems(7) by (auto split: if_splits)
  have gw: "(if \<not> dma_used b (of_nat i) then of_nat f + 1 else (0 :: u32)) = of_nat ?g"
    by (simp add: add.commute)
  have eq: "(of_nat ?g :: u32) = of_nat n \<longleftrightarrow> ?g = n"
    using g Suc.prems(5) by (auto simp: word_unat_eq_iff)
  show ?case
  proof (cases "?g = n")
    case True
    with Suc.prems(4) have "0 < n" "\<not> dma_used b (of_nat i)" "n = Suc f" by (auto split: if_splits)
    let ?p = "Suc i - n"
    have p: "of_nat i - (of_nat n - 1) = (of_nat ?p :: u32)"
      using g True \<open>0 < n\<close> by (simp add: of_nat_diff)
    have "dma_run b ?p n" using free g True by (simp add: dma_run_def)
    moreover have "\<not> dma_run b q n" if "q < ?p" for q
      using Suc.prems(8) [of q] that g True by simp
    moreover have "dma_search (Suc k) (of_nat i) (of_nat f) (of_nat n) b = (of_nat (?p * 4096), dma_mark n (of_nat ?p) b)"
      using gw eq True p Suc.prems(5) by (simp add: Let_def PAGE_SIZE_def)
    ultimately show ?thesis
      using Suc.prems(1) g True unfolding first_fit_def by (intro disjI1 exI [of _ ?p]) auto
  next
    case False
    with g have lt: "?g < n" by simp
    have norun: "\<not> dma_run b p n" if "p + n \<le> Suc i" for p
    proof (cases "p + n \<le> i")
      case True
      then show ?thesis by (rule Suc.prems(8))
    next
      case False
      with that have "p + n = Suc i" by simp
      with lt used have "dma_used b (of_nat (i - ?g))" "p \<le> i - ?g" "i - ?g < p + n" by auto
      then show ?thesis unfolding dma_run_def by blast
    qed
    have "Suc i + k = lim" using Suc.prems(1) by simp
    from Suc.IH [OF this Suc.prems(2) g(1) lt Suc.prems(5) free used norun]
    have "first_fit b lim n (dma_search k (of_nat (Suc i)) (of_nat ?g) (of_nat n) b)" .
    then show ?thesis using gw eq False by (simp add: Let_def add.commute)
  qed
qed

end
