(* ===== verification/SysTable.thy ===== *)
theory SysTable
  imports Prelude
begin

text \<open>
  The numbers of the system calls (\<open>include/syscalls.h\<close>) and the entries of the table of system
  calls (\<open>kernel2/include/syscall.h\<close>). The table holds pointers to the functions that handle a
  call; such a pointer is a constructor named after the C function, in one datatype per component.
\<close>

datatype mem_func =
    F_memuser_alloc_syscall | F_memuser_free_syscall | F_memuser_getphysaddr_syscall
  | F_memuser_dma_alloc | F_memuser_dma_free | F_memuser_getvga

datatype msg_func =
    F_ipc_msg_get | F_ipc_msg_create | F_ipc_msg_destroy | F_ipc_msg_send | F_ipc_msg_recv

datatype sem_func =
    F_ipc_sem_get | F_ipc_sem_create | F_ipc_sem_op | F_ipc_sem_getval | F_ipc_sem_setval
  | F_ipc_sem_getpid | F_ipc_sem_getcnt | F_ipc_sem_getall | F_ipc_sem_setall | F_ipc_sem_stat
  | F_ipc_sem_set | F_ipc_sem_destroy

datatype shm_func =
    F_ipc_shm_get | F_ipc_shm_create | F_ipc_shm_attach | F_ipc_shm_detach | F_ipc_shm_stat
  | F_ipc_shm_set | F_ipc_shm_destroy

datatype rpc_func =
    F_rpc_function_create | F_rpc_function_destroy | F_rpc_function_getinfo | F_rpc_function_call
  | F_rpc_call_poll | F_rpc_call_return | F_rpc_list

datatype proc_func =
    F_proc_getpid | F_proc_getuid | F_proc_getgid | F_proc_setuid | F_proc_setgid
  | F_proc_getparent | F_proc_getchild | F_proc_getname | F_proc_setname | F_proc_getpidbyname
  | F_proc_getvar | F_proc_setvar | F_proc_exit | F_proc_abort | F_proc_stop
  | F_proc_create_syscall | F_proc_destroy_syscall | F_proc_memmap | F_proc_memalloc
  | F_proc_memunmap | F_proc_memfree | F_proc_memget | F_proc_mempagelist | F_proc_system
  | F_proc_jump | F_proc_createstack | F_proc_getstack | F_proc_setstack | F_proc_waitpid

datatype irq_func =
    F_interrupt_time_sleep | F_interrupt_time_usleep | F_interrupt_time_getticks
  | F_interrupt_irq_reghandler | F_interrupt_irq_sleep

datatype misc_func =
    F_ioport_reg | F_ioport_unreg | F_signal_setup | F_signal_send_syscall | F_biosint_call
  | F_putsn | F_fourtytwo

datatype sysfunc =
    SysMem mem_func
  | SysMsg msg_func
  | SysSem sem_func
  | SysShm shm_func
  | SysRpc rpc_func
  | SysProc proc_func
  | SysIrq irq_func
  | SysMisc misc_func

text \<open>An entry of the table; a \<open>NULL\<close> function pointer is \<open>None\<close>.\<close>

record syscall =
  sys_func :: "sysfunc option"
  sys_numparams :: u32

section \<open>Numbers\<close>

definition SYSCALL_MEM_MALLOC :: u32 where "SYSCALL_MEM_MALLOC = 1"
definition SYSCALL_MEM_FREE :: u32 where "SYSCALL_MEM_FREE = 2"
definition SYSCALL_MEM_GETPHYSADDR :: u32 where "SYSCALL_MEM_GETPHYSADDR = 3"
definition SYSCALL_MEM_DMA_ALLOC :: u32 where "SYSCALL_MEM_DMA_ALLOC = 4"
definition SYSCALL_MEM_DMA_FREE :: u32 where "SYSCALL_MEM_DMA_FREE = 5"
definition SYSCALL_MEM_GETVGA :: u32 where "SYSCALL_MEM_GETVGA = 6"
definition SYSCALL_IPC_MSG_GET :: u32 where "SYSCALL_IPC_MSG_GET = 7"
definition SYSCALL_IPC_MSG_CREATE :: u32 where "SYSCALL_IPC_MSG_CREATE = 8"
definition SYSCALL_IPC_MSG_DESTROY :: u32 where "SYSCALL_IPC_MSG_DESTROY = 9"
definition SYSCALL_IPC_MSG_SEND :: u32 where "SYSCALL_IPC_MSG_SEND = 10"
definition SYSCALL_IPC_MSG_RECV :: u32 where "SYSCALL_IPC_MSG_RECV = 11"
definition SYSCALL_IPC_MSG_STAT :: u32 where "SYSCALL_IPC_MSG_STAT = 12"
definition SYSCALL_IPC_MSG_SET :: u32 where "SYSCALL_IPC_MSG_SET = 13"
definition SYSCALL_IPC_SEM_GET :: u32 where "SYSCALL_IPC_SEM_GET = 14"
definition SYSCALL_IPC_SEM_CREATE :: u32 where "SYSCALL_IPC_SEM_CREATE = 15"
definition SYSCALL_IPC_SEM_OP :: u32 where "SYSCALL_IPC_SEM_OP = 16"
definition SYSCALL_IPC_SEM_GETVAL :: u32 where "SYSCALL_IPC_SEM_GETVAL = 17"
definition SYSCALL_IPC_SEM_SETVAL :: u32 where "SYSCALL_IPC_SEM_SETVAL = 18"
definition SYSCALL_IPC_SEM_GETPID :: u32 where "SYSCALL_IPC_SEM_GETPID = 19"
definition SYSCALL_IPC_SEM_GETCNT :: u32 where "SYSCALL_IPC_SEM_GETCNT = 20"
definition SYSCALL_IPC_SEM_GETALL :: u32 where "SYSCALL_IPC_SEM_GETALL = 21"
definition SYSCALL_IPC_SEM_SETALL :: u32 where "SYSCALL_IPC_SEM_SETALL = 22"
definition SYSCALL_IPC_SEM_STAT :: u32 where "SYSCALL_IPC_SEM_STAT = 23"
definition SYSCALL_IPC_SEM_SET :: u32 where "SYSCALL_IPC_SEM_SET = 24"
definition SYSCALL_IPC_SEM_DESTROY :: u32 where "SYSCALL_IPC_SEM_DESTROY = 25"
definition SYSCALL_IPC_SHM_GET :: u32 where "SYSCALL_IPC_SHM_GET = 26"
definition SYSCALL_IPC_SHM_CREATE :: u32 where "SYSCALL_IPC_SHM_CREATE = 27"
definition SYSCALL_IPC_SHM_ATTACH :: u32 where "SYSCALL_IPC_SHM_ATTACH = 28"
definition SYSCALL_IPC_SHM_DETACH :: u32 where "SYSCALL_IPC_SHM_DETACH = 29"
definition SYSCALL_IPC_SHM_STAT :: u32 where "SYSCALL_IPC_SHM_STAT = 30"
definition SYSCALL_IPC_SHM_SET :: u32 where "SYSCALL_IPC_SHM_SET = 31"
definition SYSCALL_IPC_SHM_DESTROY :: u32 where "SYSCALL_IPC_SHM_DESTROY = 32"
definition SYSCALL_RPC_CREATE :: u32 where "SYSCALL_RPC_CREATE = 33"
definition SYSCALL_RPC_DESTROY :: u32 where "SYSCALL_RPC_DESTROY = 34"
definition SYSCALL_RPC_GETINFO :: u32 where "SYSCALL_RPC_GETINFO = 35"
definition SYSCALL_RPC_CALL :: u32 where "SYSCALL_RPC_CALL = 36"
definition SYSCALL_RPC_POLL :: u32 where "SYSCALL_RPC_POLL = 37"
definition SYSCALL_RPC_RETURN :: u32 where "SYSCALL_RPC_RETURN = 38"
definition SYSCALL_RPC_LIST :: u32 where "SYSCALL_RPC_LIST = 39"
definition SYSCALL_PROC_GETPID :: u32 where "SYSCALL_PROC_GETPID = 40"
definition SYSCALL_PROC_GETUID :: u32 where "SYSCALL_PROC_GETUID = 41"
definition SYSCALL_PROC_GETGID :: u32 where "SYSCALL_PROC_GETGID = 42"
definition SYSCALL_PROC_SETUID :: u32 where "SYSCALL_PROC_SETUID = 43"
definition SYSCALL_PROC_SETGID :: u32 where "SYSCALL_PROC_SETGID = 44"
definition SYSCALL_PROC_GETPARENT :: u32 where "SYSCALL_PROC_GETPARENT = 45"
definition SYSCALL_PROC_GETCHILD :: u32 where "SYSCALL_PROC_GETCHILD = 46"
definition SYSCALL_PROC_GETNAME :: u32 where "SYSCALL_PROC_GETNAME = 47"
definition SYSCALL_PROC_SETNAME :: u32 where "SYSCALL_PROC_SETNAME = 48"
definition SYSCALL_PROC_GETPIDBYNAME :: u32 where "SYSCALL_PROC_GETPIDBYNAME = 49"
definition SYSCALL_PROC_GETVAR :: u32 where "SYSCALL_PROC_GETVAR = 50"
definition SYSCALL_PROC_SETVAR :: u32 where "SYSCALL_PROC_SETVAR = 51"
definition SYSCALL_PROC_EXIT :: u32 where "SYSCALL_PROC_EXIT = 52"
definition SYSCALL_PROC_ABORT :: u32 where "SYSCALL_PROC_ABORT = 53"
definition SYSCALL_PROC_STOP :: u32 where "SYSCALL_PROC_STOP = 54"
definition SYSCALL_PROC_CREATE :: u32 where "SYSCALL_PROC_CREATE = 55"
definition SYSCALL_PROC_DESTROY :: u32 where "SYSCALL_PROC_DESTROY = 56"
definition SYSCALL_PROC_MEMMAP :: u32 where "SYSCALL_PROC_MEMMAP = 57"
definition SYSCALL_PROC_MEMALLOC :: u32 where "SYSCALL_PROC_MEMALLOC = 58"
definition SYSCALL_PROC_MEMUNMAP :: u32 where "SYSCALL_PROC_MEMUNMAP = 59"
definition SYSCALL_PROC_MEMFREE :: u32 where "SYSCALL_PROC_MEMFREE = 60"
definition SYSCALL_PROC_MEMFINDFREE :: u32 where "SYSCALL_PROC_MEMFINDFREE = 61"
definition SYSCALL_PROC_MEMGET :: u32 where "SYSCALL_PROC_MEMGET = 62"
definition SYSCALL_PROC_MEMPAGELIST :: u32 where "SYSCALL_PROC_MEMPAGELIST = 63"
definition SYSCALL_PROC_SYSTEM :: u32 where "SYSCALL_PROC_SYSTEM = 64"
definition SYSCALL_PROC_JUMP :: u32 where "SYSCALL_PROC_JUMP = 65"
definition SYSCALL_PROC_CREATESTACK :: u32 where "SYSCALL_PROC_CREATESTACK = 66"
definition SYSCALL_PROC_GETSTACK :: u32 where "SYSCALL_PROC_GETSTACK = 67"
definition SYSCALL_PROC_SETSTACK :: u32 where "SYSCALL_PROC_SETSTACK = 68"
definition SYSCALL_PROC_WAITPID :: u32 where "SYSCALL_PROC_WAITPID = 69"
definition SYSCALL_IO_REG :: u32 where "SYSCALL_IO_REG = 70"
definition SYSCALL_IO_UNREG :: u32 where "SYSCALL_IO_UNREG = 71"
definition SYSCALL_TIME_HANDLER :: u32 where "SYSCALL_TIME_HANDLER = 72"
definition SYSCALL_TIME_SLEEP :: u32 where "SYSCALL_TIME_SLEEP = 73"
definition SYSCALL_TIME_USLEEP :: u32 where "SYSCALL_TIME_USLEEP = 74"
definition SYSCALL_TIME_GETTICKS :: u32 where "SYSCALL_TIME_GETTICKS = 75"
definition SYSCALL_IRQ_HANDLER :: u32 where "SYSCALL_IRQ_HANDLER = 76"
definition SYSCALL_IRQ_SLEEP :: u32 where "SYSCALL_IRQ_SLEEP = 77"
definition SYSCALL_SIG_SETUP :: u32 where "SYSCALL_SIG_SETUP = 78"
definition SYSCALL_SIG_SEND :: u32 where "SYSCALL_SIG_SEND = 79"
definition SYSCALL_MISC_BIOSINT :: u32 where "SYSCALL_MISC_BIOSINT = 80"
definition SYSCALL_PUTSN :: u32 where "SYSCALL_PUTSN = 81"
definition SYSCALL_FOURTYTWO :: u32 where "SYSCALL_FOURTYTWO = 82"
definition SYSCALL_MAXNUM :: u32 where "SYSCALL_MAXNUM = SYSCALL_FOURTYTWO + 1"

lemmas syscall_numbers =
  SYSCALL_MEM_MALLOC_def SYSCALL_MEM_FREE_def SYSCALL_MEM_GETPHYSADDR_def SYSCALL_MEM_DMA_ALLOC_def
  SYSCALL_MEM_DMA_FREE_def SYSCALL_MEM_GETVGA_def SYSCALL_IPC_MSG_GET_def SYSCALL_IPC_MSG_CREATE_def
  SYSCALL_IPC_MSG_DESTROY_def SYSCALL_IPC_MSG_SEND_def SYSCALL_IPC_MSG_RECV_def
  SYSCALL_IPC_MSG_STAT_def SYSCALL_IPC_MSG_SET_def SYSCALL_IPC_SEM_GET_def
  SYSCALL_IPC_SEM_CREATE_def SYSCALL_IPC_SEM_OP_def SYSCALL_IPC_SEM_GETVAL_def
  SYSCALL_IPC_SEM_SETVAL_def SYSCALL_IPC_SEM_GETPID_def SYSCALL_IPC_SEM_GETCNT_def
  SYSCALL_IPC_SEM_GETALL_def SYSCALL_IPC_SEM_SETALL_def SYSCALL_IPC_SEM_STAT_def
  SYSCALL_IPC_SEM_SET_def SYSCALL_IPC_SEM_DESTROY_def SYSCALL_IPC_SHM_GET_def
  SYSCALL_IPC_SHM_CREATE_def SYSCALL_IPC_SHM_ATTACH_def SYSCALL_IPC_SHM_DETACH_def
  SYSCALL_IPC_SHM_STAT_def SYSCALL_IPC_SHM_SET_def SYSCALL_IPC_SHM_DESTROY_def
  SYSCALL_RPC_CREATE_def SYSCALL_RPC_DESTROY_def SYSCALL_RPC_GETINFO_def SYSCALL_RPC_CALL_def
  SYSCALL_RPC_POLL_def SYSCALL_RPC_RETURN_def SYSCALL_RPC_LIST_def SYSCALL_PROC_GETPID_def
  SYSCALL_PROC_GETUID_def SYSCALL_PROC_GETGID_def SYSCALL_PROC_SETUID_def SYSCALL_PROC_SETGID_def
  SYSCALL_PROC_GETPARENT_def SYSCALL_PROC_GETCHILD_def SYSCALL_PROC_GETNAME_def
  SYSCALL_PROC_SETNAME_def SYSCALL_PROC_GETPIDBYNAME_def SYSCALL_PROC_GETVAR_def
  SYSCALL_PROC_SETVAR_def SYSCALL_PROC_EXIT_def SYSCALL_PROC_ABORT_def SYSCALL_PROC_STOP_def
  SYSCALL_PROC_CREATE_def SYSCALL_PROC_DESTROY_def SYSCALL_PROC_MEMMAP_def SYSCALL_PROC_MEMALLOC_def
  SYSCALL_PROC_MEMUNMAP_def SYSCALL_PROC_MEMFREE_def SYSCALL_PROC_MEMFINDFREE_def
  SYSCALL_PROC_MEMGET_def SYSCALL_PROC_MEMPAGELIST_def SYSCALL_PROC_SYSTEM_def SYSCALL_PROC_JUMP_def
  SYSCALL_PROC_CREATESTACK_def SYSCALL_PROC_GETSTACK_def SYSCALL_PROC_SETSTACK_def
  SYSCALL_PROC_WAITPID_def SYSCALL_IO_REG_def SYSCALL_IO_UNREG_def SYSCALL_TIME_HANDLER_def
  SYSCALL_TIME_SLEEP_def SYSCALL_TIME_USLEEP_def SYSCALL_TIME_GETTICKS_def SYSCALL_IRQ_HANDLER_def
  SYSCALL_IRQ_SLEEP_def SYSCALL_SIG_SETUP_def SYSCALL_SIG_SEND_def SYSCALL_MISC_BIOSINT_def
  SYSCALL_PUTSN_def SYSCALL_FOURTYTWO_def SYSCALL_MAXNUM_def

end
