(* ===== verification/Kernel.thy ===== *)
theory Kernel
  imports LList MemPhys SysTable
begin

text \<open>
  The state of the kernel above the page tables: processes (\<open>kernel2/include/procm.h\<close>), address
  spaces (\<open>kernel2/include/memuser.h\<close>), the swap queue (\<open>kernel2/include/swap.h\<close>), the registers
  of the interrupted program (\<open>kernel2/include/cpu.h\<close>, \<open>kernel2/include/vm86.h\<close>).

  The record \<^typ>\<open>'a mem_scheme\<close> is extended. A C object is an entry of a store, a partial function from
  its address; \<open>free\<close> removes the entry, and the access to an address without an entry is
  \<open>Stop Dangling\<close>. A field of a C structure keeps its name behind a short prefix (\<open>p_pid\<close> is
  \<open>proc_t.pid\<close>, \<open>as_stack\<close> is \<open>addrspace_t.stack\<close>, \<open>r_eax\<close> is \<open>proc_registers.eax\<close>).
  A linked list is the HOL list of its elements (theory \<open>LList\<close>).

  \<open>malloc\<close> is the list \<open>mallocs\<close> of the addresses it is going to return. It never returns
  \<open>NULL\<close>: when no memory is left, \<open>_malloc_getfree\<close> searches forever (theory \<open>Malloc\<close>), which is
  \<open>Stop Diverge\<close> here. A state is well formed only if those addresses are not in use; between two entries of
  the kernel the list may change, so that freed addresses come again (\<open>kernel_step\<close>). Memory from
  \<open>malloc\<close> is not cleared: \<open>heap_junk\<close> is what the memory for a new process held before.
  The allocations of strings and of list nodes are not counted.
\<close>

section \<open>Records\<close>

record proc_registers =
  r_eax :: u32
  r_ebx :: u32
  r_ecx :: u32
  r_edx :: u32
  r_esi :: u32
  r_edi :: u32
  r_ebp :: u32
  r_esp :: u32
  r_eip :: u32
  r_efl :: u32
  r_cs :: u32
  r_ds :: u32
  r_es :: u32
  r_fs :: u32
  r_gs :: u32
  r_ss :: u32

record vm86_segmentregs =
  v_es :: u32
  v_ds :: u32
  v_fs :: u32
  v_gs :: u32

record addrspace_S =
  as_proc :: u32
  as_pages_loaded :: "u32 list"
  as_pages_imaginary :: "u32 list"
  as_pages_swapped :: "u32 list"
  as_pagedir :: u32
  as_stack :: u32

record proc_S =
  p_pid :: u32
  p_uid :: u32
  p_euid :: u32
  p_suid :: u32
  p_gid :: u32
  p_egid :: u32
  p_sgid :: u32
  p_system :: u32
  p_name :: "u8 list"
  p_parent :: u32
  p_children :: "u32 list"
  p_registers :: proc_registers
  p_addrspace :: u32
  p_time_handler :: "u32 list"
  p_nice :: u32
  p_ticks_rem :: u32
  p_is_sleeping :: u32
  p_var :: u32
  p_defunc :: u32
  p_ret :: u32
  p_signal :: u32
  p_is_vm86 :: u32
  p_vm86_pagedir :: u32
  p_wait :: u32
  p_wait_pid :: u32
  p_wait_stat :: u32
  p_vm86_segregs :: vm86_segmentregs

record swap_call_t =
  sc_op :: u32
  sc_pid :: u32
  sc_page :: u32

text \<open>
  \<open>interrupt_curregs\<close> and \<open>vm86_curregs\<close> hold pointers into the frame the interrupt entry pushed
  on the kernel stack; the fields \<open>curregs\<close> and \<open>vm86_curregs\<close> are what they point at.
\<close>

record kernel = mem +
  mallocs :: "u32 list"
  heap_junk :: proc_S
  addrspaces :: "u32 \<Rightarrow> addrspace_S option"
  procs :: "u32 \<Rightarrow> proc_S option"
  proc_all :: "u32 list"
  proc_running :: "u32 list"
  proc_sleeping :: "u32 list"
  proc_nextpid :: u32
  proc_current :: u32
  curregs :: proc_registers
  vm86_curregs :: vm86_segmentregs
  interrupt_enabled :: u32
  memuser_inited :: u32
  memuser_debug :: u32
  swap_queue :: "swap_call_t list"
  swap_proc :: u32
  swap_buf :: u32
  syscalls :: "syscall list"

section \<open>Objects\<close>

definition kmalloc_obj :: "'a kernel_scheme \<Rightarrow> (u32, 'a kernel_scheme) res" where
  "kmalloc_obj s = (case mallocs s of [] \<Rightarrow> Stop Diverge s | a # as \<Rightarrow> Ret a (s\<lparr>mallocs := as\<rparr>))"

definition getp :: "u32 \<Rightarrow> 'a kernel_scheme \<Rightarrow> (proc_S, 'a kernel_scheme) res" where
  "getp p s = deref (procs s) p s"

definition updp :: "u32 \<Rightarrow> (proc_S \<Rightarrow> proc_S) \<Rightarrow> 'a kernel_scheme \<Rightarrow> (unit, 'a kernel_scheme) res" where
  "updp p f s = bindr (getp p s) (\<lambda>x s. Ret () (s\<lparr>procs := (procs s)(p \<mapsto> f x)\<rparr>))"

definition geta :: "u32 \<Rightarrow> 'a kernel_scheme \<Rightarrow> (addrspace_S, 'a kernel_scheme) res" where
  "geta a s = deref (addrspaces s) a s"

definition upda :: "u32 \<Rightarrow> (addrspace_S \<Rightarrow> addrspace_S) \<Rightarrow> 'a kernel_scheme \<Rightarrow> (unit, 'a kernel_scheme) res" where
  "upda a f s = bindr (geta a s) (\<lambda>x s. Ret () (s\<lparr>addrspaces := (addrspaces s)(a \<mapsto> f x)\<rparr>))"

text \<open>A traversal with \<open>llist_get\<close> ends at the first \<open>NULL\<close>.\<close>

definition ll_elems :: "u32 list \<Rightarrow> u32 list" where
  "ll_elems xs = takeWhile (\<lambda>x. x \<noteq> NULL) xs"

lemma ll_elems_id: "NULL \<notin> set xs \<Longrightarrow> ll_elems xs = xs"
  unfolding ll_elems_def by (rule takeWhile_eq_all_conv [THEN iffD2]) auto

text \<open>A loop over the elements of a list, and the same for an operation that takes the value.\<close>

fun foreach :: "('x \<Rightarrow> 's \<Rightarrow> (unit, 's) res) \<Rightarrow> 'x list \<Rightarrow> 's \<Rightarrow> (unit, 's) res" where
  "foreach f [] s = Ret () s"
| "foreach f (x # xs) s = bindr (f x s) (\<lambda>_. foreach f xs)"

text \<open>
  \<open>while ((x = llist_pop(l)))\<close>: \<open>put\<close> writes the shorter list back before the body runs. The bodies
  of the kernel do not touch the list.
\<close>

fun drain ::
  "(u32 list \<Rightarrow> 's \<Rightarrow> (unit, 's) res) \<Rightarrow> (u32 \<Rightarrow> 's \<Rightarrow> (unit, 's) res) \<Rightarrow> u32 list \<Rightarrow> 's \<Rightarrow> (unit, 's) res" where
  "drain put body [] s = Ret () s"
| "drain put body (x # xs) s =
     bindr (put xs s) (\<lambda>_ s. if x = NULL then Ret () s else bindr (body x s) (\<lambda>_. drain put body xs))"

text \<open>A C string of user memory. The search for its end wraps around the address space once;
  if there is no \<open>NUL\<close> anywhere it never ends.\<close>

fun load_cstr_from :: "nat \<Rightarrow> u32 \<Rightarrow> 'a mem_scheme \<Rightarrow> (u8 list, 'a mem_scheme) res" where
  "load_cstr_from 0 v s = Stop Diverge s"
| "load_cstr_from (Suc n) v s =
     bindr (load8 v s) (\<lambda>b s.
       if b = 0 then Ret [] s
       else bindr (load_cstr_from n (v + 1) s) (\<lambda>bs. Ret (b # bs)))"

definition load_cstr :: "u32 \<Rightarrow> 'a mem_scheme \<Rightarrow> (u8 list, 'a mem_scheme) res" where
  "load_cstr = load_cstr_from 4294967296"

text \<open>
  \<open>strncpy\<close> of \<open>lib/stdlibc/string.c\<close> from a kernel string to user memory. It always writes the
  terminating \<open>NUL\<close>, and with a length of zero copies \<open>(size_t)-1\<close> bytes, beyond the end of
  the source.
\<close>

definition strncpy_user :: "u32 \<Rightarrow> u8 list \<Rightarrow> u32 \<Rightarrow> 'a mem_scheme \<Rightarrow> (unit, 'a mem_scheme) res" where
  "strncpy_user buf name n s =
     (let len = (if n < of_nat (length name) + 1 then n else of_nat (length name) + 1)
      in if len = 0 then Stop Dangling s
         else store_bytes (take (unat len - 1) name @ [0]) buf s)"

text \<open>A write through a pointer that may be \<open>NULL\<close>.\<close>

definition store_opt :: "u32 \<Rightarrow> u32 \<Rightarrow> 'a mem_scheme \<Rightarrow> (unit, 'a mem_scheme) res" where
  "store_opt v x s = (if v \<noteq> NULL then store32 v x s else Ret () s)"

section \<open>The table of system calls\<close>

text \<open>
  \<open>kernel2/syscall.c\<close> without the handler. The comparison of the number is signed and allows
  \<open>SYSCALL_MAXNUM\<close> itself; an index outside the array is \<open>Stop Dangling\<close>, as in C. (The i386 multiplies the
  index by 8 and drops the carry, so that the numbers \<open>n + 0x80000000\<close>, too, would find the entry \<open>n\<close>.)
\<close>

definition syscall_init :: "'a kernel_scheme \<Rightarrow> (u32, 'a kernel_scheme) res" where
  "syscall_init s =
     Ret 0 (s\<lparr>syscalls := replicate (unat SYSCALL_MAXNUM) \<lparr>sys_func = None, sys_numparams = 0\<rparr>\<rparr>)"

definition syscall_entry :: "u32 \<Rightarrow> 'a kernel_scheme \<Rightarrow> (syscall, 'a kernel_scheme) res" where
  "syscall_entry cmd s =
     (if unat cmd < length (syscalls s) then Ret (syscalls s ! unat cmd) s else Stop Dangling s)"

definition syscall_create :: "u32 \<Rightarrow> sysfunc \<Rightarrow> u32 \<Rightarrow> 'a kernel_scheme \<Rightarrow> (u32, 'a kernel_scheme) res" where
  "syscall_create cmd func numparams s =
     (if SYSCALL_MAXNUM <s cmd then Ret (-1) s
      else bindr (syscall_entry cmd s) (\<lambda>e s.
        if sys_func e \<noteq> None then Ret (-1) s
        else Ret 0 (s\<lparr>syscalls := (syscalls s)[unat cmd := \<lparr>sys_func = Some func, sys_numparams = numparams\<rparr>]\<rparr>)))"

definition syscall_destroy :: "u32 \<Rightarrow> 'a kernel_scheme \<Rightarrow> (unit, 'a kernel_scheme) res" where
  "syscall_destroy cmd s =
     (if cmd <s SYSCALL_MAXNUM then
        bindr (syscall_entry cmd s) (\<lambda>e s.
          Ret () (s\<lparr>syscalls := (syscalls s)[unat cmd := e\<lparr>sys_func := None\<rparr>]\<rparr>))
      else Ret () s)"

text \<open>A run of \<open>if (syscall_create(...)==-1) return -1;\<close>, as the initialisers of the components have it.\<close>

fun syscall_register :: "(u32 \<times> sysfunc \<times> u32) list \<Rightarrow> 'a kernel_scheme \<Rightarrow> (u32, 'a kernel_scheme) res" where
  "syscall_register [] s = Ret 0 s"
| "syscall_register ((cmd, func, n) # rs) s =
     bindr (syscall_create cmd func n s) (\<lambda>r s. if r = -1 then Ret (-1) s else syscall_register rs s)"

section \<open>Operations of the memory managers leave the rest of the kernel alone\<close>

definition keeps :: "('s \<Rightarrow> 'f) \<Rightarrow> 's \<Rightarrow> ('a, 's) res \<Rightarrow> bool" where
  "keeps f s r \<longleftrightarrow> f (final r) = f s"

named_theorems keeps_intros \<open>an operation leaves a part of the state alone\<close>

lemma keeps_Ret [keeps_intros]: "f t = f s \<Longrightarrow> keeps f s (Ret x t)"
  by (simp add: keeps_def)

lemma keeps_Stop [keeps_intros]: "f t = f s \<Longrightarrow> keeps f s (Stop e t)"
  by (simp add: keeps_def)

lemma keeps_bindr_eq:
  assumes "keeps f s r" "\<And>x t. r = Ret x t \<Longrightarrow> f t = f s \<Longrightarrow> keeps f t (g x t)"
  shows "keeps f s (bindr r g)"
proof (cases r)
  case (Ret x t)
  with assms(1) have "f t = f s" by (simp add: keeps_def)
  with assms(2) [OF Ret this] Ret show ?thesis by (simp add: keeps_def)
qed (use assms(1) in \<open>simp add: keeps_def\<close>)

lemma keeps_bindr [keeps_intros]:
  assumes "keeps f s r" "\<And>x t. f t = f s \<Longrightarrow> keeps f t (g x t)"
  shows "keeps f s (bindr r g)"
  using assms(1) by (rule keeps_bindr_eq) (rule assms(2))

lemma keeps_if [keeps_intros]: "(b \<Longrightarrow> keeps f s r) \<Longrightarrow> (\<not> b \<Longrightarrow> keeps f s r') \<Longrightarrow> keeps f s (if b then r else r')"
  by simp

lemma keeps_Let [keeps_intros]: "keeps f s (g x) \<Longrightarrow> keeps f s (let y = x in g y)"
  by simp

lemma keeps_foreach [keeps_intros]:
  assumes "\<And>x t. f t = f s \<Longrightarrow> keeps f t (g x t)"
  shows "keeps f s (foreach g xs s)"
proof -
  have "f t = f s \<Longrightarrow> keeps f t (foreach g xs t)" for t
    using assms
  proof (induction xs arbitrary: t)
    case (Cons x xs)
    from Cons.prems(2) [OF Cons.prems(1)] show ?case
      unfolding foreach.simps
      by (rule keeps_bindr) (rule Cons.IH, simp_all add: Cons.prems)
  qed (simp add: keeps_def)
  then show ?thesis by simp
qed

lemma keeps_drain [keeps_intros]:
  assumes "\<And>xs t. f t = f s \<Longrightarrow> keeps f t (put xs t)" "\<And>x t. f t = f s \<Longrightarrow> keeps f t (g x t)"
  shows "keeps f s (drain put g xs s)"
proof -
  have "f t = f s \<Longrightarrow> keeps f t (drain put g xs t)" for t
  proof (induction xs arbitrary: t)
    case (Cons x xs)
    show ?case unfolding drain.simps
      by (intro keeps_intros assms Cons) (use Cons.prems in simp_all)
  qed (simp add: keeps_def)
  then show ?thesis by simp
qed

lemma keeps_trans: "keeps f t r \<Longrightarrow> f t = f s \<Longrightarrow> keeps f s r"
  by (simp add: keeps_def)

lemma keepsD_Ret: "keeps f s r \<Longrightarrow> r = Ret x t \<Longrightarrow> f t = f s"
  by (auto simp: keeps_def)

abbreviation mkeeps :: "'a mem_scheme \<Rightarrow> ('b, 'a mem_scheme) res \<Rightarrow> bool" where
  "mkeeps \<equiv> keeps mem.more"

lemma mkeeps_load8 [keeps_intros]: "mkeeps s (load8 v s)"
  by (simp add: load8_def keeps_def split: option.split)

lemma mkeeps_store8 [keeps_intros]: "mkeeps s (store8 v x s)"
  by (simp add: store8_def keeps_def split: option.split)

lemma mkeeps_load32 [keeps_intros]: "mkeeps s (load32 v s)"
  by (simp add: load32_def keeps_def split: option.split)

lemma mkeeps_store32 [keeps_intros]: "mkeeps s (store32 v x s)"
  by (simp add: store32_def keeps_def split: option.split)

lemma mkeeps_memset_v [keeps_intros]: "mkeeps s (memset_v n v x s)"
proof (induction n arbitrary: v s)
  case (Suc n)
  show ?case unfolding memset_v.simps by (rule keeps_bindr [OF mkeeps_store8 Suc])
qed (simp add: keeps_def)

lemma mkeeps_load_bytes [keeps_intros]: "mkeeps s (load_bytes n v s)"
proof (induction n arbitrary: v s)
  case (Suc n)
  show ?case unfolding load_bytes.simps
    by (rule keeps_bindr [OF mkeeps_load8 keeps_bindr [OF Suc]]) (simp add: keeps_def)
qed (simp add: keeps_def)

lemma mkeeps_store_bytes [keeps_intros]: "mkeeps s (store_bytes bs v s)"
proof (induction bs arbitrary: v s)
  case (Cons b bs)
  show ?case unfolding store_bytes.simps by (rule keeps_bindr [OF mkeeps_store8 Cons])
qed (simp add: keeps_def)

lemma mkeeps_load_cstr_from [keeps_intros]: "mkeeps s (load_cstr_from n v s)"
proof (induction n arbitrary: v s)
  case (Suc n)
  show ?case unfolding load_cstr_from.simps
    by (intro keeps_intros Suc) simp_all
qed (simp add: keeps_def)

lemma mkeeps_load_cstr [keeps_intros]: "mkeeps s (load_cstr v s)"
  unfolding load_cstr_def by (rule mkeeps_load_cstr_from)

lemma mkeeps_strncpy_user [keeps_intros]: "mkeeps s (strncpy_user buf name n s)"
  unfolding strncpy_user_def by (intro keeps_intros) simp_all

lemma mkeeps_store_opt [keeps_intros]: "mkeeps s (store_opt v x s)"
  unfolding store_opt_def by (intro keeps_intros) simp_all

lemma mkeeps_paging_loadpagedir [keeps_intros]: "mkeeps s (paging_loadpagedir pd s)"
  by (simp add: paging_loadpagedir_def keeps_def)

lemma mkeeps_paging_getpde [keeps_intros]: "mkeeps s (paging_getpde v s)"
  unfolding paging_getpde_def by (intro keeps_intros) simp_all

lemma mkeeps_paging_setpde [keeps_intros]: "mkeeps s (paging_setpde v e s)"
  unfolding paging_setpde_def by (intro keeps_intros) simp_all

lemma mkeeps_paging_getpte [keeps_intros]: "mkeeps s (paging_getpte v s)"
  unfolding paging_getpte_def by (intro keeps_intros) simp_all

lemma mkeeps_paging_setpte [keeps_intros]: "mkeeps s (paging_setpte v e s)"
  unfolding paging_setpte_def by (intro keeps_intros) simp_all

lemma mkeeps_paging_unmap [keeps_intros]: "mkeeps s (paging_unmap v s)"
  unfolding paging_unmap_def by (intro keeps_intros) simp_all

lemma mkeeps_memphys_pop [keeps_intros]: "mkeeps s (memphys_pop s)"
proof -
  have u: "mkeeps s (paging_unmap v (s\<lparr>memphys_stackend := e\<rparr>))" for v e
    by (rule keeps_trans [OF mkeeps_paging_unmap]) simp
  have l: "mkeeps s (load32 v (s\<lparr>memphys_stackptr := e\<rparr>))" for v e
    by (rule keeps_trans [OF mkeeps_load32]) simp
  show ?thesis unfolding memphys_pop_def by (intro keeps_intros u l) simp_all
qed

lemma mkeeps_paging_map_with:
  assumes "\<And>v t. mkeeps t (getpde v t)" "\<And>v e t. mkeeps t (setpde v e t)" "\<And>v e t. mkeeps t (setpte v e t)"
  shows "mkeeps s (paging_map_with getpde setpde setpte v frame usr wrt swp cw s)"
  unfolding paging_map_with_def by (intro keeps_intros assms) (simp_all add: keeps_def)

lemma mkeeps_paging_map [keeps_intros]: "mkeeps s (paging_map v frame usr wrt s)"
  unfolding paging_map_def by (intro mkeeps_paging_map_with keeps_intros)

lemma mkeeps_paging_physread [keeps_intros]: "mkeeps s (paging_physread src n s)"
  unfolding paging_physread_def by (intro keeps_intros) simp_all

lemma mkeeps_store_bytes_upd:
  "mem.more t = mem.more s \<Longrightarrow> mkeeps s (store_bytes bs v t)"
  by (rule keeps_trans [OF mkeeps_store_bytes])

lemma mkeeps_paging_physwrite [keeps_intros]: "mkeeps s (paging_physwrite dest bs s)"
  unfolding paging_physwrite_def
  by (intro keeps_Let keeps_bindr [OF mkeeps_paging_map] keeps_if keeps_bindr [OF mkeeps_store_bytes_upd]
      keeps_Ret) simp_all

lemma mkeeps_paging_cleanpage [keeps_intros]: "mkeeps s (paging_cleanpage p s)"
  unfolding paging_cleanpage_def by (intro keeps_intros) simp_all

lemma mkeeps_word_of_bytes [keeps_intros]: "keeps f s (word_of_bytes bs s)"
  unfolding word_of_bytes_def by (auto simp: keeps_def split: list.split)

lemma mkeeps_paging_getpde_pd [keeps_intros]: "mkeeps s (paging_getpde_pd v pd s)"
  unfolding paging_getpde_pd_def by (intro keeps_intros) simp_all

lemma mkeeps_paging_setpde_pd [keeps_intros]: "mkeeps s (paging_setpde_pd v e pd s)"
  unfolding paging_setpde_pd_def by (intro keeps_intros) simp_all

lemma mkeeps_paging_getpte_pd [keeps_intros]: "mkeeps s (paging_getpte_pd v pd s)"
  unfolding paging_getpte_pd_def by (intro keeps_intros) simp_all

lemma mkeeps_paging_setpte_pd [keeps_intros]: "mkeeps s (paging_setpte_pd v e pd s)"
  unfolding paging_setpte_pd_def by (intro keeps_intros) simp_all

lemma mkeeps_paging_map_pd [keeps_intros]: "mkeeps s (paging_map_pd v frame usr wrt swp cw pd s)"
  unfolding paging_map_pd_def by (intro mkeeps_paging_map_with keeps_intros)

lemma mkeeps_memphys_push [keeps_intros]: "mkeeps s (memphys_push p s)"
  unfolding memphys_push_def by (intro keeps_intros) (simp_all add: keeps_def)

lemma mkeeps_memphys_dma_alloc [keeps_intros]: "mkeeps s (memphys_dma_alloc n s)"
  unfolding memphys_dma_alloc_def by (simp add: keeps_def split: prod.split)

lemma mkeeps_memphys_dma_free [keeps_intros]: "mkeeps s (memphys_dma_free a s)"
  unfolding memphys_dma_free_def by (simp add: keeps_def Let_def)

end
