(* ===== verification/Swap.thy ===== *)
theory Swap
  imports Kernel
begin

text \<open>
  \<open>kernel2/swap.c\<close>: the queue of requests to the process that does the swapping. The code is
  modelled as it stands: \<open>swap_call\<close> only queues the request, and the callers treat its
  result as if the page had been written or read. \<open>memuser_load_addrspace\<close> of
  \<open>kernel2/memuser.c\<close> stands here because the swapper calls it.
\<close>

definition memuser_load_addrspace :: "u32 \<Rightarrow> 'a kernel_scheme \<Rightarrow> (u32, 'a kernel_scheme) res" where
  "memuser_load_addrspace addrspace s =
     bindr (geta addrspace s) (\<lambda>a s.
       if paging_curpd s \<noteq> as_pagedir a then paging_loadpagedir (as_pagedir a) s else Ret 0 s)"

definition SWAP_IN :: u32 where "SWAP_IN = 1"
definition SWAP_OUT :: u32 where "SWAP_OUT = 2"
definition SWAP_REM :: u32 where "SWAP_REM = 3"

definition swap_init :: "'a kernel_scheme \<Rightarrow> (u32, 'a kernel_scheme) res" where
  "swap_init s = Ret 0 (s\<lparr>swap_proc := NULL\<rparr>)"

definition swap_enable :: "u32 \<Rightarrow> 'a kernel_scheme \<Rightarrow> (u32, 'a kernel_scheme) res" where
  "swap_enable buf s =
     (if swap_proc s \<noteq> NULL then Ret (-1) s
      else Ret 0 (s\<lparr>swap_queue := [], swap_proc := proc_current s, swap_buf := buf\<rparr>))"

definition swap_call :: "u32 \<Rightarrow> u32 \<Rightarrow> u32 \<Rightarrow> 'a kernel_scheme \<Rightarrow> (u32, 'a kernel_scheme) res" where
  "swap_call op proc pg s =
     bindr (kmalloc_obj s) (\<lambda>new s.
       if new \<noteq> NULL then
         bindr (getp proc s) (\<lambda>p s.
           Ret 0 (s\<lparr>swap_queue := \<lparr>sc_op = op, sc_pid = p_pid p, sc_page = pg\<rparr> # swap_queue s\<rparr>))
       else Ret (-1) s)"

text \<open>The page table entry \<open>pte\<close> of the C function is a local copy that is never written back.\<close>

definition swap_in :: "u32 \<Rightarrow> u32 \<Rightarrow> 'a kernel_scheme \<Rightarrow> (u32, 'a kernel_scheme) res" where
  "swap_in proc pg s =
     (if swap_proc s \<noteq> NULL then
        bindr (getp proc s) (\<lambda>p s.
        bindr (geta (p_addrspace p) s) (\<lambda>a s.
        bindr (paging_getpte_pd pg (as_pagedir a) s) (\<lambda>pte s.
          if \<not> in_memory pte \<and> swapped pte then
            bindr (memuser_load_addrspace (p_addrspace p) s) (\<lambda>_ s.
            bindr (swap_call SWAP_IN proc pg s) (\<lambda>r s.
              if r \<noteq> 0 then
                bindr (memphys_pop s) (\<lambda>frame s.
                bindr (load_bytes 4096 (swap_buf s) s) (\<lambda>bs s.
                bindr (paging_physwrite frame bs s) (\<lambda>_. Ret 0)))
              else Ret (-1) s))
          else Ret (-1) s)))
      else Ret (-1) s)"

definition swap_out :: "u32 \<Rightarrow> u32 \<Rightarrow> 'a kernel_scheme \<Rightarrow> (u32, 'a kernel_scheme) res" where
  "swap_out proc pg s =
     (if swap_proc s \<noteq> NULL then
        bindr (getp proc s) (\<lambda>p s.
        bindr (geta (p_addrspace p) s) (\<lambda>a s.
        bindr (paging_getpte_pd pg (as_pagedir a) s) (\<lambda>pte s.
          if swappable pte then
            bindr (memuser_load_addrspace (p_addrspace p) s) (\<lambda>_ s.
              let frame = PAGE2ADDR (ucast (page pte)) in
              if frame \<noteq> NULL \<and> in_memory pte then
                bindr (paging_physread frame PAGE_SIZE s) (\<lambda>bs s.
                bindr (store_bytes bs (swap_buf s) s) (\<lambda>_ s.
                bindr (swap_call SWAP_OUT proc pg s) (\<lambda>r s.
                  if r \<noteq> -1 then
                    bindr (memphys_push pg s) (\<lambda>_ s.
                    bindr (geta (p_addrspace p) s) (\<lambda>a s.
                    bindr (paging_setpte_pd pg (pte\<lparr>in_memory := False, swapped := True\<rparr>) (as_pagedir a) s)
                      (\<lambda>_. Ret 0)))
                  else Ret (-1) s)))
              else Ret (-1) s)
          else Ret (-1) s)))
      else Ret (-1) s)"

definition swap_remove :: "u32 \<Rightarrow> u32 \<Rightarrow> 'a kernel_scheme \<Rightarrow> (u32, 'a kernel_scheme) res" where
  "swap_remove proc pg s = (if swap_proc s \<noteq> NULL then swap_call SWAP_REM proc pg s else Ret (-1) s)"

end
