(* ===== verification/Perm.thy ===== *)
theory Perm
  imports Prelude
begin

text \<open>
  \<open>lib/libmeinos/perm.c\<close>: the check of access permissions that the IPC objects use.
\<close>

unbundle bit_operations_syntax

definition PERM_R :: u32 where "PERM_R = 1"
definition PERM_W :: u32 where "PERM_W = 2"
definition PERM_X :: u32 where "PERM_X = 3"
definition PERM_ROOTUID :: u32 where "PERM_ROOTUID = 1"
definition PERM_ROOTGID :: u32 where "PERM_ROOTGID = 1"

text \<open>The masks are the octal \<open>0444\<close>, \<open>0222\<close>, \<open>0111\<close> and \<open>0700\<close>, \<open>0070\<close>, \<open>0007\<close>.\<close>

definition perm_check :: "u32 \<Rightarrow> u32 \<Rightarrow> u32 \<Rightarrow> u32 \<Rightarrow> u32 \<Rightarrow> u32 \<Rightarrow> bool" where
  "perm_check owner_uid owner_gid access_uid access_gid mode op =
     (if access_uid = PERM_ROOTUID \<or> access_gid = PERM_ROOTGID then True
      else
        let opmode = 0;
            opmode = (if op = PERM_R then mode AND 0x124 else opmode);
            opmode = (if op = PERM_W then mode AND 0x92 else opmode);
            opmode = (if op = PERM_X then mode AND 0x49 else opmode)
        in if access_uid = owner_uid \<and> opmode AND 0x1C0 \<noteq> 0 then True
           else if access_gid = owner_gid \<and> opmode AND 0x38 \<noteq> 0 then True
           else opmode AND 7 \<noteq> 0)"

text \<open>The permission bits as a table: the bit of an operation within each of the three classes.\<close>

fun perm_bit :: "u32 \<Rightarrow> nat" where
  "perm_bit op = (if op = PERM_R then 2 else if op = PERM_W then 1 else 0)"

definition may_access :: "u32 \<Rightarrow> u32 \<Rightarrow> u32 \<Rightarrow> u32 \<Rightarrow> u32 \<Rightarrow> u32 \<Rightarrow> bool" where
  "may_access owner_uid owner_gid access_uid access_gid mode op \<longleftrightarrow>
     access_uid = PERM_ROOTUID \<or> access_gid = PERM_ROOTGID \<or>
     access_uid = owner_uid \<and> bit mode (6 + perm_bit op) \<or>
     access_gid = owner_gid \<and> bit mode (3 + perm_bit op) \<or>
     bit mode (perm_bit op)"

lemma mask_bit: "(m :: u32) AND 2 ^ k \<noteq> 0 \<longleftrightarrow> bit m k" 
  by (simp add: and_exp_eq_0_iff_not_bit)

lemma mask_bits:
  "(m :: u32) AND 256 \<noteq> 0 \<longleftrightarrow> bit m 8" "m AND 128 \<noteq> 0 \<longleftrightarrow> bit m 7" "m AND 64 \<noteq> 0 \<longleftrightarrow> bit m 6"
  "m AND 32 \<noteq> 0 \<longleftrightarrow> bit m 5" "m AND 16 \<noteq> 0 \<longleftrightarrow> bit m 4" "m AND 8 \<noteq> 0 \<longleftrightarrow> bit m 3"
  "m AND 4 \<noteq> 0 \<longleftrightarrow> bit m 2" "m AND 2 \<noteq> 0 \<longleftrightarrow> bit m 1" "m AND 1 \<noteq> 0 \<longleftrightarrow> bit m 0"
  using mask_bit [of m 8] mask_bit [of m 7] mask_bit [of m 6] mask_bit [of m 5] mask_bit [of m 4]
    mask_bit [of m 3] mask_bit [of m 2] mask_bit [of m 1] mask_bit [of m 0]
  by simp_all

text \<open>
  C28. The masks of \<open>perm_check\<close> select exactly one permission bit per class: for each of the
  three operations, access is granted to root, to the owner with the owner's bit, to the group
  with the group's bit, and to everybody with the bit for others, and in no other case.
\<close>

theorem perm_check_is_may_access:
  assumes "op \<in> {PERM_R, PERM_W, PERM_X}"
  shows "perm_check owner_uid owner_gid access_uid access_gid mode op \<longleftrightarrow>
    may_access owner_uid owner_gid access_uid access_gid mode op"
  using assms
  by (auto simp: perm_check_def may_access_def PERM_R_def PERM_W_def PERM_X_def and.assoc mask_bits)

theorem perm_check_is_may_access_witness:
  "perm_check 5 6 7 6 0x1A0 PERM_R \<and> \<not> perm_check 5 6 7 6 0x1A0 PERM_W"
  unfolding perm_check_is_may_access [of PERM_R, simplified] perm_check_is_may_access [of PERM_W, simplified]
  by (simp add: may_access_def PERM_R_def PERM_W_def PERM_ROOTUID_def PERM_ROOTGID_def bit_iff_odd)

end
