(* ===== verification/MemUser.thy ===== *)
theory MemUser
  imports Swap Perm
begin

text \<open>
  \<open>kernel2/memuser.c\<close>: user page directories and address spaces, allocation of user pages, the
  user stack, the page fault handler and memory for DMA; \<open>kernel2/memkernel.c\<close>: virtual pages for
  the kernel heap. An address space is named by the address of its \<open>addrspace_t\<close>.
\<close>

section \<open>Free virtual pages\<close>

text \<open>
  The loop of \<open>memuser_findvirt\<close>. A missing page table counts as 1024 free pages, but only when
  the search stands at its first page.
\<close>

definition USERDATA_END :: u32 where "USERDATA_END = USERDATA_ADDRESS + USERDATA_SIZE"

function findvirt_loop :: "u32 \<Rightarrow> u32 \<Rightarrow> u32 \<Rightarrow> u32 \<Rightarrow> 'a mem_scheme \<Rightarrow> (u32, 'a mem_scheme) res" where
  "findvirt_loop pagedir pages virt found s =
     (if virt < USERDATA_END then
        if found \<ge> pages then Ret (virt - found * PAGE_SIZE) s
        else
          bindr (if ADDR2PTE virt = 0
                 then bindr (paging_getpde_pd virt pagedir s) (\<lambda>e. Ret (\<not> pde_exists e))
                 else Ret False s) (\<lambda>skip s.
            if skip then findvirt_loop pagedir pages (virt + 1023 * PAGE_SIZE + PAGE_SIZE) (found + 1024) s
            else bindr (paging_getpte_pd virt pagedir s) (\<lambda>t.
                   findvirt_loop pagedir pages (virt + PAGE_SIZE) (if exists t then 0 else found + 1)))
      else Ret NULL s)"
  by pat_completeness auto

lemma USERDATA_END_eq: "USERDATA_END = 0xFFBFF000"
  by (simp add: USERDATA_END_def memmap_defs)

lemma unat_next_page: "virt < USERDATA_END \<Longrightarrow> unat (virt + PAGE_SIZE) = unat virt + 4096"
  by (simp add: USERDATA_END_eq u32_less_iff PAGE_SIZE_def unat_plus_u32)

lemma unat_next_table:
  assumes "virt < USERDATA_END" "ADDR2PTE virt = 0"
  shows "unat (virt + 1023 * PAGE_SIZE + PAGE_SIZE) = unat virt + 4194304"
proof -
  have "unat virt div 4096 mod 1024 = 0"
    using assms(2) by (simp add: unat_macros word_unat_eq_iff)
  then obtain q where q: "unat virt div 4096 = 1024 * q" by (auto elim: dvdE)
  have v: "unat virt = 4096 * (unat virt div 4096) + unat virt mod 4096" by simp
  have "unat virt < 4290768896" using assms(1) by (simp add: USERDATA_END_eq u32_less_iff)
  with v q have "4194304 * q < 4290768896" by linarith
  then have "q \<le> 1022" by simp
  with v q have "unat virt < 4286582784" using mod_less_divisor [of 4096 "unat virt"] by linarith
  then show ?thesis by (simp add: PAGE_SIZE_def add.assoc unat_plus_u32)
qed

lemma next_page_less:
  "virt < USERDATA_END \<Longrightarrow> 4294967295 - unat (virt + PAGE_SIZE) < 4294967295 - unat virt"
  using unat_u32_lt [of "virt + PAGE_SIZE"] by (simp add: unat_next_page USERDATA_END_eq u32_less_iff)

lemma next_table_less:
  assumes "virt < USERDATA_END" "ADDR2PTE virt = 0"
  shows "4294967295 - unat (1024 * PAGE_SIZE + virt) < 4294967295 - unat virt"
proof -
  from unat_next_table [OF assms] have "unat (1024 * PAGE_SIZE + virt) = unat virt + 4194304"
    by (simp add: PAGE_SIZE_def add.commute)
  with unat_u32_lt [of "1024 * PAGE_SIZE + virt"] show ?thesis by linarith
qed

termination findvirt_loop
  by (relation "measure (\<lambda>(pd, n, virt, found, s). 0xFFFFFFFF - unat virt)")
     (auto split: if_splits intro: next_page_less next_table_less)

declare findvirt_loop.simps [simp del]

lemma mkeeps_findvirt_loop [keeps_intros]: "mkeeps s (findvirt_loop pd n v found s)"
proof (induction pd n v found s rule: findvirt_loop.induct)
  case (1 pd n v found s)
  show ?case
    by (subst findvirt_loop.simps)
       (intro keeps_if keeps_Ret keeps_bindr_eq; (rule 1)?; (intro keeps_intros)?; simp)
qed

definition memuser_findvirt :: "u32 \<Rightarrow> u32 \<Rightarrow> 'a kernel_scheme \<Rightarrow> (u32, 'a kernel_scheme) res" where
  "memuser_findvirt addrspace pages s =
     bindr (geta addrspace s) (\<lambda>a. findvirt_loop (as_pagedir a) pages USERDATA_ADDRESS 0)"

section \<open>Page directories and address spaces\<close>

text \<open>
  A new directory gets the first \<open>ADDR2PDE (KERNELDATA_ADDRESS + KERNELDATA_SIZE)\<close> bytes of the
  loaded one (the count of entries is passed as a count of bytes) and a last entry that points
  at itself. The bytes are read before the buffer page is mapped; mapping it changes the
  directory entry of the buffer page only, which is not among them.
\<close>

definition memuser_create_pagedir :: "'a kernel_scheme \<Rightarrow> (u32, 'a kernel_scheme) res" where
  "memuser_create_pagedir s =
     bindr (memphys_pop s) (\<lambda>frame s.
     bindr (paging_cleanpage frame s) (\<lambda>pagedir s.
     bindr (load_bytes (unat (ADDR2PDE (KERNELDATA_ADDRESS + KERNELDATA_SIZE))) PAGEDIR_ADDRESS s) (\<lambda>bs s.
     bindr (paging_physwrite pagedir bs s) (\<lambda>_ s.
     bindr (paging_setpde_pd (4092 * MBYTES)
              (zero_pde\<lparr>pde_page := ucast (ADDR2PAGE pagedir), pde_pagesize := False, pde_user := False,
                        pde_writable := True, pde_exists := True\<rparr>) pagedir s)
       (\<lambda>_. Ret pagedir)))))"

definition memuser_destroy_pagedir :: "u32 \<Rightarrow> 'a kernel_scheme \<Rightarrow> (u32, 'a kernel_scheme) res" where
  "memuser_destroy_pagedir pagedir s =
     bindr (if paging_curpd s = pagedir then paging_loadpagedir (paging_kernelpd s) s else Ret 0 s) (\<lambda>_ s.
     bindr (memphys_push pagedir s) (\<lambda>_. Ret 0))"

definition memuser_create_pagetable :: "u32 \<Rightarrow> u32 \<Rightarrow> 'a kernel_scheme \<Rightarrow> (u32, 'a kernel_scheme) res" where
  "memuser_create_pagetable pagedir virt s =
     bindr (memphys_pop (s\<lparr>memuser_debug := memuser_debug s + 1\<rparr>)) (\<lambda>frame s.
     bindr (paging_cleanpage frame s) (\<lambda>pt s.
     bindr (paging_setpde_pd virt (new_pde pt) pagedir (s\<lparr>memuser_debug := memuser_debug s - 1\<rparr>))
       (\<lambda>r. Ret (if 0 \<le>s r then 0 else -1))))"

definition memuser_create_addrspace :: "u32 \<Rightarrow> 'a kernel_scheme \<Rightarrow> (u32, 'a kernel_scheme) res" where
  "memuser_create_addrspace proc s =
     bindr (kmalloc_obj s) (\<lambda>new s.
     bindr (memuser_create_pagedir s) (\<lambda>pagedir s.
       Ret new (s\<lparr>addrspaces := (addrspaces s)(new \<mapsto>
         \<lparr>as_proc = proc, as_pages_loaded = [], as_pages_imaginary = [], as_pages_swapped = [],
          as_pagedir = pagedir, as_stack = NULL\<rparr>)\<rparr>)))"

section \<open>Pages\<close>

definition imaginary_pte :: "u32 \<Rightarrow> pte" where
  "imaginary_pte swp = zero_pte\<lparr>exists := True, swappable := bit swp 0, swapped := False,
     writable := True, user := True\<rparr>"

text \<open>The page table for an address, created when it is missing.\<close>

definition memuser_need_table :: "u32 \<Rightarrow> u32 \<Rightarrow> 'a kernel_scheme \<Rightarrow> (u32, 'a kernel_scheme) res" where
  "memuser_need_table addrspace virt s =
     bindr (geta addrspace s) (\<lambda>a s.
     bindr (paging_getpde_pd virt (as_pagedir a) s) (\<lambda>e s.
       if \<not> pde_exists e then memuser_create_pagetable (as_pagedir a) virt s else Ret 0 s))"

fun memuser_alloc_loop :: "nat \<Rightarrow> u32 \<Rightarrow> u32 \<Rightarrow> u32 \<Rightarrow> 'a kernel_scheme \<Rightarrow> (unit, 'a kernel_scheme) res" where
  "memuser_alloc_loop 0 addrspace virt swp s = Ret () s"
| "memuser_alloc_loop (Suc n) addrspace virt swp s =
     bindr (memuser_need_table addrspace virt s) (\<lambda>_ s.
     bindr (geta addrspace s) (\<lambda>a s.
     bindr (paging_setpte_pd virt (imaginary_pte swp) (as_pagedir a) s) (\<lambda>_ s.
     bindr (upda addrspace (\<lambda>a. a\<lparr>as_pages_imaginary := ll_push virt (as_pages_imaginary a)\<rparr>) s)
       (\<lambda>_. memuser_alloc_loop n addrspace (virt + PAGE_SIZE) swp))))"

definition memuser_alloc :: "u32 \<Rightarrow> u32 \<Rightarrow> u32 \<Rightarrow> 'a kernel_scheme \<Rightarrow> (u32, 'a kernel_scheme) res" where
  "memuser_alloc addrspace count swp s =
     bindr (memuser_findvirt addrspace (count div PAGE_SIZE) s) (\<lambda>addr s.
       if addr \<noteq> NULL
       then bindr (memuser_alloc_loop (unat (count div PAGE_SIZE)) addrspace addr swp s) (\<lambda>_. Ret addr)
       else Ret addr s)"

text \<open>The address space of the running process.\<close>

definition cur_addrspace :: "'a kernel_scheme \<Rightarrow> (u32, 'a kernel_scheme) res" where
  "cur_addrspace s = bindr (getp (proc_current s) s) (\<lambda>p. Ret (p_addrspace p))"

definition memuser_alloc_syscall :: "u32 \<Rightarrow> 'a kernel_scheme \<Rightarrow> (u32, 'a kernel_scheme) res" where
  "memuser_alloc_syscall count s = bindr (cur_addrspace s) (\<lambda>a. memuser_alloc a count 1)"

text \<open>\<open>memuser_free\<close> decides by the entry of the stack, not of the page it frees.\<close>

definition memuser_free :: "u32 \<Rightarrow> u32 \<Rightarrow> 'a kernel_scheme \<Rightarrow> (u32, 'a kernel_scheme) res" where
  "memuser_free addrspace pg s =
     (if pg = NULL then Ret 0 s
      else
        bindr (geta addrspace s) (\<lambda>a s.
        bindr (paging_getpte_pd (as_stack a) (as_pagedir a) s) (\<lambda>pte s.
        bindr (if in_memory pte then
                 bindr (memphys_push (PAGE2ADDR (ucast (page pte))) s) (\<lambda>_.
                   upda addrspace (\<lambda>a. a\<lparr>as_pages_loaded := snd (ll_remove_value (as_pages_loaded a) pg)\<rparr>))
               else if swapped pte then
                 bindr (swap_remove (proc_current s) pg s) (\<lambda>_.
                   upda addrspace (\<lambda>a. a\<lparr>as_pages_swapped := snd (ll_remove_value (as_pages_swapped a) pg)\<rparr>))
               else if cow pte then bindr (paging_unmap pg s) (\<lambda>_. Ret ())
               else
                 bindr (paging_unmap pg s) (\<lambda>_.
                   upda addrspace (\<lambda>a. a\<lparr>as_pages_imaginary := snd (ll_remove_value (as_pages_imaginary a) pg)\<rparr>)))
          (\<lambda>_ s.
        bindr (geta addrspace s) (\<lambda>a s.
        bindr (paging_setpte_pd pg zero_pte (as_pagedir a) s) (\<lambda>_. Ret 0))))))"

definition memuser_free_syscall :: "u32 \<Rightarrow> 'a kernel_scheme \<Rightarrow> (u32, 'a kernel_scheme) res" where
  "memuser_free_syscall pg s = bindr (cur_addrspace s) (\<lambda>a. memuser_free a pg)"

definition memuser_getphysaddr :: "u32 \<Rightarrow> u32 \<Rightarrow> 'a kernel_scheme \<Rightarrow> (u32, 'a kernel_scheme) res" where
  "memuser_getphysaddr addrspace virt s =
     bindr (geta addrspace s) (\<lambda>a s.
     bindr (paging_getpte_pd virt (as_pagedir a) s) (\<lambda>pte.
       Ret (if \<not> in_memory pte then NULL else PAGE2ADDR (ucast (page pte)))))"

definition memuser_getphysaddr_syscall :: "u32 \<Rightarrow> 'a kernel_scheme \<Rightarrow> (u32, 'a kernel_scheme) res" where
  "memuser_getphysaddr_syscall virt s = bindr (cur_addrspace s) (\<lambda>a. memuser_getphysaddr a virt)"

definition loaded_pte :: "u32 \<Rightarrow> u32 \<Rightarrow> pte" where
  "loaded_pte frame wrt = zero_pte\<lparr>exists := True, in_memory := True, swappable := True,
     writable := bit wrt 0, user := True, page := ucast (ADDR2PAGE frame)\<rparr>"

definition memuser_alloc_at :: "u32 \<Rightarrow> u32 \<Rightarrow> u32 \<Rightarrow> u32 \<Rightarrow> 'a kernel_scheme \<Rightarrow> (u32, 'a kernel_scheme) res" where
  "memuser_alloc_at addrspace addr frame wrt s =
     bindr (memuser_need_table addrspace addr s) (\<lambda>_ s.
     bindr (geta addrspace s) (\<lambda>a s.
     bindr (paging_getpte_pd addr (as_pagedir a) s) (\<lambda>_ s.
     bindr (if frame = NULL then memphys_pop s else Ret frame s) (\<lambda>frame s.
     bindr (paging_setpte_pd addr (loaded_pte frame wrt) (as_pagedir a) s) (\<lambda>_ s.
     bindr (upda addrspace (\<lambda>a. a\<lparr>as_pages_loaded := ll_push addr (as_pages_loaded a)\<rparr>) s)
       (\<lambda>_. Ret 0))))))"

section \<open>The user stack\<close>

definition memuser_expand_stack :: "u32 \<Rightarrow> 'a kernel_scheme \<Rightarrow> (u32, 'a kernel_scheme) res" where
  "memuser_expand_stack addrspace s =
     bindr (upda addrspace (\<lambda>a. a\<lparr>as_stack := as_stack a - PAGE_SIZE\<rparr>) s) (\<lambda>_ s.
     bindr (geta addrspace s) (\<lambda>a. memuser_alloc_at addrspace (as_stack a) NULL 1))"

definition memuser_create_stack :: "u32 \<Rightarrow> 'a kernel_scheme \<Rightarrow> (u32, 'a kernel_scheme) res" where
  "memuser_create_stack addrspace s =
     bindr (upda addrspace (\<lambda>a. a\<lparr>as_stack := USERSTACK_END\<rparr>) s) (\<lambda>_ s.
     bindr (memuser_expand_stack addrspace s) (\<lambda>_ s.
     bindr (geta addrspace s) (\<lambda>a. Ret (as_stack a + PAGE_SIZE - 4))))"

definition memuser_destroy_stack :: "u32 \<Rightarrow> 'a kernel_scheme \<Rightarrow> (u32, 'a kernel_scheme) res" where
  "memuser_destroy_stack addrspace s =
     bindr (geta addrspace s) (\<lambda>a. memuser_free addrspace (as_stack a))"

text \<open>
  \<open>memuser_destroy_addrspace\<close> hands the stack pointer to \<open>memuser_destroy_stack\<close>, which takes it
  for an address space.
\<close>

definition memuser_destroy_addrspace :: "u32 \<Rightarrow> 'a kernel_scheme \<Rightarrow> (u32, 'a kernel_scheme) res" where
  "memuser_destroy_addrspace addrspace s =
     bindr (geta addrspace s) (\<lambda>a s.
       if paging_curpd s \<noteq> as_pagedir a then Ret (-1) s
       else
         bindr (if as_stack a \<noteq> NULL then memuser_destroy_stack (as_stack a) s else Ret 0 s) (\<lambda>_ s.
         bindr (geta addrspace s) (\<lambda>a s.
         bindr (drain (\<lambda>ps. upda addrspace (\<lambda>a. a\<lparr>as_pages_loaded := ps\<rparr>))
                  (\<lambda>pg s. bindr (paging_unmap pg s) (\<lambda>f. memphys_push f)) (as_pages_loaded a) s) (\<lambda>_ s.
         bindr (geta addrspace s) (\<lambda>a s.
         bindr (drain (\<lambda>ps. upda addrspace (\<lambda>a. a\<lparr>as_pages_imaginary := ps\<rparr>))
                  (\<lambda>pg s. bindr (paging_unmap pg s) (\<lambda>f. Ret ())) (as_pages_imaginary a) s) (\<lambda>_ s.
         bindr (geta addrspace s) (\<lambda>a s.
         bindr (drain (\<lambda>ps. upda addrspace (\<lambda>a. a\<lparr>as_pages_swapped := ps\<rparr>))
                  (\<lambda>pg s. bindr (swap_remove (as_proc a) pg s) (\<lambda>f. Ret ())) (as_pages_swapped a) s) (\<lambda>_ s.
         bindr (memuser_destroy_pagedir (as_pagedir a) s) (\<lambda>_. Ret 0)))))))))"

section \<open>Page faults\<close>

definition memuser_pagefault :: "u32 \<Rightarrow> 'a kernel_scheme \<Rightarrow> (u32, 'a kernel_scheme) res" where
  "memuser_pagefault addr s =
     (let pg = PAGEDOWN addr in
      bindr (cur_addrspace s) (\<lambda>addrspace s.
      bindr (paging_getpte pg s) (\<lambda>pte s.
        if \<not> exists pte then
          bindr (geta addrspace s) (\<lambda>a s.
            if addr < as_stack a \<and> addr > USERSTACK_END - USERSTACK_MAXSIZE
            then bindr (memuser_expand_stack addrspace s) (\<lambda>_. Ret 0)
            else Ret (-1) s)
        else if swapped pte \<and> \<not> in_memory pte then
          bindr (swap_in (proc_current s) pg s) (\<lambda>r s.
            if r \<noteq> -1 then
              bindr (upda addrspace (\<lambda>a. a\<lparr>as_pages_swapped := snd (ll_remove_value (as_pages_swapped a) pg)\<rparr>) s)
                (\<lambda>_ s.
              bindr (upda addrspace (\<lambda>a. a\<lparr>as_pages_loaded := ll_push pg (as_pages_loaded a)\<rparr>) s) (\<lambda>_ s.
              bindr (swap_remove (proc_current s) pg s) (\<lambda>_. Ret 0)))
            else Ret (-1) s)
        else if cow pte \<and> in_memory pte then
          bindr (memphys_pop s) (\<lambda>new s.
          bindr (paging_setpte pg (pte\<lparr>page := ucast (ADDR2PAGE new), cow := False, writable := True\<rparr>) s) (\<lambda>_ s.
          bindr (paging_physread (PAGE2ADDR (ucast (page pte))) PAGE_SIZE s) (\<lambda>bs s.
          bindr (store_bytes bs pg s) (\<lambda>_. Ret 0))))
        else if \<not> in_memory pte then
          bindr (memphys_pop s) (\<lambda>new s.
          bindr (paging_setpte pg (pte\<lparr>page := ucast (ADDR2PAGE new), in_memory := True\<rparr>) s) (\<lambda>_ s.
          bindr (upda addrspace (\<lambda>a. a\<lparr>as_pages_imaginary := snd (ll_remove_value (as_pages_imaginary a) pg)\<rparr>) s)
            (\<lambda>_ s.
          bindr (upda addrspace (\<lambda>a. a\<lparr>as_pages_loaded := ll_push pg (as_pages_loaded a)\<rparr>) s) (\<lambda>_. Ret 0))))
        else Ret (-1) s)))"

section \<open>Directories in step, video memory and DMA\<close>

definition memuser_syncpds :: "u32 \<Rightarrow> 'a kernel_scheme \<Rightarrow> (u32, 'a kernel_scheme) res" where
  "memuser_syncpds addr s =
     bindr (paging_getpde addr s) (\<lambda>pde s.
     bindr (foreach (\<lambda>proc s.
              bindr (getp proc s) (\<lambda>p s.
              bindr (memuser_load_addrspace (p_addrspace p) s) (\<lambda>_ s.
              bindr (paging_setpde addr pde s) (\<lambda>_. Ret ())))) (ll_elems (proc_all s)) s) (\<lambda>_ s.
     bindr (if proc_current s \<noteq> NULL
            then bindr (cur_addrspace s) (\<lambda>a. memuser_load_addrspace a)
            else Ret 0 s) (\<lambda>_. Ret 0)))"

definition VGA_TEXT_ADDRESS :: u32 where "VGA_TEXT_ADDRESS = 0xB8000"

definition memuser_getvga :: "'a kernel_scheme \<Rightarrow> (u32, 'a kernel_scheme) res" where
  "memuser_getvga s =
     bindr (getp (proc_current s) s) (\<lambda>p s.
     bindr (memuser_findvirt (p_addrspace p) 1 s) (\<lambda>virt s.
       if virt \<noteq> NULL
       then bindr (paging_map virt VGA_TEXT_ADDRESS 1 (if p_gid p = PERM_ROOTGID then 1 else 0) s) (\<lambda>_. Ret virt)
       else Ret virt s))"

text \<open>
  The loops \<open>for (i=0;i<size;i+=PAGE_SIZE)\<close>. There are \<open>2^20\<close> values of \<open>i\<close>; when the loop is
  not over after them, \<open>i\<close> is \<open>0\<close> again and the loop never ends.
\<close>

fun page_loop :: "nat \<Rightarrow> u32 \<Rightarrow> u32 \<Rightarrow> (u32 \<Rightarrow> 's \<Rightarrow> (unit, 's) res) \<Rightarrow> 's \<Rightarrow> (unit, 's) res" where
  "page_loop 0 i n body s = (if i < n then Stop Diverge s else Ret () s)"
| "page_loop (Suc k) i n body s =
     (if i < n then bindr (body i s) (\<lambda>_. page_loop k (i + PAGE_SIZE) n body) else Ret () s)"

definition memuser_dma_alloc :: "u32 \<Rightarrow> 'a kernel_scheme \<Rightarrow> (u32, 'a kernel_scheme) res" where
  "memuser_dma_alloc sz s =
     bindr (memphys_dma_alloc (sz div PAGE_SIZE) s) (\<lambda>frame s.
       if frame \<noteq> NULL then
         bindr (cur_addrspace s) (\<lambda>addrspace s.
         bindr (memuser_findvirt addrspace (sz div PAGE_SIZE) s) (\<lambda>virt s.
           if virt \<noteq> NULL then
             bindr (page_loop 1048576 0 sz (\<lambda>i s. bindr (paging_map (virt + i) (frame + i) 1 1 s) (\<lambda>_. Ret ())) s)
               (\<lambda>_. Ret virt)
           else Ret NULL s))
       else Ret NULL s)"

definition memuser_dma_free :: "u32 \<Rightarrow> u32 \<Rightarrow> 'a kernel_scheme \<Rightarrow> (u32, 'a kernel_scheme) res" where
  "memuser_dma_free addr sz s =
     bindr (page_loop 1048576 0 sz (\<lambda>i s. bindr (paging_unmap (addr + i) s) (\<lambda>f. memphys_dma_free f)) s)
       (\<lambda>_. Ret 0)"

definition memuser_syscalls :: "(u32 \<times> sysfunc \<times> u32) list" where
  "memuser_syscalls =
     [(SYSCALL_MEM_MALLOC, SysMem F_memuser_alloc_syscall, 1),
      (SYSCALL_MEM_FREE, SysMem F_memuser_free_syscall, 1),
      (SYSCALL_MEM_GETPHYSADDR, SysMem F_memuser_getphysaddr_syscall, 1),
      (SYSCALL_MEM_GETVGA, SysMem F_memuser_getvga, 1),
      (SYSCALL_MEM_DMA_ALLOC, SysMem F_memuser_dma_alloc, 1),
      (SYSCALL_MEM_DMA_FREE, SysMem F_memuser_dma_free, 2)]"

definition memuser_init :: "'a kernel_scheme \<Rightarrow> (u32, 'a kernel_scheme) res" where
  "memuser_init s =
     bindr (syscall_register memuser_syscalls
       (s\<lparr>memuser_inited := 1, memuser_debug := 0\<rparr>)) (\<lambda>r s.
     if r = -1 then Ret (-1) s
     else bindr (memphys_dma_init s) (\<lambda>r s. if r = -1 then Ret (-1) s else swap_init s))"

section \<open>Pages for the kernel heap\<close>

text \<open>
  The search of \<open>memkernel_findvirt\<close> differs from the one for user pages in the step over a
  missing table: \<open>1024*(PAGE_SIZE-1)\<close>, which leaves the search three kilobytes off a page boundary.
\<close>

definition KERNELDATA_END :: u32 where "KERNELDATA_END = KERNELDATA_ADDRESS + KERNELDATA_SIZE"

function kfindvirt_loop :: "u32 \<Rightarrow> u32 \<Rightarrow> u32 \<Rightarrow> 'a mem_scheme \<Rightarrow> (u32, 'a mem_scheme) res" where
  "kfindvirt_loop pages virt found s =
     (if virt < KERNELDATA_END then
        if found \<ge> pages then Ret (virt - found * PAGE_SIZE) s
        else
          bindr (if ADDR2PTE virt = 0
                 then bindr (paging_getpde virt s) (\<lambda>e. Ret (\<not> pde_exists e))
                 else Ret False s) (\<lambda>skip s.
            if skip then kfindvirt_loop pages (virt + 1024 * (PAGE_SIZE - 1) + PAGE_SIZE) (found + 1024) s
            else bindr (paging_getpte virt s) (\<lambda>t.
                   kfindvirt_loop pages (virt + PAGE_SIZE) (if exists t then 0 else found + 1)))
      else Ret NULL s)"
  by pat_completeness auto

lemma KERNELDATA_END_eq: "KERNELDATA_END = 0x40000000"
  by (simp add: KERNELDATA_END_def memmap_defs)

lemma kernel_step_less:
  assumes "virt < KERNELDATA_END" "d = 4096 \<or> d = 4197376"
  shows "4294967295 - unat (virt + d) < 4294967295 - unat virt"
proof -
  have "unat virt < 1073741824" using assms(1) by (simp add: KERNELDATA_END_eq u32_less_iff)
  then show ?thesis using assms(2) by (auto simp: unat_plus_u32)
qed

termination kfindvirt_loop
proof (relation "measure (\<lambda>(n, virt, found, s). 0xFFFFFFFF - unat virt)")
  fix pages virt found :: u32 and s and x and sa :: "'a mem_scheme"
  assume "virt < KERNELDATA_END"
  from kernel_step_less [OF this, of "1024 * (PAGE_SIZE - 1) + PAGE_SIZE"]
  show "((pages, virt + 1024 * (PAGE_SIZE - 1) + PAGE_SIZE, found + 1024, sa), pages, virt, found, s)
    \<in> measure (\<lambda>(n, virt, found, s). 0xFFFFFFFF - unat virt)"
    by (simp add: PAGE_SIZE_def add.assoc)
next
  fix pages virt found :: u32 and s and x and sa :: "'a mem_scheme" and t and sb :: "'a mem_scheme"
  assume "virt < KERNELDATA_END"
  from kernel_step_less [OF this, of PAGE_SIZE]
  show "((pages, virt + PAGE_SIZE, if exists t then 0 else found + 1, sb), pages, virt, found, s)
    \<in> measure (\<lambda>(n, virt, found, s). 0xFFFFFFFF - unat virt)"
    by (simp add: PAGE_SIZE_def)
qed simp

declare kfindvirt_loop.simps [simp del]

lemma mkeeps_kfindvirt_loop [keeps_intros]: "mkeeps s (kfindvirt_loop n v found s)"
proof (induction n v found s rule: kfindvirt_loop.induct)
  case (1 n v found s)
  show ?case
    by (subst kfindvirt_loop.simps)
       (intro keeps_if keeps_Ret keeps_bindr_eq; (rule 1)?; (intro keeps_intros)?; simp)
qed

definition memkernel_findvirt :: "u32 \<Rightarrow> 'a mem_scheme \<Rightarrow> (u32, 'a mem_scheme) res" where
  "memkernel_findvirt pages = kfindvirt_loop pages KERNELDATA_ADDRESS 0"

fun memkernel_alloc_loop :: "nat \<Rightarrow> u32 \<Rightarrow> u32 \<Rightarrow> 'a kernel_scheme \<Rightarrow> (unit, 'a kernel_scheme) res" where
  "memkernel_alloc_loop 0 virt i s = Ret () s"
| "memkernel_alloc_loop (Suc n) virt i s =
     bindr (memphys_pop s) (\<lambda>frame s.
     bindr (paging_map (virt + i * PAGE_SIZE) frame 0 1 s) (\<lambda>_ s.
     bindr (if memuser_inited s \<noteq> 0 then memuser_syncpds (virt + i) s else Ret 0 s) (\<lambda>_.
       memkernel_alloc_loop n virt (i + 1))))"

definition memkernel_alloc :: "u32 \<Rightarrow> 'a kernel_scheme \<Rightarrow> (u32, 'a kernel_scheme) res" where
  "memkernel_alloc sz s =
     (let pages = ADDR2PAGE sz in
      bindr (memkernel_findvirt pages s) (\<lambda>virt s.
      bindr (memkernel_alloc_loop (unat pages) virt 0 s) (\<lambda>_. Ret virt)))"

definition memkernel_free :: "u32 \<Rightarrow> 'a kernel_scheme \<Rightarrow> (unit, 'a kernel_scheme) res" where
  "memkernel_free addr s = bindr (paging_unmap addr s) (\<lambda>f. memphys_push f)"

end
