(* ===== verification/Procm.thy ===== *)
theory Procm
  imports MemUser
begin

text \<open>
  \<open>kernel2/procm.c\<close>, the process manager: creation and destruction of processes, the scheduler,
  sleeping and waking, the exit and wait protocol, calls into a process, and the system calls
  on processes and on their memory; \<open>kernel2/vm86.c\<close> and \<open>kernel2/signal.c\<close>.
\<close>

unbundle bit_operations_syntax

section \<open>Sleeping and idling\<close>

definition proc_idle :: "'a kernel_scheme \<Rightarrow> ('b, 'a kernel_scheme) res" where
  "proc_idle s = Stop Idle (s\<lparr>interrupt_enabled := 1\<rparr>)"

definition cpu_shutdown :: "'a kernel_scheme \<Rightarrow> ('b, 'a kernel_scheme) res" where
  "cpu_shutdown s = Stop Shutdown (s\<lparr>interrupt_enabled := 0\<rparr>)"

definition vm86_save_segregs :: "u32 \<Rightarrow> 'a kernel_scheme \<Rightarrow> (unit, 'a kernel_scheme) res" where
  "vm86_save_segregs proc s = updp proc (\<lambda>p. p\<lparr>p_vm86_segregs := vm86_curregs s\<rparr>) s"

definition vm86_load_segregs :: "u32 \<Rightarrow> 'a kernel_scheme \<Rightarrow> (unit, 'a kernel_scheme) res" where
  "vm86_load_segregs proc s = bindr (getp proc s) (\<lambda>p s. Ret () (s\<lparr>vm86_curregs := p_vm86_segregs p\<rparr>))"

text \<open>The sixteen assignments of \<open>proc_regs_save\<close> and \<open>proc_regs_load\<close> copy every register.\<close>

definition proc_regs_save :: "u32 \<Rightarrow> 'a kernel_scheme \<Rightarrow> (u32, 'a kernel_scheme) res" where
  "proc_regs_save proc s =
     bindr (updp proc (\<lambda>p. p\<lparr>p_registers := curregs s\<rparr>) s) (\<lambda>_ s.
     bindr (getp proc s) (\<lambda>p s.
     bindr (if p_is_vm86 p \<noteq> 0 then vm86_save_segregs proc s else Ret () s) (\<lambda>_. Ret 0)))"

definition proc_regs_load :: "u32 \<Rightarrow> 'a kernel_scheme \<Rightarrow> (u32, 'a kernel_scheme) res" where
  "proc_regs_load proc s =
     bindr (getp proc s) (\<lambda>p s.
     bindr (if p_is_vm86 p \<noteq> 0 then vm86_load_segregs proc (s\<lparr>curregs := p_registers p\<rparr>)
            else Ret () (s\<lparr>curregs := p_registers p\<rparr>)) (\<lambda>_. Ret 0))"

section \<open>The scheduler\<close>

text \<open>\<open>NICE2TICKS\<close> ignores the nice value.\<close>

definition NICE2TICKS :: "u32 \<Rightarrow> u32" where "NICE2TICKS nice = 1"

definition pick_process :: "u32 list \<Rightarrow> 'a kernel_scheme \<Rightarrow> (unit, 'a kernel_scheme) res" where
  "pick_process = foreach (\<lambda>proc s.
     bindr (getp proc s) (\<lambda>p s.
       if p_ticks_rem p > 0 then Ret () (s\<lparr>proc_current := proc\<rparr>) else Ret () s))"

definition refill_ticks :: "u32 list \<Rightarrow> 'a kernel_scheme \<Rightarrow> (unit, 'a kernel_scheme) res" where
  "refill_ticks = foreach (\<lambda>proc. updp proc (\<lambda>p. p\<lparr>p_ticks_rem := NICE2TICKS (p_nice p)\<rparr>))"

definition switch_from :: "u32 \<Rightarrow> 'a kernel_scheme \<Rightarrow> (unit, 'a kernel_scheme) res" where
  "switch_from proc_old s =
     (if proc_old \<noteq> proc_current s then
        bindr (if proc_old \<noteq> NULL then proc_regs_save proc_old s else Ret 0 s) (\<lambda>_ s.
        bindr (proc_regs_load (proc_current s) s) (\<lambda>_ s.
        bindr (cur_addrspace s) (\<lambda>a s.
        bindr (memuser_load_addrspace a s) (\<lambda>_. Ret ()))))
      else Ret () s)"

definition proc_shedule :: "'a kernel_scheme \<Rightarrow> (unit, 'a kernel_scheme) res" where
  "proc_shedule s =
     (let proc_old = proc_current s in
      if proc_running s = [] then
        if proc_sleeping s = [] then cpu_shutdown s
        else bindr (proc_regs_save (proc_current s) s) (\<lambda>_ s. proc_idle (s\<lparr>proc_current := NULL\<rparr>))
      else
        bindr (if proc_current s \<noteq> NULL
               then bindr (updp (proc_current s) (\<lambda>p. p\<lparr>p_ticks_rem := p_ticks_rem p - 1\<rparr>) s)
                      (\<lambda>_ s. Ret () (s\<lparr>proc_current := NULL\<rparr>))
               else Ret () s) (\<lambda>_ s.
        bindr (pick_process (ll_elems (proc_running s)) s) (\<lambda>_ s.
        bindr (if proc_current s = NULL
               then bindr (refill_ticks (ll_elems (proc_running s)) s)
                      (\<lambda>_ s. Ret () (s\<lparr>proc_current := ll_get (proc_running s) 0\<rparr>))
               else Ret () s) (\<lambda>_. switch_from proc_old))))"

definition proc_sleep :: "u32 \<Rightarrow> 'a kernel_scheme \<Rightarrow> (u32, 'a kernel_scheme) res" where
  "proc_sleep proc s =
     bindr (getp proc s) (\<lambda>p s.
       if p_is_sleeping p = 0 then
         bindr (updp proc (\<lambda>p. p\<lparr>p_is_sleeping := 1\<rparr>)
                  (s\<lparr>proc_running := snd (ll_remove_value (proc_running s) proc),
                     proc_sleeping := ll_push proc (proc_sleeping s)\<rparr>)) (\<lambda>_ s.
         bindr (if proc = proc_current s then proc_shedule s else Ret () s) (\<lambda>_. Ret 0))
       else Ret 0 s)"

definition proc_wake :: "u32 \<Rightarrow> 'a kernel_scheme \<Rightarrow> (u32, 'a kernel_scheme) res" where
  "proc_wake proc s =
     bindr (getp proc s) (\<lambda>p s.
       if p_is_sleeping p \<noteq> 0 then
         bindr (updp proc (\<lambda>p. p\<lparr>p_is_sleeping := 0\<rparr>)
                  (s\<lparr>proc_sleeping := snd (ll_remove_value (proc_sleeping s) proc),
                     proc_running := ll_push proc (proc_running s)\<rparr>)) (\<lambda>_. Ret 0)
       else Ret 0 s)"

section \<open>Creation and destruction\<close>

definition IDX2SEL :: "u32 \<Rightarrow> u32 \<Rightarrow> u32" where "IDX2SEL idx priv = (push_bit 3 idx OR priv)"
definition PRIV_USER :: u32 where "PRIV_USER = 3"

definition user_registers :: "u32 \<Rightarrow> proc_registers" where
  "user_registers efl =
     \<lparr>r_eax = 0, r_ebx = 0, r_ecx = 0, r_edx = 0, r_esi = 0, r_edi = 0, r_ebp = 0, r_esp = 0, r_eip = 0,
      r_efl = efl, r_cs = IDX2SEL 3 PRIV_USER, r_ds = IDX2SEL 4 PRIV_USER, r_es = IDX2SEL 4 PRIV_USER,
      r_fs = IDX2SEL 4 PRIV_USER, r_gs = IDX2SEL 4 PRIV_USER, r_ss = IDX2SEL 4 PRIV_USER\<rparr>"

text \<open>
  The fields of a new process that \<open>proc_create\<close> assigns; \<open>ret\<close>, \<open>wait\<close>, \<open>wait_pid\<close>,
  \<open>wait_stat\<close>, \<open>vm86_pagedir\<close> and \<open>vm86_segregs\<close> keep what the memory held before.
\<close>

definition new_proc :: "proc_S \<Rightarrow> u32 \<Rightarrow> u8 list \<Rightarrow> u32 \<Rightarrow> u32 \<Rightarrow> u32 \<Rightarrow> u32 \<Rightarrow> u32 \<Rightarrow> u32 \<Rightarrow> proc_S" where
  "new_proc junk pid name uid gid parent running sys addrspace =
     junk\<lparr>p_pid := pid, p_uid := uid, p_euid := uid, p_suid := uid, p_gid := gid, p_egid := gid,
          p_sgid := gid, p_name := name, p_system := sys, p_parent := parent, p_children := [],
          p_registers := user_registers 0x202, p_addrspace := addrspace, p_time_handler := [],
          p_nice := 0, p_ticks_rem := NICE2TICKS 0, p_var := -1, p_defunc := 0,
          p_is_sleeping := (if running = 0 then 1 else 0), p_signal := NULL, p_is_vm86 := 0\<rparr>"

definition proc_create ::
  "u8 list \<Rightarrow> u32 \<Rightarrow> u32 \<Rightarrow> u32 \<Rightarrow> u32 \<Rightarrow> u32 \<Rightarrow> 'a kernel_scheme \<Rightarrow> (u32, 'a kernel_scheme) res" where
  "proc_create name uid gid parent running sys s =
     bindr (kmalloc_obj s) (\<lambda>new s.
       let pid = proc_nextpid s; s = s\<lparr>proc_nextpid := proc_nextpid s + 1\<rparr> in
       bindr (if parent \<noteq> NULL then updp parent (\<lambda>p. p\<lparr>p_children := ll_push new (p_children p)\<rparr>) s
              else Ret () s) (\<lambda>_ s.
       bindr (memuser_create_addrspace new s) (\<lambda>addrspace s.
         let s = s\<lparr>procs := (procs s)(new \<mapsto> new_proc (heap_junk s) pid name uid gid parent running sys addrspace),
                   proc_all := ll_push new (proc_all s)\<rparr>
         in Ret new (if running \<noteq> 0 then s\<lparr>proc_running := ll_push new (proc_running s)\<rparr>
                     else s\<lparr>proc_sleeping := ll_push new (proc_sleeping s)\<rparr>))))"

definition proc_destroy :: "u32 \<Rightarrow> 'a kernel_scheme \<Rightarrow> (u32, 'a kernel_scheme) res" where
  "proc_destroy proc s =
     bindr (getp proc s) (\<lambda>p s.
     bindr (drain (\<lambda>cs. updp proc (\<lambda>p. p\<lparr>p_children := cs\<rparr>))
              (\<lambda>child s. bindr (getp proc s) (\<lambda>p. updp child (\<lambda>c. c\<lparr>p_parent := p_parent p\<rparr>)))
              (p_children p) s) (\<lambda>_ s.
     bindr (getp proc s) (\<lambda>p s.
     bindr (if p_parent p \<noteq> NULL
            then updp (p_parent p) (\<lambda>q. q\<lparr>p_children := snd (ll_remove_value (p_children q) proc)\<rparr>) s
            else Ret () s) (\<lambda>_ s.
     bindr (if p_addrspace p \<noteq> NULL then memuser_destroy_addrspace (p_addrspace p) s else Ret 0 s) (\<lambda>_ s.
       let s = s\<lparr>proc_all := snd (ll_remove_value (proc_all s) proc)\<rparr>;
           (r, run) = ll_remove_value (proc_running s) proc;
           s = s\<lparr>proc_running := run\<rparr>;
           s = (if r \<noteq> proc then s\<lparr>proc_sleeping := snd (ll_remove_value (proc_sleeping s) proc)\<rparr> else s)
       in Ret 0 (s\<lparr>procs := (procs s)(proc := None)\<rparr>))))))"

text \<open>\<open>vm86_proc_create\<close> does not enter the process into any list and leaves \<open>system\<close> as it was.\<close>

definition new_vm86_proc :: "proc_S \<Rightarrow> u32 \<Rightarrow> u8 list \<Rightarrow> u32 \<Rightarrow> u32 \<Rightarrow> u32 \<Rightarrow> proc_S" where
  "new_vm86_proc junk pid name uid gid parent =
     junk\<lparr>p_pid := pid, p_uid := uid, p_euid := uid, p_suid := uid, p_gid := gid, p_egid := gid,
          p_sgid := gid, p_name := name, p_parent := parent, p_children := [],
          p_registers := user_registers 0x20202, p_addrspace := NULL, p_vm86_pagedir := NULL,
          p_nice := 0, p_ticks_rem := NICE2TICKS 0, p_var := -1, p_defunc := 0,
          p_is_sleeping := 0, p_signal := NULL, p_is_vm86 := 1\<rparr>"

definition vm86_proc_create :: "u8 list \<Rightarrow> u32 \<Rightarrow> u32 \<Rightarrow> u32 \<Rightarrow> 'a kernel_scheme \<Rightarrow> (u32, 'a kernel_scheme) res" where
  "vm86_proc_create name uid gid parent s =
     bindr (kmalloc_obj s) (\<lambda>new s.
       let pid = proc_nextpid s; s = s\<lparr>proc_nextpid := proc_nextpid s + 1\<rparr> in
       bindr (if parent \<noteq> NULL then updp parent (\<lambda>p. p\<lparr>p_children := ll_push new (p_children p)\<rparr>) s
              else Ret () s) (\<lambda>_ s.
         Ret new (s\<lparr>procs := (procs s)(new \<mapsto> new_vm86_proc (heap_junk s) pid name uid gid parent)\<rparr>)))"

section \<open>Lookup\<close>

fun find_pid :: "u32 \<Rightarrow> u32 list \<Rightarrow> 'a kernel_scheme \<Rightarrow> (u32, 'a kernel_scheme) res" where
  "find_pid pid [] s = Ret NULL s"
| "find_pid pid (proc # ps) s =
     bindr (getp proc s) (\<lambda>p s. if p_pid p = pid then Ret proc s else find_pid pid ps s)"

definition proc_find :: "u32 \<Rightarrow> 'a kernel_scheme \<Rightarrow> (u32, 'a kernel_scheme) res" where
  "proc_find pid s =
     bindr (getp (proc_current s) s) (\<lambda>p s.
       if p_pid p = pid then Ret (proc_current s) s else find_pid pid (ll_elems (proc_all s)) s)"

definition proc_ischild :: "u32 \<Rightarrow> u32 \<Rightarrow> 'a kernel_scheme \<Rightarrow> (u32, 'a kernel_scheme) res" where
  "proc_ischild parent proc s =
     bindr (getp parent s) (\<lambda>p. Ret (if proc \<in> set (ll_elems (p_children p)) then 1 else 0))"

section \<open>System calls that read and write a process\<close>

definition proc_getpid :: "'a kernel_scheme \<Rightarrow> (u32, 'a kernel_scheme) res" where
  "proc_getpid s = bindr (getp (proc_current s) s) (\<lambda>p. Ret (p_pid p))"

definition proc_getparent :: "u32 \<Rightarrow> 'a kernel_scheme \<Rightarrow> (u32, 'a kernel_scheme) res" where
  "proc_getparent pid s =
     bindr (proc_find pid s) (\<lambda>proc s.
       if proc \<noteq> NULL then
         bindr (getp proc s) (\<lambda>p s.
           if p_parent p \<noteq> NULL then bindr (getp (p_parent p) s) (\<lambda>q. Ret (p_pid q)) else Ret 0 s)
       else Ret 0 s)"

definition proc_getchild :: "u32 \<Rightarrow> u32 \<Rightarrow> 'a kernel_scheme \<Rightarrow> (u32, 'a kernel_scheme) res" where
  "proc_getchild pid i s =
     bindr (proc_find pid s) (\<lambda>proc s.
       if proc \<noteq> NULL then
         bindr (getp proc s) (\<lambda>p s.
           let child = ll_get (p_children p) i in
           if child = NULL then Ret (-1) s else bindr (getp child s) (\<lambda>c. Ret (p_pid c)))
       else Ret 0 s)"

definition proc_getuid :: "u32 \<Rightarrow> 'a kernel_scheme \<Rightarrow> (u32, 'a kernel_scheme) res" where
  "proc_getuid i s =
     (if i = 1 then bindr (getp (proc_current s) s) (\<lambda>p. Ret (p_uid p))
      else if i = 2 then bindr (getp (proc_current s) s) (\<lambda>p. Ret (p_euid p))
      else if i = 3 then bindr (getp (proc_current s) s) (\<lambda>p. Ret (p_suid p))
      else Ret 0 s)"

definition proc_setuid :: "u32 \<Rightarrow> u32 \<Rightarrow> 'a kernel_scheme \<Rightarrow> (unit, 'a kernel_scheme) res" where
  "proc_setuid i uid s =
     (if i = 1 then updp (proc_current s) (\<lambda>p. p\<lparr>p_uid := uid\<rparr>) s
      else if i = 2 then updp (proc_current s) (\<lambda>p. p\<lparr>p_euid := uid\<rparr>) s
      else if i = 3 then updp (proc_current s) (\<lambda>p. p\<lparr>p_suid := uid\<rparr>) s
      else Ret () s)"

definition proc_getgid :: "u32 \<Rightarrow> 'a kernel_scheme \<Rightarrow> (u32, 'a kernel_scheme) res" where
  "proc_getgid i s =
     (if i = 1 then bindr (getp (proc_current s) s) (\<lambda>p. Ret (p_gid p))
      else if i = 2 then bindr (getp (proc_current s) s) (\<lambda>p. Ret (p_egid p))
      else if i = 3 then bindr (getp (proc_current s) s) (\<lambda>p. Ret (p_sgid p))
      else Ret 0 s)"

definition proc_setgid :: "u32 \<Rightarrow> u32 \<Rightarrow> 'a kernel_scheme \<Rightarrow> (unit, 'a kernel_scheme) res" where
  "proc_setgid i gid s =
     (if i = 1 then updp (proc_current s) (\<lambda>p. p\<lparr>p_gid := gid\<rparr>) s
      else if i = 2 then updp (proc_current s) (\<lambda>p. p\<lparr>p_egid := gid\<rparr>) s
      else if i = 3 then updp (proc_current s) (\<lambda>p. p\<lparr>p_sgid := gid\<rparr>) s
      else Ret () s)"

definition proc_getname :: "u32 \<Rightarrow> u32 \<Rightarrow> u32 \<Rightarrow> 'a kernel_scheme \<Rightarrow> (u32, 'a kernel_scheme) res" where
  "proc_getname pid buf maxlen s =
     bindr (proc_find pid s) (\<lambda>proc s.
       if proc \<noteq> NULL then
         bindr (getp proc s) (\<lambda>p s.
           if buf \<noteq> NULL then bindr (strncpy_user buf (p_name p) maxlen s) (\<lambda>_. Ret 0)
           else Ret (of_nat (length (p_name p)) + 1) s)
       else Ret (-1) s)"

text \<open>The name of the argument is a string of user memory.\<close>

definition proc_setname :: "u32 \<Rightarrow> u32 \<Rightarrow> 'a kernel_scheme \<Rightarrow> (u32, 'a kernel_scheme) res" where
  "proc_setname proc_pid name s =
     bindr (getp (proc_current s) s) (\<lambda>c s.
     bindr (if p_system c \<noteq> 0 then
              bindr (proc_find proc_pid s) (\<lambda>proc s.
                if proc \<noteq> NULL \<and> proc \<noteq> proc_current s then
                  bindr (load_cstr name s) (\<lambda>str. updp proc (\<lambda>p. p\<lparr>p_name := str\<rparr>))
                else Ret () s)
            else Ret () s) (\<lambda>_. Ret (-1)))"

fun find_name :: "u8 list \<Rightarrow> u32 list \<Rightarrow> 'a kernel_scheme \<Rightarrow> (u32, 'a kernel_scheme) res" where
  "find_name name [] s = Ret (-1) s"
| "find_name name (proc # ps) s =
     bindr (getp proc s) (\<lambda>p s. if p_name p = name then Ret (p_pid p) s else find_name name ps s)"

definition proc_getpidbyname :: "u32 \<Rightarrow> 'a kernel_scheme \<Rightarrow> (u32, 'a kernel_scheme) res" where
  "proc_getpidbyname name s =
     bindr (load_cstr name s) (\<lambda>str s. find_name str (ll_elems (proc_all s)) s)"

definition proc_getvar :: "u32 \<Rightarrow> 'a kernel_scheme \<Rightarrow> (u32, 'a kernel_scheme) res" where
  "proc_getvar pid s =
     bindr (proc_find pid s) (\<lambda>proc s.
       if proc = NULL then Ret (-1) s
       else
         bindr (getp (proc_current s) s) (\<lambda>c s.
         bindr (getp proc s) (\<lambda>p s.
           if p_system c \<noteq> 0 \<or> proc_current s = proc then Ret (p_var p) s else Ret (-1) s)))"

definition proc_setvar :: "u32 \<Rightarrow> u32 \<Rightarrow> 'a kernel_scheme \<Rightarrow> (unit, 'a kernel_scheme) res" where
  "proc_setvar pid var s =
     bindr (proc_find pid s) (\<lambda>proc s.
       if proc \<noteq> NULL then updp proc (\<lambda>p. p\<lparr>p_var := var\<rparr>) s else Ret () s)"

section \<open>Waiting and exiting\<close>

definition proc_waitpid :: "u32 \<Rightarrow> u32 \<Rightarrow> u32 \<Rightarrow> 'a kernel_scheme \<Rightarrow> (u32, 'a kernel_scheme) res" where
  "proc_waitpid pid stat_loc options s =
     (let wait = (\<lambda>s.
        bindr (updp (proc_current s) (\<lambda>p. p\<lparr>p_wait_pid := pid, p_wait_stat := stat_loc, p_wait := 1\<rparr>) s) (\<lambda>_ s.
        bindr (proc_sleep (proc_current s) s) (\<lambda>_. Ret (-1))))
      in if 0 <s pid then
           bindr (proc_find pid s) (\<lambda>proc s.
             if proc \<noteq> NULL then
               bindr (getp proc s) (\<lambda>p s.
                 if p_defunc p \<noteq> 0 then bindr (store32 stat_loc (p_ret p) s) (\<lambda>_. Ret pid) else wait s)
             else Ret (-1) s)
         else wait s)"

text \<open>Whether a parent that waits with \<open>wait_pid\<close> waits for this child; the comparison is signed.\<close>

definition waits_for :: "proc_S \<Rightarrow> proc_S \<Rightarrow> bool" where
  "waits_for parent c =
     (let pid = p_wait_pid parent
      in pid = -1 \<or> pid = p_pid c \<or> pid = 0 \<and> p_gid c = p_gid parent \<or> pid <s -1 \<and> - pid = p_gid c)"

definition notify_parent :: "u32 \<Rightarrow> 'a kernel_scheme \<Rightarrow> (unit, 'a kernel_scheme) res" where
  "notify_parent ret s =
     bindr (getp (proc_current s) s) (\<lambda>c s.
       if p_parent c \<noteq> NULL then
         bindr (getp (p_parent c) s) (\<lambda>q s.
           if p_wait q \<noteq> 0 \<and> waits_for q c then
             bindr (updp (p_parent c) (\<lambda>q. q\<lparr>p_registers := p_registers q\<lparr>r_eax := p_pid c\<rparr>\<rparr>) s) (\<lambda>_ s.
             bindr (if p_wait_stat q \<noteq> NULL then
                      bindr (memuser_load_addrspace (p_addrspace q) s) (\<lambda>_ s.
                      bindr (store32 (p_wait_stat q) ret s) (\<lambda>_ s.
                      bindr (memuser_load_addrspace (p_addrspace c) s) (\<lambda>_. Ret ())))
                    else Ret () s) (\<lambda>_ s.
             bindr (updp (p_parent c) (\<lambda>q. q\<lparr>p_wait := 0\<rparr>) s) (\<lambda>_ s.
             bindr (proc_wake (p_parent c) s) (\<lambda>_. Ret ()))))
           else Ret () s)
       else Ret () s)"

definition proc_exit :: "u32 \<Rightarrow> 'a kernel_scheme \<Rightarrow> ('b, 'a kernel_scheme) res" where
  "proc_exit ret s =
     bindr (notify_parent ret s) (\<lambda>_ s.
     bindr (updp (proc_current s) (\<lambda>p. p\<lparr>p_ret := ret, p_defunc := 1\<rparr>) s) (\<lambda>_ s.
       proc_idle (s\<lparr>proc_running := snd (ll_remove_value (proc_running s) (proc_current s)),
                    proc_current := NULL\<rparr>)))"

definition proc_abort :: "'a kernel_scheme \<Rightarrow> ('b, 'a kernel_scheme) res" where
  "proc_abort s = proc_exit 1 s"

definition proc_stop :: "'a kernel_scheme \<Rightarrow> (unit, 'a kernel_scheme) res" where
  "proc_stop s = bindr (proc_sleep (proc_current s) s) (\<lambda>_. Ret ())"

section \<open>Calls into a process\<close>

text \<open>The registers of a process: of the running one they are the saved frame, of another its \<open>registers\<close>.\<close>

definition get_regs :: "u32 \<Rightarrow> 'a kernel_scheme \<Rightarrow> (proc_registers, 'a kernel_scheme) res" where
  "get_regs proc s =
     (if proc_current s = proc then Ret (curregs s) s else bindr (getp proc s) (\<lambda>p. Ret (p_registers p)))"

definition upd_regs ::
  "u32 \<Rightarrow> (proc_registers \<Rightarrow> proc_registers) \<Rightarrow> 'a kernel_scheme \<Rightarrow> (unit, 'a kernel_scheme) res" where
  "upd_regs proc f s =
     (if proc_current s = proc then Ret () (s\<lparr>curregs := f (curregs s)\<rparr>)
      else updp proc (\<lambda>p. p\<lparr>p_registers := f (p_registers p)\<rparr>) s)"

definition proc_push :: "u32 \<Rightarrow> u32 \<Rightarrow> 'a kernel_scheme \<Rightarrow> (unit, 'a kernel_scheme) res" where
  "proc_push proc val s =
     bindr (upd_regs proc (\<lambda>r. r\<lparr>r_esp := r_esp r - 4\<rparr>) s) (\<lambda>_ s.
     bindr (get_regs proc s) (\<lambda>r. store32 (r_esp r) val))"

definition proc_pop :: "u32 \<Rightarrow> 'a kernel_scheme \<Rightarrow> (u32, 'a kernel_scheme) res" where
  "proc_pop proc s =
     bindr (getp proc s) (\<lambda>p s.
     bindr (load32 (r_esp (p_registers p)) s) (\<lambda>val s.
     bindr (updp proc (\<lambda>p. p\<lparr>p_registers := p_registers p\<lparr>r_esp := r_esp (p_registers p) + 4\<rparr>\<rparr>) s)
       (\<lambda>_. Ret val)))"

text \<open>The parameters are copied in reverse order and pushed, the last one first.\<close>

definition proc_call :: "u32 \<Rightarrow> u32 \<Rightarrow> u32 list \<Rightarrow> 'a kernel_scheme \<Rightarrow> (unit, 'a kernel_scheme) res" where
  "proc_call proc func args s =
     bindr (getp proc s) (\<lambda>p s.
       if p_defunc p = 0 then
         bindr (kmalloc_obj s) (\<lambda>_ s.
         bindr (memuser_load_addrspace (p_addrspace p) s) (\<lambda>_ s.
         bindr (foreach (proc_push proc) (rev args) s) (\<lambda>_ s.
         bindr (get_regs proc s) (\<lambda>r s.
         bindr (proc_push proc (r_eip r) s) (\<lambda>_ s.
         bindr (if proc_current s \<noteq> NULL
                then bindr (cur_addrspace s) (\<lambda>a. memuser_load_addrspace a)
                else Ret 0 s) (\<lambda>_ s.
         bindr (upd_regs proc (\<lambda>r. r\<lparr>r_eip := func\<rparr>) s) (\<lambda>_ s.
         bindr (proc_wake proc s) (\<lambda>_. Ret ()))))))))
       else Ret () s)"

section \<open>System calls for system processes\<close>

definition proc_create_syscall :: "u32 \<Rightarrow> u32 \<Rightarrow> u32 \<Rightarrow> u32 \<Rightarrow> 'a kernel_scheme \<Rightarrow> (u32, 'a kernel_scheme) res" where
  "proc_create_syscall name uid gid parent_pid s =
     bindr (getp (proc_current s) s) (\<lambda>c s.
       if p_system c \<noteq> 0 then
         bindr (proc_find parent_pid s) (\<lambda>parent s.
           if parent \<noteq> NULL then
             bindr (load_cstr name s) (\<lambda>str s.
             bindr (proc_create str uid gid parent 0 0 s) (\<lambda>proc s.
               if proc \<noteq> NULL then bindr (getp proc s) (\<lambda>p. Ret (p_pid p)) else Ret (-1) s))
           else Ret (-1) s)
       else Ret (-1) s)"

text \<open>What the system calls below have in common: only a system process may use them, and the
  process they act on must exist.\<close>

definition for_system :: "u32 \<Rightarrow> 'b \<Rightarrow> (u32 \<Rightarrow> 'a kernel_scheme \<Rightarrow> ('b, 'a kernel_scheme) res) \<Rightarrow>
    'a kernel_scheme \<Rightarrow> ('b, 'a kernel_scheme) res" where
  "for_system proc_pid fail f s =
     bindr (getp (proc_current s) s) (\<lambda>c s.
       if p_system c \<noteq> 0 then
         bindr (proc_find proc_pid s) (\<lambda>proc s. if proc \<noteq> NULL then f proc s else Ret fail s)
       else Ret fail s)"

definition proc_destroy_syscall :: "u32 \<Rightarrow> 'a kernel_scheme \<Rightarrow> (u32, 'a kernel_scheme) res" where
  "proc_destroy_syscall proc_pid =
     for_system proc_pid (-1) (\<lambda>proc s. if proc \<noteq> proc_current s then proc_destroy proc s else Ret (-1) s)"

definition proc_memmap ::
  "u32 \<Rightarrow> u32 \<Rightarrow> u32 \<Rightarrow> u32 \<Rightarrow> u32 \<Rightarrow> u32 \<Rightarrow> 'a kernel_scheme \<Rightarrow> (u32, 'a kernel_scheme) res" where
  "proc_memmap proc_pid virt frame wrt swp cw =
     for_system proc_pid NULL (\<lambda>proc s.
       bindr (getp proc s) (\<lambda>p s.
       bindr (if virt = NULL then memuser_findvirt (p_addrspace p) 1 s else Ret virt s) (\<lambda>virt s.
       bindr (if frame = NULL then memphys_pop s else Ret frame s) (\<lambda>frame s.
       bindr (geta (p_addrspace p) s) (\<lambda>a s.
       bindr (paging_getpte_pd virt (as_pagedir a) s) (\<lambda>pte s.
         if \<not> exists pte then
           bindr (memuser_load_addrspace (p_addrspace p) s) (\<lambda>_ s.
           bindr (paging_map_pd virt frame 1 (if wrt \<noteq> 0 \<and> cw = 0 then 1 else 0) swp
                    (if cw \<noteq> 0 \<and> wrt \<noteq> 0 then 1 else 0) (as_pagedir a) s) (\<lambda>_ s.
           bindr (cur_addrspace s) (\<lambda>ca s.
           bindr (memuser_load_addrspace ca s) (\<lambda>_ s.
           bindr (upda (p_addrspace p) (\<lambda>a. a\<lparr>as_pages_loaded := ll_push virt (as_pages_loaded a)\<rparr>) s)
             (\<lambda>_. Ret virt)))))
         else Ret NULL s))))))"

definition proc_memalloc :: "u32 \<Rightarrow> u32 \<Rightarrow> u32 \<Rightarrow> u32 \<Rightarrow> 'a kernel_scheme \<Rightarrow> (u32, 'a kernel_scheme) res" where
  "proc_memalloc proc_pid virt wrt swp s =
     bindr (proc_memmap proc_pid virt NULL wrt swp 0 s) (\<lambda>r. Ret (if r \<noteq> NULL then 0 else -1))"

text \<open>Running a part of a call in the address space of another process.\<close>

definition in_addrspace ::
  "u32 \<Rightarrow> ('a kernel_scheme \<Rightarrow> ('b, 'a kernel_scheme) res) \<Rightarrow> 'a kernel_scheme \<Rightarrow> (unit, 'a kernel_scheme) res" where
  "in_addrspace addrspace f s =
     bindr (memuser_load_addrspace addrspace s) (\<lambda>_ s.
     bindr (f s) (\<lambda>_ s.
     bindr (cur_addrspace s) (\<lambda>ca s.
     bindr (memuser_load_addrspace ca s) (\<lambda>_. Ret ()))))"

definition proc_memunmap :: "u32 \<Rightarrow> u32 \<Rightarrow> 'a kernel_scheme \<Rightarrow> (u32, 'a kernel_scheme) res" where
  "proc_memunmap proc_pid virt =
     for_system proc_pid (-1) (\<lambda>proc s.
       bindr (getp proc s) (\<lambda>p s.
       bindr (in_addrspace (p_addrspace p) (paging_unmap virt) s) (\<lambda>_ s.
       bindr (upda (p_addrspace p) (\<lambda>a. a\<lparr>
                as_pages_loaded := snd (ll_remove_value (as_pages_loaded a) virt),
                as_pages_imaginary := snd (ll_remove_value (as_pages_imaginary a) virt),
                as_pages_swapped := snd (ll_remove_value (as_pages_swapped a) virt)\<rparr>) s) (\<lambda>_. Ret 0))))"

definition proc_memfree :: "u32 \<Rightarrow> u32 \<Rightarrow> 'a kernel_scheme \<Rightarrow> (u32, 'a kernel_scheme) res" where
  "proc_memfree proc_pid virt =
     for_system proc_pid (-1) (\<lambda>proc s.
       bindr (getp proc s) (\<lambda>p s.
       bindr (in_addrspace (p_addrspace p) (\<lambda>s. bindr (paging_unmap virt s) (\<lambda>f. memphys_push f)) s) (\<lambda>_ s.
       bindr (upda (p_addrspace p) (\<lambda>a. a\<lparr>
                as_pages_imaginary := snd (ll_remove_value (as_pages_imaginary a) virt)\<rparr>) s) (\<lambda>_. Ret 0))))"

definition flag_word :: "bool \<Rightarrow> u32" where "flag_word b = (if b then 1 else 0)"

text \<open>On failure \<open>*exists\<close> is written without a check for \<open>NULL\<close>.\<close>

definition proc_memget ::
  "u32 \<Rightarrow> u32 \<Rightarrow> u32 \<Rightarrow> u32 \<Rightarrow> u32 \<Rightarrow> u32 \<Rightarrow> 'a kernel_scheme \<Rightarrow> (u32, 'a kernel_scheme) res" where
  "proc_memget proc_pid virt exists_p writable_p swappable_p cow_p s =
     bindr (for_system proc_pid None (\<lambda>proc s.
       bindr (getp proc s) (\<lambda>p s.
       bindr (geta (p_addrspace p) s) (\<lambda>a s.
       bindr (paging_getpte_pd virt (as_pagedir a) s) (\<lambda>pte s.
       bindr (store_opt exists_p (flag_word (exists pte)) s) (\<lambda>_ s.
       bindr (store_opt writable_p (flag_word (writable pte)) s) (\<lambda>_ s.
       bindr (store_opt swappable_p (flag_word (swappable pte)) s) (\<lambda>_ s.
       bindr (store_opt cow_p (flag_word (cow pte)) s) (\<lambda>_.
         Ret (Some (if in_memory pte then PAGE2ADDR (ucast (page pte)) else NULL)))))))))) s) (\<lambda>r s.
     case r of Some addr \<Rightarrow> Ret addr s
     | None \<Rightarrow> bindr (store32 exists_p 0 s) (\<lambda>_. Ret NULL))"

text \<open>One of the three copying loops of \<open>proc_mempagelist\<close>; the result is the next index.\<close>

fun copy_pages :: "u32 list \<Rightarrow> u32 \<Rightarrow> u32 \<Rightarrow> u32 \<Rightarrow> 'a mem_scheme \<Rightarrow> (u32, 'a mem_scheme) res" where
  "copy_pages [] dest n j s = Ret j s"
| "copy_pages (x # xs) dest n j s =
     (if j < n then bindr (store32 (dest + 4 * j) x s) (\<lambda>_. copy_pages xs dest n (j + 1)) else Ret j s)"

definition proc_mempagelist :: "u32 \<Rightarrow> u32 \<Rightarrow> u32 \<Rightarrow> 'a kernel_scheme \<Rightarrow> (u32, 'a kernel_scheme) res" where
  "proc_mempagelist proc_pid dest n =
     for_system proc_pid (-1) (\<lambda>proc s.
       bindr (getp proc s) (\<lambda>p s.
       bindr (geta (p_addrspace p) s) (\<lambda>a s.
         if dest = NULL \<or> n = 0 then
           Ret (of_nat (length (as_pages_loaded a)) + of_nat (length (as_pages_imaginary a)) +
                of_nat (length (as_pages_swapped a))) s
         else
           bindr (copy_pages (ll_elems (as_pages_loaded a)) dest n 0 s) (\<lambda>j s.
           bindr (copy_pages (ll_elems (as_pages_imaginary a)) dest n j s) (\<lambda>j s.
             copy_pages (ll_elems (as_pages_swapped a)) dest n j s)))))"

definition proc_system :: "u32 \<Rightarrow> u32 \<Rightarrow> 'a kernel_scheme \<Rightarrow> (u32, 'a kernel_scheme) res" where
  "proc_system proc_pid sys =
     for_system proc_pid (-1) (\<lambda>proc s.
       bindr (getp proc s) (\<lambda>p s.
         if sys = 1 \<or> proc_current s = p_parent p \<or> proc_current s = proc
         then bindr (updp proc (\<lambda>p. p\<lparr>p_system := sys\<rparr>) s) (\<lambda>_. Ret 0)
         else Ret (-1) s))"

definition proc_jump :: "u32 \<Rightarrow> u32 \<Rightarrow> 'a kernel_scheme \<Rightarrow> (u32, 'a kernel_scheme) res" where
  "proc_jump proc_pid dest =
     for_system proc_pid (-1) (\<lambda>proc s.
       bindr (updp proc (\<lambda>p. p\<lparr>p_registers := p_registers p\<lparr>r_eip := dest\<rparr>\<rparr>) s) (\<lambda>_. Ret 0))"

definition proc_createstack :: "u32 \<Rightarrow> 'a kernel_scheme \<Rightarrow> (u32, 'a kernel_scheme) res" where
  "proc_createstack proc_pid =
     for_system proc_pid NULL (\<lambda>proc s.
       bindr (getp proc s) (\<lambda>p s.
       bindr (memuser_create_stack (p_addrspace p) s) (\<lambda>stack s.
       bindr (updp proc (\<lambda>p. p\<lparr>p_registers := p_registers p\<lparr>r_esp := stack\<rparr>\<rparr>) s) (\<lambda>_. Ret stack))))"

definition proc_getstack :: "u32 \<Rightarrow> 'a kernel_scheme \<Rightarrow> (u32, 'a kernel_scheme) res" where
  "proc_getstack proc_pid =
     for_system proc_pid NULL (\<lambda>proc s.
       bindr (getp proc s) (\<lambda>p s. bindr (geta (p_addrspace p) s) (\<lambda>a. Ret (as_stack a))))"

definition proc_setstack :: "u32 \<Rightarrow> u32 \<Rightarrow> 'a kernel_scheme \<Rightarrow> (u32, 'a kernel_scheme) res" where
  "proc_setstack proc_pid stack =
     for_system proc_pid (-1) (\<lambda>proc s.
       bindr (getp proc s) (\<lambda>p s.
       bindr (upda (p_addrspace p) (\<lambda>a. a\<lparr>as_stack := stack\<rparr>) s) (\<lambda>_. Ret 0)))"

section \<open>Initialisation\<close>

definition proc_syscalls :: "(u32 \<times> sysfunc \<times> u32) list" where
  "proc_syscalls =
     [(SYSCALL_PROC_GETPID, SysProc F_proc_getpid, 0),
      (SYSCALL_PROC_GETUID, SysProc F_proc_getuid, 1),
      (SYSCALL_PROC_GETGID, SysProc F_proc_getgid, 1),
      (SYSCALL_PROC_SETUID, SysProc F_proc_setuid, 2),
      (SYSCALL_PROC_SETGID, SysProc F_proc_setgid, 2),
      (SYSCALL_PROC_GETPARENT, SysProc F_proc_getparent, 1),
      (SYSCALL_PROC_GETCHILD, SysProc F_proc_getchild, 2),
      (SYSCALL_PROC_GETNAME, SysProc F_proc_getname, 3),
      (SYSCALL_PROC_SETNAME, SysProc F_proc_setname, 2),
      (SYSCALL_PROC_GETPIDBYNAME, SysProc F_proc_getpidbyname, 1),
      (SYSCALL_PROC_GETVAR, SysProc F_proc_getvar, 1),
      (SYSCALL_PROC_SETVAR, SysProc F_proc_setvar, 2),
      (SYSCALL_PROC_EXIT, SysProc F_proc_exit, 1),
      (SYSCALL_PROC_ABORT, SysProc F_proc_abort, 0),
      (SYSCALL_PROC_STOP, SysProc F_proc_stop, 0),
      (SYSCALL_PROC_CREATE, SysProc F_proc_create_syscall, 4),
      (SYSCALL_PROC_DESTROY, SysProc F_proc_destroy_syscall, 1),
      (SYSCALL_PROC_MEMMAP, SysProc F_proc_memmap, 6),
      (SYSCALL_PROC_MEMALLOC, SysProc F_proc_memalloc, 4),
      (SYSCALL_PROC_MEMUNMAP, SysProc F_proc_memunmap, 2),
      (SYSCALL_PROC_MEMFREE, SysProc F_proc_memfree, 2),
      (SYSCALL_PROC_MEMGET, SysProc F_proc_memget, 6),
      (SYSCALL_PROC_MEMPAGELIST, SysProc F_proc_mempagelist, 6),
      (SYSCALL_PROC_SYSTEM, SysProc F_proc_system, 2),
      (SYSCALL_PROC_JUMP, SysProc F_proc_jump, 2),
      (SYSCALL_PROC_CREATESTACK, SysProc F_proc_createstack, 1),
      (SYSCALL_PROC_GETSTACK, SysProc F_proc_getstack, 1),
      (SYSCALL_PROC_SETSTACK, SysProc F_proc_setstack, 2),
      (SYSCALL_PROC_WAITPID, SysProc F_proc_waitpid, 3)]"

definition proc_init :: "'a kernel_scheme \<Rightarrow> (u32, 'a kernel_scheme) res" where
  "proc_init s =
     syscall_register proc_syscalls
       (s\<lparr>proc_all := [], proc_running := [], proc_sleeping := [], proc_nextpid := 1, proc_current := NULL\<rparr>)"

section \<open>Signals\<close>

definition SIGILL :: u32 where "SIGILL = 4"
definition SIGKILL :: u32 where "SIGKILL = 9"
definition SIGSEGV :: u32 where "SIGSEGV = 11"
definition SIGCONT :: u32 where "SIGCONT = 18"
definition SIGSYS :: u32 where "SIGSYS = 31"

definition signal_syscalls :: "(u32 \<times> sysfunc \<times> u32) list" where
  "signal_syscalls =
     [(SYSCALL_SIG_SETUP, SysMisc F_signal_setup, 1),
      (SYSCALL_SIG_SEND, SysMisc F_signal_send_syscall, 2)]"

definition signal_init :: "'a kernel_scheme \<Rightarrow> (u32, 'a kernel_scheme) res" where
  "signal_init s =
     syscall_register signal_syscalls s"

definition signal_setup :: "u32 \<Rightarrow> 'a kernel_scheme \<Rightarrow> (unit, 'a kernel_scheme) res" where
  "signal_setup handler s = updp (proc_current s) (\<lambda>p. p\<lparr>p_signal := handler\<rparr>) s"

definition signal_send :: "u32 \<Rightarrow> u32 \<Rightarrow> 'a kernel_scheme \<Rightarrow> (unit, 'a kernel_scheme) res" where
  "signal_send proc sig s =
     bindr (if sig = SIGCONT then bindr (proc_wake proc s) (\<lambda>_. Ret ()) else Ret () s) (\<lambda>_ s.
     bindr (getp proc s) (\<lambda>p s.
       if p_signal p \<noteq> NULL then proc_call proc (p_signal p) [sig] s else Ret () s))"

definition signal_send_syscall :: "u32 \<Rightarrow> u32 \<Rightarrow> 'a kernel_scheme \<Rightarrow> (unit, 'a kernel_scheme) res" where
  "signal_send_syscall pid sig s =
     bindr (proc_find pid s) (\<lambda>proc s.
       if proc \<noteq> NULL then
         bindr (getp proc s) (\<lambda>p s.
         bindr (getp (proc_current s) s) (\<lambda>c s.
           if p_uid p = p_uid c \<or> p_gid p = p_gid c \<or> p_uid c = PERM_ROOTUID \<or> p_gid c = PERM_ROOTGID
           then signal_send proc sig s else Ret () s))
       else Ret () s)"

end
