(* ===== verification/ProcInv.thy ===== *)
theory ProcInv
  imports Procm
begin

text \<open>
  The invariant of the process table and its preservation. An operation may change a process in
  fields that the invariant does not mention, change address spaces, and take memory from
  \<open>malloc\<close>: \<open>env_rel\<close> is that relation, and almost every system call stays within it. The
  operations that change the table itself (sleeping, waking, scheduling, creation,
  destruction, exit) are treated one by one.
\<close>

section \<open>The invariant\<close>

text \<open>
  What the invariant says of one process of \<open>proc_all\<close>: its address space is live, its flag agrees
  with the list it is in, a process that has exited is in neither list, it has at most one tick
  left, and its PID was given out before.
\<close>

definition proc_ok :: "'a kernel_scheme \<Rightarrow> u32 \<Rightarrow> proc_S \<Rightarrow> bool" where
  "proc_ok s p x \<longleftrightarrow>
     p_addrspace x \<in> dom (addrspaces s) \<and>
     (p \<in> set (proc_sleeping s) \<longleftrightarrow> p_is_sleeping x \<noteq> 0) \<and>
     (p_defunc x \<noteq> 0 \<longrightarrow> p \<notin> set (proc_running s) \<and> p \<notin> set (proc_sleeping s)) \<and>
     p_ticks_rem x \<le> 1 \<and>
     unat (p_pid x) < unat (proc_nextpid s)"

text \<open>
  The addresses \<open>malloc\<close> is going to return are new and never \<open>NULL\<close>; there are few enough of
  them for the PIDs to stay positive.
\<close>

definition mallocs_ok :: "'a kernel_scheme \<Rightarrow> bool" where
  "mallocs_ok s \<longleftrightarrow>
     distinct (mallocs s) \<and> NULL \<notin> set (mallocs s) \<and>
     (\<forall>a \<in> set (mallocs s). procs s a = None \<and> addrspaces s a = None) \<and>
     unat (proc_nextpid s) + length (mallocs s) < 2 ^ 31"

text \<open>A process outside \<open>proc_all\<close> (one for virtual 8086 mode) is never asleep.\<close>

definition table_ok :: "'a kernel_scheme \<Rightarrow> bool" where
  "table_ok s \<longleftrightarrow>
     procs s NULL = None \<and>
     distinct (proc_all s) \<and> distinct (proc_running s @ proc_sleeping s) \<and>
     set (proc_running s) \<union> set (proc_sleeping s) \<subseteq> set (proc_all s) \<and>
     (\<forall>p \<in> set (proc_all s). \<exists>x. procs s p = Some x \<and> proc_ok s p x) \<and>
     (\<forall>p x. procs s p = Some x \<longrightarrow> p \<notin> set (proc_all s) \<longrightarrow> p_is_sleeping x = 0) \<and>
     inj_on (\<lambda>p. p_pid (the (procs s p))) (set (proc_all s)) \<and>
     mallocs_ok s"

text \<open>The running process is in the list of running processes and has a tick left.\<close>

definition procs_ok :: "'a kernel_scheme \<Rightarrow> bool" where
  "procs_ok s \<longleftrightarrow> table_ok s \<and>
     (proc_current s \<noteq> NULL \<longrightarrow>
        proc_current s \<in> set (proc_running s) \<and> p_ticks_rem (the (procs s (proc_current s))) = 1)"

text \<open>An operation keeps the invariant if it holds afterwards whenever the kernel goes on: when the
  operation returns, and when the processor idles until the next interrupt.\<close>

definition goes_on :: "('a, 's) res \<Rightarrow> ('s \<Rightarrow> bool) \<Rightarrow> bool" where
  "goes_on r P \<longleftrightarrow> post (\<lambda>_. P) (\<lambda>e t. e = Idle \<longrightarrow> P t) r"

abbreviation keeps_procs :: "('b, 'a kernel_scheme) res \<Rightarrow> bool" where
  "keeps_procs r \<equiv> goes_on r procs_ok"

section \<open>Changes the invariant does not see\<close>

definition pcore :: "proc_S \<Rightarrow> u32 \<times> bool \<times> bool \<times> u32 \<times> u32" where
  "pcore x = (p_pid x, p_is_sleeping x \<noteq> 0, p_defunc x \<noteq> 0, p_addrspace x, p_ticks_rem x)"

definition env_rel :: "'a kernel_scheme \<Rightarrow> 'a kernel_scheme \<Rightarrow> bool" where
  "env_rel s t \<longleftrightarrow>
     (\<forall>p. map_option pcore (procs t p) = map_option pcore (procs s p)) \<and>
     proc_all t = proc_all s \<and> proc_running t = proc_running s \<and> proc_sleeping t = proc_sleeping s \<and>
     proc_nextpid t = proc_nextpid s \<and> proc_current t = proc_current s \<and>
     (\<exists>used. mallocs s = used @ mallocs t \<and>
        dom (addrspaces s) \<subseteq> dom (addrspaces t) \<and> dom (addrspaces t) \<subseteq> dom (addrspaces s) \<union> set used)"

lemma env_rel_refl [simp]: "env_rel s s"
  by (simp add: env_rel_def)

lemma env_rel_trans:
  assumes "env_rel s t" "env_rel t u"
  shows "env_rel s u"
proof -
  from assms(1) obtain us where us: "mallocs s = us @ mallocs t" "dom (addrspaces s) \<subseteq> dom (addrspaces t)"
    "dom (addrspaces t) \<subseteq> dom (addrspaces s) \<union> set us" unfolding env_rel_def by blast
  from assms(2) obtain ut where ut: "mallocs t = ut @ mallocs u" "dom (addrspaces t) \<subseteq> dom (addrspaces u)"
    "dom (addrspaces u) \<subseteq> dom (addrspaces t) \<union> set ut" unfolding env_rel_def by blast
  have "mallocs s = (us @ ut) @ mallocs u" "dom (addrspaces s) \<subseteq> dom (addrspaces u)"
    "dom (addrspaces u) \<subseteq> dom (addrspaces s) \<union> set (us @ ut)"
    using us ut by (simp, blast, unfold set_append, blast)
  then have "\<exists>used. mallocs s = used @ mallocs u \<and> dom (addrspaces s) \<subseteq> dom (addrspaces u) \<and>
      dom (addrspaces u) \<subseteq> dom (addrspaces s) \<union> set used" by blast
  with assms show ?thesis unfolding env_rel_def by simp
qed

lemma env_rel_pcore: "env_rel s t \<Longrightarrow> procs s p = Some x \<Longrightarrow> \<exists>y. procs t p = Some y \<and> pcore y = pcore x"
  unfolding env_rel_def by (metis map_option_eq_Some option.simps(9))

lemma env_rel_None: "env_rel s t \<Longrightarrow> procs t p = None \<longleftrightarrow> procs s p = None"
  unfolding env_rel_def by (metis map_option_is_None)

lemma env_rel_more: "mem.more t = mem.more s \<Longrightarrow> env_rel (s :: 'a kernel_scheme) t"
  by (cases s; cases t) (simp add: env_rel_def)

lemma mallocs_ok_env:
  assumes "mallocs_ok s" "env_rel s t"
  shows "mallocs_ok t"
proof -
  from assms(2) obtain used where u: "mallocs s = used @ mallocs t"
    "dom (addrspaces t) \<subseteq> dom (addrspaces s) \<union> set used" "proc_nextpid t = proc_nextpid s"
    unfolding env_rel_def by blast
  from assms(1) u(1) have d: "distinct (used @ mallocs t)" "NULL \<notin> set (mallocs t)"
    and f: "\<And>a. a \<in> set (mallocs t) \<Longrightarrow> procs s a = None \<and> addrspaces s a = None"
    and n: "unat (proc_nextpid s) + length (mallocs t) < 2 ^ 31"
    unfolding mallocs_ok_def by auto
  have "procs t a = None \<and> addrspaces t a = None" if "a \<in> set (mallocs t)" for a
  proof -
    from f [OF that] have "procs t a = None" using env_rel_None [OF assms(2)] by simp
    moreover from f [OF that] that d(1) u(2) have "a \<notin> dom (addrspaces t)"
      by (auto simp: domIff)
    ultimately show ?thesis by (simp add: domIff)
  qed
  with d n u(3) show ?thesis unfolding mallocs_ok_def by simp
qed

lemma proc_ok_env:
  assumes "proc_ok s p x" "env_rel s t" "pcore y = pcore x"
  shows "proc_ok t p y"
  using assms unfolding proc_ok_def env_rel_def pcore_def by auto

lemma table_ok_env:
  assumes "table_ok s" "env_rel s t"
  shows "table_ok t"
proof -
  have eq: "proc_all t = proc_all s" "proc_running t = proc_running s" "proc_sleeping t = proc_sleeping s"
    using assms(2) unfolding env_rel_def by simp_all
  have each: "\<exists>y. procs t p = Some y \<and> proc_ok t p y \<and> p_pid y = p_pid (the (procs s p))"
    if "p \<in> set (proc_all s)" for p
  proof -
    from that assms(1) obtain x where x: "procs s p = Some x" "proc_ok s p x"
      unfolding table_ok_def by blast
    from env_rel_pcore [OF assms(2) x(1)] obtain y where y: "procs t p = Some y" "pcore y = pcore x"
      by blast
    with proc_ok_env [OF x(2) assms(2) y(2)] x(1) show ?thesis by (auto simp: pcore_def)
  qed
  then have "p_pid (the (procs t p)) = p_pid (the (procs s p))" if "p \<in> set (proc_all s)" for p
    using that by fastforce
  then have "inj_on (\<lambda>p. p_pid (the (procs t p))) (set (proc_all s))"
    using assms(1) unfolding table_ok_def by (simp cong: inj_on_cong)
  moreover have "p_is_sleeping y = 0" if "procs t p = Some y" "p \<notin> set (proc_all s)" for p y
  proof -
    from that(1) env_rel_None [OF assms(2), of p] obtain x where x: "procs s p = Some x"
      by (cases "procs s p") auto
    with assms(1) that(2) have "p_is_sleeping x = 0" unfolding table_ok_def by blast
    with env_rel_pcore [OF assms(2) x] that(1) show ?thesis by (auto simp: pcore_def)
  qed
  ultimately show ?thesis
    using each assms(1) mallocs_ok_env [OF _ assms(2)] env_rel_None [OF assms(2)]
    unfolding table_ok_def eq by blast
qed

lemma procs_ok_env:
  assumes "procs_ok s" "env_rel s t"
  shows "procs_ok t"
proof -
  have c: "proc_current t = proc_current s" "proc_running t = proc_running s"
    using assms(2) unfolding env_rel_def by simp_all
  have "p_ticks_rem (the (procs t (proc_current s))) = 1" if "proc_current s \<noteq> NULL"
  proof -
    from that assms(1) have r: "proc_current s \<in> set (proc_running s)"
      and one: "p_ticks_rem (the (procs s (proc_current s))) = 1" and tab: "table_ok s"
      unfolding procs_ok_def by auto
    from r tab have "proc_current s \<in> set (proc_all s)" unfolding table_ok_def by blast
    with tab obtain x where x: "procs s (proc_current s) = Some x" unfolding table_ok_def by blast
    from env_rel_pcore [OF assms(2) x] x one show ?thesis by (auto simp: pcore_def)
  qed
  with assms table_ok_env show ?thesis unfolding procs_ok_def c by blast
qed

section \<open>Operations within the relation\<close>

definition env :: "'a kernel_scheme \<Rightarrow> ('b, 'a kernel_scheme) res \<Rightarrow> bool" where
  "env s r \<longleftrightarrow> env_rel s (final r)"

named_theorems env_intros \<open>an operation stays within \<open>env_rel\<close>\<close>

lemma env_Ret [env_intros]: "env_rel s t \<Longrightarrow> env s (Ret x t)"
  by (simp add: env_def)

lemma env_Stop [env_intros]: "env_rel s t \<Longrightarrow> env s (Stop e t)"
  by (simp add: env_def)

lemma env_trans: "env_rel s t \<Longrightarrow> env t r \<Longrightarrow> env s r"
  unfolding env_def by (rule env_rel_trans)

lemma env_bindr [env_intros]:
  assumes "env s r" "\<And>x t. env_rel s t \<Longrightarrow> env t (g x t)"
  shows "env s (bindr r g)"
proof (cases r)
  case (Ret x t)
  with assms(1) have "env_rel s t" by (simp add: env_def)
  from env_trans [OF this assms(2) [OF this]] Ret show ?thesis by simp
qed (use assms(1) in \<open>simp add: env_def\<close>)

lemma env_if [env_intros]: "(b \<Longrightarrow> env s r) \<Longrightarrow> (\<not> b \<Longrightarrow> env s r') \<Longrightarrow> env s (if b then r else r')"
  by simp

lemma env_Let [env_intros]: "env s (g x) \<Longrightarrow> env s (let y = x in g y)"
  by simp

lemma env_case_option [env_intros]:
  "(r = None \<Longrightarrow> env s f) \<Longrightarrow> (\<And>x. r = Some x \<Longrightarrow> env s (g x)) \<Longrightarrow> env s (case r of None \<Rightarrow> f | Some x \<Rightarrow> g x)"
  by (cases r) auto

lemma env_foreach [env_intros]:
  assumes "\<And>x t. env t (g x t)"
  shows "env s (foreach g xs s)"
proof (induction xs arbitrary: s)
  case (Cons x xs)
  show ?case unfolding foreach.simps by (intro env_intros assms Cons)
qed (simp add: env_def)

lemma env_drain [env_intros]:
  assumes "\<And>xs t. env t (put xs t)" "\<And>x t. env t (g x t)"
  shows "env s (drain put g xs s)"
proof (induction xs arbitrary: s)
  case (Cons x xs)
  show ?case unfolding drain.simps by (intro env_intros assms Cons) simp
qed (simp add: env_def)

lemma env_mem: "mkeeps s r \<Longrightarrow> env s r"
  unfolding keeps_def env_def by (rule env_rel_more)

lemmas env_mem_ops [env_intros] =
  mkeeps_load8 [THEN env_mem] mkeeps_store8 [THEN env_mem] mkeeps_load32 [THEN env_mem]
  mkeeps_store32 [THEN env_mem] mkeeps_memset_v [THEN env_mem] mkeeps_load_bytes [THEN env_mem]
  mkeeps_store_bytes [THEN env_mem] mkeeps_load_cstr [THEN env_mem] mkeeps_strncpy_user [THEN env_mem]
  mkeeps_store_opt [THEN env_mem] mkeeps_paging_loadpagedir [THEN env_mem]
  mkeeps_paging_getpde [THEN env_mem] mkeeps_paging_setpde [THEN env_mem]
  mkeeps_paging_getpte [THEN env_mem] mkeeps_paging_setpte [THEN env_mem]
  mkeeps_paging_unmap [THEN env_mem] mkeeps_memphys_pop [THEN env_mem]
  mkeeps_paging_map [THEN env_mem] mkeeps_paging_physread [THEN env_mem]
  mkeeps_paging_physwrite [THEN env_mem] mkeeps_paging_cleanpage [THEN env_mem]
  mkeeps_paging_getpde_pd [THEN env_mem] mkeeps_paging_setpde_pd [THEN env_mem]
  mkeeps_paging_getpte_pd [THEN env_mem] mkeeps_paging_setpte_pd [THEN env_mem]
  mkeeps_paging_map_pd [THEN env_mem] mkeeps_memphys_push [THEN env_mem]
  mkeeps_memphys_dma_alloc [THEN env_mem] mkeeps_memphys_dma_free [THEN env_mem]

lemma env_getp [env_intros]: "env s (getp p s)"
  by (simp add: getp_def deref_def env_def split: option.split)

lemma env_geta [env_intros]: "env s (geta p s)"
  by (simp add: geta_def deref_def env_def split: option.split)

lemma env_updp [env_intros]:
  assumes "\<And>x. pcore (f x) = pcore x"
  shows "env s (updp p f s)"
proof (cases "procs s p")
  case (Some x)
  have "env_rel s (s\<lparr>procs := (procs s)(p \<mapsto> f x)\<rparr>)"
    using Some assms by (simp add: env_rel_def)
  with Some show ?thesis by (simp add: updp_def getp_def env_def)
qed (simp add: updp_def getp_def env_def)

lemma env_upda [env_intros]: "env s (upda a f s)"
proof (cases "addrspaces s a")
  case (Some x)
  have "env_rel s (s\<lparr>addrspaces := (addrspaces s)(a \<mapsto> f x)\<rparr>)"
    using Some by (auto simp: env_rel_def)
  with Some show ?thesis by (simp add: upda_def geta_def env_def)
qed (simp add: upda_def geta_def env_def)

lemma env_kmalloc_obj [env_intros]: "env s (kmalloc_obj s)"
proof (cases "mallocs s")
  case (Cons a as)
  have "env_rel s (s\<lparr>mallocs := as\<rparr>)" using Cons by (auto simp: env_rel_def)
  with Cons show ?thesis by (simp add: kmalloc_obj_def env_def)
qed (simp add: kmalloc_obj_def env_def)

subsection \<open>The memory managers\<close>

lemma env_memuser_load_addrspace [env_intros]: "env s (memuser_load_addrspace a s)"
  unfolding memuser_load_addrspace_def by (intro env_intros) simp

lemma env_rel_fields [simp]:
  "env_rel s (s\<lparr>swap_queue := q\<rparr>)" "env_rel s (s\<lparr>memuser_debug := d\<rparr>)" "env_rel s (s\<lparr>curregs := r\<rparr>)"
  "env_rel s (s\<lparr>vm86_curregs := v\<rparr>)" "env_rel s (s\<lparr>interrupt_enabled := d\<rparr>)"
  by (simp_all add: env_rel_def)

lemma env_swap_call [env_intros]: "env s (swap_call op p v s)"
  unfolding swap_call_def by (intro env_intros) simp_all

lemma env_swap_in [env_intros]: "env s (swap_in p v s)"
  unfolding swap_in_def by (intro env_intros) simp_all

lemma env_swap_remove [env_intros]: "env s (swap_remove p v s)"
  unfolding swap_remove_def by (intro env_intros) simp_all

lemmas env_findvirt [env_intros] = mkeeps_findvirt_loop [THEN env_mem] mkeeps_kfindvirt_loop [THEN env_mem]

lemma env_memuser_findvirt [env_intros]: "env s (memuser_findvirt a n s)"
  unfolding memuser_findvirt_def by (intro env_intros)

lemma env_memuser_create_pagedir [env_intros]: "env s (memuser_create_pagedir s)"
  unfolding memuser_create_pagedir_def by (intro env_intros) simp

lemma env_memuser_destroy_pagedir [env_intros]: "env s (memuser_destroy_pagedir pd s)"
  unfolding memuser_destroy_pagedir_def by (intro env_intros) simp_all

lemma env_memuser_create_pagetable [env_intros]: "env s (memuser_create_pagetable pd v s)"
proof -
  have pop: "env s (memphys_pop (s\<lparr>memuser_debug := d\<rparr>))" for d
    by (rule env_trans [OF env_rel_fields(2) [of s d]]) (intro env_intros)
  have set: "env t (paging_setpde_pd v e pd (t\<lparr>memuser_debug := d\<rparr>))" for e d and t :: "'a kernel_scheme"
    by (rule env_trans [OF env_rel_fields(2) [of t d]]) (intro env_intros)
  show ?thesis unfolding memuser_create_pagetable_def by (intro env_intros pop set) simp
qed

text \<open>A new address space takes its address from \<open>malloc\<close>.\<close>

lemma env_memuser_create_addrspace [env_intros]: "env s (memuser_create_addrspace proc s)"
proof (cases "mallocs s")
  case (Cons new rest)
  have pd: "env (s\<lparr>mallocs := rest\<rparr>) (memuser_create_pagedir (s\<lparr>mallocs := rest\<rparr>))"
    by (rule env_memuser_create_pagedir)
  show ?thesis
  proof (cases "memuser_create_pagedir (s\<lparr>mallocs := rest\<rparr>)")
    case (Ret pagedir t)
    with pd have e: "env_rel (s\<lparr>mallocs := rest\<rparr>) t" by (simp add: env_def)
    then obtain used where u: "rest = used @ mallocs t" "dom (addrspaces s) \<subseteq> dom (addrspaces t)"
      "dom (addrspaces t) \<subseteq> dom (addrspaces s) \<union> set used" unfolding env_rel_def by auto
    have "env_rel s (t\<lparr>addrspaces := (addrspaces t)(new \<mapsto> x)\<rparr>)" for x
    proof -
      have "mallocs s = (new # used) @ mallocs t" "dom (addrspaces s) \<subseteq> insert new (dom (addrspaces t))"
        "insert new (dom (addrspaces t)) \<subseteq> dom (addrspaces s) \<union> set (new # used)"
        using u Cons by auto
      then have "\<exists>us. mallocs s = us @ mallocs t \<and> dom (addrspaces s) \<subseteq> insert new (dom (addrspaces t)) \<and>
          insert new (dom (addrspaces t)) \<subseteq> dom (addrspaces s) \<union> set us" by blast
      with e show ?thesis unfolding env_rel_def by simp
    qed
    with Ret Cons show ?thesis
      by (simp add: memuser_create_addrspace_def kmalloc_obj_def env_def)
  next
    case (Stop e t)
    with pd have "env_rel (s\<lparr>mallocs := rest\<rparr>) t" by (simp add: env_def)
    moreover have "env_rel s (s\<lparr>mallocs := rest\<rparr>)" using Cons by (auto simp: env_rel_def)
    ultimately show ?thesis using Stop Cons
      by (simp add: memuser_create_addrspace_def kmalloc_obj_def env_def env_rel_trans)
  qed
qed (simp add: memuser_create_addrspace_def kmalloc_obj_def env_def)

lemma env_memuser_need_table [env_intros]: "env s (memuser_need_table a v s)"
  unfolding memuser_need_table_def by (intro env_intros) simp

lemma env_memuser_alloc_loop [env_intros]: "env s (memuser_alloc_loop n a v swp s)"
proof (induction n arbitrary: v s)
  case (Suc n)
  show ?case unfolding memuser_alloc_loop.simps by (intro env_intros Suc)
qed (simp add: env_def)

lemma env_memuser_alloc [env_intros]: "env s (memuser_alloc a n swp s)"
  unfolding memuser_alloc_def by (intro env_intros) simp_all

lemma env_cur_addrspace [env_intros]: "env s (cur_addrspace s)"
  unfolding cur_addrspace_def by (intro env_intros) simp

lemma env_memuser_alloc_syscall [env_intros]: "env s (memuser_alloc_syscall n s)"
  unfolding memuser_alloc_syscall_def by (intro env_intros)

lemma env_memuser_free [env_intros]: "env s (memuser_free a v s)"
  unfolding memuser_free_def by (intro env_intros) simp_all

lemma env_memuser_free_syscall [env_intros]: "env s (memuser_free_syscall v s)"
  unfolding memuser_free_syscall_def by (intro env_intros)

lemma env_memuser_getphysaddr [env_intros]: "env s (memuser_getphysaddr a v s)"
  unfolding memuser_getphysaddr_def by (intro env_intros) simp

lemma env_memuser_getphysaddr_syscall [env_intros]: "env s (memuser_getphysaddr_syscall v s)"
  unfolding memuser_getphysaddr_syscall_def by (intro env_intros)

lemma env_memuser_alloc_at [env_intros]: "env s (memuser_alloc_at a v f w s)"
  unfolding memuser_alloc_at_def by (intro env_intros) simp_all

lemma env_memuser_expand_stack [env_intros]: "env s (memuser_expand_stack a s)"
  unfolding memuser_expand_stack_def by (intro env_intros)

lemma env_memuser_create_stack [env_intros]: "env s (memuser_create_stack a s)"
  unfolding memuser_create_stack_def by (intro env_intros) simp

lemma env_memuser_destroy_stack [env_intros]: "env s (memuser_destroy_stack a s)"
  unfolding memuser_destroy_stack_def by (intro env_intros)

lemma env_memuser_destroy_addrspace [env_intros]: "env s (memuser_destroy_addrspace a s)"
  unfolding memuser_destroy_addrspace_def by (intro env_intros) simp_all

lemma env_memuser_pagefault [env_intros]: "env s (memuser_pagefault v s)"
  unfolding memuser_pagefault_def by (intro env_intros) simp_all

lemma env_memuser_getvga [env_intros]: "env s (memuser_getvga s)"
  unfolding memuser_getvga_def by (intro env_intros) simp_all

lemma env_page_loop [env_intros]:
  assumes "\<And>i t. env t (body i t)"
  shows "env s (page_loop k i n body s)"
proof (induction k arbitrary: i s)
  case (Suc k)
  show ?case unfolding page_loop.simps by (intro env_intros assms Suc) simp
qed (simp add: env_def)

lemma env_memuser_dma_alloc [env_intros]: "env s (memuser_dma_alloc n s)"
  unfolding memuser_dma_alloc_def by (intro env_intros) simp_all

lemma env_memuser_dma_free [env_intros]: "env s (memuser_dma_free a n s)"
  unfolding memuser_dma_free_def by (intro env_intros) simp_all

subsection \<open>System calls on processes that leave the table alone\<close>

lemma env_proc_regs_save [env_intros]: "env s (proc_regs_save p s)"
  unfolding proc_regs_save_def vm86_save_segregs_def by (intro env_intros) (simp_all add: pcore_def)

lemma env_proc_regs_load [env_intros]: "env s (proc_regs_load p s)"
proof -
  have "env t (vm86_load_segregs p (t\<lparr>curregs := r\<rparr>))" for t :: "'a kernel_scheme" and r
    by (rule env_trans [OF env_rel_fields(3) [of t r]]) (unfold vm86_load_segregs_def, intro env_intros, simp)
  then show ?thesis unfolding proc_regs_load_def by (intro env_intros) simp_all
qed

lemma env_switch_from [env_intros]: "env s (switch_from old s)"
  unfolding switch_from_def by (intro env_intros) simp_all

lemma env_find_pid [env_intros]: "env s (find_pid pid ps s)"
proof (induction ps arbitrary: s)
  case (Cons p ps)
  show ?case unfolding find_pid.simps by (intro env_intros Cons) simp
qed (simp add: env_def)

lemma env_proc_find [env_intros]: "env s (proc_find pid s)"
  unfolding proc_find_def by (intro env_intros) simp

lemma env_for_system [env_intros]:
  "(\<And>p t. env t (f p t)) \<Longrightarrow> env s (for_system pid fail f s)"
  unfolding for_system_def by (intro env_intros) simp_all

lemma env_proc_getpid [env_intros]: "env s (proc_getpid s)"
  unfolding proc_getpid_def by (intro env_intros) simp

lemma env_proc_getparent [env_intros]: "env s (proc_getparent pid s)"
  unfolding proc_getparent_def by (intro env_intros) simp_all

lemma env_proc_getchild [env_intros]: "env s (proc_getchild pid i s)"
  unfolding proc_getchild_def by (intro env_intros) simp_all

lemma env_proc_getuid [env_intros]: "env s (proc_getuid i s)"
  unfolding proc_getuid_def by (intro env_intros) simp_all

lemma env_proc_setuid [env_intros]: "env s (proc_setuid i u s)"
  unfolding proc_setuid_def by (intro env_intros) (simp_all add: pcore_def)

lemma env_proc_getgid [env_intros]: "env s (proc_getgid i s)"
  unfolding proc_getgid_def by (intro env_intros) simp_all

lemma env_proc_setgid [env_intros]: "env s (proc_setgid i u s)"
  unfolding proc_setgid_def by (intro env_intros) (simp_all add: pcore_def)

lemma env_proc_getname [env_intros]: "env s (proc_getname pid buf n s)"
  unfolding proc_getname_def by (intro env_intros) simp_all

lemma env_proc_setname [env_intros]: "env s (proc_setname pid name s)"
  unfolding proc_setname_def by (intro env_intros) (simp_all add: pcore_def)

lemma env_find_name [env_intros]: "env s (find_name name ps s)"
proof (induction ps arbitrary: s)
  case (Cons p ps)
  show ?case unfolding find_name.simps by (intro env_intros Cons) simp
qed (simp add: env_def)

lemma env_proc_getpidbyname [env_intros]: "env s (proc_getpidbyname name s)"
  unfolding proc_getpidbyname_def by (intro env_intros)

lemma env_proc_getvar [env_intros]: "env s (proc_getvar pid s)"
  unfolding proc_getvar_def by (intro env_intros) simp_all

lemma env_proc_setvar [env_intros]: "env s (proc_setvar pid v s)"
  unfolding proc_setvar_def by (intro env_intros) (simp_all add: pcore_def)

lemma env_proc_memmap [env_intros]: "env s (proc_memmap pid v f w sw c s)"
  unfolding proc_memmap_def by (intro env_intros) simp_all

lemma env_proc_memalloc [env_intros]: "env s (proc_memalloc pid v w sw s)"
  unfolding proc_memalloc_def by (intro env_intros) simp

lemma env_in_addrspace [env_intros]: "(\<And>t. env t (f t)) \<Longrightarrow> env s (in_addrspace a f s)"
  unfolding in_addrspace_def by (intro env_intros) simp_all

lemma env_proc_memunmap [env_intros]: "env s (proc_memunmap pid v s)"
  unfolding proc_memunmap_def by (intro env_intros) simp

lemma env_proc_memfree [env_intros]: "env s (proc_memfree pid v s)"
  unfolding proc_memfree_def by (intro env_intros) simp

lemma env_proc_memget [env_intros]: "env s (proc_memget pid v a b c d s)"
  unfolding proc_memget_def by (intro env_intros) simp_all

lemma env_copy_pages [env_intros]: "env s (copy_pages xs dest n j s)"
proof (induction xs arbitrary: j s)
  case (Cons x xs)
  show ?case unfolding copy_pages.simps by (intro env_intros Cons) simp
qed (simp add: env_def)

lemma env_proc_mempagelist [env_intros]: "env s (proc_mempagelist pid dest n s)"
  unfolding proc_mempagelist_def by (intro env_intros) simp

lemma env_proc_system [env_intros]: "env s (proc_system pid y s)"
  unfolding proc_system_def by (intro env_intros) (simp_all add: pcore_def)

lemma env_proc_jump [env_intros]: "env s (proc_jump pid d s)"
  unfolding proc_jump_def by (intro env_intros) (simp_all add: pcore_def)

lemma env_proc_createstack [env_intros]: "env s (proc_createstack pid s)"
  unfolding proc_createstack_def by (intro env_intros) (simp_all add: pcore_def)

lemma env_proc_getstack [env_intros]: "env s (proc_getstack pid s)"
  unfolding proc_getstack_def by (intro env_intros) simp

lemma env_proc_setstack [env_intros]: "env s (proc_setstack pid d s)"
  unfolding proc_setstack_def by (intro env_intros) simp

lemma env_get_regs [env_intros]: "env s (get_regs p s)"
  unfolding get_regs_def by (intro env_intros) simp_all

lemma env_upd_regs [env_intros]: "env s (upd_regs p f s)"
  unfolding upd_regs_def by (intro env_intros) (simp_all add: pcore_def)

lemma env_proc_push [env_intros]: "env s (proc_push p v s)"
  unfolding proc_push_def by (intro env_intros)

lemma env_signal_setup [env_intros]: "env s (signal_setup h s)"
  unfolding signal_setup_def by (intro env_intros) (simp add: pcore_def)

end
