(* ===== verification/ProcTable.thy ===== *)
theory ProcTable
  imports ProcInv
begin

text \<open>
  The operations that change the process table keep its invariant: sleeping and waking, the
  scheduler, creation and destruction, exit and wait.
\<close>

section \<open>Rules\<close>

lemma goes_on_Ret: "P t \<Longrightarrow> goes_on (Ret x t) P"
  by (simp add: goes_on_def)

lemma goes_on_Stop: "(e = Idle \<Longrightarrow> P t) \<Longrightarrow> goes_on (Stop e t) P"
  by (simp add: goes_on_def)

lemma goes_on_bindr:
  assumes "goes_on r P" "\<And>x t. P t \<Longrightarrow> goes_on (g x t) P"
  shows "goes_on (bindr r g) P"
  using assms by (cases r) (auto simp: goes_on_def)

lemma goes_on_if: "(b \<Longrightarrow> goes_on r P) \<Longrightarrow> (\<not> b \<Longrightarrow> goes_on r' P) \<Longrightarrow> goes_on (if b then r else r') P"
  by simp

lemma goes_on_Let: "goes_on (g x) P \<Longrightarrow> goes_on (let y = x in g y) P"
  by simp

lemma goes_on_foreach:
  assumes "\<And>x t. P t \<Longrightarrow> goes_on (g x t) P" "P s"
  shows "goes_on (foreach g xs s) P"
  using assms(2)
proof (induction xs arbitrary: s)
  case (Cons x xs)
  then show ?case unfolding foreach.simps by (intro goes_on_bindr assms(1) Cons)
qed (simp add: goes_on_def)

lemma goes_on_drain:
  assumes "\<And>xs t. P t \<Longrightarrow> goes_on (put xs t) P" "\<And>x t. P t \<Longrightarrow> goes_on (g x t) P" "P s"
  shows "goes_on (drain put g xs s) P"
  using assms(3)
proof (induction xs arbitrary: s)
  case (Cons x xs)
  then show ?case unfolding drain.simps by (intro goes_on_bindr assms(1,2) goes_on_if goes_on_Ret Cons)
qed (simp add: goes_on_def)

lemma keeps_procs_env: "procs_ok s \<Longrightarrow> env s r \<Longrightarrow> keeps_procs r"
  by (cases r) (auto simp: env_def goes_on_def intro: procs_ok_env)

section \<open>Lists of processes\<close>

lemma u32_distinct_length:
  assumes "distinct (xs :: u32 list)" "NULL \<notin> set xs"
  shows "length xs < 2 ^ 32"
proof -
  have "set xs \<subseteq> UNIV - {NULL}" using assms(2) by auto
  then have "card (set xs) \<le> card (UNIV - {NULL :: u32})" by (intro card_mono) auto
  also have "\<dots> = 2 ^ 32 - 1" by (simp add: card_Diff_singleton card_word)
  finally show ?thesis using distinct_card [OF assms(1)] by simp
qed

lemma remove_value_distinct:
  assumes "distinct xs" "NULL \<notin> set xs"
  shows "ll_remove_value xs p = (if p \<in> set xs then (p, remove1 p xs) else (NULL, xs))"
  using assms by (intro ll_remove_value_eq u32_distinct_length)

lemma table_lists:
  assumes "table_ok s"
  shows "distinct (proc_all s)" "distinct (proc_running s)" "distinct (proc_sleeping s)"
    "NULL \<notin> set (proc_all s)" "NULL \<notin> set (proc_running s)" "NULL \<notin> set (proc_sleeping s)"
    "set (proc_running s) \<inter> set (proc_sleeping s) = {}"
    "set (proc_running s) \<subseteq> set (proc_all s)" "set (proc_sleeping s) \<subseteq> set (proc_all s)"
proof -
  show "NULL \<notin> set (proc_all s)"
  proof
    assume "NULL \<in> set (proc_all s)"
    with assms obtain x where "procs s NULL = Some x" unfolding table_ok_def by blast
    with assms show False unfolding table_ok_def by simp
  qed
  with assms show "distinct (proc_all s)" "distinct (proc_running s)" "distinct (proc_sleeping s)"
    "NULL \<notin> set (proc_running s)" "NULL \<notin> set (proc_sleeping s)"
    "set (proc_running s) \<inter> set (proc_sleeping s) = {}"
    "set (proc_running s) \<subseteq> set (proc_all s)" "set (proc_sleeping s) \<subseteq> set (proc_all s)"
    unfolding table_ok_def by auto
qed

lemma table_elems: "table_ok s \<Longrightarrow> ll_elems (proc_running s) = proc_running s"
  by (simp add: ll_elems_id table_lists)

lemma table_proc:
  assumes "table_ok s" "p \<in> set (proc_all s)"
  obtains x where "procs s p = Some x" "proc_ok s p x"
  using assms unfolding table_ok_def by blast

lemma table_running:
  assumes "table_ok s" "p \<in> set (proc_running s)"
  obtains x where "procs s p = Some x" "proc_ok s p x" "p \<in> set (proc_all s)"
    "p_is_sleeping x = 0" "p_defunc x = 0"
proof -
  have a: "p \<in> set (proc_all s)" using assms table_lists(8) by blast
  then obtain x where x: "procs s p = Some x" "proc_ok s p x" using table_proc [OF assms(1)] by blast
  have "p \<notin> set (proc_sleeping s)" using assms table_lists(7) [OF assms(1)] by blast
  with x(2) assms(2) have "p_is_sleeping x = 0" "p_defunc x = 0" unfolding proc_ok_def by blast+
  with that x a show thesis by blast
qed

text \<open>One process changes, and with it the lists it is in.\<close>

lemma table_ok_change:
  assumes tab: "table_ok s" and x: "procs s p = Some x" and p: "p \<in> set (proc_all s)"
    and lists: "distinct (proc_running t @ proc_sleeping t)"
      "set (proc_running t) \<union> set (proc_sleeping t) \<subseteq> set (proc_all s)"
      "\<And>q. q \<noteq> p \<Longrightarrow> q \<in> set (proc_running t) \<longleftrightarrow> q \<in> set (proc_running s)"
      "\<And>q. q \<noteq> p \<Longrightarrow> q \<in> set (proc_sleeping t) \<longleftrightarrow> q \<in> set (proc_sleeping s)"
    and y: "p_pid y = p_pid x" "proc_ok t p y"
    and eqs: "procs t = (procs s)(p \<mapsto> y)" "proc_all t = proc_all s" "addrspaces t = addrspaces s"
      "mallocs t = mallocs s" "proc_nextpid t = proc_nextpid s"
  shows "table_ok t"
proof -
  have "p \<noteq> NULL" using p table_lists(4) [OF tab] by auto
  have "proc_ok t q z" if "q \<noteq> p" "proc_ok s q z" for q z
    using that lists(3,4) [OF that(1)] eqs unfolding proc_ok_def by auto
  then have "\<forall>q \<in> set (proc_all s). \<exists>z. procs t q = Some z \<and> proc_ok t q z"
    using tab y(2) unfolding table_ok_def eqs(1) by (metis fun_upd_apply)
  moreover have "inj_on (\<lambda>q. p_pid (the (procs t q))) (set (proc_all s))"
  proof -
    have "p_pid (the (procs t q)) = p_pid (the (procs s q))" for q
      using x y(1) eqs(1) by simp
    then show ?thesis using tab unfolding table_ok_def by simp
  qed
  moreover have "mallocs_ok t"
    using tab x unfolding table_ok_def mallocs_ok_def eqs by auto
  moreover have "\<forall>q z. procs t q = Some z \<longrightarrow> q \<notin> set (proc_all s) \<longrightarrow> p_is_sleeping z = 0"
    using tab p unfolding table_ok_def eqs(1) by auto
  ultimately show ?thesis
    using tab lists(1,2) \<open>p \<noteq> NULL\<close> unfolding table_ok_def eqs by auto
qed

section \<open>Waking\<close>

lemma table_wake:
  assumes "table_ok s" "procs s p = Some x" "p_is_sleeping x \<noteq> 0"
  shows "table_ok (s\<lparr>proc_sleeping := remove1 p (proc_sleeping s), proc_running := p # proc_running s,
           procs := (procs s)(p \<mapsto> x\<lparr>p_is_sleeping := 0\<rparr>)\<rparr>)"
proof -
  note lists = table_lists [OF assms(1)]
  have p: "p \<in> set (proc_all s)" using assms unfolding table_ok_def by blast
  from table_proc [OF assms(1) p] assms(2) have ok: "proc_ok s p x" by auto
  with assms(3) have sl: "p \<in> set (proc_sleeping s)" unfolding proc_ok_def by simp
  with lists(7) have nr: "p \<notin> set (proc_running s)" by blast
  show ?thesis
    by (rule table_ok_change [OF assms(1,2) p, where y = "x\<lparr>p_is_sleeping := 0\<rparr>"])
       (use lists sl nr ok p in \<open>auto simp: proc_ok_def\<close>)
qed

lemma proc_wake_eq:
  assumes "table_ok s" "procs s p = Some x"
  shows "proc_wake p s = Ret 0 (if p_is_sleeping x \<noteq> 0 then
     s\<lparr>proc_sleeping := remove1 p (proc_sleeping s), proc_running := p # proc_running s,
       procs := (procs s)(p \<mapsto> x\<lparr>p_is_sleeping := 0\<rparr>)\<rparr> else s)"
proof (cases "p_is_sleeping x = 0")
  case False
  have "p \<in> set (proc_all s)" using assms False unfolding table_ok_def by blast
  from table_proc [OF assms(1) this] assms(2) False have "p \<in> set (proc_sleeping s)"
    unfolding proc_ok_def by fastforce
  then show ?thesis
    using assms False table_lists [OF assms(1)]
    by (simp add: proc_wake_def getp_def updp_def remove_value_distinct ll_push_def)
qed (use assms in \<open>simp add: proc_wake_def getp_def\<close>)

lemma procs_ok_wake:
  assumes "procs_ok s" "procs s p = Some x" "p_is_sleeping x \<noteq> 0"
  shows "procs_ok (s\<lparr>proc_sleeping := remove1 p (proc_sleeping s), proc_running := p # proc_running s,
           procs := (procs s)(p \<mapsto> x\<lparr>p_is_sleeping := 0\<rparr>)\<rparr>)"
  using assms table_wake [of s p x] unfolding procs_ok_def by auto

lemma keeps_procs_wake [inv_intros]:
  assumes "procs_ok s"
  shows "keeps_procs (proc_wake p s)"
proof (cases "procs s p")
  case None
  then show ?thesis by (simp add: proc_wake_def getp_def goes_on_def)
next
  case (Some x)
  with assms have "proc_wake p s = Ret 0 (if p_is_sleeping x \<noteq> 0 then
     s\<lparr>proc_sleeping := remove1 p (proc_sleeping s), proc_running := p # proc_running s,
       procs := (procs s)(p \<mapsto> x\<lparr>p_is_sleeping := 0\<rparr>)\<rparr> else s)"
    by (intro proc_wake_eq) (simp_all add: procs_ok_def)
  with Some assms procs_ok_wake [OF assms Some] show ?thesis by (simp add: goes_on_def)
qed

end
