(* ===== verification/Sched.thy ===== *)
theory Sched
  imports ProcTable
begin

text \<open>
  The scheduler \<open>proc_shedule\<close>: it returns with a process that may run, keeps the invariant of the
  process table, and follows an abstract round robin on the remaining ticks (\<open>sched_next\<close>).
\<close>

section \<open>The abstract scheduler\<close>

definition ticks :: "'a kernel_scheme \<Rightarrow> u32 \<Rightarrow> u32" where
  "ticks s p = p_ticks_rem (the (procs s p))"

text \<open>
  The current process loses a tick. Then the last process of the list that has a tick left runs; if
  there is none, all get a new tick and the first one runs.
\<close>

definition sched_next :: "u32 list \<Rightarrow> u32 \<Rightarrow> (u32 \<Rightarrow> u32) \<Rightarrow> u32 \<times> (u32 \<Rightarrow> u32)" where
  "sched_next run cur tk =
     (let tk = (if cur \<noteq> NULL then tk(cur := tk cur - 1) else tk);
          ready = filter (\<lambda>p. tk p > 0) run
      in if ready = [] then (hd run, \<lambda>p. if p \<in> set run then 1 else tk p) else (last ready, tk))"

section \<open>The loops\<close>

lemma pick_process_eq:
  assumes "set ps \<subseteq> dom (procs s)"
  shows "pick_process ps s = Ret () (s\<lparr>proc_current :=
     (let ready = filter (\<lambda>p. ticks s p > 0) ps in if ready = [] then proc_current s else last ready)\<rparr>)"
  using assms
proof (induction ps arbitrary: s)
  case Nil
  then show ?case by (simp add: pick_process_def)
next
  case (Cons p ps)
  then obtain x where x: "procs s p = Some x" by auto
  let ?t = "s\<lparr>proc_current := p\<rparr>"
  have t: "ticks ?t = ticks s" "dom (procs ?t) = dom (procs s)" by (simp_all add: ticks_def fun_eq_iff)
  have sub: "set ps \<subseteq> dom (procs s)" "set ps \<subseteq> dom (procs ?t)" using Cons.prems by auto
  show ?case
  proof (cases "ticks s p > 0")
    case True
    then have "pick_process (p # ps) s = pick_process ps ?t"
      using x by (simp add: pick_process_def getp_def ticks_def)
    also note Cons.IH [OF sub(2)]
    finally show ?thesis using True by (simp add: Let_def t(1))
  next
    case False
    then have "pick_process (p # ps) s = pick_process ps s"
      using x by (simp add: pick_process_def getp_def ticks_def)
    also note Cons.IH [OF sub(1)]
    finally show ?thesis using False by (simp add: Let_def)
  qed
qed

lemma refill_ticks_eq:
  assumes "set ps \<subseteq> dom (procs s)"
  shows "refill_ticks ps s = Ret () (s\<lparr>procs :=
     (\<lambda>p. if p \<in> set ps then map_option (\<lambda>x. x\<lparr>p_ticks_rem := 1\<rparr>) (procs s p) else procs s p)\<rparr>)"
  using assms
proof (induction ps arbitrary: s)
  case Nil
  then show ?case by (simp add: refill_ticks_def)
next
  case (Cons p ps)
  then obtain x where x: "procs s p = Some x" by auto
  let ?t = "s\<lparr>procs := (procs s)(p \<mapsto> x\<lparr>p_ticks_rem := 1\<rparr>)\<rparr>"
  have "refill_ticks (p # ps) s = refill_ticks ps ?t"
    using x by (simp add: refill_ticks_def updp_def getp_def NICE2TICKS_def)
  also have "\<dots> = Ret () (?t\<lparr>procs :=
     (\<lambda>q. if q \<in> set ps then map_option (\<lambda>x. x\<lparr>p_ticks_rem := 1\<rparr>) (procs ?t q) else procs ?t q)\<rparr>)"
    by (rule Cons.IH) (use Cons.prems in auto)
  also have "(\<lambda>q. if q \<in> set ps then map_option (\<lambda>x. x\<lparr>p_ticks_rem := 1\<rparr>) (procs ?t q) else procs ?t q) =
     (\<lambda>q. if q \<in> set (p # ps) then map_option (\<lambda>x. x\<lparr>p_ticks_rem := 1\<rparr>) (procs s q) else procs s q)"
    using x by (auto simp: fun_eq_iff)
  finally show ?case by simp
qed

lemma table_ok_ticks:
  assumes tab: "table_ok s"
    and eqs: "procs t = (\<lambda>p. map_option (\<lambda>x. x\<lparr>p_ticks_rem := f p x\<rparr>) (procs s p))"
      "proc_all t = proc_all s" "proc_running t = proc_running s" "proc_sleeping t = proc_sleeping s"
      "addrspaces t = addrspaces s" "mallocs t = mallocs s" "proc_nextpid t = proc_nextpid s"
    and le: "\<And>p x. p \<in> set (proc_all s) \<Longrightarrow> procs s p = Some x \<Longrightarrow> f p x \<le> 1"
  shows "table_ok t"
proof -
  have "\<exists>y. procs t p = Some y \<and> proc_ok t p y" if "p \<in> set (proc_all s)" for p
  proof -
    from table_proc [OF tab that] obtain x where x: "procs s p = Some x" "proc_ok s p x" .
    with le [OF that x(1)] have "proc_ok t p (x\<lparr>p_ticks_rem := f p x\<rparr>)"
      unfolding proc_ok_def eqs by auto
    with x(1) eqs(1) show ?thesis by simp
  qed
  moreover have "inj_on (\<lambda>p. p_pid (the (procs t p))) (set (proc_all s))"
  proof -
    have "p_pid (the (procs t p)) = p_pid (the (procs s p))" if "p \<in> set (proc_all s)" for p
      using table_proc [OF tab that] eqs(1) by force
    then show ?thesis using tab unfolding table_ok_def by (simp cong: inj_on_cong)
  qed
  ultimately show ?thesis
    using tab unfolding table_ok_def mallocs_ok_def eqs by (auto simp: option.map_sel)
qed

section \<open>The switch\<close>

lemma switch_from_eq:
  assumes c: "proc_current s \<noteq> old" "procs s (proc_current s) = Some y"
    and old: "old = NULL \<or> procs s old \<noteq> None" and a: "addrspaces s (p_addrspace y) = Some a"
    and null: "procs s NULL = None"
  shows "\<exists>t. switch_from old s = Ret () t \<and> env_rel s t \<and> curregs t = p_registers y \<and>
    (old \<noteq> NULL \<longrightarrow> p_registers (the (procs t old)) = curregs s) \<and>
    (\<forall>q. q \<noteq> old \<longrightarrow> procs t q = procs s q) \<and> paging_curpd t = as_pagedir a"
proof -
  have e: "env s (switch_from old s)" by (intro env_intros)
  have "\<exists>t. switch_from old s = Ret () t \<and> curregs t = p_registers y \<and>
    (old \<noteq> NULL \<longrightarrow> p_registers (the (procs t old)) = curregs s) \<and>
    (\<forall>q. q \<noteq> old \<longrightarrow> procs t q = procs s q) \<and> paging_curpd t = as_pagedir a"
  proof (cases "old = NULL")
    case True
    then show ?thesis using c a
      by (simp add: switch_from_def proc_regs_load_def vm86_load_segregs_def getp_def
          cur_addrspace_def memuser_load_addrspace_def geta_def paging_loadpagedir_def)
  next
    case False
    with old obtain x where x: "procs s old = Some x" by auto
    show ?thesis using False x c a
      by (simp add: switch_from_def proc_regs_save_def vm86_save_segregs_def proc_regs_load_def
          vm86_load_segregs_def getp_def updp_def
          cur_addrspace_def memuser_load_addrspace_def geta_def paging_loadpagedir_def)
  qed
  with e show ?thesis by (auto simp: env_def)
qed

section \<open>One run of the scheduler\<close>

text \<open>
  What the scheduler relies on: the running process, if there is one, has a tick left. It may
  already be in the list of sleeping processes.
\<close>

definition sched_pre :: "'a kernel_scheme \<Rightarrow> bool" where
  "sched_pre s \<longleftrightarrow> table_ok s \<and>
     (proc_current s \<noteq> NULL \<longrightarrow> proc_current s \<in> set (proc_all s) \<and> ticks s (proc_current s) = 1)"

lemma procs_ok_sched_pre: "procs_ok s \<Longrightarrow> sched_pre s"
  unfolding procs_ok_def sched_pre_def ticks_def using table_lists(8) by blast

lemma table_ok_current [simp]: "table_ok (s\<lparr>proc_current := c\<rparr>) \<longleftrightarrow> table_ok s"
  by (simp add: table_ok_def proc_ok_def mallocs_ok_def)

lemma ticks_current [simp]: "ticks (s\<lparr>proc_current := c\<rparr>) = ticks s"
  by (simp add: ticks_def fun_eq_iff)

lemma table_ticks: "table_ok s \<Longrightarrow> p \<in> set (proc_all s) \<Longrightarrow> procs s p = Some x \<Longrightarrow> p_ticks_rem x \<le> 1"
  using table_proc [of s p] by (auto simp: proc_ok_def)

text \<open>The first step: the current process loses its tick.\<close>

definition end_slice :: "'a kernel_scheme \<Rightarrow> 'a kernel_scheme" where
  "end_slice s =
     (if proc_current s \<noteq> NULL
      then s\<lparr>procs := (procs s)(proc_current s := map_option (\<lambda>p. p\<lparr>p_ticks_rem := p_ticks_rem p - 1\<rparr>)
                                                  (procs s (proc_current s))), proc_current := NULL\<rparr>
      else s)"

lemma end_slice_fields [simp]:
  "proc_current (end_slice s) = NULL" "proc_all (end_slice s) = proc_all s"
  "proc_running (end_slice s) = proc_running s" "proc_sleeping (end_slice s) = proc_sleeping s"
  "addrspaces (end_slice s) = addrspaces s" "curregs (end_slice s) = curregs s"
  "mallocs (end_slice s) = mallocs s" "proc_nextpid (end_slice s) = proc_nextpid s"
  by (auto simp: end_slice_def)

lemma end_slice_registers:
  "map_option p_registers (procs (end_slice s) p) = map_option p_registers (procs s p)"
  "map_option p_is_vm86 (procs (end_slice s) p) = map_option p_is_vm86 (procs s p)"
  by (auto simp: end_slice_def option.map_comp o_def)

lemma end_slice_ok:
  assumes "sched_pre s"
  shows "table_ok (end_slice s)"
    "ticks (end_slice s) =
       (if proc_current s \<noteq> NULL then (ticks s)(proc_current s := ticks s (proc_current s) - 1) else ticks s)"
proof -
  let ?c = "proc_current s"
  let ?f = "\<lambda>p x. if ?c \<noteq> NULL \<and> p = ?c then p_ticks_rem x - 1 else p_ticks_rem x"
  have tab: "table_ok s" using assms by (simp add: sched_pre_def)
  show "table_ok (end_slice s)"
  proof (rule table_ok_ticks [OF tab, where f = ?f])
    show "procs (end_slice s) = (\<lambda>p. map_option (\<lambda>x. x\<lparr>p_ticks_rem := ?f p x\<rparr>) (procs s p))"
    proof
      fix p
      show "procs (end_slice s) p = map_option (\<lambda>x. x\<lparr>p_ticks_rem := ?f p x\<rparr>) (procs s p)"
        by (cases "procs s p") (auto simp: end_slice_def)
    qed
    show "?f p x \<le> 1" if "p \<in> set (proc_all s)" "procs s p = Some x" for p x
      using table_ticks [OF tab that] assms that(2) by (auto simp: sched_pre_def ticks_def)
  qed simp_all
  show "ticks (end_slice s) = (if ?c \<noteq> NULL then (ticks s)(?c := ticks s ?c - 1) else ticks s)"
  proof (cases "?c = NULL")
    case False
    with assms obtain x where "procs s ?c = Some x"
      using table_proc [OF tab] unfolding sched_pre_def by blast
    with False show ?thesis by (auto simp: end_slice_def ticks_def fun_eq_iff)
  qed (simp add: end_slice_def)
qed

definition refilled :: "'a kernel_scheme \<Rightarrow> 'a kernel_scheme" where
  "refilled s = s\<lparr>procs := (\<lambda>p. if p \<in> set (proc_running s)
     then map_option (\<lambda>x. x\<lparr>p_ticks_rem := 1\<rparr>) (procs s p) else procs s p)\<rparr>"

lemma refilled_ok:
  assumes "table_ok s"
  shows "table_ok (refilled s)" "ticks (refilled s) = (\<lambda>p. if p \<in> set (proc_running s) then 1 else ticks s p)"
proof -
  let ?f = "\<lambda>p x. if p \<in> set (proc_running s) then 1 else p_ticks_rem x"
  show "table_ok (refilled s)"
  proof (rule table_ok_ticks [OF assms, where f = ?f])
    show "procs (refilled s) = (\<lambda>p. map_option (\<lambda>x. x\<lparr>p_ticks_rem := ?f p x\<rparr>) (procs s p))"
    proof
      fix p
      show "procs (refilled s) p = map_option (\<lambda>x. x\<lparr>p_ticks_rem := ?f p x\<rparr>) (procs s p)"
        by (cases "procs s p") (auto simp: refilled_def)
    qed
    show "?f p x \<le> 1" if "p \<in> set (proc_all s)" "procs s p = Some x" for p x
      using table_ticks [OF assms that] by simp
  qed (simp_all add: refilled_def)
  show "ticks (refilled s) = (\<lambda>p. if p \<in> set (proc_running s) then 1 else ticks s p)"
  proof
    fix p
    show "ticks (refilled s) p = (if p \<in> set (proc_running s) then 1 else ticks s p)"
    proof (cases "p \<in> set (proc_running s)")
      case True
      then obtain x where "procs s p = Some x" using table_running [OF assms] by blast
      with True show ?thesis by (simp add: refilled_def ticks_def)
    qed (simp add: refilled_def ticks_def)
  qed
qed

text \<open>The state in which the switch is made.\<close>

definition chosen :: "'a kernel_scheme \<Rightarrow> 'a kernel_scheme" where
  "chosen s =
     (let s = end_slice s; ready = filter (\<lambda>p. ticks s p > 0) (proc_running s)
      in if ready = [] then (refilled s)\<lparr>proc_current := hd (proc_running s)\<rparr>
         else s\<lparr>proc_current := last ready\<rparr>)"

lemma table_dom: "table_ok s \<Longrightarrow> set (proc_running s) \<subseteq> dom (procs s)"
  using table_running by blast

lemma ll_get_hd: "xs \<noteq> [] \<Longrightarrow> ll_get xs 0 = hd xs"
  by (simp add: ll_get_def hd_conv_nth)

lemma proc_shedule_chosen:
  assumes "sched_pre s" "proc_running s \<noteq> []"
  shows "proc_shedule s = switch_from (proc_current s) (chosen s)"
proof -
  let ?s1 = "end_slice s"
  note tab1 = end_slice_ok(1) [OF assms(1)]
  let ?ready = "filter (\<lambda>p. ticks ?s1 p > 0) (proc_running s)"
  let ?s2 = "?s1\<lparr>proc_current := (if ?ready = [] then NULL else last ?ready)\<rparr>"
  have first: "(if proc_current s \<noteq> NULL
      then bindr (updp (proc_current s) (\<lambda>p. p\<lparr>p_ticks_rem := p_ticks_rem p - 1\<rparr>) s)
             (\<lambda>_ s. Ret () (s\<lparr>proc_current := NULL\<rparr>))
      else Ret () s) = Ret () ?s1"
  proof (cases "proc_current s = NULL")
    case False
    with assms(1) obtain x where "procs s (proc_current s) = Some x"
      using table_proc unfolding sched_pre_def by blast
    with False show ?thesis by (simp add: end_slice_def updp_def getp_def)
  qed (simp add: end_slice_def)
  have second: "pick_process (ll_elems (proc_running ?s1)) ?s1 = Ret () ?s2"
    unfolding table_elems [OF tab1]
    by (subst pick_process_eq) (use table_dom [OF tab1] in \<open>simp_all add: Let_def\<close>)
  have tab2: "table_ok ?s2" using tab1 by simp
  have ready: "last ?ready \<noteq> NULL" if "?ready \<noteq> []"
    using last_in_set [OF that] table_lists(5) [OF tab1] by auto
  show ?thesis
  proof (cases "?ready = []")
    case True
    have third: "refill_ticks (ll_elems (proc_running ?s2)) ?s2 =
        Ret () (refilled (?s1\<lparr>proc_current := NULL\<rparr>))"
      unfolding table_elems [OF tab2] using True
      by (subst refill_ticks_eq) (use table_dom [OF tab2] in \<open>simp_all add: refilled_def\<close>)
    have "proc_shedule s = switch_from (proc_current s)
        ((refilled (?s1\<lparr>proc_current := NULL\<rparr>))\<lparr>proc_current := hd (proc_running s)\<rparr>)"
      using assms(2) first second third True
      by (simp add: proc_shedule_def Let_def ll_get_hd refilled_def)
    then show ?thesis using True by (simp add: chosen_def Let_def refilled_def cong: if_cong)
  next
    case False
    have "proc_shedule s = switch_from (proc_current s) ?s2"
      using assms(2) first second False ready by (simp add: proc_shedule_def Let_def)
    then show ?thesis using False by (simp add: chosen_def Let_def)
  qed
qed

lemma chosen_fields [simp]:
  "proc_all (chosen s) = proc_all s" "proc_running (chosen s) = proc_running s"
  "proc_sleeping (chosen s) = proc_sleeping s" "addrspaces (chosen s) = addrspaces s"
  "curregs (chosen s) = curregs s"
  by (simp_all add: chosen_def Let_def refilled_def)

lemma chosen_registers:
  "map_option p_registers (procs (chosen s) p) = map_option p_registers (procs s p)"
proof -
  have "map_option p_registers (procs (chosen s) p) = map_option p_registers (procs (end_slice s) p)"
    by (auto simp: chosen_def Let_def refilled_def option.map_comp o_def)
  then show ?thesis by (simp add: end_slice_registers)
qed

lemma chosen_ok:
  assumes "sched_pre s" "proc_running s \<noteq> []"
  shows "procs_ok (chosen s)" "proc_current (chosen s) \<in> set (proc_running s)"
    "(proc_current (chosen s), ticks (chosen s)) = sched_next (proc_running s) (proc_current s) (ticks s)"
proof -
  let ?s1 = "end_slice s" and ?run = "proc_running s"
  let ?ready = "filter (\<lambda>p. ticks ?s1 p > 0) ?run"
  note tab1 = end_slice_ok(1) [OF assms(1)]
  have tk: "ticks (chosen s) = (if ?ready = [] then ticks (refilled ?s1) else ticks ?s1)"
    by (simp add: chosen_def Let_def)
  have cur: "proc_current (chosen s) = (if ?ready = [] then hd ?run else last ?ready)"
    by (simp add: chosen_def Let_def)
  show "(proc_current (chosen s), ticks (chosen s)) = sched_next ?run (proc_current s) (ticks s)"
    unfolding sched_next_def tk cur refilled_ok(2) [OF tab1] end_slice_ok(2) [OF assms(1)]
    by (simp add: Let_def)
  have "?ready \<noteq> [] \<Longrightarrow> last ?ready \<in> set ?ready" by (rule last_in_set)
  then show c: "proc_current (chosen s) \<in> set ?run" using assms(2) cur by auto
  have tab: "table_ok (chosen s)"
    using tab1 refilled_ok(1) [OF tab1] by (simp add: chosen_def Let_def)
  have "ticks (chosen s) (proc_current (chosen s)) = 1"
  proof (cases "?ready = []")
    case True
    then show ?thesis using tk cur assms(2) by (simp add: refilled_ok(2) [OF tab1])
  next
    case False
    then have l: "last ?ready \<in> set ?ready" by (rule last_in_set)
    then obtain x where x: "procs ?s1 (last ?ready) = Some x" "last ?ready \<in> set (proc_all ?s1)"
      using table_running [OF tab1, of "last ?ready"] by auto
    from table_ticks [OF tab1 x(2,1)] l x(1) have "ticks ?s1 (last ?ready) = 1"
      by (auto simp: ticks_def word_le_nat_alt word_less_nat_alt word_unat_eq_iff)
    then show ?thesis using False tk cur by simp
  qed
  with tab c show "procs_ok (chosen s)" by (simp add: procs_ok_def ticks_def)
qed

text \<open>
  With a process to run, the scheduler returns; it has chosen the process that \<open>sched_next\<close> says,
  and if that is another one, the registers of the old process are saved, those of the new
  one are loaded, and so is its page directory.
\<close>

lemma proc_shedule_runs:
  assumes "sched_pre s" "proc_running s \<noteq> []"
  obtains t where "proc_shedule s = Ret () t" "procs_ok t"
    "proc_current t \<in> set (proc_running s)"
    "(proc_current t, ticks t) = sched_next (proc_running s) (proc_current s) (ticks s)"
    "proc_all t = proc_all s" "proc_running t = proc_running s" "proc_sleeping t = proc_sleeping s"
    "if proc_current t = proc_current s then curregs t = curregs s \<and>
         (\<forall>p. map_option p_registers (procs t p) = map_option p_registers (procs s p))
     else curregs t = p_registers (the (procs s (proc_current t))) \<and>
         (proc_current s \<noteq> NULL \<longrightarrow> p_registers (the (procs t (proc_current s))) = curregs s) \<and>
         (\<forall>p. p \<noteq> proc_current s \<longrightarrow>
            map_option p_registers (procs t p) = map_option p_registers (procs s p))"
proof -
  let ?u = "chosen s"
  note ch = chosen_ok [OF assms]
  have tab: "table_ok ?u" using ch(1) by (simp add: procs_ok_def)
  show thesis
  proof (cases "proc_current ?u = proc_current s")
    case True
    then have "proc_shedule s = Ret () ?u"
      using proc_shedule_chosen [OF assms] by (simp add: switch_from_def)
    with ch True show thesis by (intro that [of ?u]) (simp_all add: chosen_registers)
  next
    case False
    have "proc_current ?u \<in> set (proc_running ?u)" using ch(2) by simp
    then obtain y where y: "procs ?u (proc_current ?u) = Some y" "proc_ok ?u (proc_current ?u) y"
      using table_running [OF tab] by blast
    then obtain a where a: "addrspaces ?u (p_addrspace y) = Some a" by (auto simp: proc_ok_def)
    have old: "proc_current s = NULL \<or> procs ?u (proc_current s) \<noteq> None"
      using assms(1) tab by (auto simp: sched_pre_def table_ok_def)
    have null: "procs ?u NULL = None" using tab unfolding table_ok_def by (rule conjunct1)
    from switch_from_eq [OF False y(1) old a null] obtain t where
      t: "switch_from (proc_current s) ?u = Ret () t" "env_rel ?u t" "curregs t = p_registers y"
      "proc_current s \<noteq> NULL \<longrightarrow> p_registers (the (procs t (proc_current s))) = curregs ?u"
      "\<forall>q. q \<noteq> proc_current s \<longrightarrow> procs t q = procs ?u q"
      by (elim exE conjE)
    have f: "proc_current t = proc_current ?u" "proc_running t = proc_running ?u"
      "proc_all t = proc_all ?u" "proc_sleeping t = proc_sleeping ?u"
      using t(2) by (simp_all add: env_rel_def)
    have tk: "ticks t = ticks ?u"
    proof
      fix p
      show "ticks t p = ticks ?u p"
        using t(2) by (cases "procs t p"; cases "procs ?u p")
          (auto simp: env_rel_def ticks_def pcore_def dest: spec [of _ p])
    qed
    have regs: "p_registers (the (procs s (proc_current t))) = p_registers y"
      using chosen_registers [of s "proc_current ?u"] y(1) f(1) by (cases "procs s (proc_current ?u)") auto
    show thesis
      by (rule that [of t]) (use t ch f tk regs False proc_shedule_chosen [OF assms] in
          \<open>simp_all add: procs_ok_env [OF ch(1)] chosen_registers\<close>)
  qed
qed

section \<open>The scheduler and sleeping keep the invariant\<close>

lemma table_ok_interrupt [simp]: "table_ok (s\<lparr>interrupt_enabled := i\<rparr>) \<longleftrightarrow> table_ok s"
  by (simp add: table_ok_def proc_ok_def mallocs_ok_def)

lemma keeps_procs_shedule:
  assumes "sched_pre s"
  shows "keeps_procs (proc_shedule s)"
proof (cases "proc_running s = []")
  case False
  from proc_shedule_runs [OF assms this] obtain t where "proc_shedule s = Ret () t" "procs_ok t" .
  then show ?thesis by (simp add: goes_on_def)
next
  case True
  have "keeps_procs (bindr (proc_regs_save (proc_current s) s) (\<lambda>_ s. proc_idle (s\<lparr>proc_current := NULL\<rparr>))
    :: (unit, 'a kernel_scheme) res)"
  proof (cases "proc_regs_save (proc_current s) s")
    case (Ret x t)
    with env_proc_regs_save [of s "proc_current s"] have "env_rel s t" by (simp add: env_def)
    with assms have "table_ok t" unfolding sched_pre_def by (blast intro: table_ok_env)
    with Ret show ?thesis by (simp add: proc_idle_def goes_on_def procs_ok_def)
  next
    case (Stop e t)
    have "e = Dangling"
      using Stop unfolding proc_regs_save_def vm86_save_segregs_def updp_def getp_def deref_def
      by (auto split: option.splits if_splits)
    with Stop show ?thesis by (simp add: goes_on_def)
  qed
  with True show ?thesis by (simp add: proc_shedule_def cpu_shutdown_def goes_on_def)
qed

text \<open>The lists when the running process falls asleep.\<close>

definition put_to_sleep :: "u32 \<Rightarrow> proc_S \<Rightarrow> 'a kernel_scheme \<Rightarrow> 'a kernel_scheme" where
  "put_to_sleep p x s = s\<lparr>proc_running := remove1 p (proc_running s), proc_sleeping := p # proc_sleeping s,
     procs := (procs s)(p \<mapsto> x\<lparr>p_is_sleeping := 1\<rparr>)\<rparr>"

lemma table_sleep:
  assumes "table_ok s" "p \<in> set (proc_running s)" "procs s p = Some x"
  shows "table_ok (put_to_sleep p x s)"
proof -
  note lists = table_lists [OF assms(1)]
  from table_running [OF assms(1,2)] assms(3) have ok: "proc_ok s p x" "p \<in> set (proc_all s)" "p_defunc x = 0"
    by auto
  have nl: "p \<notin> set (proc_sleeping s)" using lists(7) assms(2) by blast
  show ?thesis
    by (rule table_ok_change [OF assms(1,3) ok(2), where y = "x\<lparr>p_is_sleeping := 1\<rparr>"])
       (use lists ok nl in \<open>auto simp: proc_ok_def put_to_sleep_def\<close>)
qed

lemma proc_sleep_current_eq:
  assumes "procs_ok s" "proc_current s \<noteq> NULL"
  shows "proc_sleep (proc_current s) s =
    bindr (proc_shedule (put_to_sleep (proc_current s) (the (procs s (proc_current s))) s)) (\<lambda>_. Ret 0)"
    "sched_pre (put_to_sleep (proc_current s) (the (procs s (proc_current s))) s)"
proof -
  let ?p = "proc_current s"
  have tab: "table_ok s" and r: "?p \<in> set (proc_running s)" and tk: "ticks s ?p = 1"
    using assms by (simp_all add: procs_ok_def ticks_def)
  from table_running [OF tab r] obtain x where x: "procs s ?p = Some x" "p_is_sleeping x = 0"
    "?p \<in> set (proc_all s)" by blast
  show "proc_sleep ?p s = bindr (proc_shedule (put_to_sleep ?p (the (procs s ?p)) s)) (\<lambda>_. Ret 0)"
    using x r table_lists [OF tab]
    by (simp add: proc_sleep_def getp_def updp_def remove_value_distinct ll_push_def put_to_sleep_def)
  show "sched_pre (put_to_sleep ?p (the (procs s ?p)) s)"
    using table_sleep [OF tab r x(1)] x tk by (simp add: sched_pre_def ticks_def put_to_sleep_def)
qed

lemma keeps_procs_sleep [inv_intros]:
  assumes "procs_ok s"
  shows "keeps_procs (proc_sleep (proc_current s) s)"
proof (cases "proc_current s = NULL")
  case True
  with assms have "procs s (proc_current s) = None" by (simp add: procs_ok_def table_ok_def)
  then show ?thesis by (simp add: proc_sleep_def getp_def goes_on_def)
next
  case False
  show ?thesis unfolding proc_sleep_current_eq(1) [OF assms False]
    by (intro goes_on_bindr keeps_procs_shedule proc_sleep_current_eq(2) [OF assms False] goes_on_Ret)
qed

end
