(* ===== verification/ProcOps.thy ===== *)
theory ProcOps
  imports Sched
begin

text \<open>
  Creation, destruction and exit of processes, waiting, calls into a process and signals keep the
  invariant of the process table.
\<close>

section \<open>Rules for whole operations\<close>

lemmas goes_on_intros = goes_on_bindr goes_on_if goes_on_Let goes_on_Ret goes_on_foreach goes_on_drain

lemma keeps_procs_op: "env s r \<Longrightarrow> procs_ok s \<Longrightarrow> keeps_procs r"
  by (rule keeps_procs_env)

lemma keeps_procs_getp [inv_intros]: "procs_ok s \<Longrightarrow> keeps_procs (getp p s)"
  by (rule keeps_procs_op [OF env_getp])

lemma keeps_procs_kmalloc_obj [inv_intros]: "procs_ok s \<Longrightarrow> keeps_procs (kmalloc_obj s)"
  by (rule keeps_procs_op [OF env_kmalloc_obj])

lemma keeps_procs_updp [inv_intros]: "(\<And>x. pcore (f x) = pcore x) \<Longrightarrow> procs_ok s \<Longrightarrow> keeps_procs (updp p f s)"
  by (rule keeps_procs_op [OF env_updp])

lemma keeps_procs_proc_find [inv_intros]: "procs_ok s \<Longrightarrow> keeps_procs (proc_find pid s)"
  by (rule keeps_procs_op [OF env_proc_find])

lemma keeps_procs_memuser_load_addrspace [inv_intros]: "procs_ok s \<Longrightarrow> keeps_procs (memuser_load_addrspace a s)"
  by (rule keeps_procs_op [OF env_memuser_load_addrspace])

lemma keeps_procs_store32 [inv_intros]: "procs_ok s \<Longrightarrow> keeps_procs (store32 v x s)"
  by (rule keeps_procs_op [OF mkeeps_store32 [THEN env_mem]])

lemma keeps_procs_cur_addrspace [inv_intros]: "procs_ok s \<Longrightarrow> keeps_procs (cur_addrspace s)"
  by (rule keeps_procs_op [OF env_cur_addrspace])

lemma procs_ok_curregs [simp]: "procs_ok (s\<lparr>curregs := r\<rparr>) \<longleftrightarrow> procs_ok s"
  by (simp add: procs_ok_def table_ok_def proc_ok_def mallocs_ok_def)

section \<open>Exit\<close>

lemma keeps_procs_notify_parent [inv_intros]:
  assumes "procs_ok s"
  shows "keeps_procs (notify_parent ret s)"
  unfolding notify_parent_def using assms
  by (intro goes_on_intros inv_intros) (simp_all add: pcore_def)

text \<open>The running process leaves the list of running processes for good.\<close>

lemma procs_ok_exit:
  assumes "procs_ok s" "procs s (proc_current s) = Some x"
    and y: "p_pid y = p_pid x" "p_addrspace y = p_addrspace x" "p_is_sleeping y = p_is_sleeping x"
      "p_ticks_rem y = p_ticks_rem x"
  shows "procs_ok (s\<lparr>procs := (procs s)(proc_current s \<mapsto> y),
     proc_running := remove1 (proc_current s) (proc_running s), proc_current := NULL, interrupt_enabled := 1\<rparr>)"
proof -
  let ?p = "proc_current s"
  have tab: "table_ok s" using assms(1) by (simp add: procs_ok_def)
  have "?p \<noteq> NULL" using assms(2) tab by (auto simp: table_ok_def)
  with assms(1) have r: "?p \<in> set (proc_running s)" by (simp add: procs_ok_def)
  note lists = table_lists [OF tab]
  from table_running [OF tab r] assms(2) have ok: "proc_ok s ?p x" "?p \<in> set (proc_all s)" by auto
  have nl: "?p \<notin> set (proc_sleeping s)" using lists(7) r by blast
  have "table_ok (s\<lparr>procs := (procs s)(?p \<mapsto> y), proc_running := remove1 ?p (proc_running s)\<rparr>)"
    by (rule table_ok_change [OF tab assms(2) ok(2), where y = y])
       (use lists ok nl y in \<open>auto simp: proc_ok_def\<close>)
  then show ?thesis by (simp add: procs_ok_def)
qed

lemma keeps_procs_exit [inv_intros]:
  assumes "procs_ok s"
  shows "keeps_procs (proc_exit ret s)"
proof -
  have last: "keeps_procs (bindr (updp (proc_current t) (\<lambda>p. p\<lparr>p_ret := ret, p_defunc := 1\<rparr>) t) (\<lambda>_ s.
       proc_idle (s\<lparr>proc_running := snd (ll_remove_value (proc_running s) (proc_current s)),
                    proc_current := NULL\<rparr>)) :: ('b, 'a kernel_scheme) res)"
    if t: "procs_ok t" for t :: "'a kernel_scheme"
  proof (cases "procs t (proc_current t)")
    case None
    then show ?thesis by (simp add: updp_def getp_def goes_on_def)
  next
    case (Some x)
    have tab: "table_ok t" using t by (simp add: procs_ok_def)
    have "proc_current t \<noteq> NULL" using Some tab by (auto simp: table_ok_def)
    with t have "proc_current t \<in> set (proc_running t)" by (simp add: procs_ok_def)
    with table_lists [OF tab] procs_ok_exit [OF t Some, of "x\<lparr>p_ret := ret, p_defunc := 1\<rparr>"] Some
    show ?thesis by (simp add: updp_def getp_def goes_on_def proc_idle_def remove_value_distinct)
  qed
  show ?thesis unfolding proc_exit_def
    by (rule goes_on_bindr [OF keeps_procs_notify_parent [OF assms]]) (rule last)
qed

lemma keeps_procs_abort [inv_intros]: "procs_ok s \<Longrightarrow> keeps_procs (proc_abort s)"
  unfolding proc_abort_def by (rule keeps_procs_exit)

lemma keeps_procs_stop [inv_intros]: "procs_ok s \<Longrightarrow> keeps_procs (proc_stop s)"
  unfolding proc_stop_def by (intro goes_on_intros inv_intros)

lemma keeps_procs_waitpid [inv_intros]: "procs_ok s \<Longrightarrow> keeps_procs (proc_waitpid pid loc opts s)"
  unfolding proc_waitpid_def by (intro goes_on_intros inv_intros) (simp_all add: pcore_def)

section \<open>Calls and signals\<close>

lemma keeps_procs_push [inv_intros]: "procs_ok s \<Longrightarrow> keeps_procs (proc_push p v s)"
  by (rule keeps_procs_op [OF env_proc_push])

lemma keeps_procs_get_regs [inv_intros]: "procs_ok s \<Longrightarrow> keeps_procs (get_regs p s)"
  by (rule keeps_procs_op [OF env_get_regs])

lemma keeps_procs_upd_regs [inv_intros]: "procs_ok s \<Longrightarrow> keeps_procs (upd_regs p f s)"
  by (rule keeps_procs_op [OF env_upd_regs])

lemma keeps_procs_call [inv_intros]: "procs_ok s \<Longrightarrow> keeps_procs (proc_call p func args s)"
  unfolding proc_call_def by (intro goes_on_intros inv_intros)

lemma keeps_procs_signal_send [inv_intros]: "procs_ok s \<Longrightarrow> keeps_procs (signal_send p sig s)"
  unfolding signal_send_def by (intro goes_on_intros inv_intros)

lemma keeps_procs_signal_send_syscall [inv_intros]: "procs_ok s \<Longrightarrow> keeps_procs (signal_send_syscall pid sig s)"
  unfolding signal_send_syscall_def by (intro goes_on_intros inv_intros)

section \<open>Creation\<close>

text \<open>A process with a new address and a new PID enters the table.\<close>

lemma table_ok_insert:
  assumes tab: "table_ok s" and new: "procs s new = None" "new \<noteq> NULL" "new \<notin> set (mallocs s)"
    and y: "p_addrspace y \<in> dom (addrspaces s)" "p_defunc y = 0" "p_ticks_rem y \<le> 1"
      "unat (p_pid y) < unat (proc_nextpid s)"
      "\<And>p. p \<in> set (proc_all s) \<Longrightarrow> p_pid (the (procs s p)) \<noteq> p_pid y"
    and lists: "p_is_sleeping y = 0 \<and> proc_running t = new # proc_running s \<and> proc_sleeping t = proc_sleeping s \<or>
      p_is_sleeping y \<noteq> 0 \<and> proc_running t = proc_running s \<and> proc_sleeping t = new # proc_sleeping s"
    and eqs: "procs t = (procs s)(new \<mapsto> y)" "proc_all t = new # proc_all s" "addrspaces t = addrspaces s"
      "mallocs t = mallocs s" "proc_nextpid t = proc_nextpid s"
  shows "table_ok t"
proof -
  note ls = table_lists [OF tab]
  have na: "new \<notin> set (proc_all s)"
  proof
    assume "new \<in> set (proc_all s)"
    then obtain x where "procs s new = Some x" using table_proc [OF tab] by blast
    with new(1) show False by simp
  qed
  have nr: "new \<notin> set (proc_running s)" "new \<notin> set (proc_sleeping s)" using na ls(8,9) by blast+
  have "\<exists>z. procs t q = Some z \<and> proc_ok t q z" if q: "q \<in> set (proc_all t)" for q
  proof (cases "q = new")
    case True
    have "proc_ok t new y" using y lists nr unfolding proc_ok_def eqs by auto
    with True eqs(1) show ?thesis by simp
  next
    case False
    with q eqs(2) have "q \<in> set (proc_all s)" by simp
    then obtain z where z: "procs s q = Some z" "proc_ok s q z" using table_proc [OF tab] by blast
    have "proc_ok t q z" using z(2) False lists unfolding proc_ok_def eqs by auto
    with z(1) False eqs(1) show ?thesis by simp
  qed
  moreover have "inj_on (\<lambda>p. p_pid (the (procs t p))) (set (proc_all t))"
  proof -
    have "inj_on (\<lambda>p. p_pid (the (procs s p))) (set (proc_all s))" using tab by (simp add: table_ok_def)
    then have "inj_on (\<lambda>p. p_pid (the (procs t p))) (set (proc_all s))"
      by (rule inj_on_cong [THEN iffD1, rotated]) (use eqs(1) na in auto)
    moreover have "p_pid (the (procs t p)) \<noteq> p_pid y" if "p \<in> set (proc_all s)" for p
      using y(5) [OF that] that na eqs(1) by auto
    moreover have "p_pid (the (procs t new)) = p_pid y" using eqs(1) by simp
    ultimately have "inj_on (\<lambda>p. p_pid (the (procs t p))) (insert new (set (proc_all s)))"
      unfolding inj_on_insert by fastforce
    then show ?thesis by (simp add: eqs(2))
  qed
  moreover have "mallocs_ok t"
    using tab new(3) unfolding table_ok_def mallocs_ok_def eqs by auto
  moreover have "\<forall>q z. procs t q = Some z \<longrightarrow> q \<notin> set (proc_all t) \<longrightarrow> p_is_sleeping z = 0"
    using tab unfolding table_ok_def eqs by auto
  moreover have "distinct (proc_running t @ proc_sleeping t)"
    using lists nr tab unfolding table_ok_def by auto
  moreover have "set (proc_running t) \<union> set (proc_sleeping t) \<subseteq> set (proc_all t)"
    using lists ls(8,9) eqs(2) by auto
  moreover have "procs t NULL = None" "distinct (proc_all t)"
    using tab new(2) na eqs unfolding table_ok_def by auto
  ultimately show ?thesis unfolding table_ok_def by blast
qed

lemma create_addrspace_dom: "memuser_create_addrspace p s = Ret a t \<Longrightarrow> a \<in> dom (addrspaces t)"
  unfolding memuser_create_addrspace_def by (auto simp: bindr_Ret_iff)

text \<open>After \<open>malloc\<close> has given an address and the PID has been taken, the table is as before.\<close>

lemma procs_ok_take:
  assumes "procs_ok s" "mallocs s = new # rest"
  shows "procs_ok (s\<lparr>mallocs := rest, proc_nextpid := proc_nextpid s + 1\<rparr>)"
    "unat (proc_nextpid s + 1) = unat (proc_nextpid s) + 1"
    "new \<noteq> NULL" "procs s new = None" "new \<notin> set rest" "new \<notin> dom (addrspaces s)"
proof -
  have m: "mallocs_ok s" using assms(1) by (simp add: procs_ok_def table_ok_def)
  then have b: "unat (proc_nextpid s) + length (new # rest) < 2 ^ 31" using assms(2)
    by (simp add: mallocs_ok_def)
  then show n: "unat (proc_nextpid s + 1) = unat (proc_nextpid s) + 1" by (simp add: unat_plus_u32)
  show "new \<noteq> NULL" "procs s new = None" "new \<notin> set rest" "new \<notin> dom (addrspaces s)"
    using m assms(2) by (auto simp: mallocs_ok_def)
  let ?t = "s\<lparr>mallocs := rest, proc_nextpid := proc_nextpid s + 1\<rparr>"
  have tab: "table_ok s" using assms(1) by (simp add: procs_ok_def)
  have mt: "mallocs_ok ?t" using m assms(2) n b unfolding mallocs_ok_def by auto
  have "proc_ok ?t p x" if "proc_ok s p x" for p x
    using that n unfolding proc_ok_def by auto
  then have "\<forall>p \<in> set (proc_all s). \<exists>x. procs s p = Some x \<and> proc_ok ?t p x"
    using tab unfolding table_ok_def by blast
  with tab mt have "table_ok ?t" unfolding table_ok_def by simp
  with assms(1) show "procs_ok ?t" by (simp add: procs_ok_def)
qed

lemma keeps_procs_create [inv_intros]:
  assumes "procs_ok s"
  shows "keeps_procs (proc_create name uid gid parent running sys s)"
proof (cases "mallocs s")
  case Nil
  then show ?thesis by (simp add: proc_create_def kmalloc_obj_def goes_on_def)
next
  case (Cons new rest)
  note take = procs_ok_take [OF assms Cons]
  let ?pid = "proc_nextpid s" and ?s1 = "s\<lparr>mallocs := rest, proc_nextpid := proc_nextpid s + 1\<rparr>"
  let ?add = "\<lambda>(addrspace :: u32) (s :: 'a kernel_scheme).
     let s = s\<lparr>procs := (procs s)(new \<mapsto> new_proc (heap_junk s) ?pid name uid gid parent running sys addrspace),
               proc_all := ll_push new (proc_all s)\<rparr>
     in Ret new (if running \<noteq> 0 then s\<lparr>proc_running := ll_push new (proc_running s)\<rparr>
                 else s\<lparr>proc_sleeping := ll_push new (proc_sleeping s)\<rparr>)"
  let ?link = "if parent \<noteq> NULL then updp parent (\<lambda>p. p\<lparr>p_children := ll_push new (p_children p)\<rparr>) ?s1
               else Ret () ?s1"
  have eq: "proc_create name uid gid parent running sys s =
      bindr (bindr ?link (\<lambda>_. memuser_create_addrspace new)) ?add"
    using Cons by (simp add: proc_create_def kmalloc_obj_def Let_def bindr_assoc cong: if_cong)
  have e: "env ?s1 (bindr ?link (\<lambda>_. memuser_create_addrspace new))"
    by (intro env_intros) (simp_all add: pcore_def)
  show ?thesis
  proof (cases "bindr ?link (\<lambda>_. memuser_create_addrspace new)")
    case (Stop st t)
    then show ?thesis using e take(1) unfolding eq
      by (auto simp: env_def goes_on_def intro: procs_ok_env)
  next
    case (Ret a t)
    with e have rel: "env_rel ?s1 t" by (simp add: env_def)
    have ok: "procs_ok t" by (rule procs_ok_env [OF take(1) rel])
    then have tab: "table_ok t" by (simp add: procs_ok_def)
    from rel obtain used where u: "rest = used @ mallocs t" unfolding env_rel_def by auto
    have new: "procs t new = None" "new \<notin> set (mallocs t)"
      using env_rel_None [OF rel, of new] take(4,5) u by auto
    have dom: "a \<in> dom (addrspaces t)" using Ret unfolding bindr_Ret_iff by (blast dest: create_addrspace_dom)
    have pids: "p_pid (the (procs t p)) \<noteq> ?pid" if p: "p \<in> set (proc_all t)" for p
    proof -
      have "p \<in> set (proc_all s)" using rel p by (simp add: env_rel_def)
      with assms obtain x where x: "procs s p = Some x" "proc_ok s p x"
        using table_proc unfolding procs_ok_def by blast
      from env_rel_pcore [OF rel, of p x] x(1) obtain y where "procs t p = Some y" "p_pid y = p_pid x"
        by (auto simp: pcore_def)
      with x(2) show ?thesis by (auto simp: proc_ok_def)
    qed
    let ?y = "new_proc (heap_junk t) ?pid name uid gid parent running sys a"
    let ?t1 = "t\<lparr>procs := (procs t)(new \<mapsto> ?y), proc_all := new # proc_all t\<rparr>"
    let ?t2 = "if running \<noteq> 0 then ?t1\<lparr>proc_running := new # proc_running t\<rparr>
               else ?t1\<lparr>proc_sleeping := new # proc_sleeping t\<rparr>"
    have np: "proc_nextpid t = ?pid + 1" using rel by (simp add: env_rel_def)
    have "table_ok ?t2"
      by (rule table_ok_insert [OF tab new(1) take(3) new(2), where y = ?y])
         (use dom pids np take(2) in \<open>auto simp: new_proc_def NICE2TICKS_def\<close>)
    moreover have "proc_current t \<noteq> new" if "proc_current t \<noteq> NULL"
    proof -
      from ok that have "proc_current t \<in> set (proc_running t)" by (simp add: procs_ok_def)
      from table_running [OF tab this] obtain x where "procs t (proc_current t) = Some x" .
      with new(1) show ?thesis by auto
    qed
    ultimately have "procs_ok ?t2" using ok by (auto simp: procs_ok_def)
    then show ?thesis using Ret unfolding eq
      by (cases "running = NULL") (simp_all add: goes_on_def Let_def ll_push_def)
  qed
qed

lemma keeps_procs_create_syscall [inv_intros]:
  "procs_ok s \<Longrightarrow> keeps_procs (proc_create_syscall name uid gid pid s)"
  unfolding proc_create_syscall_def
  by (intro goes_on_intros inv_intros keeps_procs_op [OF mkeeps_load_cstr [THEN env_mem]])

text \<open>A process for virtual 8086 mode enters no list.\<close>

lemma keeps_procs_vm86_create [inv_intros]:
  assumes "procs_ok s"
  shows "keeps_procs (vm86_proc_create name uid gid parent s)"
proof (cases "mallocs s")
  case Nil
  then show ?thesis by (simp add: vm86_proc_create_def kmalloc_obj_def goes_on_def)
next
  case (Cons new rest)
  note take = procs_ok_take [OF assms Cons]
  let ?s1 = "s\<lparr>mallocs := rest, proc_nextpid := proc_nextpid s + 1\<rparr>"
  let ?link = "if parent \<noteq> NULL then updp parent (\<lambda>p. p\<lparr>p_children := ll_push new (p_children p)\<rparr>) ?s1
               else Ret () ?s1"
  have e: "env ?s1 ?link" by (intro env_intros) (simp_all add: pcore_def)
  have add: "procs_ok (t\<lparr>procs := (procs t)(new \<mapsto> y)\<rparr>)" if rel: "env_rel ?s1 t" and y: "p_is_sleeping y = 0" for t y
  proof -
    have ok: "procs_ok t" by (rule procs_ok_env [OF take(1) rel])
    then have tab: "table_ok t" by (simp add: procs_ok_def)
    from rel obtain used where u: "rest = used @ mallocs t" unfolding env_rel_def by auto
    have n: "procs t new = None" "new \<notin> set (mallocs t)"
      using env_rel_None [OF rel, of new] take(4,5) u by auto
    have na: "new \<notin> set (proc_all t)"
    proof
      assume "new \<in> set (proc_all t)"
      from table_proc [OF tab this] n(1) show False by auto
    qed
    let ?t = "t\<lparr>procs := (procs t)(new \<mapsto> y)\<rparr>"
    have "\<forall>p \<in> set (proc_all t). \<exists>x. procs ?t p = Some x \<and> proc_ok ?t p x"
    proof
      fix p assume p: "p \<in> set (proc_all t)"
      from table_proc [OF tab p] obtain x where "procs t p = Some x" "proc_ok t p x" .
      with p na show "\<exists>x. procs ?t p = Some x \<and> proc_ok ?t p x" by (auto simp: proc_ok_def)
    qed
    moreover have "inj_on (\<lambda>p. p_pid (the (procs ?t p))) (set (proc_all t))"
      by (rule inj_on_cong [THEN iffD1, of _ "\<lambda>p. p_pid (the (procs t p))"])
         (use na tab in \<open>auto simp: table_ok_def\<close>)
    moreover have "mallocs_ok ?t" using tab n(2) unfolding table_ok_def mallocs_ok_def by auto
    ultimately have "table_ok ?t" using tab y take(3) unfolding table_ok_def by auto
    moreover have "proc_current t \<noteq> NULL \<Longrightarrow> proc_current t \<noteq> new"
      using ok na table_lists(8) [OF tab] unfolding procs_ok_def by blast
    ultimately show ?thesis using ok by (auto simp: procs_ok_def)
  qed
  have eq: "vm86_proc_create name uid gid parent s = bindr ?link (\<lambda>_ t.
      Ret new (t\<lparr>procs := (procs t)(new \<mapsto> new_vm86_proc (heap_junk t) (proc_nextpid s) name uid gid parent)\<rparr>))"
    using Cons by (simp add: vm86_proc_create_def kmalloc_obj_def Let_def cong: if_cong)
  show ?thesis
  proof (cases ?link)
    case (Ret a t)
    with e have "env_rel ?s1 t" by (simp add: env_def)
    from add [OF this] show ?thesis unfolding eq Ret by (simp add: goes_on_def new_vm86_proc_def)
  next
    case (Stop st t)
    with e have "env_rel ?s1 t" by (simp add: env_def)
    from procs_ok_env [OF take(1) this] show ?thesis unfolding eq Stop by (simp add: goes_on_def)
  qed
qed

section \<open>Destruction\<close>

lemma table_ok_delete:
  assumes tab: "table_ok s"
    and eqs: "procs t = (procs s)(p := None)" "proc_all t = remove1 p (proc_all s)"
      "proc_running t = remove1 p (proc_running s)" "proc_sleeping t = remove1 p (proc_sleeping s)"
      "addrspaces t = addrspaces s" "mallocs t = mallocs s" "proc_nextpid t = proc_nextpid s"
  shows "table_ok t"
proof -
  note ls = table_lists [OF tab]
  have "\<exists>z. procs t q = Some z \<and> proc_ok t q z" if q: "q \<in> set (proc_all t)" for q
  proof -
    have q': "q \<in> set (proc_all s)" "q \<noteq> p" using q eqs(2) ls(1) by auto
    then obtain z where z: "procs s q = Some z" "proc_ok s q z" using table_proc [OF tab] by blast
    have "proc_ok t q z" using z(2) q'(2) ls unfolding proc_ok_def eqs by auto
    with z(1) q'(2) eqs(1) show ?thesis by simp
  qed
  moreover have "inj_on (\<lambda>q. p_pid (the (procs t q))) (set (proc_all t))"
  proof -
    have "inj_on (\<lambda>q. p_pid (the (procs s q))) (set (proc_all t))"
      using tab eqs(2) unfolding table_ok_def by (auto intro: inj_on_subset dest: notin_set_remove1)
    moreover have "procs t q = procs s q" if "q \<in> set (proc_all t)" for q
      using that eqs(1,2) ls(1) by auto
    ultimately show ?thesis by (simp cong: inj_on_cong)
  qed
  moreover have "mallocs_ok t" using tab unfolding table_ok_def mallocs_ok_def eqs by auto
  moreover have "\<forall>q z. procs t q = Some z \<longrightarrow> q \<notin> set (proc_all t) \<longrightarrow> p_is_sleeping z = 0"
    using tab ls(1) unfolding table_ok_def eqs by auto
  moreover have "distinct (proc_running t @ proc_sleeping t)"
    using ls unfolding eqs by auto
  moreover have "set (proc_running t) \<union> set (proc_sleeping t) \<subseteq> set (proc_all t)"
    using ls unfolding eqs by auto
  moreover have "procs t NULL = None" "distinct (proc_all t)"
    using tab ls(1) unfolding table_ok_def eqs by auto
  ultimately show ?thesis unfolding table_ok_def by blast
qed

text \<open>The last lines of \<open>proc_destroy\<close>: out of the lists, and freed.\<close>

definition unlist :: "u32 \<Rightarrow> 'a kernel_scheme \<Rightarrow> 'a kernel_scheme" where
  "unlist proc s =
     (let s = s\<lparr>proc_all := snd (ll_remove_value (proc_all s) proc)\<rparr>;
          (r, run) = ll_remove_value (proc_running s) proc;
          s = s\<lparr>proc_running := run\<rparr>;
          s = (if r \<noteq> proc then s\<lparr>proc_sleeping := snd (ll_remove_value (proc_sleeping s) proc)\<rparr> else s)
      in s\<lparr>procs := (procs s)(proc := None)\<rparr>)"

lemma unlist_eq:
  assumes "table_ok s" "p \<noteq> NULL"
  shows "unlist p s = s\<lparr>proc_all := remove1 p (proc_all s), proc_running := remove1 p (proc_running s),
    proc_sleeping := remove1 p (proc_sleeping s), procs := (procs s)(p := None)\<rparr>"
proof (cases "p \<in> set (proc_running s)")
  case True
  then have "p \<notin> set (proc_sleeping s)" using table_lists(7) [OF assms(1)] by blast
  with True table_lists [OF assms(1)] show ?thesis
    by (simp add: unlist_def remove_value_distinct remove1_idem Let_def)
next
  case False
  with table_lists [OF assms(1)] assms(2) show ?thesis
    by (simp add: unlist_def remove_value_distinct remove1_idem Let_def)
qed

lemma procs_ok_unlist:
  assumes "procs_ok s" "p \<noteq> NULL" "p \<noteq> proc_current s"
  shows "procs_ok (unlist p s)"
proof -
  have tab: "table_ok s" using assms(1) by (simp add: procs_ok_def)
  have "table_ok (unlist p s)"
    by (rule table_ok_delete [OF tab, of _ p]) (simp_all add: unlist_eq [OF tab assms(2)])
  with assms show ?thesis by (simp add: procs_ok_def unlist_eq [OF tab assms(2)])
qed

lemma keeps_procs_destroy:
  assumes "procs_ok s" "p \<noteq> proc_current s"
  shows "keeps_procs (proc_destroy p s)"
proof (cases "p = NULL")
  case True
  with assms(1) show ?thesis
    by (simp add: proc_destroy_def getp_def procs_ok_def table_ok_def goes_on_def)
next
  case False
  let ?pre = "bindr (getp p s) (\<lambda>x s.
     bindr (drain (\<lambda>cs. updp p (\<lambda>p. p\<lparr>p_children := cs\<rparr>))
              (\<lambda>child s. bindr (getp p s) (\<lambda>p. updp child (\<lambda>c. c\<lparr>p_parent := p_parent p\<rparr>)))
              (p_children x) s) (\<lambda>_ s.
     bindr (getp p s) (\<lambda>x s.
     bindr (if p_parent x \<noteq> NULL
            then updp (p_parent x) (\<lambda>q. q\<lparr>p_children := snd (ll_remove_value (p_children q) p)\<rparr>) s
            else Ret () s) (\<lambda>_ s.
     if p_addrspace x \<noteq> NULL then memuser_destroy_addrspace (p_addrspace x) s else Ret 0 s))))"
  have eq: "proc_destroy p s = bindr ?pre (\<lambda>_ s. Ret 0 (unlist p s))"
    by (simp add: proc_destroy_def unlist_def bindr_assoc Let_def split_def)
  have e: "env s ?pre" by (intro env_intros) (simp_all add: pcore_def)
  show ?thesis
  proof (cases ?pre)
    case (Ret a t)
    with e have rel: "env_rel s t" by (simp add: env_def)
    have "procs_ok (unlist p t)"
      by (rule procs_ok_unlist [OF procs_ok_env [OF assms(1) rel] False])
         (use assms(2) rel in \<open>simp add: env_rel_def\<close>)
    with Ret show ?thesis unfolding eq by (simp add: goes_on_def)
  next
    case (Stop st t)
    with e procs_ok_env [OF assms(1)] show ?thesis unfolding eq by (auto simp: env_def goes_on_def)
  qed
qed

lemma keeps_procs_for_system:
  "procs_ok s \<Longrightarrow> (\<And>p t. procs_ok t \<Longrightarrow> keeps_procs (f p t)) \<Longrightarrow> keeps_procs (for_system pid fail f s)"
  unfolding for_system_def by (intro goes_on_intros inv_intros) simp_all

lemma keeps_procs_destroy_syscall [inv_intros]: "procs_ok s \<Longrightarrow> keeps_procs (proc_destroy_syscall pid s)"
  unfolding proc_destroy_syscall_def
  by (intro keeps_procs_for_system goes_on_intros keeps_procs_destroy) simp_all

end
