(* ===== verification/ProcProps.thy ===== *)
theory ProcProps
  imports ProcOps
begin

text \<open>
  Properties of the process manager: fairness of the scheduler, the exit and wait protocol, lookup of
  new processes, and two faults of the code.
\<close>

section \<open>Fairness\<close>

text \<open>The state of the abstract scheduler between two ticks of the timer.\<close>

definition rr_ok :: "u32 list \<Rightarrow> u32 \<times> (u32 \<Rightarrow> u32) \<Rightarrow> bool" where
  "rr_ok run st \<longleftrightarrow> distinct run \<and> NULL \<notin> set run \<and> fst st \<in> set run \<and> snd st (fst st) = 1 \<and>
     (\<forall>p \<in> set run. snd st p \<le> 1)"

definition with_ticks :: "u32 list \<Rightarrow> (u32 \<Rightarrow> u32) \<Rightarrow> u32 list" where
  "with_ticks run tk = filter (\<lambda>p. tk p > 0) run"

definition rr_step :: "u32 list \<Rightarrow> u32 \<times> (u32 \<Rightarrow> u32) \<Rightarrow> u32 \<times> (u32 \<Rightarrow> u32)" where
  "rr_step run st = sched_next run (fst st) (snd st)"

lemma u32_one: "0 < (x :: u32) \<Longrightarrow> x \<le> 1 \<Longrightarrow> x = 1"
  by (simp add: word_le_nat_alt word_less_nat_alt word_unat_eq_iff)

lemma with_ticks_minus:
  assumes "rr_ok run (c, tk)"
  shows "with_ticks run (tk(c := tk c - 1)) = remove1 c (with_ticks run tk)"
    "length (with_ticks run (tk(c := tk c - 1))) = length (with_ticks run tk) - 1"
    "length (with_ticks run tk) > 0"
proof -
  have c: "c \<in> set run" "tk c = 1" "distinct run" using assms by (simp_all add: rr_ok_def)
  have "filter (\<lambda>p. (tk(c := tk c - 1)) p > 0) run = filter (\<lambda>p. p \<noteq> c) (filter (\<lambda>p. tk p > 0) run)"
    using c(2) by (simp add: conj_commute) (rule filter_cong, auto)
  also have "\<dots> = remove1 c (filter (\<lambda>p. tk p > 0) run)"
    using c(3) by (simp add: distinct_remove1_removeAll removeAll_filter_not_eq eq_commute)
  finally show eq: "with_ticks run (tk(c := tk c - 1)) = remove1 c (with_ticks run tk)"
    by (simp add: with_ticks_def)
  have "c \<in> set (with_ticks run tk)" using c by (simp add: with_ticks_def)
  then show "length (with_ticks run (tk(c := tk c - 1))) = length (with_ticks run tk) - 1"
    "length (with_ticks run tk) > 0"
    unfolding eq by (auto simp: length_remove1)
qed

lemma rr_step_eq:
  assumes "rr_ok run (c, tk)"
  shows "rr_step run (c, tk) =
    (if length (with_ticks run tk) = 1 then (hd run, \<lambda>p. if p \<in> set run then 1 else (tk(c := tk c - 1)) p)
     else (last (with_ticks run (tk(c := tk c - 1))), tk(c := tk c - 1)))"
proof -
  have "c \<noteq> NULL" using assms by (auto simp: rr_ok_def)
  moreover have "length (with_ticks run (tk(c := tk c - 1))) = 0 \<longleftrightarrow> length (with_ticks run tk) = 1"
    using with_ticks_minus(2,3) [OF assms] by linarith
  ultimately show ?thesis
    unfolding length_0_conv by (simp add: rr_step_def sched_next_def Let_def with_ticks_def)
qed

lemma rr_step_ok:
  assumes "rr_ok run st"
  shows "rr_ok run (rr_step run st)"
    "length (with_ticks run (snd st)) = 1 \<Longrightarrow> p \<in> set run \<Longrightarrow> snd (rr_step run st) p = 1"
    "length (with_ticks run (snd st)) \<noteq> 1 \<Longrightarrow>
       length (with_ticks run (snd (rr_step run st))) = length (with_ticks run (snd st)) - 1"
    "length (with_ticks run (snd st)) \<noteq> 1 \<Longrightarrow> p \<noteq> fst st \<Longrightarrow> snd (rr_step run st) p = snd st p"
proof -
  obtain c tk where st: "st = (c, tk)" by (cases st)
  note ok = assms [unfolded st]
  note eq = rr_step_eq [OF ok]
  have r: "distinct run" "NULL \<notin> set run" "c \<in> set run" "tk c = 1" "\<forall>p \<in> set run. tk p \<le> 1"
    using ok by (simp_all add: rr_ok_def)
  show "length (with_ticks run (snd st)) = 1 \<Longrightarrow> p \<in> set run \<Longrightarrow> snd (rr_step run st) p = 1"
    using eq st by simp
  show "length (with_ticks run (snd st)) \<noteq> 1 \<Longrightarrow>
      length (with_ticks run (snd (rr_step run st))) = length (with_ticks run (snd st)) - 1"
    using eq st with_ticks_minus(2) [OF ok] by simp
  show "length (with_ticks run (snd st)) \<noteq> 1 \<Longrightarrow> p \<noteq> fst st \<Longrightarrow> snd (rr_step run st) p = snd st p"
    using eq st by simp
  show "rr_ok run (rr_step run st)"
  proof (cases "length (with_ticks run tk) = 1")
    case True
    have "hd run \<in> set run" using r(3) by (cases run) auto
    with True eq r st show ?thesis by (simp add: rr_ok_def)
  next
    case False
    let ?l = "last (with_ticks run (tk(c := tk c - 1)))"
    have "length (with_ticks run (tk(c := tk c - 1))) \<noteq> 0"
      using with_ticks_minus(2,3) [OF ok] False by linarith
    then have "with_ticks run (tk(c := tk c - 1)) \<noteq> []" by simp
    then have "?l \<in> set (with_ticks run (tk(c := tk c - 1)))" by (rule last_in_set)
    then have l: "?l \<in> set run" "(tk(c := tk c - 1)) ?l > 0" by (auto simp: with_ticks_def)
    have le: "\<forall>p \<in> set run. (tk(c := tk c - 1)) p \<le> 1" using r by simp
    then have "(tk(c := tk c - 1)) ?l = 1" using l by (intro u32_one) blast+
    with False eq r st l le show ?thesis by (simp add: rr_ok_def)
  qed
qed

text \<open>A process with a tick left runs within as many steps as there are processes with ticks.\<close>

lemma rr_reaches_ready:
  assumes "rr_ok run st" "p \<in> set run" "snd st p = 1"
  shows "\<exists>i < length (with_ticks run (snd st)). fst ((rr_step run ^^ i) st) = p"
  using assms
proof (induction "length (with_ticks run (snd st))" arbitrary: st rule: less_induct)
  case less
  obtain c tk where st: "st = (c, tk)" by (cases st)
  have pos: "length (with_ticks run (snd st)) > 0"
    using with_ticks_minus(3) less.prems(1) unfolding st by simp
  show ?case
  proof (cases "fst st = p")
    case True
    with pos show ?thesis by (intro exI [of _ 0]) simp
  next
    case False
    have two: "length (with_ticks run (snd st)) \<noteq> 1"
    proof
      assume one: "length (with_ticks run (snd st)) = 1"
      then obtain q where q: "with_ticks run (snd st) = [q]" by (auto simp: length_Suc_conv)
      have "fst st \<in> set (with_ticks run (snd st))" "p \<in> set (with_ticks run (snd st))"
        using less.prems by (auto simp: with_ticks_def rr_ok_def)
      with q False show False by simp
    qed
    let ?n = "rr_step run st"
    have len: "length (with_ticks run (snd ?n)) = length (with_ticks run (snd st)) - 1"
      by (rule rr_step_ok(3) [OF less.prems(1) two])
    have "snd ?n p = 1" using rr_step_ok(4) [OF less.prems(1) two] False less.prems(3) by simp
    with less.hyps [of ?n] len pos rr_step_ok(1) [OF less.prems(1)] less.prems(2)
    obtain i where "i < length (with_ticks run (snd ?n))" "fst ((rr_step run ^^ i) ?n) = p" by auto
    then show ?thesis using len by (intro exI [of _ "Suc i"]) (simp add: funpow_swap1)
  qed
qed

lemma rr_refills:
  assumes "rr_ok run st"
  shows "\<exists>i \<le> length (with_ticks run (snd st)). rr_ok run ((rr_step run ^^ i) st) \<and>
    (\<forall>p \<in> set run. snd ((rr_step run ^^ i) st) p = 1)"
  using assms
proof (induction "length (with_ticks run (snd st))" arbitrary: st rule: less_induct)
  case less
  let ?n = "rr_step run st"
  obtain c tk where st: "st = (c, tk)" by (cases st)
  have pos: "length (with_ticks run (snd st)) > 0"
    using with_ticks_minus(3) less.prems(1) unfolding st by simp
  show ?case
  proof (cases "length (with_ticks run (snd st)) = 1")
    case True
    then show ?thesis
      using rr_step_ok(1,2) [OF less.prems] by (intro exI [of _ 1]) simp
  next
    case False
    have len: "length (with_ticks run (snd ?n)) = length (with_ticks run (snd st)) - 1"
      by (rule rr_step_ok(3) [OF less.prems False])
    from less.hyps [of ?n] len pos rr_step_ok(1) [OF less.prems] obtain i where
      i: "i \<le> length (with_ticks run (snd ?n))" "rr_ok run ((rr_step run ^^ i) ?n)"
      "\<forall>p \<in> set run. snd ((rr_step run ^^ i) ?n) p = 1" by auto
    have "Suc i \<le> length (with_ticks run (snd st))" using i(1) len pos by linarith
    then show ?thesis using i(2,3) by (intro exI [of _ "Suc i"]) (simp add: funpow_swap1)
  qed
qed

lemma rr_fair:
  assumes "rr_ok run st" "p \<in> set run"
  shows "\<exists>i < 2 * length run. fst ((rr_step run ^^ i) st) = p"
proof -
  have le: "length (with_ticks run tk) \<le> length run" for tk by (simp add: with_ticks_def)
  from rr_refills [OF assms(1)] obtain i where i: "i \<le> length (with_ticks run (snd st))"
    "rr_ok run ((rr_step run ^^ i) st)" "\<forall>p \<in> set run. snd ((rr_step run ^^ i) st) p = 1" by blast
  from rr_reaches_ready [OF i(2) assms(2)] i(3) assms(2) obtain j where
    j: "j < length (with_ticks run (snd ((rr_step run ^^ i) st)))"
    "fst ((rr_step run ^^ j) ((rr_step run ^^ i) st)) = p" by blast
  have "fst ((rr_step run ^^ (j + i)) st) = p" using j(2) by (simp add: funpow_add)
  moreover have "j + i < 2 * length run"
    using i(1) j(1) le [of "snd st"] le [of "snd ((rr_step run ^^ i) st)"] by linarith
  ultimately show ?thesis by blast
qed

lemma shedule_follows_rr:
  assumes "procs_ok s" "proc_running s \<noteq> []"
  shows "\<exists>xs t. repeat_op i proc_shedule s = Ret xs t \<and> procs_ok t \<and> proc_running t = proc_running s \<and>
    (proc_current t, ticks t) = (rr_step (proc_running s) ^^ i) (proc_current s, ticks s)"
  using assms
proof (induction i arbitrary: s)
  case (Suc i)
  from proc_shedule_runs [OF procs_ok_sched_pre [OF Suc.prems(1)] Suc.prems(2)] obtain t where
    t: "proc_shedule s = Ret () t" "procs_ok t" "proc_running t = proc_running s"
    "(proc_current t, ticks t) = sched_next (proc_running s) (proc_current s) (ticks s)" .
  from Suc.IH [OF t(2)] Suc.prems(2) t(3) obtain xs u where u: "repeat_op i proc_shedule t = Ret xs u"
    "procs_ok u" "proc_running u = proc_running s"
    "(proc_current u, ticks u) = (rr_step (proc_running s) ^^ i) (proc_current t, ticks t)" by auto
  have "(rr_step (proc_running s) ^^ Suc i) (proc_current s, ticks s) = (proc_current u, ticks u)"
    unfolding u(4) t(4) by (simp add: funpow_swap1 rr_step_def)
  with t u show ?case by (intro exI [of _ "() # xs"] exI [of _ u]) simp
qed auto

lemma procs_ok_rr:
  assumes "procs_ok s" "proc_current s \<noteq> NULL"
  shows "rr_ok (proc_running s) (proc_current s, ticks s)"
proof -
  have tab: "table_ok s" using assms(1) by (simp add: procs_ok_def)
  have "ticks s p \<le> 1" if "p \<in> set (proc_running s)" for p
  proof -
    from table_running [OF tab that] obtain x where "procs s p = Some x" "p \<in> set (proc_all s)" .
    with table_ticks [OF tab] show ?thesis by (auto simp: ticks_def)
  qed
  with table_lists [OF tab] assms show ?thesis by (simp add: rr_ok_def procs_ok_def ticks_def)
qed

section \<open>A small system\<close>

text \<open>Three processes: the first, a system process, runs; the second can run; the third sleeps.\<close>

definition zero_regs :: proc_registers where
  "zero_regs = \<lparr>r_eax = 0, r_ebx = 0, r_ecx = 0, r_edx = 0, r_esi = 0, r_edi = 0, r_ebp = 0, r_esp = 0,
     r_eip = 0, r_efl = 0, r_cs = 0, r_ds = 0, r_es = 0, r_fs = 0, r_gs = 0, r_ss = 0\<rparr>"

definition zero_segregs :: vm86_segmentregs where
  "zero_segregs = \<lparr>v_es = 0, v_ds = 0, v_fs = 0, v_gs = 0\<rparr>"

definition zero_proc :: proc_S where
  "zero_proc = \<lparr>p_pid = 0, p_uid = 0, p_euid = 0, p_suid = 0, p_gid = 0, p_egid = 0, p_sgid = 0, p_system = 0,
     p_name = [], p_parent = NULL, p_children = [], p_registers = zero_regs, p_addrspace = NULL,
     p_time_handler = [], p_nice = 0, p_ticks_rem = 0, p_is_sleeping = 0, p_var = 0, p_defunc = 0, p_ret = 0,
     p_signal = NULL, p_is_vm86 = 0, p_vm86_pagedir = NULL, p_wait = 0, p_wait_pid = 0, p_wait_stat = NULL,
     p_vm86_segregs = zero_segregs\<rparr>"

definition zero_kernel :: kernel where
  "zero_kernel = \<lparr>phys = (\<lambda>_. 0), cr3 = 0, paging_enabled = False, paging_curpd = 0, paging_kernelpd = 0,
     paging_physrw_lastpage = 0, paging_physrw_lastpd = 0, memphys_memory = 0, memphys_stackbase = 0,
     memphys_stackend = 0, memphys_stackptr = 0, memphys_dma_bitmap = (\<lambda>_. 0), memphys_dma_bitmap_size = 0,
     multiboot_info = 0, mallocs = [], heap_junk = zero_proc, addrspaces = Map.empty, procs = Map.empty,
     proc_all = [], proc_running = [], proc_sleeping = [], proc_nextpid = 1, proc_current = NULL,
     curregs = zero_regs, vm86_curregs = zero_segregs, interrupt_enabled = 0, memuser_inited = 0,
     memuser_debug = 0, swap_queue = [], swap_proc = NULL, swap_buf = NULL, syscalls = []\<rparr>"

definition demo_addrspace :: "u32 \<Rightarrow> u32 \<Rightarrow> addrspace_S" where
  "demo_addrspace proc pagedir = \<lparr>as_proc = proc, as_pages_loaded = [], as_pages_imaginary = [],
     as_pages_swapped = [], as_pagedir = pagedir, as_stack = NULL\<rparr>"

definition demo_kernel :: kernel where
  "demo_kernel = zero_kernel\<lparr>mallocs := [0x7000, 0x7100],
     addrspaces := [0x4000 \<mapsto> demo_addrspace 0x1000 0x10000, 0x5000 \<mapsto> demo_addrspace 0x2000 0x20000,
                    0x6000 \<mapsto> demo_addrspace 0x3000 0x30000],
     procs := [0x1000 \<mapsto> zero_proc\<lparr>p_pid := 1, p_system := 1, p_addrspace := 0x4000, p_ticks_rem := 1,
                                    p_children := [0x2000]\<rparr>,
               0x2000 \<mapsto> zero_proc\<lparr>p_pid := 2, p_parent := 0x1000, p_addrspace := 0x5000, p_children := [0x3000],
                                    p_registers := zero_regs\<lparr>r_eax := 7\<rparr>\<rparr>,
               0x3000 \<mapsto> zero_proc\<lparr>p_pid := 3, p_parent := 0x2000, p_addrspace := 0x6000, p_is_sleeping := 1\<rparr>],
     proc_all := [0x3000, 0x2000, 0x1000], proc_running := [0x2000, 0x1000], proc_sleeping := [0x3000],
     proc_nextpid := 4, proc_current := 0x1000\<rparr>"

lemmas demo_defs = demo_kernel_def demo_addrspace_def zero_kernel_def zero_proc_def zero_regs_def zero_segregs_def

lemma demo_kernel_ok: "procs_ok demo_kernel"
  by (simp add: procs_ok_def table_ok_def proc_ok_def mallocs_ok_def demo_defs)

section \<open>Properties\<close>

text \<open>
  C8. The scheduler is fair: while the list of running processes stays the same, every process of
  the list is the current one after fewer than \<open>2 n\<close> runs of the scheduler, where \<open>n\<close> is the
  length of the list. The scheduler returns each time.
\<close>

theorem proc_shedule_fair:
  assumes "procs_ok s" "proc_current s \<noteq> NULL" "p \<in> set (proc_running s)"
  shows "\<exists>i < 2 * length (proc_running s). \<exists>xs t. repeat_op i proc_shedule s = Ret xs t \<and> proc_current t = p"
proof -
  from rr_fair [OF procs_ok_rr [OF assms(1,2)] assms(3)] obtain i where i: "i < 2 * length (proc_running s)"
    "fst ((rr_step (proc_running s) ^^ i) (proc_current s, ticks s)) = p" by blast
  have "proc_running s \<noteq> []" using assms(3) by auto
  from shedule_follows_rr [OF assms(1) this, of i] obtain xs t where
    t: "repeat_op i proc_shedule s = Ret xs t"
    "(proc_current t, ticks t) = (rr_step (proc_running s) ^^ i) (proc_current s, ticks s)" by blast
  have "proc_current t = p" using i(2) by (simp flip: t(2))
  with i(1) t(1) show ?thesis by blast
qed

theorem proc_shedule_fair_witness:
  "\<exists>i < 4. \<exists>xs t. repeat_op i proc_shedule demo_kernel = Ret xs t \<and> proc_current t = 0x2000"
  using proc_shedule_fair [OF demo_kernel_ok, of "0x2000"] by (simp add: demo_defs)

text \<open>
  C39. A tick of the timer while the processor idles, with no process to run and at least one
  asleep, makes the scheduler save registers through the \<open>NULL\<close> pointer \<open>proc_current\<close>.
\<close>

theorem idle_tick_saves_to_null:
  assumes "procs_ok s" "proc_current s = NULL" "proc_running s = []" "proc_sleeping s \<noteq> []"
  shows "proc_shedule s = Stop Dangling s"
  using assms by (simp add: proc_shedule_def proc_regs_save_def updp_def getp_def procs_ok_def table_ok_def)

theorem idle_tick_saves_to_null_witness:
  "\<exists>s :: kernel. procs_ok s \<and> proc_sleeping s = [0x3000, 0x2000, 0x1000] \<and> proc_shedule s = Stop Dangling s"
proof -
  let ?s = "demo_kernel\<lparr>procs := (\<lambda>p. map_option (\<lambda>x. x\<lparr>p_is_sleeping := 1\<rparr>) (procs demo_kernel p)),
    proc_running := [], proc_sleeping := [0x3000, 0x2000, 0x1000], proc_current := NULL\<rparr>"
  have "procs_ok ?s"
    by (simp add: procs_ok_def table_ok_def proc_ok_def mallocs_ok_def demo_defs)
  from idle_tick_saves_to_null [OF this] have "proc_shedule ?s = Stop Dangling ?s" by simp
  with \<open>procs_ok ?s\<close> show ?thesis by (intro exI [of _ ?s]) simp
qed

section \<open>Lookup\<close>

lemma find_pid_found:
  assumes "\<And>q. q \<in> set ps \<Longrightarrow> procs s q \<noteq> None" "inj_on (\<lambda>q. p_pid (the (procs s q))) (set ps)" "p \<in> set ps"
  shows "find_pid (p_pid (the (procs s p))) ps s = Ret p s"
  using assms
proof (induction ps)
  case (Cons q ps)
  then obtain x where x: "procs s q = Some x" by fastforce
  show ?case
  proof (cases "p = q")
    case False
    with Cons.prems(2,3) have "p_pid x \<noteq> p_pid (the (procs s p))" "p \<in> set ps"
      using x by (auto simp: inj_on_def)
    with Cons x show ?thesis by (simp add: getp_def)
  qed (simp add: x getp_def)
qed simp

text \<open>
  C21. PIDs identify processes: looking up the PID of any process in the table returns that process
  and changes nothing, also for the running process and for one that has exited.
\<close>

theorem proc_find_returns_the_process:
  assumes "procs_ok s" "proc_current s \<noteq> NULL" "p \<in> set (proc_all s)"
  shows "proc_find (p_pid (the (procs s p))) s = Ret p s"
proof -
  have tab: "table_ok s" and r: "proc_current s \<in> set (proc_running s)"
    using assms by (simp_all add: procs_ok_def)
  then have c: "proc_current s \<in> set (proc_all s)" using table_lists(8) by blast
  then obtain x where x: "procs s (proc_current s) = Some x" using table_proc [OF tab] by blast
  have inj: "inj_on (\<lambda>q. p_pid (the (procs s q))) (set (proc_all s))" using tab by (simp add: table_ok_def)
  have "procs s q \<noteq> None" if "q \<in> set (proc_all s)" for q using table_proc [OF tab that] by auto
  from find_pid_found [OF this inj assms(3)]
  have "find_pid (p_pid (the (procs s p))) (ll_elems (proc_all s)) s = Ret p s"
    by (simp add: ll_elems_id table_lists [OF tab])
  moreover have "p_pid x = p_pid (the (procs s p)) \<Longrightarrow> proc_current s = p"
    using inj_onD [OF inj, of "proc_current s" p] c assms(3) x by simp
  ultimately show ?thesis using x by (simp add: proc_find_def getp_def)
qed

theorem proc_find_returns_the_process_witness:
  "proc_find 3 demo_kernel = Ret 0x3000 demo_kernel"
  using proc_find_returns_the_process [OF demo_kernel_ok, of "0x3000"] by (simp add: demo_defs)

section \<open>Orphans\<close>

lemma unlist_fields [simp]:
  "procs (unlist p s) = (procs s)(p := None)" "addrspaces (unlist p s) = addrspaces s"
  "paging_curpd (unlist p s) = paging_curpd s"
  by (simp_all add: unlist_def split_def Let_def)

lemma destroy_not_loaded:
  assumes "addrspaces s a = Some x" "as_pagedir x \<noteq> paging_curpd s"
  shows "memuser_destroy_addrspace a s = Ret (-1) s"
  using assms by (simp add: memuser_destroy_addrspace_def geta_def)

lemma proc_destroy_middle:
  assumes "procs s p = Some y" "p_children y = [c]" "p_parent y = g" "procs s c = Some x" "procs s g = Some z"
    and "distinct [c, p, g, NULL]" "p_addrspace y \<noteq> NULL"
    and "addrspaces s (p_addrspace y) = Some a" "as_pagedir a \<noteq> paging_curpd s"
  shows "proc_destroy p s = Ret 0 (unlist p (s\<lparr>procs := (procs s)(p \<mapsto> y\<lparr>p_children := []\<rparr>,
     c \<mapsto> x\<lparr>p_parent := g\<rparr>, g \<mapsto> z\<lparr>p_children := snd (ll_remove_value (p_children z) p)\<rparr>)\<rparr>))"
proof -
  have ne: "c \<noteq> p" "p \<noteq> c" "c \<noteq> g" "g \<noteq> c" "p \<noteq> g" "g \<noteq> p" "c \<noteq> NULL" "g \<noteq> NULL" using assms(6) by auto
  show ?thesis using assms(1-5,7-9)
    by (simp add: ne proc_destroy_def getp_def updp_def deref_def destroy_not_loaded unlist_def
        split_def Let_def cong: if_cong)
qed

lemma proc_destroy_root:
  assumes "procs s g = Some z" "p_children z = []" "p_parent z = NULL" "p_addrspace z \<noteq> NULL"
    "addrspaces s (p_addrspace z) = Some a" "as_pagedir a \<noteq> paging_curpd s"
  shows "proc_destroy g s = Ret 0 (unlist g s)"
  using assms by (simp add: proc_destroy_def getp_def destroy_not_loaded unlist_def split_def Let_def)

lemma exit_of_orphan:
  assumes "procs s (proc_current s) = Some x" "p_parent x \<noteq> NULL" "procs s (p_parent x) = None"
  shows "proc_exit ret s = Stop Dangling s"
  using assms by (simp add: proc_exit_def notify_parent_def getp_def)

text \<open>
  C38. A destroyed process hands its children to its parent, but they are not entered into the
  parent's list of children: when the parent is destroyed as well, the parent pointer of the child
  points at freed memory, and the exit of the child dereferences it.
\<close>

theorem orphan_parent_dangles:
  assumes "procs s c = Some x" "p_parent x = p"
    and "procs s p = Some y" "p_children y = [c]" "p_parent y = g"
    and "procs s g = Some z" "p_children z = [p]" "p_parent z = NULL"
    and "distinct [c, p, g, NULL]"
    and "p_addrspace y \<noteq> NULL" "addrspaces s (p_addrspace y) = Some ay" "as_pagedir ay \<noteq> paging_curpd s"
    and "p_addrspace z \<noteq> NULL" "addrspaces s (p_addrspace z) = Some az" "as_pagedir az \<noteq> paging_curpd s"
  shows "\<exists>t u. proc_destroy p s = Ret 0 t \<and> proc_destroy g t = Ret 0 u \<and>
    (\<exists>x'. procs u c = Some x' \<and> p_parent x' = g) \<and> procs u g = None \<and>
    (\<forall>ret. proc_exit ret (u\<lparr>proc_current := c\<rparr>) = (Stop Dangling (u\<lparr>proc_current := c\<rparr>) :: (unit, _) res))"
proof -
  let ?t = "unlist p (s\<lparr>procs := (procs s)(p \<mapsto> y\<lparr>p_children := []\<rparr>,
     c \<mapsto> x\<lparr>p_parent := g\<rparr>, g \<mapsto> z\<lparr>p_children := snd (ll_remove_value (p_children z) p)\<rparr>)\<rparr>)"
  have ne: "c \<noteq> p" "p \<noteq> c" "c \<noteq> g" "g \<noteq> c" "p \<noteq> g" "g \<noteq> p" "c \<noteq> NULL" "g \<noteq> NULL" using assms(9) by auto
  have rem: "snd (ll_remove_value [p] p) = []"
    using assms(9) by (simp add: ll_remove_value_def ll_find_def ll_remove_def)
  have "proc_destroy p s = Ret 0 ?t"
    by (rule proc_destroy_middle) (use assms in simp_all)
  moreover have "proc_destroy g ?t = Ret 0 (unlist g ?t)"
    by (rule proc_destroy_root [where z = "z\<lparr>p_children := []\<rparr>" and a = az]) (use assms rem ne in simp_all)
  moreover have "proc_exit ret ((unlist g ?t)\<lparr>proc_current := c\<rparr>) =
      (Stop Dangling ((unlist g ?t)\<lparr>proc_current := c\<rparr>) :: (unit, _) res)" for ret
    by (rule exit_of_orphan [where x = "x\<lparr>p_parent := g\<rparr>"]) (use ne in simp_all)
  ultimately show ?thesis using ne
    by (intro exI [of _ ?t] exI [of _ "unlist g ?t"]) simp
qed

theorem orphan_parent_dangles_witness:
  "\<exists>t u. proc_destroy 0x2000 demo_kernel = Ret 0 t \<and> proc_destroy 0x1000 t = Ret 0 u \<and>
    proc_exit 0 (u\<lparr>proc_current := 0x3000\<rparr>) = (Stop Dangling (u\<lparr>proc_current := 0x3000\<rparr>) :: (unit, _) res)"
proof -
  have "procs demo_kernel 0x3000 = Some (the (procs demo_kernel 0x3000))"
    "procs demo_kernel 0x2000 = Some (the (procs demo_kernel 0x2000))"
    "procs demo_kernel 0x1000 = Some (the (procs demo_kernel 0x1000))" by (simp_all add: demo_defs)
  from orphan_parent_dangles [OF this(1) _ this(2) _ _ this(3), of "demo_addrspace 0x2000 0x20000"
      "demo_addrspace 0x1000 0x10000"]
  have "\<exists>t u. proc_destroy 0x2000 demo_kernel = Ret 0 t \<and> proc_destroy 0x1000 t = Ret 0 u \<and>
    (\<exists>x'. procs u 0x3000 = Some x' \<and> p_parent x' = 0x1000) \<and> procs u 0x1000 = None \<and>
    (\<forall>ret. proc_exit ret (u\<lparr>proc_current := 0x3000\<rparr>) = (Stop Dangling (u\<lparr>proc_current := 0x3000\<rparr>) :: (unit, _) res))"
    by (simp add: demo_defs)
  then show ?thesis by blast
qed

section \<open>Exit and wait\<close>

lemma store32_page_directory:
  assumes "paging_enabled s" "cr3 s = pd" "aligned4 v" "xlate (phys s) (PAGEDOWN pd) v = Some f"
  shows "store32 v w s = Ret () (s\<lparr>phys := wr32 (phys s) f w\<rparr>)"
  using assms by (simp add: store32_aligned vaddr_def)

text \<open>The state in which a page directory has been loaded.\<close>

definition loaded :: "u32 \<Rightarrow> 'a kernel_scheme \<Rightarrow> 'a kernel_scheme" where
  "loaded pd s = (if paging_curpd s \<noteq> pd then s\<lparr>cr3 := pd, paging_curpd := pd\<rparr> else s)"

lemma load_addrspace_eq:
  "addrspaces s a = Some x \<Longrightarrow> memuser_load_addrspace a s = Ret 0 (loaded (as_pagedir x) s)"
  by (simp add: memuser_load_addrspace_def geta_def paging_loadpagedir_def loaded_def)

lemma loaded_fields [simp]:
  "phys (loaded pd s) = phys s" "paging_enabled (loaded pd s) = paging_enabled s" "procs (loaded pd s) = procs s"
  "addrspaces (loaded pd s) = addrspaces s" "proc_all (loaded pd s) = proc_all s"
  "proc_running (loaded pd s) = proc_running s" "proc_sleeping (loaded pd s) = proc_sleeping s"
  "proc_current (loaded pd s) = proc_current s" "mallocs (loaded pd s) = mallocs s"
  "proc_nextpid (loaded pd s) = proc_nextpid s" "cr3 s = paging_curpd s \<Longrightarrow> cr3 (loaded pd s) = pd"
  by (simp_all add: loaded_def)

text \<open>
  C10. A parent that sleeps in \<open>waitpid\<close> for this child is woken by the child's exit: the exit status
  is stored where the parent asked for it, in the parent's address space, the parent's call
  returns the PID of the child, and the child has left both lists for good.
\<close>

theorem exit_wakes_waiting_parent:
  assumes ok: "procs_ok s" and c: "proc_current s = c" "procs s c = Some x" "p_parent x = q"
    and q: "procs s q = Some y" "q \<noteq> c" "p_is_sleeping y \<noteq> 0" "p_wait y \<noteq> 0" "waits_for y x"
    and st: "p_wait_stat y = v" "v \<noteq> NULL" "aligned4 v"
    and mem: "paging_enabled s" "cr3 s = paging_curpd s" "addrspaces s (p_addrspace y) = Some a"
      "xlate (phys s) (PAGEDOWN (as_pagedir a)) v = Some f"
  shows "\<exists>t. proc_exit ret s = (Stop Idle t :: (unit, _) res) \<and> rd32 (phys t) f = ret \<and>
    r_eax (p_registers (the (procs t q))) = p_pid x \<and> p_wait (the (procs t q)) = 0 \<and>
    q \<in> set (proc_running t) \<and> c \<notin> set (proc_running t) \<union> set (proc_sleeping t) \<and>
    p_defunc (the (procs t c)) = 1 \<and> p_ret (the (procs t c)) = ret \<and> proc_current t = NULL"
proof -
  have tab: "table_ok s" using ok by (simp add: procs_ok_def)
  have null: "procs s NULL = None" using tab by (simp add: table_ok_def)
  have nz: "q \<noteq> NULL" "c \<noteq> NULL" using c(2) q(1) null by auto
  have r: "c \<in> set (proc_running s)" using ok c(1) nz(2) by (simp add: procs_ok_def)
  from table_running [OF tab r] c(2) obtain b where b: "addrspaces s (p_addrspace x) = Some b"
    by (auto simp: proc_ok_def)
  let ?y = "y\<lparr>p_registers := p_registers y\<lparr>r_eax := p_pid x\<rparr>, p_wait := 0\<rparr>"
  define s5 where "s5 = (loaded (as_pagedir b) ((loaded (as_pagedir a)
      (s\<lparr>procs := (procs s)(q \<mapsto> y\<lparr>p_registers := p_registers y\<lparr>r_eax := p_pid x\<rparr>\<rparr>)\<rparr>))\<lparr>phys := wr32 (phys s) f ret\<rparr>))
    \<lparr>procs := (procs s)(q \<mapsto> ?y)\<rparr>"
  have notify: "notify_parent ret s = bindr (proc_wake q s5) (\<lambda>_. Ret ())"
    using c q st mem b nz
    by (simp add: notify_parent_def getp_def updp_def load_addrspace_eq [where x = a]
        load_addrspace_eq [where x = b] store32_page_directory [where f = f] s5_def)
  have rel: "env_rel s s5"
    using q(1) by (simp add: env_rel_def s5_def pcore_def)
  have tab5: "table_ok s5" by (rule table_ok_env [OF tab rel])
  have wake: "proc_wake q s5 = Ret 0 (s5\<lparr>proc_sleeping := remove1 q (proc_sleeping s5),
      proc_running := q # proc_running s5, procs := (procs s5)(q \<mapsto> ?y\<lparr>p_is_sleeping := 0\<rparr>)\<rparr>)"
    using proc_wake_eq [OF tab5, of q ?y] q(3) by (simp add: s5_def)
  let ?s6 = "s5\<lparr>proc_sleeping := remove1 q (proc_sleeping s5),
      proc_running := q # proc_running s5, procs := (procs s5)(q \<mapsto> ?y\<lparr>p_is_sleeping := 0\<rparr>)\<rparr>"
  have tab6: "table_ok ?s6" by (rule table_wake [OF tab5]) (use q in \<open>simp_all add: s5_def\<close>)
  note lists = table_lists [OF tab6]
  have "c \<notin> set (proc_sleeping s)" using r table_lists(7) [OF tab] by blast
  then have "c \<notin> set (proc_sleeping ?s6)" by (simp add: s5_def notin_set_remove1)
  moreover have "c \<in> set (proc_running ?s6)" using r by (simp add: s5_def)
  moreover have "ll_remove_value (proc_running ?s6) c = (c, remove1 c (proc_running ?s6))"
    using remove_value_distinct [OF lists(2,5), of c] r by (simp add: s5_def)
  ultimately show ?thesis
    using notify wake c q(1,2) nz lists(2)
    by (simp add: proc_exit_def updp_def getp_def proc_idle_def s5_def)
qed

text \<open>The small system with the second process running and the first waiting for it; the page
  directory of the first maps the page at one gigabyte.\<close>

definition demo_mem :: pmem where
  "demo_mem = wr32 (wr32 (\<lambda>_. 0) 0x10400 (pde_enc (new_pde 0x11000))) 0x11000 (pte_enc (new_pte 0x12000 1 1 0 0))"

definition demo_waiting :: kernel where
  "demo_waiting = demo_kernel\<lparr>phys := demo_mem, paging_enabled := True, cr3 := 0x20000, paging_curpd := 0x20000,
     procs := (procs demo_kernel)(
       0x1000 \<mapsto> (the (procs demo_kernel 0x1000))\<lparr>p_is_sleeping := 1, p_ticks_rem := 0, p_wait := 1, p_wait_pid := 2,
                    p_wait_stat := 0x40000000\<rparr>,
       0x2000 \<mapsto> (the (procs demo_kernel 0x2000))\<lparr>p_ticks_rem := 1\<rparr>),
     proc_running := [0x2000], proc_sleeping := [0x1000, 0x3000], proc_current := 0x2000\<rparr>"

lemma demo_waiting_ok: "procs_ok demo_waiting"
  by (simp add: procs_ok_def table_ok_def proc_ok_def mallocs_ok_def demo_waiting_def demo_defs)

lemma demo_mem_xlate: "xlate demo_mem 0x10000 0x40000000 = Some 0x12000"
proof -
  have "rd32 demo_mem 0x10400 = pde_enc (new_pde 0x11000)"
    unfolding demo_mem_def by (subst rd32_wr32_other) (simp_all add: aligned4_def)
  moreover have "rd32 demo_mem 0x11000 = pte_enc (new_pte 0x12000 1 1 0 0)"
    by (simp add: demo_mem_def)
  ultimately show ?thesis
    by (simp add: xlate_def walk_def Let_def pde_at_def pte_at_def frame_of_pde_def frame_of_pte_def
        new_pde_def new_pte_def page_macros)
qed

theorem exit_wakes_waiting_parent_witness:
  "\<exists>t. proc_exit 9 demo_waiting = (Stop Idle t :: (unit, _) res) \<and> rd32 (phys t) 0x12000 = 9 \<and>
    r_eax (p_registers (the (procs t 0x1000))) = 2 \<and> 0x1000 \<in> set (proc_running t)"
proof -
  let ?x = "the (procs demo_waiting 0x2000)" and ?y = "the (procs demo_waiting 0x1000)"
  have "\<exists>t. proc_exit 9 demo_waiting = (Stop Idle t :: (unit, _) res) \<and> rd32 (phys t) 0x12000 = 9 \<and>
    r_eax (p_registers (the (procs t 0x1000))) = p_pid ?x \<and> p_wait (the (procs t 0x1000)) = 0 \<and>
    0x1000 \<in> set (proc_running t) \<and> 0x2000 \<notin> set (proc_running t) \<union> set (proc_sleeping t) \<and>
    p_defunc (the (procs t 0x2000)) = 1 \<and> p_ret (the (procs t 0x2000)) = 9 \<and> proc_current t = NULL"
    by (rule exit_wakes_waiting_parent [OF demo_waiting_ok, where y = ?y and a = "demo_addrspace 0x1000 0x10000"
          and v = "0x40000000"])
       (simp_all add: demo_waiting_def demo_defs waits_for_def aligned4_def demo_mem_xlate page_macros)
  then show ?thesis by (auto simp: demo_waiting_def demo_defs)
qed

end
