(* ===== verification/FindVirt.thy ===== *)
theory FindVirt
  imports ProcProps
begin

text \<open>
  The searches for free virtual pages: the one for user memory ends and stays inside the user area, the
  one for the kernel returns an address that is not the start of a page.
\<close>

unbundle bit_operations_syntax

section \<open>User memory\<close>

text \<open>
  The pages counted so far are the ones right before the address; \<open>findvirt_inv\<close> says that they lie in the user area.
\<close>

definition findvirt_inv :: "u32 \<Rightarrow> u32 \<Rightarrow> bool" where
  "findvirt_inv virt found \<longleftrightarrow> unat USERDATA_ADDRESS + unat found * 4096 \<le> unat virt"

lemma findvirt_inv_next:
  assumes "findvirt_inv virt found" "unat virt' = unat virt + n * 4096" "n < 4096"
  shows "findvirt_inv virt' (found + of_nat n)" "findvirt_inv virt' 0"
proof -
  have "unat virt < 4294967296" by (rule unat_u32_lt)
  with assms(1) have "unat found < 1048576" unfolding findvirt_inv_def by linarith
  then have "unat (found + of_nat n) = unat found + n" using assms(3) by (simp add: unat_plus_u32)
  with assms(1,2) show "findvirt_inv virt' (found + of_nat n)" "findvirt_inv virt' 0"
    unfolding findvirt_inv_def by simp_all
qed

lemma findvirt_found:
  assumes "findvirt_inv virt found" "pages \<le> found"
  shows "unat USERDATA_ADDRESS \<le> unat (virt - found * PAGE_SIZE)"
    "unat (virt - found * PAGE_SIZE) + unat pages * 4096 \<le> unat virt"
proof -
  have v: "unat virt < 4294967296" by (rule unat_u32_lt)
  with assms(1) have f: "unat found * 4096 < 4294967296" unfolding findvirt_inv_def by linarith
  have m: "unat (found * PAGE_SIZE) = unat found * 4096"
    using f by (simp add: PAGE_SIZE_def unat_mult_lem [THEN iffD1])
  moreover from this assms(1) have "unat (virt - found * PAGE_SIZE) = unat virt - unat (found * PAGE_SIZE)"
    unfolding findvirt_inv_def by (intro unat_sub) (simp add: word_le_nat_alt)
  moreover have "unat pages \<le> unat found" using assms(2) by (simp add: word_le_nat_alt)
  ultimately show "unat USERDATA_ADDRESS \<le> unat (virt - found * PAGE_SIZE)"
    "unat (virt - found * PAGE_SIZE) + unat pages * 4096 \<le> unat virt"
    using assms(1) unfolding findvirt_inv_def by auto
qed

lemma findvirt_loop_bounds:
  "findvirt_loop pd pages virt found s = Ret v t \<Longrightarrow> findvirt_inv virt found \<Longrightarrow> v \<noteq> NULL \<Longrightarrow>
   unat USERDATA_ADDRESS \<le> unat v \<and> unat v + unat pages * 4096 < unat USERDATA_END"
proof (induction pd pages virt found s rule: findvirt_loop.induct)
  case (1 pd pages virt found s)
  note eq = "1.prems"(1) [unfolded findvirt_loop.simps [of pd pages virt found s]]
  have less: "virt < USERDATA_END" using eq "1.prems"(3) by (auto split: if_splits)
  show ?case
  proof (cases "found \<ge> pages")
    case True
    with eq less have "v = virt - found * PAGE_SIZE" by simp
    with findvirt_found [OF "1.prems"(2) True] less show ?thesis by (auto simp: word_less_nat_alt)
  next
    case False
    with eq less obtain skip u where u: "(if ADDR2PTE virt = 0
        then bindr (paging_getpde_pd virt pd s) (\<lambda>e. Ret (\<not> pde_exists e)) else Ret False s) = Ret skip u"
      "(if skip then findvirt_loop pd pages (virt + 1023 * PAGE_SIZE + PAGE_SIZE) (found + 1024) u
        else bindr (paging_getpte_pd virt pd u) (\<lambda>t.
          findvirt_loop pd pages (virt + PAGE_SIZE) (if exists t then 0 else found + 1))) = Ret v t"
      by (auto simp: bindr_Ret_iff simp del: bindr.simps)
    show ?thesis
    proof (cases skip)
      case True
      then have "ADDR2PTE virt = 0" using u(1) by (auto split: if_splits)
      from findvirt_inv_next(1) [OF "1.prems"(2), of "virt + 1023 * PAGE_SIZE + PAGE_SIZE" 1024] unat_next_table [OF less this]
      have inv: "findvirt_inv (virt + 1023 * PAGE_SIZE + PAGE_SIZE) (found + 1024)" by simp
      from u(2) True have "findvirt_loop pd pages (virt + 1023 * PAGE_SIZE + PAGE_SIZE) (found + 1024) u = Ret v t" by simp
      from "1.IH"(1) [OF less False u(1) True this inv "1.prems"(3)] show ?thesis .
    next
      case False
      with u(2) obtain e w where w: "paging_getpte_pd virt pd u = Ret e w"
        "findvirt_loop pd pages (virt + PAGE_SIZE) (if exists e then 0 else found + 1) w = Ret v t"
        by (auto simp: bindr_Ret_iff)
      from findvirt_inv_next [OF "1.prems"(2), of "virt + PAGE_SIZE" 1] unat_next_page [OF less]
      have inv: "findvirt_inv (virt + PAGE_SIZE) (if exists e then 0 else found + 1)" by simp
      from "1.IH"(2) [OF less \<open>\<not> found \<ge> pages\<close> u(1) False w(1,2) inv "1.prems"(3)] show ?thesis .
    qed
  qed
qed

text \<open>
  C19. The pages that \<open>memuser_findvirt\<close> finds lie in the area of user data: the search ends, and when it returns an
  address, that address and the requested number of pages after it are between \<open>USERDATA_ADDRESS\<close> and
  the end of the area, without wrapping around.
\<close>

theorem memuser_findvirt_bounds:
  assumes "memuser_findvirt addrspace pages s = Ret v t" "v \<noteq> NULL"
  shows "unat USERDATA_ADDRESS \<le> unat v \<and> unat v + unat pages * 4096 < unat USERDATA_END"
proof -
  from assms(1) obtain a :: addrspace_S and u where "findvirt_loop (as_pagedir a) pages USERDATA_ADDRESS 0 u = Ret v t"
    by (auto simp: memuser_findvirt_def bindr_Ret_iff)
  then show ?thesis by (rule findvirt_loop_bounds [OF _ _ assms(2)]) (simp add: findvirt_inv_def)
qed

text \<open>A system without any page table.\<close>

definition demo_unmapped :: kernel where
  "demo_unmapped = zero_kernel\<lparr>addrspaces := [0x4000 \<mapsto> demo_addrspace 0x1000 0]\<rparr>"

lemma demo_unmapped_fields:
  "phys demo_unmapped = (\<lambda>_. 0)" "vaddr demo_unmapped v = Some v" "paging_curpd demo_unmapped = 0"
  "\<not> paging_enabled demo_unmapped" "addrspaces demo_unmapped 0x4000 = Some (demo_addrspace 0x1000 0)"
  by (simp_all add: demo_unmapped_def zero_kernel_def vaddr_def)

lemma demo_unmapped_pde: "paging_getpde v demo_unmapped = Ret (pde_dec 0) demo_unmapped" "\<not> pde_exists (pde_dec 0)"
  by (simp_all add: paging_getpde_def demo_unmapped_fields load32_def join32_def pde_dec_def)

theorem memuser_findvirt_bounds_witness:
  "memuser_findvirt 0x4000 1 demo_unmapped = Ret USERDATA_ADDRESS demo_unmapped \<and>
   unat USERDATA_ADDRESS + unat (1 :: u32) * 4096 < unat USERDATA_END"
proof -
  have "findvirt_loop 0 1 USERDATA_ADDRESS 0 demo_unmapped = Ret USERDATA_ADDRESS demo_unmapped"
    by (subst findvirt_loop.simps, simp add: USERDATA_END_eq memmap_defs ADDR2PTE_def ADDR2PAGE_def PAGE_SIZE_def paging_getpde_pd_def
        demo_unmapped_fields demo_unmapped_pde)
       (subst findvirt_loop.simps, simp add: USERDATA_END_eq memmap_defs PAGE_SIZE_def)
  then have "memuser_findvirt 0x4000 1 demo_unmapped = Ret USERDATA_ADDRESS demo_unmapped"
    by (simp add: memuser_findvirt_def geta_def demo_unmapped_fields demo_addrspace_def)
  from this memuser_findvirt_bounds [OF this] show ?thesis by (simp add: memmap_defs)
qed

section \<open>Kernel memory\<close>

text \<open>
  The search for kernel pages returns an address in the middle of a page. When it comes to a page table that does not exist
  with \<open>found\<close> free pages counted so far, it steps over the table by \<open>1024 * 4095 + 4096\<close> bytes instead of
  \<open>1024 * 4096\<close>. A request that is satisfied there gets an address 3072 bytes behind
  \<open>virt - found * PAGE_SIZE\<close>, the first of the counted pages.
\<close>

theorem kfindvirt_skip_unaligned:
  assumes "ADDR2PTE virt = 0" "paging_getpde virt s = Ret e t" "\<not> pde_exists e"
    "found < pages" "pages \<le> found + 1024"
    "virt < KERNELDATA_END" "virt + 1024 * (PAGE_SIZE - 1) + PAGE_SIZE < KERNELDATA_END"
  shows "kfindvirt_loop pages virt found s = Ret (virt - found * PAGE_SIZE + 3072) t"
proof -
  have r: "virt + 1024 * (PAGE_SIZE - 1) + PAGE_SIZE - (found + 1024) * PAGE_SIZE = virt - found * PAGE_SIZE + 3072"
    by (simp add: PAGE_SIZE_def algebra_simps)
  have "kfindvirt_loop pages virt found s =
      kfindvirt_loop pages (virt + 1024 * (PAGE_SIZE - 1) + PAGE_SIZE) (found + 1024) t"
    using assms(1-3,6) not_le [THEN iffD2, OF assms(4)] by (subst kfindvirt_loop.simps) simp
  also have "\<dots> = Ret (virt - found * PAGE_SIZE + 3072) t"
    using assms(5,7) r by (subst kfindvirt_loop.simps) simp
  finally show ?thesis .
qed

theorem kfindvirt_skip_unaligned_witness:
  "kfindvirt_loop 300 0x800000 256 demo_unmapped = Ret 0x700C00 demo_unmapped"
  using kfindvirt_skip_unaligned [OF _ demo_unmapped_pde, of "0x800000" 256 300]
  by (simp add: KERNELDATA_END_eq ADDR2PTE_def ADDR2PAGE_def PAGE_SIZE_def)

end
