(* ===== verification/Ipc.thy ===== *)
theory Ipc
  imports Procm
begin

text \<open>
  The IPC objects of the kernel (\<open>kernel2/include/ipc.h\<close>, \<open>kernel2/include/ipc/*.h\<close>) and the
  search among them (\<open>kernel2/ipc.c\<close>). The C structures share the header \<open>ipc_obj_t\<close>; here they
  extend it as records, and each kind of object has its own store.
\<close>

section \<open>Records\<close>

record ipc_obj_t =
  i_type :: u32
  i_id :: u32
  i_key :: u32
  i_owner :: u32
  i_creator :: u32
  i_mode :: u32

record ipc_msg_t = ipc_obj_t +
  m_msgs :: "u32 list"
  m_waiting :: "u32 list"
  m_mode :: u32
  m_lrpid :: u32
  m_lspid :: u32
  m_stime :: u32
  m_rtime :: u32
  m_ctime :: u32

record ipc_msg_msg_t =
  mm_msg :: u32
  mm_data :: "u8 list"
  mm_size :: u32
  mm_type :: u32
  mm_flags :: u32
  mm_sender :: u32

record ipc_sem_sem_t =
  ss_semset :: u32
  ss_val :: u32
  ss_lopid :: u32
  ss_waitn :: "u32 list"
  ss_waitz :: "u32 list"

record ipc_sem_S = ipc_obj_t +
  s_num :: u32
  s_sems :: "ipc_sem_sem_t list"
  s_otime :: u32
  s_ctime :: u32

record ipc_sem_op_t =
  so_num :: u16
  so_op :: u16
  so_flags :: u16

record ipc_sem_sleepn_t =
  sn_val :: u32
  sn_proc :: u32

record ipc_shm_t = ipc_obj_t +
  h_size :: u32
  h_num_pages :: u32
  h_phys :: "u32 list"
  h_atts :: "u32 list"
  h_lopid :: u32
  h_atime :: u32
  h_dtime :: u32
  h_ctime :: u32

record ipc_shm_att_t =
  sa_shm :: u32
  sa_proc :: u32
  sa_virt :: u32
  sa_readonly :: u32

record ipc = kernel +
  ipc_objects :: "u32 list"
  ipc_lastid :: u32
  msgqs :: "u32 \<Rightarrow> ipc_msg_t option"
  msgs :: "u32 \<Rightarrow> ipc_msg_msg_t option"
  semsets :: "u32 \<Rightarrow> ipc_sem_S option"
  sleepns :: "u32 \<Rightarrow> ipc_sem_sleepn_t option"
  shms :: "u32 \<Rightarrow> ipc_shm_t option"
  atts :: "u32 \<Rightarrow> ipc_shm_att_t option"

definition IPC_PRIVATE :: u32 where "IPC_PRIVATE = 0"
definition IPC_MSG :: u32 where "IPC_MSG = 2"
definition IPC_SEM :: u32 where "IPC_SEM = 3"
definition IPC_SHM :: u32 where "IPC_SHM = 4"
definition IPC_NOWAIT :: u32 where "IPC_NOWAIT = 0x203"

definition EACCES :: u32 where "EACCES = 2"
definition EEXIST :: u32 where "EEXIST = 20"
definition EINVAL :: u32 where "EINVAL = 28"
definition ENOMSG :: u32 where "ENOMSG = 50"
definition ENOSPC :: u32 where "ENOSPC = 52"

lemmas ipc_consts = IPC_PRIVATE_def IPC_MSG_def IPC_SEM_def IPC_SHM_def IPC_NOWAIT_def
  EACCES_def EEXIST_def EINVAL_def ENOMSG_def ENOSPC_def

section \<open>Access to the objects\<close>

text \<open>The header of whatever object is at an address.\<close>

definition ipc_header :: "'a ipc_scheme \<Rightarrow> u32 \<Rightarrow> ipc_obj_t option" where
  "ipc_header s a =
     (case msgqs s a of Some x \<Rightarrow> Some (ipc_obj_t.truncate x)
      | None \<Rightarrow> (case semsets s a of Some x \<Rightarrow> Some (ipc_obj_t.truncate x)
        | None \<Rightarrow> (case shms s a of Some x \<Rightarrow> Some (ipc_obj_t.truncate x) | None \<Rightarrow> None)))"

definition getq :: "u32 \<Rightarrow> 'a ipc_scheme \<Rightarrow> (ipc_msg_t, 'a ipc_scheme) res" where
  "getq a s = deref (msgqs s) a s"

definition updq :: "u32 \<Rightarrow> (ipc_msg_t \<Rightarrow> ipc_msg_t) \<Rightarrow> 'a ipc_scheme \<Rightarrow> (unit, 'a ipc_scheme) res" where
  "updq a f s = bindr (getq a s) (\<lambda>x s. Ret () (s\<lparr>msgqs := (msgqs s)(a \<mapsto> f x)\<rparr>))"

definition getsem :: "u32 \<Rightarrow> 'a ipc_scheme \<Rightarrow> (ipc_sem_S, 'a ipc_scheme) res" where
  "getsem a s = deref (semsets s) a s"

definition updsem :: "u32 \<Rightarrow> (ipc_sem_S \<Rightarrow> ipc_sem_S) \<Rightarrow> 'a ipc_scheme \<Rightarrow> (unit, 'a ipc_scheme) res" where
  "updsem a f s = bindr (getsem a s) (\<lambda>x s. Ret () (s\<lparr>semsets := (semsets s)(a \<mapsto> f x)\<rparr>))"

definition getshm :: "u32 \<Rightarrow> 'a ipc_scheme \<Rightarrow> (ipc_shm_t, 'a ipc_scheme) res" where
  "getshm a s = deref (shms s) a s"

definition updshm :: "u32 \<Rightarrow> (ipc_shm_t \<Rightarrow> ipc_shm_t) \<Rightarrow> 'a ipc_scheme \<Rightarrow> (unit, 'a ipc_scheme) res" where
  "updshm a f s = bindr (getshm a s) (\<lambda>x s. Ret () (s\<lparr>shms := (shms s)(a \<mapsto> f x)\<rparr>))"

fun ipc_find_loop :: "u32 \<Rightarrow> u32 \<Rightarrow> u32 \<Rightarrow> u32 list \<Rightarrow> 'a ipc_scheme \<Rightarrow> (u32, 'a ipc_scheme) res" where
  "ipc_find_loop key ident typ [] s = Ret NULL s"
| "ipc_find_loop key ident typ (a # as) s =
     bindr (deref (ipc_header s) a s) (\<lambda>h s.
       if i_type h = typ \<and> (i_key h = key \<or> key = -1) \<and> (i_id h = ident \<or> ident = -1) then Ret a s
       else ipc_find_loop key ident typ as s)"

definition ipc_find :: "u32 \<Rightarrow> u32 \<Rightarrow> u32 \<Rightarrow> 'a ipc_scheme \<Rightarrow> (u32, 'a ipc_scheme) res" where
  "ipc_find key ident typ s = ipc_find_loop key ident typ (ll_elems (ipc_objects s)) s"

text \<open>The next identifier.\<close>

definition ipc_newid :: "'a ipc_scheme \<Rightarrow> (u32, 'a ipc_scheme) res" where
  "ipc_newid s = Ret (ipc_lastid s) (s\<lparr>ipc_lastid := ipc_lastid s + 1\<rparr>)"

text \<open>Words of sixteen bits in user memory.\<close>

definition load16 :: "u32 \<Rightarrow> 'a mem_scheme \<Rightarrow> (u16, 'a mem_scheme) res" where
  "load16 v s =
     bindr (load8 v s) (\<lambda>lo s. bindr (load8 (v + 1) s) (\<lambda>hi. Ret (ucast lo + 256 * ucast hi)))"

definition store16 :: "u32 \<Rightarrow> u16 \<Rightarrow> 'a mem_scheme \<Rightarrow> (unit, 'a mem_scheme) res" where
  "store16 v w s = store_bytes [ucast w, ucast (drop_bit 8 w)] v s"

end
