(* ===== verification/Msg.thy ===== *)
theory Msg
  imports Ipc
begin

text \<open>
  \<open>kernel2/msg.c\<close>: message queues. A message keeps a copy of the bytes it was sent with. A message that
  has been received is freed but stays in the list of the queue.
\<close>

unbundle bit_operations_syntax

definition ipc_msg_syscalls :: "(u32 \<times> sysfunc \<times> u32) list" where
  "ipc_msg_syscalls =
     [(SYSCALL_IPC_MSG_GET, SysMsg F_ipc_msg_get, 1),
      (SYSCALL_IPC_MSG_CREATE, SysMsg F_ipc_msg_create, 3),
      (SYSCALL_IPC_MSG_DESTROY, SysMsg F_ipc_msg_destroy, 2),
      (SYSCALL_IPC_MSG_SEND, SysMsg F_ipc_msg_send, 6),
      (SYSCALL_IPC_MSG_RECV, SysMsg F_ipc_msg_recv, 6)]"

definition ipc_msg_init :: "'a ipc_scheme \<Rightarrow> (u32, 'a ipc_scheme) res" where
  "ipc_msg_init s =
     syscall_register ipc_msg_syscalls s"

definition ipc_msg_get :: "u32 \<Rightarrow> 'a ipc_scheme \<Rightarrow> (u32, 'a ipc_scheme) res" where
  "ipc_msg_get key s =
     bindr (ipc_find key (-1) IPC_MSG s) (\<lambda>msg s.
       if msg = NULL then Ret (-1) s else bindr (getq msg s) (\<lambda>q. Ret (i_id q)))"

text \<open>A new queue: \<open>memset\<close> clears it, so \<open>mode\<close> is \<open>0\<close>; the permissions go into the header.\<close>

definition new_msgq :: "u32 \<Rightarrow> u32 \<Rightarrow> u32 \<Rightarrow> u32 \<Rightarrow> u32 \<Rightarrow> ipc_msg_t" where
  "new_msgq key owner ident mode time =
     \<lparr>i_type = IPC_MSG, i_id = ident, i_key = key, i_owner = owner, i_creator = owner, i_mode = mode,
      m_msgs = [], m_waiting = [], m_mode = 0, m_lrpid = 0, m_lspid = 0, m_stime = 0, m_rtime = 0, m_ctime = time\<rparr>"

definition ipc_msg_create :: "u32 \<Rightarrow> u32 \<Rightarrow> u32 \<Rightarrow> 'a ipc_scheme \<Rightarrow> (u32, 'a ipc_scheme) res" where
  "ipc_msg_create key mode time s =
     bindr (if key \<noteq> IPC_PRIVATE then ipc_find key (-1) IPC_MSG s else Ret NULL s) (\<lambda>msg s.
       if msg = NULL then
         bindr (kmalloc_obj s) (\<lambda>new s.
           if new \<noteq> NULL then
             bindr (ipc_newid s) (\<lambda>ident s.
               Ret ident (s\<lparr>msgqs := (msgqs s)(new \<mapsto> new_msgq key (proc_current s) ident mode time),
                         ipc_objects := ll_push new (ipc_objects s)\<rparr>))
           else Ret (- EINVAL) s)
       else Ret (- EINVAL) s)"

text \<open>The permission check of the three functions below; the PID of the caller is passed as the UID of
  the owner, and the owner of the queue as the one who asks.\<close>

definition msg_permcheck :: "u32 \<Rightarrow> u32 \<Rightarrow> 'a ipc_scheme \<Rightarrow> (bool, 'a ipc_scheme) res" where
  "msg_permcheck msq op s =
     bindr (getp (proc_current s) s) (\<lambda>c s.
     bindr (getq msq s) (\<lambda>q s.
     bindr (getp (i_owner q) s) (\<lambda>ow.
       Ret (perm_check (p_pid c) (p_gid c) (p_uid ow) (p_gid ow) (m_mode q) op))))"

definition free_msg :: "u32 \<Rightarrow> 'a ipc_scheme \<Rightarrow> (unit, 'a ipc_scheme) res" where
  "free_msg msg s = Ret () (s\<lparr>msgs := (msgs s)(msg := None)\<rparr>)"

definition wake_waiting :: "u32 \<Rightarrow> 'a ipc_scheme \<Rightarrow> (unit, 'a ipc_scheme) res" where
  "wake_waiting msq s =
     bindr (getq msq s) (\<lambda>q.
       drain (\<lambda>ws. updq msq (\<lambda>q. q\<lparr>m_waiting := ws\<rparr>))
         (\<lambda>waiter s. bindr (proc_wake waiter s) (\<lambda>_. Ret ())) (m_waiting q))"

definition ipc_msg_destroy :: "u32 \<Rightarrow> 'a ipc_scheme \<Rightarrow> (u32, 'a ipc_scheme) res" where
  "ipc_msg_destroy ident s =
     bindr (ipc_find (-1) ident IPC_MSG s) (\<lambda>msq s.
       if msq \<noteq> NULL then
         bindr (msg_permcheck msq PERM_W s) (\<lambda>ok s.
           if ok then
             bindr (getq msq s) (\<lambda>q s.
             bindr (drain (\<lambda>ms. updq msq (\<lambda>q. q\<lparr>m_msgs := ms\<rparr>))
                      (\<lambda>msg s.
                        bindr (deref (msgs s) msg s) (\<lambda>m s.
                        bindr (if mm_flags m AND IPC_NOWAIT \<noteq> mm_flags m
                               then bindr (proc_wake (mm_sender m) s) (\<lambda>_. Ret ()) else Ret () s)
                          (\<lambda>_. free_msg msg))) (m_msgs q) s) (\<lambda>_ s.
             bindr (wake_waiting msq s) (\<lambda>_ s.
               Ret 0 (s\<lparr>ipc_objects := snd (ll_remove_value (ipc_objects s) msq),
                        msgqs := (msgqs s)(msq := None)\<rparr>))))
           else Ret (- EACCES) s)
       else Ret (- EINVAL) s)"

definition ipc_msg_send ::
  "u32 \<Rightarrow> u32 \<Rightarrow> u32 \<Rightarrow> u32 \<Rightarrow> u32 \<Rightarrow> u32 \<Rightarrow> 'a ipc_scheme \<Rightarrow> (u32, 'a ipc_scheme) res" where
  "ipc_msg_send ident data msgsz typ flags time s =
     bindr (ipc_find (-1) ident IPC_MSG s) (\<lambda>msq s.
       if msq \<noteq> NULL then
         bindr (msg_permcheck msq PERM_W s) (\<lambda>ok s.
           if ok then
             bindr (kmalloc_obj s) (\<lambda>new s.
             bindr (kmalloc_obj s) (\<lambda>_ s.
             bindr (load_bytes (unat msgsz) data s) (\<lambda>bytes s.
             bindr (getp (proc_current s) s) (\<lambda>c s.
             bindr (updq msq (\<lambda>q. q\<lparr>m_lspid := p_pid c, m_stime := time, m_msgs := ll_push new (m_msgs q)\<rparr>)
                      (s\<lparr>msgs := (msgs s)(new \<mapsto> \<lparr>mm_msg = msq, mm_data = bytes, mm_size = msgsz,
                         mm_type = typ, mm_flags = flags, mm_sender = proc_current s\<rparr>)\<rparr>)) (\<lambda>_ s.
             bindr (wake_waiting msq s) (\<lambda>_ s.
             bindr (if flags AND IPC_NOWAIT \<noteq> flags then proc_sleep (proc_current s) s else Ret 0 s)
               (\<lambda>_. Ret 0)))))))
           else Ret (- EACCES) s)
       else Ret (- EINVAL) s)"

text \<open>Whether a message has the type asked for; the comparisons are signed.\<close>

definition type_wanted :: "u32 \<Rightarrow> u32 \<Rightarrow> bool" where
  "type_wanted typ mtype \<longleftrightarrow> mtype = typ \<or> typ = 0 \<or> typ <s 0 \<and> mtype \<le>s - typ"

fun find_msg :: "u32 \<Rightarrow> u32 list \<Rightarrow> 'a ipc_scheme \<Rightarrow> (u32, 'a ipc_scheme) res" where
  "find_msg typ [] s = Ret NULL s"
| "find_msg typ (msg # ms) s =
     bindr (deref (msgs s) msg s) (\<lambda>m s.
       if type_wanted typ (mm_type m) then Ret msg s else find_msg typ ms s)"

definition ipc_msg_recv ::
  "u32 \<Rightarrow> u32 \<Rightarrow> u32 \<Rightarrow> u32 \<Rightarrow> u32 \<Rightarrow> u32 \<Rightarrow> 'a ipc_scheme \<Rightarrow> (u32, 'a ipc_scheme) res" where
  "ipc_msg_recv ident data msgsz typ flags time s =
     bindr (ipc_find (-1) ident IPC_MSG s) (\<lambda>msq s.
       if msq \<noteq> NULL then
         bindr (msg_permcheck msq PERM_R s) (\<lambda>ok s.
           if ok then
             bindr (getq msq s) (\<lambda>q s.
             bindr (find_msg typ (ll_elems (m_msgs q)) s) (\<lambda>msg s.
               if msg \<noteq> NULL then
                 bindr (deref (msgs s) msg s) (\<lambda>m s.
                   let count = (if msgsz > mm_size m then mm_size m else msgsz) in
                   bindr (store_bytes (take (unat count) (mm_data m)) data s) (\<lambda>_ s.
                   bindr (if mm_flags m AND IPC_NOWAIT = flags
                          then proc_wake (mm_sender m) s else Ret 0 s) (\<lambda>_ s.
                   bindr (getp (proc_current s) s) (\<lambda>c s.
                   bindr (updq msq (\<lambda>q. q\<lparr>m_lrpid := p_pid c, m_rtime := time\<rparr>) s) (\<lambda>_ s.
                   bindr (free_msg msg s) (\<lambda>_. Ret count))))))
               else if flags AND IPC_NOWAIT = 0 then
                 bindr (updq msq (\<lambda>q. q\<lparr>m_waiting := ll_push (proc_current s) (m_waiting q)\<rparr>) s) (\<lambda>_ s.
                 bindr (proc_sleep (proc_current s) s) (\<lambda>_. Ret 0))
               else Ret (- ENOMSG) s))
           else Ret (- EACCES) s)
       else Ret (- EINVAL) s)"

text \<open>\<open>msg_stat\<close> and \<open>msg_set\<close> are not registered as system calls.\<close>

definition msg_stat ::
  "u32 \<Rightarrow> u32 \<Rightarrow> u32 \<Rightarrow> u32 \<Rightarrow> u32 \<Rightarrow> u32 \<Rightarrow> u32 \<Rightarrow> u32 \<Rightarrow> u32 \<Rightarrow> u32 \<Rightarrow> u32 \<Rightarrow> u32 \<Rightarrow>
   'a ipc_scheme \<Rightarrow> (u32, 'a ipc_scheme) res" where
  "msg_stat ident uid gid cuid cgid mode num lspid lrpid stime rtime ctime s =
     bindr (ipc_find (-1) ident IPC_MSG s) (\<lambda>msq s.
       if msq \<noteq> NULL then
         bindr (getq msq s) (\<lambda>q s.
         bindr (getp (i_owner q) s) (\<lambda>ow s.
         bindr (getp (i_creator q) s) (\<lambda>c s.
         bindr (foreach (\<lambda>(p, v). store32 p v)
                  [(uid, p_uid ow), (gid, p_gid ow), (cuid, p_uid c), (cgid, p_gid c), (mode, m_mode q),
                   (num, of_nat (length (m_msgs q))), (lspid, m_lspid q), (lrpid, m_lrpid q),
                   (stime, m_stime q), (rtime, m_rtime q), (ctime, m_ctime q)] s) (\<lambda>_. Ret 0))))
       else Ret (- EINVAL) s)"

definition msg_set :: "u32 \<Rightarrow> u32 \<Rightarrow> u32 \<Rightarrow> u32 \<Rightarrow> u32 \<Rightarrow> 'a ipc_scheme \<Rightarrow> (u32, 'a ipc_scheme) res" where
  "msg_set ident uid gid mode time s =
     bindr (ipc_find (-1) ident IPC_MSG s) (\<lambda>msq s.
       if msq \<noteq> NULL then
         bindr (msg_permcheck msq PERM_W s) (\<lambda>ok s.
         bindr (getq msq s) (\<lambda>q s.
         bindr (if ok \<or> proc_current s = i_creator q
                then updq msq (\<lambda>q. q\<lparr>m_mode := mode, m_ctime := time\<rparr>) s
                else Ret () s) (\<lambda>_. Ret 0)))
       else Ret (- EINVAL) s)"

end
