(* ===== verification/Sem.thy ===== *)
theory Sem
  imports Ipc
begin

text \<open>
  \<open>kernel2/sem.c\<close>: sets of semaphores. The array of semaphores is a list; an operation that would index
  it out of range is refused by the code first. Values are signed words.
\<close>

unbundle bit_operations_syntax

definition ipc_sem_syscalls :: "(u32 \<times> sysfunc \<times> u32) list" where
  "ipc_sem_syscalls =
     [(SYSCALL_IPC_SEM_GET, SysSem F_ipc_sem_get, 1),
      (SYSCALL_IPC_SEM_CREATE, SysSem F_ipc_sem_create, 4),
      (SYSCALL_IPC_SEM_OP, SysSem F_ipc_sem_op, 4),
      (SYSCALL_IPC_SEM_GETVAL, SysSem F_ipc_sem_getval, 2),
      (SYSCALL_IPC_SEM_SETVAL, SysSem F_ipc_sem_setval, 4),
      (SYSCALL_IPC_SEM_GETPID, SysSem F_ipc_sem_getpid, 2),
      (SYSCALL_IPC_SEM_GETCNT, SysSem F_ipc_sem_getcnt, 3),
      (SYSCALL_IPC_SEM_GETALL, SysSem F_ipc_sem_getall, 2),
      (SYSCALL_IPC_SEM_SETALL, SysSem F_ipc_sem_setall, 3),
      (SYSCALL_IPC_SEM_STAT, SysSem F_ipc_sem_stat, 9),
      (SYSCALL_IPC_SEM_SET, SysSem F_ipc_sem_set, 5),
      (SYSCALL_IPC_SEM_DESTROY, SysSem F_ipc_sem_destroy, 1)]"

definition ipc_sem_init :: "'a ipc_scheme \<Rightarrow> (u32, 'a ipc_scheme) res" where
  "ipc_sem_init s =
     syscall_register ipc_sem_syscalls s"

text \<open>The permission check of the header compares the caller with the PID of the owner.\<close>

definition ipc_sem_permcheck :: "u32 \<Rightarrow> u32 \<Rightarrow> 'a ipc_scheme \<Rightarrow> (bool, 'a ipc_scheme) res" where
  "ipc_sem_permcheck semset op s =
     bindr (getsem semset s) (\<lambda>x s.
     bindr (getp (i_owner x) s) (\<lambda>ow s.
     bindr (getp (proc_current s) s) (\<lambda>c s.
       if perm_check (p_pid ow) (p_gid ow) (p_uid c) (p_gid c) (i_mode x) op then Ret True s
       else bindr (getp (i_creator x) s) (\<lambda>cr. Ret (p_uid c = p_uid cr)))))"

definition ipc_sem_get :: "u32 \<Rightarrow> 'a ipc_scheme \<Rightarrow> (u32, 'a ipc_scheme) res" where
  "ipc_sem_get key s =
     bindr (ipc_find key (-1) IPC_SEM s) (\<lambda>semset s.
       if semset = NULL then Ret (- EINVAL) s else bindr (getsem semset s) (\<lambda>x. Ret (i_id x)))"

definition new_sem :: "u32 \<Rightarrow> ipc_sem_sem_t" where
  "new_sem semset = \<lparr>ss_semset = semset, ss_val = 0, ss_lopid = 0, ss_waitn = [], ss_waitz = []\<rparr>"

definition ipc_sem_create :: "u32 \<Rightarrow> u32 \<Rightarrow> u32 \<Rightarrow> u32 \<Rightarrow> 'a ipc_scheme \<Rightarrow> (u32, 'a ipc_scheme) res" where
  "ipc_sem_create key nsems mode time s =
     bindr (if key \<noteq> IPC_PRIVATE then ipc_find key (-1) IPC_SEM s else Ret NULL s) (\<lambda>semset s.
       if semset = NULL then
         bindr (kmalloc_obj s) (\<lambda>new s.
           if new \<noteq> NULL then
             bindr (ipc_newid s) (\<lambda>ident s.
             bindr (kmalloc_obj s) (\<lambda>_ s.
               Ret ident (s\<lparr>semsets := (semsets s)(new \<mapsto>
                   \<lparr>i_type = IPC_SEM, i_id = ident, i_key = key, i_owner = proc_current s,
                    i_creator = proc_current s, i_mode = mode,
                    s_num = nsems, s_sems = replicate (unat nsems) (new_sem new),
                    s_otime = 0, s_ctime = time\<rparr>),
                 ipc_objects := ll_push new (ipc_objects s)\<rparr>)))
           else Ret (- ENOSPC) s)
       else Ret (- EEXIST) s)"

text \<open>One semaphore of a set.\<close>

definition get1 :: "u32 \<Rightarrow> nat \<Rightarrow> 'a ipc_scheme \<Rightarrow> (ipc_sem_sem_t, 'a ipc_scheme) res" where
  "get1 semset n s =
     bindr (getsem semset s) (\<lambda>x s. if n < length (s_sems x) then Ret (s_sems x ! n) s else Stop Dangling s)"

definition upd1 :: "u32 \<Rightarrow> nat \<Rightarrow> (ipc_sem_sem_t \<Rightarrow> ipc_sem_sem_t) \<Rightarrow> 'a ipc_scheme \<Rightarrow> (unit, 'a ipc_scheme) res" where
  "upd1 semset n f s =
     bindr (get1 semset n s) (\<lambda>y. updsem semset (\<lambda>x. x\<lparr>s_sems := (s_sems x)[n := f y]\<rparr>))"

text \<open>
  The two loops that wake waiting processes. A process that waits for the value to rise is taken off
  the list in any case, but woken only if the value is larger than what it waits for; \<open>sleepn\<close> is read
  once more after \<open>free\<close>, which leaves the content of the block as it was.
\<close>

definition wake_waitz :: "u32 \<Rightarrow> nat \<Rightarrow> 'a ipc_scheme \<Rightarrow> (unit, 'a ipc_scheme) res" where
  "wake_waitz semset n s =
     bindr (get1 semset n s) (\<lambda>y.
       drain (\<lambda>ws. upd1 semset n (\<lambda>y. y\<lparr>ss_waitz := ws\<rparr>))
         (\<lambda>proc s. bindr (proc_wake proc s) (\<lambda>_. Ret ())) (ss_waitz y))"

definition wake_waitn :: "u32 \<Rightarrow> nat \<Rightarrow> 'a ipc_scheme \<Rightarrow> (unit, 'a ipc_scheme) res" where
  "wake_waitn semset n s =
     bindr (get1 semset n s) (\<lambda>y.
       drain (\<lambda>ws. upd1 semset n (\<lambda>y. y\<lparr>ss_waitn := ws\<rparr>))
         (\<lambda>sleepn s.
            bindr (deref (sleepns s) sleepn s) (\<lambda>sn s.
            bindr (get1 semset n s) (\<lambda>y s.
              if sn_val sn <s ss_val y then
                bindr (proc_wake (sn_proc sn) (s\<lparr>sleepns := (sleepns s)(sleepn := None)\<rparr>)) (\<lambda>_. Ret ())
              else Ret () s))) (ss_waitn y))"

text \<open>Reading \<open>ops[i]\<close> from the memory of the process that is current at that moment.\<close>

definition load_sem_op :: "u32 \<Rightarrow> 'a mem_scheme \<Rightarrow> (ipc_sem_op_t, 'a mem_scheme) res" where
  "load_sem_op v s =
     bindr (load16 v s) (\<lambda>num s.
     bindr (load16 (v + 2) s) (\<lambda>op s.
     bindr (load16 (v + 4) s) (\<lambda>flags.
       Ret \<lparr>so_num = num, so_op = op, so_flags = flags\<rparr>)))"

text \<open>
  The part of an iteration after the wait for a rising value: \<open>Inr\<close> continues with the loops that wake
  others, \<open>Inl r\<close> returns \<open>r\<close>.
\<close>

definition sem_apply :: "u32 \<Rightarrow> nat \<Rightarrow> ipc_sem_op_t \<Rightarrow> u32 \<Rightarrow> 'a ipc_scheme \<Rightarrow> (u32 + unit, 'a ipc_scheme) res" where
  "sem_apply semset n op i s =
     (let amount = scast (so_op op) :: u32; nowait = (scast (so_flags op) :: u32) AND IPC_NOWAIT \<noteq> 0 in
      bindr (get1 semset n s) (\<lambda>y s.
        if amount <s 0 then
          if - amount \<le>s ss_val y then
            bindr (upd1 semset n (\<lambda>y. y\<lparr>ss_val := ss_val y + amount\<rparr>) s) (\<lambda>_. Ret (Inr ()))
          else if nowait then Ret (Inl 0) s
          else
            bindr (kmalloc_obj s) (\<lambda>sleepn s.
            bindr (upd1 semset n (\<lambda>y. y\<lparr>ss_waitn := ll_push sleepn (ss_waitn y)\<rparr>)
                     (s\<lparr>sleepns := (sleepns s)(sleepn \<mapsto> \<lparr>sn_val = - amount, sn_proc = proc_current s\<rparr>)\<rparr>))
              (\<lambda>_ s.
            bindr (proc_sleep (proc_current s) s) (\<lambda>_. Ret (Inl i))))
        else if 0 <s amount then
          bindr (upd1 semset n (\<lambda>y. y\<lparr>ss_val := ss_val y + amount\<rparr>) s) (\<lambda>_. Ret (Inr ()))
        else
          bindr (upd1 semset n (\<lambda>y. y\<lparr>ss_waitz := ll_push (proc_current s) (ss_waitz y)\<rparr>) s) (\<lambda>_ s.
          bindr (proc_sleep (proc_current s) s) (\<lambda>_. Ret (Inr ())))))"

definition sem_wake :: "u32 \<Rightarrow> nat \<Rightarrow> 'a ipc_scheme \<Rightarrow> (unit, 'a ipc_scheme) res" where
  "sem_wake semset n s =
     bindr (get1 semset n s) (\<lambda>y s.
       if ss_val y = 0 then wake_waitz semset n s
       else if 0 <s ss_val y then wake_waitn semset n s
       else Ret () s)"

text \<open>The loop of \<open>ipc_sem_op\<close>; the first argument counts the remaining operations.\<close>

fun sem_op_loop :: "nat \<Rightarrow> u32 \<Rightarrow> u32 \<Rightarrow> u32 \<Rightarrow> u32 \<Rightarrow> 'a ipc_scheme \<Rightarrow> (u32, 'a ipc_scheme) res" where
  "sem_op_loop 0 ident ops time i s = Ret 0 s"
| "sem_op_loop (Suc k) ident ops time i s =
     bindr (ipc_find (-1) ident IPC_SEM s) (\<lambda>semset s.
       if semset = NULL then Ret (- EINVAL) s
       else
         bindr (load_sem_op (ops + i * 6) s) (\<lambda>op s.
         bindr (getsem semset s) (\<lambda>x s.
           if ucast (so_num op) \<ge> s_num x then Ret (-1) s
           else
             let n = unat (so_num op) in
             bindr (getp (proc_current s) s) (\<lambda>c s.
             bindr (upd1 semset n (\<lambda>y. y\<lparr>ss_lopid := p_pid c\<rparr>) s) (\<lambda>_ s.
             bindr (updsem semset (\<lambda>x. x\<lparr>s_otime := time\<rparr>) s) (\<lambda>_ s.
             bindr (sem_apply semset n op i s) (\<lambda>r s.
               case r of
                 Inl v \<Rightarrow> Ret v s
               | Inr _ \<Rightarrow> bindr (sem_wake semset n s) (\<lambda>_. sem_op_loop k ident ops time (i + 1)))))))))"

definition ipc_sem_op :: "u32 \<Rightarrow> u32 \<Rightarrow> u32 \<Rightarrow> u32 \<Rightarrow> 'a ipc_scheme \<Rightarrow> (u32, 'a ipc_scheme) res" where
  "ipc_sem_op ident ops nops time s = sem_op_loop (unat nops) ident ops time 0 s"

text \<open>The frame of the functions below: find the set, check the index, check the permission.\<close>

definition with_semset ::
  "u32 \<Rightarrow> u32 option \<Rightarrow> u32 \<Rightarrow> (u32 \<Rightarrow> ipc_sem_S \<Rightarrow> 'a ipc_scheme \<Rightarrow> (u32, 'a ipc_scheme) res) \<Rightarrow>
   'a ipc_scheme \<Rightarrow> (u32, 'a ipc_scheme) res" where
  "with_semset ident num op body s =
     bindr (ipc_find (-1) ident IPC_SEM s) (\<lambda>semset s.
       if semset = NULL then Ret (- EINVAL) s
       else bindr (getsem semset s) (\<lambda>x s.
         if (case num of None \<Rightarrow> True | Some n \<Rightarrow> n < s_num x) then
           bindr (ipc_sem_permcheck semset op s) (\<lambda>ok s.
             if ok then body semset x s else Ret (- EACCES) s)
         else Ret (- EINVAL) s))"

definition ipc_sem_getval :: "u32 \<Rightarrow> u32 \<Rightarrow> 'a ipc_scheme \<Rightarrow> (u32, 'a ipc_scheme) res" where
  "ipc_sem_getval ident num s =
     with_semset ident (Some num) PERM_R (\<lambda>semset x s.
       bindr (get1 semset (unat num) s) (\<lambda>y. Ret (ss_val y))) s"

definition ipc_sem_setval :: "u32 \<Rightarrow> u32 \<Rightarrow> u32 \<Rightarrow> u32 \<Rightarrow> 'a ipc_scheme \<Rightarrow> (u32, 'a ipc_scheme) res" where
  "ipc_sem_setval ident num val time s =
     with_semset ident (Some num) PERM_W (\<lambda>semset x s.
       bindr (upd1 semset (unat num) (\<lambda>y. y\<lparr>ss_val := val\<rparr>) s) (\<lambda>_ s.
       bindr (updsem semset (\<lambda>x. x\<lparr>s_ctime := time\<rparr>) s) (\<lambda>_. Ret 0))) s"

definition ipc_sem_getpid :: "u32 \<Rightarrow> u32 \<Rightarrow> 'a ipc_scheme \<Rightarrow> (u32, 'a ipc_scheme) res" where
  "ipc_sem_getpid ident num s =
     with_semset ident (Some num) PERM_R (\<lambda>semset x s.
       bindr (get1 semset (unat num) s) (\<lambda>y. Ret (ss_lopid y))) s"

definition ipc_sem_getcnt :: "u32 \<Rightarrow> u32 \<Rightarrow> u32 \<Rightarrow> 'a ipc_scheme \<Rightarrow> (u32, 'a ipc_scheme) res" where
  "ipc_sem_getcnt ident num typ s =
     with_semset ident (Some num) PERM_R (\<lambda>semset x s.
       bindr (get1 semset (unat num) s) (\<lambda>y.
         Ret (of_nat (length (if typ = 0x7A then ss_waitz y else ss_waitn y))))) s"

definition ipc_sem_getall :: "u32 \<Rightarrow> u32 \<Rightarrow> 'a ipc_scheme \<Rightarrow> (u32, 'a ipc_scheme) res" where
  "ipc_sem_getall ident buf s =
     with_semset ident None PERM_R (\<lambda>semset x s.
       bindr (foreach (\<lambda>i s. bindr (get1 semset i s) (\<lambda>y. store16 (buf + of_nat i * 2) (ucast (ss_val y))))
                [0..<unat (s_num x)] s) (\<lambda>_. Ret 0)) s"

definition ipc_sem_setall :: "u32 \<Rightarrow> u32 \<Rightarrow> u32 \<Rightarrow> 'a ipc_scheme \<Rightarrow> (u32, 'a ipc_scheme) res" where
  "ipc_sem_setall ident buf time s =
     with_semset ident None PERM_W (\<lambda>semset x s.
       bindr (foreach (\<lambda>i s. bindr (load16 (buf + of_nat i * 2) s) (\<lambda>v.
                upd1 semset i (\<lambda>y. y\<lparr>ss_val := scast v\<rparr>)))
                [0..<unat (s_num x)] s) (\<lambda>_ s.
       bindr (updsem semset (\<lambda>x. x\<lparr>s_ctime := time\<rparr>) s) (\<lambda>_. Ret 0))) s"

definition ipc_sem_stat ::
  "u32 \<Rightarrow> u32 \<Rightarrow> u32 \<Rightarrow> u32 \<Rightarrow> u32 \<Rightarrow> u32 \<Rightarrow> u32 \<Rightarrow> u32 \<Rightarrow> u32 \<Rightarrow> 'a ipc_scheme \<Rightarrow> (u32, 'a ipc_scheme) res" where
  "ipc_sem_stat ident uid gid cuid cgid mode nsems otime ctime s =
     with_semset ident None PERM_R (\<lambda>semset x s.
       bindr (getp (i_owner x) s) (\<lambda>ow s.
       bindr (getp (i_creator x) s) (\<lambda>cr s.
       bindr (foreach (\<lambda>(p, v). store32 p v)
                [(uid, p_uid ow), (gid, p_gid ow), (cuid, p_uid cr), (cgid, p_gid cr), (mode, i_mode x),
                 (nsems, s_num x), (otime, s_otime x), (ctime, s_ctime x)] s) (\<lambda>_. Ret 0)))) s"

definition ipc_sem_set :: "u32 \<Rightarrow> u32 \<Rightarrow> u32 \<Rightarrow> u32 \<Rightarrow> u32 \<Rightarrow> 'a ipc_scheme \<Rightarrow> (u32, 'a ipc_scheme) res" where
  "ipc_sem_set ident uid gid mode time s =
     with_semset ident None PERM_W (\<lambda>semset x s.
       bindr (updsem semset (\<lambda>x. x\<lparr>i_mode := mode, s_ctime := time\<rparr>) s) (\<lambda>_. Ret 0)) s"

text \<open>The successful branch falls through to \<open>return -EINVAL\<close>.\<close>

definition ipc_sem_destroy :: "u32 \<Rightarrow> 'a ipc_scheme \<Rightarrow> (u32, 'a ipc_scheme) res" where
  "ipc_sem_destroy ident s =
     with_semset ident None PERM_W (\<lambda>semset x s.
       bindr (foreach (\<lambda>i s. bindr (wake_waitz semset i s) (\<lambda>_. wake_waitn semset i))
                [0..<unat (s_num x)] s) (\<lambda>_ s.
         Ret (- EINVAL) (s\<lparr>semsets := (semsets s)(semset := None),
                           ipc_objects := snd (ll_remove_value (ipc_objects s) semset)\<rparr>))) s"

end
