(* ===== verification/Shm.thy ===== *)
theory Shm
  imports Ipc
begin

text \<open>
  \<open>kernel2/shm.c\<close>: shared memory objects, lists of frames that processes map into their address space.
\<close>

unbundle bit_operations_syntax

definition SHM_RDONLY :: u32 where "SHM_RDONLY = 0x16000"

definition ipc_shm_syscalls :: "(u32 \<times> sysfunc \<times> u32) list" where
  "ipc_shm_syscalls =
     [(SYSCALL_IPC_SHM_GET, SysShm F_ipc_shm_get, 1),
      (SYSCALL_IPC_SHM_CREATE, SysShm F_ipc_shm_create, 4),
      (SYSCALL_IPC_SHM_ATTACH, SysShm F_ipc_shm_attach, 4),
      (SYSCALL_IPC_SHM_DETACH, SysShm F_ipc_shm_detach, 2),
      (SYSCALL_IPC_SHM_STAT, SysShm F_ipc_shm_stat, 13),
      (SYSCALL_IPC_SHM_SET, SysShm F_ipc_shm_set, 7),
      (SYSCALL_IPC_SHM_DESTROY, SysShm F_ipc_shm_destroy, 1)]"

definition ipc_shm_init :: "'a ipc_scheme \<Rightarrow> (u32, 'a ipc_scheme) res" where
  "ipc_shm_init s =
     syscall_register ipc_shm_syscalls s"

definition ipc_shm_permcheck :: "u32 \<Rightarrow> u32 \<Rightarrow> 'a ipc_scheme \<Rightarrow> (bool, 'a ipc_scheme) res" where
  "ipc_shm_permcheck shm op s =
     bindr (getshm shm s) (\<lambda>x s.
     bindr (getp (i_owner x) s) (\<lambda>ow s.
     bindr (getp (proc_current s) s) (\<lambda>c s.
       if perm_check (p_pid ow) (p_gid ow) (p_uid c) (p_gid c) (i_mode x) op then Ret True s
       else bindr (getp (i_creator x) s) (\<lambda>cr. Ret (p_uid c = p_uid cr)))))"

definition ipc_shm_get :: "u32 \<Rightarrow> 'a ipc_scheme \<Rightarrow> (u32, 'a ipc_scheme) res" where
  "ipc_shm_get key s =
     bindr (ipc_find key (-1) IPC_SHM s) (\<lambda>shm s.
       if shm = NULL then Ret (- EINVAL) s else bindr (getshm shm s) (\<lambda>x. Ret (i_id x)))"

text \<open>\<open>new->phys[i] = memphys_alloc()\<close> for \<open>i\<close> from \<open>0\<close>.\<close>

fun alloc_frames :: "nat \<Rightarrow> 'a mem_scheme \<Rightarrow> (u32 list, 'a mem_scheme) res" where
  "alloc_frames 0 s = Ret [] s"
| "alloc_frames (Suc n) s =
     bindr (memphys_pop s) (\<lambda>f s. bindr (alloc_frames n s) (\<lambda>fs. Ret (f # fs)))"

definition ipc_shm_create :: "u32 \<Rightarrow> u32 \<Rightarrow> u32 \<Rightarrow> u32 \<Rightarrow> 'a ipc_scheme \<Rightarrow> (u32, 'a ipc_scheme) res" where
  "ipc_shm_create key sz flags time s =
     bindr (if key \<noteq> IPC_PRIVATE then ipc_find key (-1) IPC_SHM s else Ret NULL s) (\<lambda>shm s.
       if shm = NULL then
         bindr (kmalloc_obj s) (\<lambda>new s.
           if new \<noteq> NULL then
             bindr (ipc_newid s) (\<lambda>ident s.
               let num_pages = ADDR2PAGE (PAGEUP sz) in
               bindr (kmalloc_obj s) (\<lambda>_ s.
               bindr (alloc_frames (unat num_pages) s) (\<lambda>frames s.
               bindr (getp (proc_current s) s) (\<lambda>c s.
                 Ret ident (s\<lparr>shms := (shms s)(new \<mapsto>
                     \<lparr>i_type = IPC_SHM, i_id = ident, i_key = key, i_owner = proc_current s,
                      i_creator = proc_current s, i_mode = flags AND 0x1FF,
                      h_size = sz, h_num_pages = num_pages, h_phys = frames, h_atts = [],
                      h_lopid = p_pid c, h_atime = 0, h_dtime = 0, h_ctime = 0\<rparr>),
                   ipc_objects := ll_push new (ipc_objects s)\<rparr>)))))
           else Ret (- ENOSPC) s)
       else Ret (- EEXIST) s)"

text \<open>
  \<open>ipc_shm_attach\<close>. Without a wanted address \<open>memuser_findvirt\<close> is called twice, once for the record of
  the attachment and the mapping, once for the address returned to the caller.
\<close>

definition ipc_shm_attach :: "u32 \<Rightarrow> u32 \<Rightarrow> u32 \<Rightarrow> u32 \<Rightarrow> 'a ipc_scheme \<Rightarrow> (u32, 'a ipc_scheme) res" where
  "ipc_shm_attach ident addr flags time s =
     bindr (load32 addr s) (\<lambda>virt s.
       if virt \<ge> USERDATA_ADDRESS \<or> virt = NULL then
         bindr (ipc_find (-1) ident IPC_SHM s) (\<lambda>shm s.
           if shm \<noteq> NULL then
             bindr (kmalloc_obj s) (\<lambda>new s.
               if new \<noteq> NULL then
                 bindr (getp (proc_current s) s) (\<lambda>c s.
                 bindr (getshm shm s) (\<lambda>x s.
                 bindr (if virt = NULL then memuser_findvirt (p_addrspace c) (h_num_pages x) s else Ret virt s)
                   (\<lambda>v s.
                   let readonly = flags AND SHM_RDONLY;
                       s = s\<lparr>atts := (atts s)(new \<mapsto>
                              \<lparr>sa_shm = shm, sa_proc = proc_current s, sa_virt = v, sa_readonly = readonly\<rparr>)\<rparr> in
                   bindr (if virt = NULL then memuser_findvirt (p_addrspace c) (h_num_pages x) s else Ret virt s)
                     (\<lambda>virt s.
                   bindr (foreach (\<lambda>(i, frame) s.
                            bindr (paging_map (v + of_nat i * PAGE_SIZE) frame 1 (if readonly = 0 then 1 else 0) s)
                              (\<lambda>_. Ret ()))
                            (zip [0..<unat (h_num_pages x)] (h_phys x)) s) (\<lambda>_ s.
                   bindr (updshm shm (\<lambda>x. x\<lparr>h_atts := ll_push new (h_atts x), h_atime := time, h_lopid := p_pid c\<rparr>) s)
                     (\<lambda>_ s.
                   bindr (store32 addr virt s) (\<lambda>_. Ret 0)))))))
               else Ret (- ENOSPC) s)
           else Ret (- EINVAL) s)
       else Ret (- EINVAL) s)"

text \<open>Unmapping the pages of an attachment.\<close>

definition unmap_att :: "u32 \<Rightarrow> u32 \<Rightarrow> 'a mem_scheme \<Rightarrow> (unit, 'a mem_scheme) res" where
  "unmap_att virt num_pages s =
     foreach (\<lambda>k s. bindr (paging_unmap (virt + of_nat k * PAGE_SIZE) s) (\<lambda>_. Ret ())) [0..<unat num_pages] s"

text \<open>The attachment of the current process at an address, with its position in the list.\<close>

fun find_att :: "u32 \<Rightarrow> u32 \<Rightarrow> u32 list \<Rightarrow> 'a ipc_scheme \<Rightarrow> (u32 option, 'a ipc_scheme) res" where
  "find_att virt j [] s = Ret None s"
| "find_att virt j (att # as) s =
     bindr (deref (atts s) att s) (\<lambda>a s.
       if sa_proc a = proc_current s \<and> sa_virt a = virt then Ret (Some j) s
       else find_att virt (j + 1) as s)"

fun detach_loop :: "u32 \<Rightarrow> u32 \<Rightarrow> u32 list \<Rightarrow> 'a ipc_scheme \<Rightarrow> (u32, 'a ipc_scheme) res" where
  "detach_loop virt time [] s = Ret (- EINVAL) s"
| "detach_loop virt time (shm # os) s =
     bindr (deref (ipc_header s) shm s) (\<lambda>h s.
       if i_type h = IPC_SHM then
         bindr (getshm shm s) (\<lambda>x s.
         bindr (find_att virt 0 (ll_elems (h_atts x)) s) (\<lambda>found s.
           case found of
             None \<Rightarrow> detach_loop virt time os s
           | Some j \<Rightarrow>
               bindr (unmap_att virt (h_num_pages x) s) (\<lambda>_ s.
               bindr (getp (proc_current s) s) (\<lambda>c s.
                 let (att, rest) = ll_remove (h_atts x) j in
                 bindr (updshm shm (\<lambda>x. x\<lparr>h_atts := rest, h_atime := time, h_lopid := p_pid c\<rparr>) s) (\<lambda>_ s.
                   Ret 0 (s\<lparr>atts := (atts s)(att := None)\<rparr>))))))
       else detach_loop virt time os s)"

definition ipc_shm_detach :: "u32 \<Rightarrow> u32 \<Rightarrow> 'a ipc_scheme \<Rightarrow> (u32, 'a ipc_scheme) res" where
  "ipc_shm_detach virt time s =
     (if virt < USERDATA_ADDRESS then Ret (-1) s
      else detach_loop virt time (ll_elems (ipc_objects s)) s)"

definition with_shm ::
  "u32 \<Rightarrow> u32 \<Rightarrow> (u32 \<Rightarrow> ipc_shm_t \<Rightarrow> 'a ipc_scheme \<Rightarrow> (u32, 'a ipc_scheme) res) \<Rightarrow>
   'a ipc_scheme \<Rightarrow> (u32, 'a ipc_scheme) res" where
  "with_shm ident op body s =
     bindr (ipc_find (-1) ident IPC_SHM s) (\<lambda>shm s.
       if shm = NULL then Ret (- EINVAL) s
       else bindr (ipc_shm_permcheck shm op s) (\<lambda>ok s.
         if ok then bindr (getshm shm s) (body shm) else Ret (- EACCES) s))"

definition ipc_shm_stat ::
  "u32 \<Rightarrow> u32 \<Rightarrow> u32 \<Rightarrow> u32 \<Rightarrow> u32 \<Rightarrow> u32 \<Rightarrow> u32 \<Rightarrow> u32 \<Rightarrow> u32 \<Rightarrow> u32 \<Rightarrow> u32 \<Rightarrow> u32 \<Rightarrow> u32 \<Rightarrow>
   'a ipc_scheme \<Rightarrow> (u32, 'a ipc_scheme) res" where
  "ipc_shm_stat ident uid gid cuid cgid mode segsz lpid cpid nattch atime dtime ctime s =
     with_shm ident PERM_R (\<lambda>shm x s.
       bindr (getp (i_owner x) s) (\<lambda>ow s.
       bindr (getp (i_creator x) s) (\<lambda>cr s.
       bindr (foreach (\<lambda>(p, v). store32 p v)
                [(uid, p_uid ow), (gid, p_gid ow), (cuid, p_uid cr), (cgid, p_gid cr), (cpid, p_pid cr),
                 (mode, i_mode x), (segsz, h_size x), (lpid, h_lopid x),
                 (nattch, of_nat (length (h_atts x))),
                 (atime, h_atime x), (dtime, h_dtime x), (ctime, h_ctime x)] s) (\<lambda>_. Ret 0)))) s"

definition ipc_shm_set :: "u32 \<Rightarrow> u32 \<Rightarrow> u32 \<Rightarrow> u32 \<Rightarrow> u32 \<Rightarrow> 'a ipc_scheme \<Rightarrow> (u32, 'a ipc_scheme) res" where
  "ipc_shm_set ident uid gid mode time s =
     with_shm ident PERM_W (\<lambda>shm x s.
       bindr (updshm shm (\<lambda>x. x\<lparr>i_mode := mode, h_ctime := time\<rparr>) s) (\<lambda>_. Ret 0)) s"

text \<open>\<open>ipc_shm_destroy\<close> checks no permission, and unmaps every attachment in the current address space.\<close>

definition ipc_shm_destroy :: "u32 \<Rightarrow> 'a ipc_scheme \<Rightarrow> (u32, 'a ipc_scheme) res" where
  "ipc_shm_destroy ident s =
     bindr (ipc_find (-1) ident IPC_SHM s) (\<lambda>shm s.
       if shm \<noteq> NULL then
         bindr (getshm shm s) (\<lambda>x s.
         bindr (drain (\<lambda>as. updshm shm (\<lambda>x. x\<lparr>h_atts := as\<rparr>))
                  (\<lambda>att s.
                    bindr (deref (atts s) att s) (\<lambda>a s.
                    bindr (unmap_att (sa_virt a) (h_num_pages x) s) (\<lambda>_ s.
                      Ret () (s\<lparr>atts := (atts s)(att := None)\<rparr>)))) (h_atts x) s) (\<lambda>_ s.
         bindr (foreach memphys_push (h_phys x) s) (\<lambda>_ s.
           Ret 0 (s\<lparr>shms := (shms s)(shm := None),
                    ipc_objects := snd (ll_remove_value (ipc_objects s) shm)\<rparr>))))
       else Ret (-1) s)"

end
