(* ===== verification/Rpc.thy ===== *)
theory Rpc
  imports Ipc
begin

text \<open>
  \<open>kernel2/rpc.c\<close>: remote procedure calls. A process registers functions; a caller leaves its
  parameters with the kernel and sleeps, the owner polls for them and returns a result into the
  address space of the caller. The strings of a function are freed when it is destroyed
  (\<open>None\<close>), while the function itself stays listed.
\<close>

unbundle bit_operations_syntax

record rpc_call_t =
  rc_caller :: u32
  rc_params :: "u8 list"
  rc_ret :: u32
  rc_ret_params :: u32
  rc_error :: u32

record rpc_function_t =
  rf_id :: u32
  rf_name :: "u8 list option"
  rf_func :: u32
  rf_synopsis :: "u8 list option"
  rf_params_size :: u32
  rf_owner :: u32
  rf_calls :: "u32 list"
  rf_current :: u32

text \<open>\<open>junk32\<close> stands for a word that \<open>malloc\<close> leaves uninitialised, such as the field \<open>current\<close> of a new function.\<close>

record rpc = ipc +
  rpc_functions :: "u32 list"
  rpc_lastid :: u32
  junk32 :: u32
  rfuncs :: "u32 \<Rightarrow> rpc_function_t option"
  rcalls :: "u32 \<Rightarrow> rpc_call_t option"

definition rpc_syscalls :: "(u32 \<times> sysfunc \<times> u32) list" where
  "rpc_syscalls =
     [(SYSCALL_RPC_CREATE, SysRpc F_rpc_function_create, 4),
      (SYSCALL_RPC_DESTROY, SysRpc F_rpc_function_destroy, 1),
      (SYSCALL_RPC_GETINFO, SysRpc F_rpc_function_getinfo, 8),
      (SYSCALL_RPC_CALL, SysRpc F_rpc_function_call, 5),
      (SYSCALL_RPC_POLL, SysRpc F_rpc_call_poll, 4),
      (SYSCALL_RPC_RETURN, SysRpc F_rpc_call_return, 3),
      (SYSCALL_RPC_LIST, SysRpc F_rpc_list, 3)]"

definition rpc_init :: "'a rpc_scheme \<Rightarrow> (u32, 'a rpc_scheme) res" where
  "rpc_init s =
     syscall_register rpc_syscalls (s\<lparr>rpc_functions := [], rpc_lastid := 0\<rparr>)"

definition getf :: "u32 \<Rightarrow> 'a rpc_scheme \<Rightarrow> (rpc_function_t, 'a rpc_scheme) res" where
  "getf a s = deref (rfuncs s) a s"

definition updf :: "u32 \<Rightarrow> (rpc_function_t \<Rightarrow> rpc_function_t) \<Rightarrow> 'a rpc_scheme \<Rightarrow> (unit, 'a rpc_scheme) res" where
  "updf a f s = bindr (getf a s) (\<lambda>x s. Ret () (s\<lparr>rfuncs := (rfuncs s)(a \<mapsto> f x)\<rparr>))"

definition freed_str :: "u8 list option \<Rightarrow> 's \<Rightarrow> (u8 list, 's) res" where
  "freed_str x s = (case x of None \<Rightarrow> Stop Dangling s | Some cs \<Rightarrow> Ret cs s)"

text \<open>\<open>strdup\<close> of a string in user memory; \<open>strlen(NULL)\<close> is \<open>0\<close>, so that one byte is copied from \<open>NULL\<close>.\<close>

definition strdup_user :: "u32 \<Rightarrow> 'a kernel_scheme \<Rightarrow> (u8 list, 'a kernel_scheme) res" where
  "strdup_user v s =
     bindr (if v = NULL then
              bindr (load8 NULL s) (\<lambda>b s. if b = 0 then Ret [] s else Stop Dangling s)
            else load_cstr v s) (\<lambda>cs s.
     bindr (kmalloc_obj s) (\<lambda>_. Ret cs))"

text \<open>\<open>strcmp\<close> of a string in user memory with one of the kernel: whether they are equal.\<close>

fun strcmp_user :: "u32 \<Rightarrow> u8 list \<Rightarrow> 'a mem_scheme \<Rightarrow> (bool, 'a mem_scheme) res" where
  "strcmp_user v [] s = bindr (load8 v s) (\<lambda>b. Ret (b = 0))"
| "strcmp_user v (c # cs) s = bindr (load8 v s) (\<lambda>b s. if b = c then strcmp_user (v + 1) cs s else Ret False s)"

text \<open>The condition of \<open>rpc_find\<close>, with the short circuits of the source.\<close>

definition rpc_match :: "u32 \<Rightarrow> u32 \<Rightarrow> u32 \<Rightarrow> u32 \<Rightarrow> u32 \<Rightarrow> u32 \<Rightarrow> 'a rpc_scheme \<Rightarrow> (bool, 'a rpc_scheme) res" where
  "rpc_match ident name owner pid has_calls func s =
     bindr (getf func s) (\<lambda>f s.
       if \<not> (ident = -1 \<or> ident = rf_id f) then Ret False s
       else
         bindr (if name = NULL then Ret True s
                else bindr (freed_str (rf_name f) s) (strcmp_user name))
           (\<lambda>same s.
           if \<not> same \<or> \<not> (owner = NULL \<or> owner = rf_owner f) then Ret False s
           else
             bindr (if pid = 0 then Ret True s else bindr (getp (rf_owner f) s) (\<lambda>p. Ret (pid = p_pid p)))
               (\<lambda>owned s. Ret (owned \<and> (has_calls = 0 \<or> rf_calls f \<noteq> [])) s)))"

fun rpc_find_loop ::
  "u32 \<Rightarrow> u32 \<Rightarrow> u32 \<Rightarrow> u32 \<Rightarrow> u32 \<Rightarrow> u32 list \<Rightarrow> 'a rpc_scheme \<Rightarrow> (u32, 'a rpc_scheme) res" where
  "rpc_find_loop ident name owner pid has_calls [] s = Ret NULL s"
| "rpc_find_loop ident name owner pid has_calls (func # fs) s =
     bindr (rpc_match ident name owner pid has_calls func s) (\<lambda>m s.
       if m then Ret func s else rpc_find_loop ident name owner pid has_calls fs s)"

definition rpc_find :: "u32 \<Rightarrow> u32 \<Rightarrow> u32 \<Rightarrow> u32 \<Rightarrow> u32 \<Rightarrow> 'a rpc_scheme \<Rightarrow> (u32, 'a rpc_scheme) res" where
  "rpc_find ident name owner pid has_calls s =
     rpc_find_loop ident name owner pid has_calls (ll_elems (rpc_functions s)) s"

definition rpc_function_create :: "u32 \<Rightarrow> u32 \<Rightarrow> u32 \<Rightarrow> u32 \<Rightarrow> 'a rpc_scheme \<Rightarrow> (u32, 'a rpc_scheme) res" where
  "rpc_function_create name func synopsis params_size s =
     bindr (kmalloc_obj s) (\<lambda>new s.
       let ident = rpc_lastid s; s = s\<lparr>rpc_lastid := rpc_lastid s + 1\<rparr> in
       bindr (strdup_user name s) (\<lambda>n s.
       bindr (strdup_user synopsis s) (\<lambda>syn s.
         Ret ident (s\<lparr>rfuncs := (rfuncs s)(new \<mapsto>
             \<lparr>rf_id = ident, rf_name = Some n, rf_func = func, rf_synopsis = Some syn,
              rf_params_size = params_size, rf_owner = proc_current s, rf_calls = [],
              rf_current = junk32 s\<rparr>),
           rpc_functions := ll_push new (rpc_functions s)\<rparr>))))"

definition rpc_call_destroy :: "u32 \<Rightarrow> 'a rpc_scheme \<Rightarrow> (u32, 'a rpc_scheme) res" where
  "rpc_call_destroy call s =
     bindr (deref (rcalls s) call s) (\<lambda>_ s. Ret 0 (s\<lparr>rcalls := (rcalls s)(call := None)\<rparr>))"

definition rpc_function_destroy :: "u32 \<Rightarrow> 'a rpc_scheme \<Rightarrow> (u32, 'a rpc_scheme) res" where
  "rpc_function_destroy ident s =
     bindr (rpc_find ident NULL NULL 0 0 s) (\<lambda>func s.
       if func \<noteq> NULL then
         bindr (getf func s) (\<lambda>f s.
           if rf_owner f = proc_current s then
             bindr (updf func (\<lambda>f. f\<lparr>rf_name := None, rf_synopsis := None\<rparr>) s) (\<lambda>_ s.
             bindr (drain (\<lambda>cs. updf func (\<lambda>f. f\<lparr>rf_calls := cs\<rparr>))
                      (\<lambda>call s. bindr (rpc_call_destroy call s) (\<lambda>_. Ret ())) (rf_calls f) s) (\<lambda>_.
               Ret 0))
           else Ret (- EACCES) s)
       else Ret (- EINVAL) s)"

definition rpc_function_getinfo ::
  "u32 \<Rightarrow> u32 \<Rightarrow> u32 \<Rightarrow> u32 \<Rightarrow> u32 \<Rightarrow> u32 \<Rightarrow> u32 \<Rightarrow> u32 \<Rightarrow> 'a rpc_scheme \<Rightarrow> (u32, 'a rpc_scheme) res" where
  "rpc_function_getinfo ident name pid has_calls params_size synopsis maxlen sleep s =
     bindr (rpc_find ident name NULL pid has_calls s) (\<lambda>func s.
       if func \<noteq> NULL then
         bindr (getf func s) (\<lambda>f s.
         bindr (freed_str (rf_synopsis f) s) (\<lambda>syn s.
         bindr (strncpy_user synopsis syn maxlen s) (\<lambda>_ s.
         bindr (store32 params_size (rf_params_size f) s) (\<lambda>_. Ret (rf_id f)))))
       else if sleep \<noteq> 0 \<and> has_calls \<noteq> 0 then
         bindr (getp (proc_current s) s) (\<lambda>c s.
           if pid = p_pid c then
             bindr (proc_sleep (proc_current s) (s\<lparr>curregs := (curregs s)\<lparr>r_eax := -1\<rparr>\<rparr>)) (\<lambda>_. Ret (-1))
           else Ret (- EINVAL) s)
       else Ret (- EINVAL) s)"

definition rpc_function_call :: "u32 \<Rightarrow> u32 \<Rightarrow> u32 \<Rightarrow> u32 \<Rightarrow> u32 \<Rightarrow> 'a rpc_scheme \<Rightarrow> (u32, 'a rpc_scheme) res" where
  "rpc_function_call ident params ret ret_params error s =
     bindr (rpc_find ident NULL NULL 0 0 s) (\<lambda>func s.
       if func \<noteq> NULL then
         bindr (kmalloc_obj s) (\<lambda>new s.
         bindr (getf func s) (\<lambda>f s.
         bindr (kmalloc_obj s) (\<lambda>_ s.
         bindr (load_bytes (unat (rf_params_size f)) params s) (\<lambda>bytes s.
         bindr (updf func (\<lambda>f. f\<lparr>rf_calls := ll_push new (rf_calls f)\<rparr>)
                  (s\<lparr>rcalls := (rcalls s)(new \<mapsto> \<lparr>rc_caller = proc_current s, rc_params = bytes, rc_ret = ret,
                     rc_ret_params = ret_params, rc_error = error\<rparr>)\<rparr>)) (\<lambda>_ s.
         bindr (store_opt error 1 s) (\<lambda>_ s.
         bindr (proc_wake (rf_owner f) s) (\<lambda>_ s.
         bindr (proc_sleep (proc_current s) (s\<lparr>curregs := (curregs s)\<lparr>r_eax := 0\<rparr>\<rparr>)) (\<lambda>_. Ret 0))))))))
       else Ret (- EINVAL) s)"

text \<open>The argument \<open>id\<close> of \<open>rpc_call_poll\<close> is not used.\<close>

definition rpc_call_poll :: "u32 \<Rightarrow> u32 \<Rightarrow> u32 \<Rightarrow> u32 \<Rightarrow> 'a rpc_scheme \<Rightarrow> (u32, 'a rpc_scheme) res" where
  "rpc_call_poll ident func_ptr params caller s =
     bindr (rpc_find (-1) NULL (proc_current s) 0 1 s) (\<lambda>func s.
       if func \<noteq> NULL then
         bindr (getf func s) (\<lambda>f s.
           let (call, rest) = ll_pop (rf_calls f) in
           bindr (updf func (\<lambda>f. f\<lparr>rf_calls := rest, rf_current := call\<rparr>) s) (\<lambda>_ s.
           bindr (store32 func_ptr (rf_func f) s) (\<lambda>_ s.
           bindr (deref (rcalls s) call s) (\<lambda>c s.
           bindr (getp (rc_caller c) s) (\<lambda>p s.
           bindr (store32 caller (p_pid p) s) (\<lambda>_ s.
           bindr (store_bytes (rc_params c) params s) (\<lambda>_. Ret 0)))))))
       else Ret (- EINVAL) s)"

definition rpc_call_return :: "u32 \<Rightarrow> u32 \<Rightarrow> u32 \<Rightarrow> 'a rpc_scheme \<Rightarrow> (u32, 'a rpc_scheme) res" where
  "rpc_call_return ident ret ret_params s =
     bindr (rpc_find ident NULL (proc_current s) 0 0 s) (\<lambda>func s.
       if func \<noteq> NULL then
         bindr (getf func s) (\<lambda>f s.
           let call = rf_current f in
           if call \<noteq> NULL then
             bindr (deref (rcalls s) call s) (\<lambda>c s.
             bindr (if rc_ret_params c \<noteq> NULL then
                      bindr (kmalloc_obj s) (\<lambda>_ s.
                      bindr (load_bytes (unat (rf_params_size f)) ret_params s) (\<lambda>buf s.
                      bindr (getp (rc_caller c) s) (\<lambda>p s.
                      bindr (memuser_load_addrspace (p_addrspace p) s) (\<lambda>_.
                        store_bytes buf (rc_ret_params c)))))
                    else
                      bindr (getp (rc_caller c) s) (\<lambda>p s.
                      bindr (memuser_load_addrspace (p_addrspace p) s) (\<lambda>_. Ret ()))) (\<lambda>_ s.
             bindr (store_opt (rc_ret c) ret s) (\<lambda>_ s.
             bindr (store_opt (rc_error c) 0 s) (\<lambda>_ s.
             bindr (getp (proc_current s) s) (\<lambda>p s.
             bindr (memuser_load_addrspace (p_addrspace p) s) (\<lambda>_ s.
             bindr (proc_wake (rc_caller c) s) (\<lambda>_ s.
             bindr (rpc_call_destroy call s) (\<lambda>_ s.
             bindr (updf func (\<lambda>f. f\<lparr>rf_current := NULL\<rparr>) s) (\<lambda>_. Ret 0)))))))))
           else Ret (- EINVAL) s)
       else Ret (- EINVAL) s)"

definition rpc_list :: "u32 \<Rightarrow> u32 \<Rightarrow> u32 \<Rightarrow> 'a rpc_scheme \<Rightarrow> (u32, 'a rpc_scheme) res" where
  "rpc_list i buf bufsize s =
     (let func = ll_get (rpc_functions s) i in
      if func \<noteq> NULL then
        bindr (getf func s) (\<lambda>f s.
        bindr (freed_str (rf_name f) s) (\<lambda>name s.
          if buf = NULL \<or> bufsize = 0 then Ret (of_nat (length name) + 1) s
          else
            bindr (strncpy_user buf name bufsize s) (\<lambda>_ s.
            bindr (load_cstr buf s) (\<lambda>cs. Ret (of_nat (length cs) + 1)))))
      else Ret 0 s)"

end
