(* ===== verification/IpcInv.thy ===== *)
theory IpcInv
  imports ProcOps Msg Sem Shm Rpc
begin

text \<open>
  The IPC objects and remote procedure calls keep the invariant of the process table: they read
  processes, wake others, and put only the running one to sleep.
\<close>

section \<open>Reads and writes of objects\<close>

lemma env_rel_ipc_fields [simp]:
  "env_rel s (s\<lparr>ipc_objects := a\<rparr>)" "env_rel s (s\<lparr>ipc_lastid := i\<rparr>)" "env_rel s (s\<lparr>msgqs := b\<rparr>)"
  "env_rel s (s\<lparr>msgs := c\<rparr>)" "env_rel s (s\<lparr>semsets := d\<rparr>)" "env_rel s (s\<lparr>sleepns := e\<rparr>)"
  "env_rel s (s\<lparr>shms := f\<rparr>)" "env_rel s (s\<lparr>atts := g\<rparr>)"
  by (simp_all add: env_rel_def)

lemma env_rel_rpc_fields [simp]:
  "env_rel s (s\<lparr>rpc_functions := a\<rparr>)" "env_rel s (s\<lparr>rpc_lastid := i\<rparr>)" "env_rel s (s\<lparr>rfuncs := b\<rparr>)"
  "env_rel s (s\<lparr>rcalls := c\<rparr>)"
  by (simp_all add: env_rel_def)

lemma env_rel_two [simp]:
  "env_rel s (s\<lparr>msgqs := b, ipc_objects := a\<rparr>)" "env_rel s (s\<lparr>ipc_objects := a, msgqs := b\<rparr>)"
  "env_rel s (s\<lparr>semsets := d, ipc_objects := a\<rparr>)" "env_rel s (s\<lparr>shms := f, ipc_objects := a\<rparr>)"
  by (simp_all add: env_rel_def)

lemma env_rel_two_rpc [simp]: "env_rel s (s\<lparr>rfuncs := b, rpc_functions := a\<rparr>)"
  "env_rel s (s\<lparr>rpc_functions := a, rpc_lastid := i\<rparr>)"
  by (simp_all add: env_rel_def)

lemma env_deref [env_intros]: "env s (deref m a s)"
  by (simp add: env_def deref_def split: option.split)

lemma env_freed_str [env_intros]: "env s (freed_str x s)"
  by (simp add: env_def freed_str_def split: option.split)

lemma env_load16 [env_intros]: "env s (load16 v s)"
  unfolding load16_def by (intro env_intros) simp_all

lemma env_store16 [env_intros]: "env s (store16 v x s)"
  unfolding store16_def by (intro env_intros)

lemma env_getters [env_intros]:
  "env s (getq a s)" "env s (getsem a s)" "env s (getshm a s)"
  unfolding getq_def getsem_def getshm_def by (intro env_intros)+

lemma env_getf [env_intros]: "env s (getf a s)"
  unfolding getf_def by (intro env_intros)

lemma env_updaters [env_intros]:
  "env s (updq a f1 s)" "env s (updsem a f2 s)" "env s (updshm a f3 s)"
  unfolding updq_def updsem_def updshm_def by (intro env_intros; simp)+

lemma env_updf [env_intros]: "env s (updf a f s)"
  unfolding updf_def by (intro env_intros; simp)

lemma env_get1 [env_intros]: "env s (get1 a n s)"
  unfolding get1_def by (intro env_intros) simp_all

lemma env_upd1 [env_intros]: "env s (upd1 a n f s)"
  unfolding upd1_def by (intro env_intros)

lemma env_ipc_find [env_intros]: "env s (ipc_find key ident typ s)"
proof -
  have "env s (ipc_find_loop key ident typ as s)" for as
  proof (induction as arbitrary: s)
    case (Cons a as)
    show ?case unfolding ipc_find_loop.simps by (intro env_intros Cons) simp
  qed (simp add: env_def)
  then show ?thesis unfolding ipc_find_def .
qed

lemma env_ipc_newid [env_intros]: "env s (ipc_newid s)"
  by (simp add: ipc_newid_def env_def)

lemma env_strcmp_user [env_intros]: "env s (strcmp_user v cs s)"
proof (induction cs arbitrary: v s)
  case Nil
  show ?case unfolding strcmp_user.simps by (intro env_intros) simp
next
  case (Cons c cs)
  show ?case unfolding strcmp_user.simps by (intro env_intros Cons) simp
qed

lemma env_strdup_user [env_intros]: "env s (strdup_user v s)"
  unfolding strdup_user_def by (intro env_intros) simp_all

section \<open>Message queues\<close>

lemma env_msg_permcheck [env_intros]: "env s (msg_permcheck q op s)"
  unfolding msg_permcheck_def by (intro env_intros) simp

lemma env_free_msg [env_intros]: "env s (free_msg m s)"
  by (simp add: free_msg_def env_def)

lemma env_find_msg [env_intros]: "env s (find_msg typ ms s)"
proof (induction ms arbitrary: s)
  case (Cons m ms)
  show ?case unfolding find_msg.simps by (intro env_intros Cons) simp
qed (simp add: env_def)

lemma env_ipc_msg_get [env_intros]: "env s (ipc_msg_get key s)"
  unfolding ipc_msg_get_def by (intro env_intros) simp_all

lemma env_ipc_msg_create [env_intros]: "env s (ipc_msg_create key mode time s)"
  unfolding ipc_msg_create_def by (intro env_intros) simp_all

lemma env_msg_stat [env_intros]:
  "env s (msg_stat ident uid gid cuid cgid mode num lspid lrpid stime rtime ctime s)"
  unfolding msg_stat_def split_def by (intro env_intros) simp_all

lemma env_msg_set [env_intros]: "env s (msg_set ident uid gid mode time s)"
  unfolding msg_set_def by (intro env_intros) simp_all

text \<open>What is left of the invariant after the steps within \<open>env_rel\<close>, as introduction rules.\<close>

lemmas inv_ops [inv_intros] =
  keeps_procs_op [OF env_deref] keeps_procs_op [OF env_getters(1)] keeps_procs_op [OF env_getters(2)]
  keeps_procs_op [OF env_getters(3)] keeps_procs_op [OF env_updaters(1)] keeps_procs_op [OF env_updaters(2)]
  keeps_procs_op [OF env_updaters(3)] keeps_procs_op [OF env_get1] keeps_procs_op [OF env_upd1]
  keeps_procs_op [OF env_getf] keeps_procs_op [OF env_updf] keeps_procs_op [OF env_freed_str]
  keeps_procs_op [OF env_ipc_find] keeps_procs_op [OF env_ipc_newid] keeps_procs_op [OF env_msg_permcheck]
  keeps_procs_op [OF env_free_msg] keeps_procs_op [OF env_find_msg]
  keeps_procs_op [OF mkeeps_load_bytes [THEN env_mem]] keeps_procs_op [OF mkeeps_store_bytes [THEN env_mem]]
  keeps_procs_op [OF mkeeps_load32 [THEN env_mem]] keeps_procs_op [OF mkeeps_strncpy_user [THEN env_mem]]
  keeps_procs_op [OF mkeeps_store_opt [THEN env_mem]]

lemma procs_ok_ipc_fields [simp]:
  "procs_ok (s\<lparr>ipc_objects := a\<rparr>) \<longleftrightarrow> procs_ok s" "procs_ok (s\<lparr>msgqs := b\<rparr>) \<longleftrightarrow> procs_ok s"
  "procs_ok (s\<lparr>msgs := c\<rparr>) \<longleftrightarrow> procs_ok s" "procs_ok (s\<lparr>semsets := d\<rparr>) \<longleftrightarrow> procs_ok s"
  "procs_ok (s\<lparr>sleepns := e\<rparr>) \<longleftrightarrow> procs_ok s"
  by (simp_all add: procs_ok_def table_ok_def proc_ok_def mallocs_ok_def)

lemma procs_ok_rpc_fields [simp]:
  "procs_ok (s\<lparr>rcalls := c\<rparr>) \<longleftrightarrow> procs_ok s"
  by (simp_all add: procs_ok_def table_ok_def proc_ok_def mallocs_ok_def)

lemma keeps_procs_sleep_current [inv_intros]:
  "procs_ok t \<Longrightarrow> p = proc_current t \<Longrightarrow> keeps_procs (proc_sleep p t)"
  by (simp add: keeps_procs_sleep)

lemma keeps_procs_wake_waiting [inv_intros]: "procs_ok s \<Longrightarrow> keeps_procs (wake_waiting q s)"
  unfolding wake_waiting_def by (intro goes_on_intros inv_intros)

lemma keeps_procs_ipc_msg_destroy [inv_intros]: "procs_ok s \<Longrightarrow> keeps_procs (ipc_msg_destroy ident s)"
  unfolding ipc_msg_destroy_def by (intro goes_on_intros inv_intros) simp_all

lemma keeps_procs_ipc_msg_send [inv_intros]:
  "procs_ok s \<Longrightarrow> keeps_procs (ipc_msg_send ident data msgsz typ flags time s)"
  unfolding ipc_msg_send_def by (intro goes_on_intros inv_intros) simp_all

lemma keeps_procs_ipc_msg_recv [inv_intros]:
  "procs_ok s \<Longrightarrow> keeps_procs (ipc_msg_recv ident data msgsz typ flags time s)"
  unfolding ipc_msg_recv_def by (intro goes_on_intros inv_intros) simp_all

section \<open>Semaphores\<close>

lemma env_ipc_sem_permcheck [env_intros]: "env s (ipc_sem_permcheck a op s)"
  unfolding ipc_sem_permcheck_def by (intro env_intros) simp_all

lemma env_ipc_sem_get [env_intros]: "env s (ipc_sem_get key s)"
  unfolding ipc_sem_get_def by (intro env_intros) simp_all

lemma env_ipc_sem_create [env_intros]: "env s (ipc_sem_create key n mode time s)"
  unfolding ipc_sem_create_def by (intro env_intros) simp_all

lemma env_with_semset [env_intros]:
  "(\<And>a x t. env t (body a x t)) \<Longrightarrow> env s (with_semset ident num op body s)"
  unfolding with_semset_def by (intro env_intros) simp_all

lemma env_sem_small [env_intros]:
  "env s (ipc_sem_getval ident num s)" "env s (ipc_sem_setval ident num val time s)"
  "env s (ipc_sem_getpid ident num s)" "env s (ipc_sem_getcnt ident num typ s)"
  "env s (ipc_sem_getall ident buf s)" "env s (ipc_sem_setall ident buf time s)"
  "env s (ipc_sem_set ident uid gid mode time s)"
  unfolding ipc_sem_getval_def ipc_sem_setval_def ipc_sem_getpid_def ipc_sem_getcnt_def
    ipc_sem_getall_def ipc_sem_setall_def ipc_sem_set_def
  by (intro env_intros; simp)+

lemma env_ipc_sem_stat [env_intros]:
  "env s (ipc_sem_stat ident uid gid cuid cgid mode nsems otime ctime s)"
  unfolding ipc_sem_stat_def split_def by (intro env_intros) simp_all

lemma env_load_sem_op [env_intros]: "env s (load_sem_op v s)"
  unfolding load_sem_op_def by (intro env_intros) simp

lemma keeps_procs_wake_waitz [inv_intros]: "procs_ok s \<Longrightarrow> keeps_procs (wake_waitz a n s)"
  unfolding wake_waitz_def by (intro goes_on_intros inv_intros)

lemma keeps_procs_wake_waitn [inv_intros]: "procs_ok s \<Longrightarrow> keeps_procs (wake_waitn a n s)"
  unfolding wake_waitn_def by (intro goes_on_intros inv_intros) simp_all

lemma keeps_procs_sem_wake [inv_intros]: "procs_ok s \<Longrightarrow> keeps_procs (sem_wake a n s)"
  unfolding sem_wake_def by (intro goes_on_intros inv_intros)

lemma keeps_procs_sem_apply [inv_intros]: "procs_ok s \<Longrightarrow> keeps_procs (sem_apply a n op i s)"
  unfolding sem_apply_def Let_def by (intro goes_on_intros inv_intros) simp_all

lemma goes_on_case_sum:
  "(\<And>x. r = Inl x \<Longrightarrow> goes_on (f x) P) \<Longrightarrow> (\<And>x. r = Inr x \<Longrightarrow> goes_on (g x) P) \<Longrightarrow>
   goes_on (case r of Inl x \<Rightarrow> f x | Inr x \<Rightarrow> g x) P"
  by (cases r) simp_all

lemma keeps_procs_ipc_sem_op [inv_intros]: "procs_ok s \<Longrightarrow> keeps_procs (ipc_sem_op ident ops nops time s)"
proof -
  have "keeps_procs (sem_op_loop k ident ops time i s)" if "procs_ok s" for k i
    using that
  proof (induction k arbitrary: i s)
    case (Suc k)
    then show ?case unfolding sem_op_loop.simps
      by (intro goes_on_intros inv_intros goes_on_case_sum keeps_procs_op [OF env_load_sem_op] Suc.IH)
  qed (simp add: goes_on_Ret)
  then show "procs_ok s \<Longrightarrow> ?thesis" unfolding ipc_sem_op_def .
qed

lemma keeps_procs_with_semset:
  "procs_ok s \<Longrightarrow> (\<And>a x t. procs_ok t \<Longrightarrow> keeps_procs (body a x t)) \<Longrightarrow>
   keeps_procs (with_semset ident num op body s)"
  unfolding with_semset_def
  by (intro goes_on_intros inv_intros keeps_procs_op [OF env_ipc_sem_permcheck]) simp_all

lemma keeps_procs_ipc_sem_destroy [inv_intros]: "procs_ok s \<Longrightarrow> keeps_procs (ipc_sem_destroy ident s)"
  unfolding ipc_sem_destroy_def
  by (intro keeps_procs_with_semset goes_on_intros inv_intros) simp_all

section \<open>Shared memory\<close>

lemma env_ipc_shm_permcheck [env_intros]: "env s (ipc_shm_permcheck a op s)"
  unfolding ipc_shm_permcheck_def by (intro env_intros) simp_all

lemma env_ipc_shm_get [env_intros]: "env s (ipc_shm_get key s)"
  unfolding ipc_shm_get_def by (intro env_intros) simp_all

lemma env_alloc_frames [env_intros]: "env s (alloc_frames n s)"
proof (induction n arbitrary: s)
  case (Suc n)
  show ?case unfolding alloc_frames.simps by (intro env_intros Suc) simp
qed (simp add: env_def)

lemma env_ipc_shm_create [env_intros]: "env s (ipc_shm_create key sz flags time s)"
  unfolding ipc_shm_create_def by (intro env_intros) simp_all

lemma env_ipc_shm_attach [env_intros]: "env s (ipc_shm_attach ident addr flags time s)"
proof -
  have find: "env t (memuser_findvirt a n (t\<lparr>atts := x\<rparr>))" for t :: "'a ipc_scheme" and a n x
    by (rule env_trans [OF _ env_memuser_findvirt]) simp
  show ?thesis unfolding ipc_shm_attach_def split_def by (intro env_intros find) simp_all
qed

lemma env_unmap_att [env_intros]: "env s (unmap_att v n s)"
  unfolding unmap_att_def by (intro env_intros) simp_all

lemma env_find_att [env_intros]: "env s (find_att virt j as s)"
proof (induction as arbitrary: j s)
  case (Cons a as)
  show ?case unfolding find_att.simps by (intro env_intros Cons) simp
qed (simp add: env_def)

lemma env_ipc_shm_detach [env_intros]: "env s (ipc_shm_detach virt time s)"
proof -
  have "env s (detach_loop virt time os s)" for os
  proof (induction os arbitrary: s)
    case (Cons o' os)
    show ?case unfolding detach_loop.simps split_def by (intro env_intros Cons) simp
  qed (simp add: env_def)
  then show ?thesis unfolding ipc_shm_detach_def by (intro env_intros) simp_all
qed

lemma env_with_shm [env_intros]: "(\<And>a x t. env t (body a x t)) \<Longrightarrow> env s (with_shm ident op body s)"
  unfolding with_shm_def by (intro env_intros) simp_all

lemma env_ipc_shm_stat [env_intros]:
  "env s (ipc_shm_stat ident uid gid cuid cgid mode segsz lpid cpid nattch atime dtime ctime s)"
  unfolding ipc_shm_stat_def split_def by (intro env_intros) simp_all

lemma env_ipc_shm_set [env_intros]: "env s (ipc_shm_set ident uid gid mode time s)"
  unfolding ipc_shm_set_def by (intro env_intros) simp_all

lemma env_ipc_shm_destroy [env_intros]: "env s (ipc_shm_destroy ident s)"
  unfolding ipc_shm_destroy_def by (intro env_intros) simp_all

section \<open>Remote procedure calls\<close>

lemma env_rpc_find [env_intros]: "env s (rpc_find ident name owner pid has_calls s)"
proof -
  have m: "env s (rpc_match ident name owner pid has_calls func s)" for func s
    unfolding rpc_match_def by (intro env_intros) simp_all
  have "env s (rpc_find_loop ident name owner pid has_calls fs s)" for fs
  proof (induction fs arbitrary: s)
    case (Cons f fs)
    show ?case unfolding rpc_find_loop.simps by (intro env_intros m Cons) simp
  qed (simp add: env_def)
  then show ?thesis unfolding rpc_find_def .
qed

lemma env_rpc_function_create [env_intros]: "env s (rpc_function_create name func syn sz s)"
proof -
  have dup: "env t (strdup_user v (t\<lparr>rpc_lastid := i\<rparr>))" for t :: "'a rpc_scheme" and v i
    by (rule env_trans [OF _ env_strdup_user]) simp
  show ?thesis unfolding rpc_function_create_def by (intro env_intros dup) simp_all
qed

lemma env_rpc_call_destroy [env_intros]: "env s (rpc_call_destroy c s)"
  unfolding rpc_call_destroy_def by (intro env_intros) simp

lemma env_rpc_function_destroy [env_intros]: "env s (rpc_function_destroy ident s)"
  unfolding rpc_function_destroy_def by (intro env_intros) simp_all

lemma env_rpc_call_poll [env_intros]: "env s (rpc_call_poll ident f params caller s)"
  unfolding rpc_call_poll_def split_def by (intro env_intros) simp_all

lemma env_rpc_list [env_intros]: "env s (rpc_list i buf n s)"
  unfolding rpc_list_def by (intro env_intros) simp_all

lemma keeps_procs_rpc_function_getinfo [inv_intros]:
  "procs_ok s \<Longrightarrow> keeps_procs (rpc_function_getinfo ident name pid has_calls params_size synopsis maxlen sleep s)"
  unfolding rpc_function_getinfo_def
  by (intro goes_on_intros inv_intros keeps_procs_op [OF env_rpc_find]) simp_all

lemma keeps_procs_rpc_function_call [inv_intros]:
  "procs_ok s \<Longrightarrow> keeps_procs (rpc_function_call ident params ret ret_params error s)"
  unfolding rpc_function_call_def
  by (intro goes_on_intros inv_intros keeps_procs_op [OF env_rpc_find]) simp_all

lemma keeps_procs_rpc_call_return [inv_intros]:
  "procs_ok s \<Longrightarrow> keeps_procs (rpc_call_return ident ret ret_params s)"
  unfolding rpc_call_return_def
  by (intro goes_on_intros inv_intros keeps_procs_op [OF env_rpc_find] keeps_procs_op [OF env_rpc_call_destroy])

end
