(* ===== verification/Interrupt.thy ===== *)
theory Interrupt
  imports Rpc
begin

text \<open>
  \<open>kernel2/interrupt.c\<close> with the parts of \<open>isr.asm\<close>, \<open>pic.c\<close>, \<open>lapic.c\<close> and \<open>cpu.c\<close> it needs: the
  stubs that build the interrupt frame, sleeping for a time or for an IRQ, the timer, the exception
  handler and the dispatcher of interrupts. A frame is the list of the words from the stack pointer
  upwards; \<open>interrupt_curregs\<close> points into it, here \<open>curregs\<close> holds the words themselves. Writes to
  I/O ports are logged, newest first.
\<close>

unbundle bit_operations_syntax

section \<open>State\<close>

datatype sleep_type = TIME_SLEEP | TIME_HANDLER

record interrupt_sleep_S =
  sl_type :: sleep_type
  sl_usec :: "64 word"
  sl_proc :: u32

datatype irq_type = IRQ_SLEEP | IRQ_HANDLER

record interrupt_irq_t =
  iq_type :: irq_type
  iq_proc :: u32
  iq_func :: u32

record cpu_t =
  cpu_enabled :: u32
  cpu_stack :: u32
  cpu_stacksize :: u32
  cpu_tss :: u32
  cpu_uselapic :: u32
  cpu_interval :: u32
  cpu_ticks :: u32

record irq = rpc +
  interrupt_sleep :: "u32 list"
  sleepers :: "u32 \<Rightarrow> interrupt_sleep_S option"
  interrupt_irq :: "u32 list list"
  irqs :: "u32 \<Rightarrow> interrupt_irq_t option"
  cpus :: "u32 list"
  cpu_objs :: "u32 \<Rightarrow> cpu_t option"
  isr_uselapic :: u32
  cr2 :: u32
  outs :: "(u32 \<times> u8) list"
  ins :: "u8 list"

section \<open>Ports\<close>

definition outb :: "u32 \<Rightarrow> u32 \<Rightarrow> 'a irq_scheme \<Rightarrow> (unit, 'a irq_scheme) res" where
  "outb port v s = Ret () (s\<lparr>outs := (port, ucast v) # outs s\<rparr>)"

text \<open>The answers of the devices are an input of the model; without one left a read does not return.\<close>

definition inb :: "u32 \<Rightarrow> 'a irq_scheme \<Rightarrow> (u8, 'a irq_scheme) res" where
  "inb port s = (case ins s of [] \<Rightarrow> Stop Diverge s | b # bs \<Rightarrow> Ret b (s\<lparr>ins := bs\<rparr>))"

definition pic_init :: "'a irq_scheme \<Rightarrow> (u32, 'a irq_scheme) res" where
  "pic_init s =
     bindr (inb 0x21 s) (\<lambda>a1 s.
     bindr (inb 0xA1 s) (\<lambda>a2 s.
     bindr (foreach (\<lambda>(port, v). outb port v)
              [(0x20, 0x11), (0xA0, 0x11), (0x21, 0x20), (0xA1, 0x28), (0x21, 4), (0xA1, 2),
               (0x21, 1), (0xA1, 1), (0x21, ucast a1), (0xA1, ucast a2)] s) (\<lambda>_. Ret 0)))"

definition pic_getmask :: "u32 \<Rightarrow> 'a irq_scheme \<Rightarrow> (u32, 'a irq_scheme) res" where
  "pic_getmask irq s =
     bindr (inb 0x21 s) (\<lambda>lo s. bindr (inb 0xA1 s) (\<lambda>hi. Ret (ucast lo OR push_bit 8 (ucast hi))))"

definition pic_setmask :: "u32 \<Rightarrow> u32 \<Rightarrow> 'a irq_scheme \<Rightarrow> (unit, 'a irq_scheme) res" where
  "pic_setmask irq msk s = bindr (outb 0x21 msk s) (\<lambda>_. outb 0xA1 (drop_bit 8 msk))"

definition pic_eoi :: "u32 \<Rightarrow> 'a irq_scheme \<Rightarrow> (unit, 'a irq_scheme) res" where
  "pic_eoi irq s = bindr (if 8 \<le>s irq then outb 0xA0 0x20 s else Ret () s) (\<lambda>_. outb 0x20 0x20)"

definition PIT_FREQ :: u32 where "PIT_FREQ = 1193180"

definition pic_pit_setinterval :: "u32 \<Rightarrow> u32 \<Rightarrow> 'a irq_scheme \<Rightarrow> (u32, 'a irq_scheme) res" where
  "pic_pit_setinterval channel interval s =
     (let val = PIT_FREQ * interval div 1000 in
      if channel <s 4 then
        bindr (outb (0x40 + channel) val s) (\<lambda>_ s.
        bindr (outb (0x40 + channel) (drop_bit 8 val) s) (\<lambda>_. Ret 0))
      else Ret (-1) s)"

section \<open>The processor\<close>

definition cpu_this :: "'a irq_scheme \<Rightarrow> u32" where
  "cpu_this s = ll_get (cpus s) 0"

definition getcpu :: "u32 \<Rightarrow> 'a irq_scheme \<Rightarrow> (cpu_t, 'a irq_scheme) res" where
  "getcpu a s = deref (cpu_objs s) a s"

definition updcpu :: "u32 \<Rightarrow> (cpu_t \<Rightarrow> cpu_t) \<Rightarrow> 'a irq_scheme \<Rightarrow> (unit, 'a irq_scheme) res" where
  "updcpu a f s = bindr (getcpu a s) (\<lambda>x s. Ret () (s\<lparr>cpu_objs := (cpu_objs s)(a \<mapsto> f x)\<rparr>))"

definition cpu_stack_create :: "u32 \<Rightarrow> u32 \<Rightarrow> 'a irq_scheme \<Rightarrow> (u32, 'a irq_scheme) res" where
  "cpu_stack_create cpu sz s =
     bindr (memkernel_alloc (PAGEUP sz) s) (\<lambda>stack s.
     bindr (updcpu cpu (\<lambda>c. c\<lparr>cpu_stack := stack\<rparr>) s) (\<lambda>_ s.
       if stack = NULL then Ret (-1) s
       else bindr (updcpu cpu (\<lambda>c. c\<lparr>cpu_stacksize := sz\<rparr>) s) (\<lambda>_. Ret 0)))"

text \<open>The fields \<open>ticks\<close>, \<open>interval\<close>, \<open>uselapic\<close> and \<open>tss\<close> keep what \<open>malloc\<close> left there.\<close>

definition new_cpu :: "u32 \<Rightarrow> cpu_t" where
  "new_cpu junk = \<lparr>cpu_enabled = 1, cpu_stack = junk, cpu_stacksize = junk, cpu_tss = junk,
     cpu_uselapic = junk, cpu_interval = junk, cpu_ticks = junk\<rparr>"

definition cpu_init :: "'a irq_scheme \<Rightarrow> (u32, 'a irq_scheme) res" where
  "cpu_init s =
     bindr (kmalloc_obj (s\<lparr>cpus := []\<rparr>)) (\<lambda>cpu s.
       if cpu = NULL then Ret (-1) s
       else
         bindr (cpu_stack_create cpu PAGE_SIZE (s\<lparr>cpu_objs := (cpu_objs s)(cpu \<mapsto> new_cpu (junk32 s))\<rparr>)) (\<lambda>_ s.
           Ret 0 (s\<lparr>cpus := ll_push cpu (cpus s)\<rparr>)))"

text \<open>The condition \<open>edx&(1<<9) && 0\<close> is never true: the local APIC is not used.\<close>

definition lapic_init :: "'a irq_scheme \<Rightarrow> (u32, 'a irq_scheme) res" where
  "lapic_init s =
     (let cpu = cpu_this s in
      bindr (pic_init s) (\<lambda>_ s.
      bindr (updcpu cpu (\<lambda>c. c\<lparr>cpu_uselapic := 0, cpu_interval := 10\<rparr>) (s\<lparr>isr_uselapic := 0\<rparr>)) (\<lambda>_ s.
      bindr (getcpu cpu s) (\<lambda>c s.
      bindr (pic_pit_setinterval 0 (cpu_interval c) s) (\<lambda>_. Ret (-1))))))"

definition interrupt_enable :: "u32 \<Rightarrow> 'a kernel_scheme \<Rightarrow> (unit, 'a kernel_scheme) res" where
  "interrupt_enable enable s = Ret () (s\<lparr>interrupt_enabled := enable\<rparr>)"

section \<open>The interrupt frame\<close>

text \<open>
  What the processor pushes when it leaves a user program, the stub \<open>isrXX\<close> of \<open>isr.asm\<close> and the two
  macros for the segment registers: \<open>pushsr\<close> pushes \<open>ds\<close> first and \<open>popsr\<close> also pops \<open>ds\<close> first.
  Vector 17 (alignment check) has an error code from the processor like 8 and 10 to 14, but its stub
  pushes a second one.
\<close>

definition hw_errcode :: "u32 \<Rightarrow> bool" where
  "hw_errcode n \<longleftrightarrow> n = 8 \<or> 10 \<le> n \<and> n \<le> 14 \<or> n = 17"

definition isr_dummy_errcode :: "u32 \<Rightarrow> bool" where
  "isr_dummy_errcode n \<longleftrightarrow> \<not> (n = 8 \<or> 10 \<le> n \<and> n \<le> 14)"

definition isr_pushsr :: "proc_registers \<Rightarrow> u32 list \<Rightarrow> u32 list" where
  "isr_pushsr r st = r_gs r # r_fs r # r_es r # r_ds r # st"

definition isr_pushad :: "proc_registers \<Rightarrow> u32 \<Rightarrow> u32 list \<Rightarrow> u32 list" where
  "isr_pushad r kesp st =
     r_edi r # r_esi r # r_ebp r # kesp # r_ebx r # r_edx r # r_ecx r # r_eax r # st"

definition isr_entry :: "u32 \<Rightarrow> u32 \<Rightarrow> u32 \<Rightarrow> proc_registers \<Rightarrow> vm86_segmentregs \<Rightarrow> u32 list" where
  "isr_entry n err kesp r v =
     (let st = [r_eip r, r_cs r, r_efl r, r_esp r, r_ss r, v_es v, v_ds v, v_fs v, v_gs v];
          st = (if hw_errcode n then err # st else st);
          st = (if isr_dummy_errcode n then 0 # st else st)
      in isr_pushad r kesp (isr_pushsr r st))"

text \<open>\<open>popad\<close>, \<open>popsr\<close>, \<open>add esp,4\<close> and \<open>iret\<close>.\<close>

definition isr_return :: "u32 list \<Rightarrow> proc_registers" where
  "isr_return st =
     \<lparr>r_eax = st ! 7, r_ebx = st ! 4, r_ecx = st ! 6, r_edx = st ! 5, r_esi = st ! 1, r_edi = st ! 0,
      r_ebp = st ! 2, r_esp = st ! 16, r_eip = st ! 13, r_efl = st ! 15, r_cs = st ! 14,
      r_ds = st ! 8, r_es = st ! 9, r_fs = st ! 10, r_gs = st ! 11, r_ss = st ! 17\<rparr>"

text \<open>The return of the system call stub: \<open>ds\<close> comes from a global variable, and \<open>dx\<close> is lost to it.\<close>

definition isr37_return :: "u32 \<Rightarrow> u32 list \<Rightarrow> proc_registers" where
  "isr37_return reg_ds st =
     (let r = isr_return st in
      r\<lparr>r_edx := (r_edx r AND 0xFFFF0000) OR (reg_ds AND 0xFFFF), r_ds := reg_ds AND 0xFFFF\<rparr>)"

text \<open>\<open>interrupt_save_stack\<close>: which word of the frame is which register. The error code is word 12.\<close>

definition interrupt_save_stack :: "u32 list \<Rightarrow> 'a kernel_scheme \<Rightarrow> (u32, 'a kernel_scheme) res" where
  "interrupt_save_stack st s =
     Ret (st ! 12) (s\<lparr>curregs :=
       \<lparr>r_eax = st ! 7, r_ebx = st ! 4, r_ecx = st ! 6, r_edx = st ! 5, r_esi = st ! 1, r_edi = st ! 0,
        r_ebp = st ! 2, r_esp = st ! 16, r_eip = st ! 13, r_efl = st ! 15, r_cs = st ! 14,
        r_ds = st ! 8, r_es = st ! 9, r_fs = st ! 10, r_gs = st ! 11, r_ss = st ! 17\<rparr>,
       vm86_curregs := \<lparr>v_es = st ! 18, v_ds = st ! 19, v_fs = st ! 20, v_gs = st ! 21\<rparr>\<rparr>)"

section \<open>Initialisation\<close>

definition interrupt_syscalls :: "(u32 \<times> sysfunc \<times> u32) list" where
  "interrupt_syscalls =
     [(SYSCALL_IRQ_HANDLER, SysIrq F_interrupt_irq_reghandler, 2),
      (SYSCALL_IRQ_SLEEP, SysIrq F_interrupt_irq_sleep, 1),
      (SYSCALL_TIME_SLEEP, SysIrq F_interrupt_time_sleep, 1),
      (SYSCALL_TIME_USLEEP, SysIrq F_interrupt_time_usleep, 1),
      (SYSCALL_TIME_GETTICKS, SysIrq F_interrupt_time_getticks, 0)]"

definition interrupt_init :: "'a irq_scheme \<Rightarrow> (u32, 'a irq_scheme) res" where
  "interrupt_init s =
     syscall_register interrupt_syscalls
       (s\<lparr>interrupt_enabled := 0, interrupt_sleep := [], interrupt_irq := replicate 16 []\<rparr>)"

section \<open>Sleeping for a time\<close>

definition interrupt_sleep_for :: "64 word \<Rightarrow> 'a irq_scheme \<Rightarrow> (u32, 'a irq_scheme) res" where
  "interrupt_sleep_for usec s =
     bindr (kmalloc_obj s) (\<lambda>new s.
     bindr (proc_sleep (proc_current s)
              (s\<lparr>sleepers := (sleepers s)(new \<mapsto> \<lparr>sl_type = TIME_SLEEP, sl_usec = usec, sl_proc = proc_current s\<rparr>),
                 interrupt_sleep := ll_push new (interrupt_sleep s)\<rparr>)) (\<lambda>_. Ret 0))"

text \<open>\<open>sec*1000000\<close> is a product of 32-bit numbers.\<close>

definition sleep_usec :: "u32 \<Rightarrow> 64 word" where
  "sleep_usec sec = ucast (sec * 1000000)"

definition interrupt_time_sleep :: "u32 \<Rightarrow> 'a irq_scheme \<Rightarrow> (u32, 'a irq_scheme) res" where
  "interrupt_time_sleep sec s = interrupt_sleep_for (sleep_usec sec) s"

definition interrupt_time_usleep :: "u32 \<Rightarrow> 'a irq_scheme \<Rightarrow> (u32, 'a irq_scheme) res" where
  "interrupt_time_usleep usec s = interrupt_sleep_for (ucast usec) s"

text \<open>
  The loop of \<open>interrupt_time_check\<close>. \<open>kept\<close> are the entries already passed; the index \<open>i\<close> of the
  code is their number, and \<open>llist_remove\<close> takes the entry at that index out of the list.
\<close>

fun time_check_loop :: "64 word \<Rightarrow> u32 list \<Rightarrow> u32 list \<Rightarrow> 'a irq_scheme \<Rightarrow> (unit, 'a irq_scheme) res" where
  "time_check_loop usec kept [] s = Ret () s"
| "time_check_loop usec kept (a # as) s =
     (if a = NULL then Ret () s
      else bindr (deref (sleepers s) a s) (\<lambda>x s.
        if sl_usec x \<le> usec then
          bindr (if sl_type x = TIME_SLEEP then bindr (proc_wake (sl_proc x) s) (\<lambda>_. Ret ()) else Ret () s) (\<lambda>_ s.
            time_check_loop usec kept as (s\<lparr>interrupt_sleep := kept @ as\<rparr>))
        else
          time_check_loop usec (kept @ [a]) as
            (s\<lparr>sleepers := (sleepers s)(a \<mapsto> x\<lparr>sl_usec := sl_usec x - usec\<rparr>)\<rparr>)))"

definition interrupt_time_check :: "u32 \<Rightarrow> 'a irq_scheme \<Rightarrow> (unit, 'a irq_scheme) res" where
  "interrupt_time_check usec s = time_check_loop (ucast usec) [] (interrupt_sleep s) s"

definition interrupt_time_getticks :: "'a irq_scheme \<Rightarrow> (u32, 'a irq_scheme) res" where
  "interrupt_time_getticks s = bindr (getcpu (cpu_this s) s) (\<lambda>c. Ret (cpu_ticks c))"

section \<open>Interrupt requests\<close>

definition irq_push :: "u32 \<Rightarrow> interrupt_irq_t \<Rightarrow> 'a irq_scheme \<Rightarrow> (u32, 'a irq_scheme) res" where
  "irq_push irq x s =
     bindr (kmalloc_obj s) (\<lambda>new s.
       let i = unat irq in
       Ret 0 (s\<lparr>irqs := (irqs s)(new \<mapsto> x),
                interrupt_irq := (interrupt_irq s)[i := ll_push new (interrupt_irq s ! i)]\<rparr>))"

definition interrupt_irq_reghandler :: "u32 \<Rightarrow> u32 \<Rightarrow> 'a irq_scheme \<Rightarrow> (u32, 'a irq_scheme) res" where
  "interrupt_irq_reghandler irq func s =
     (if irq < 16 then irq_push irq \<lparr>iq_type = IRQ_HANDLER, iq_proc = proc_current s, iq_func = func\<rparr> s
      else Ret (-1) s)"

text \<open>\<open>interrupt_irq_sleep\<close> enters the process in the list but does not put it to sleep.\<close>

definition interrupt_irq_sleep :: "u32 \<Rightarrow> 'a irq_scheme \<Rightarrow> (u32, 'a irq_scheme) res" where
  "interrupt_irq_sleep irq s =
     (if irq < 16 then irq_push irq \<lparr>iq_type = IRQ_SLEEP, iq_proc = proc_current s, iq_func = junk32 s\<rparr> s
      else Ret (-1) s)"

fun irq_check_loop :: "u32 \<Rightarrow> u32 list \<Rightarrow> u32 list \<Rightarrow> 'a irq_scheme \<Rightarrow> (unit, 'a irq_scheme) res" where
  "irq_check_loop irq kept [] s = Ret () s"
| "irq_check_loop irq kept (a # as) s =
     (if a = NULL then Ret () s
      else bindr (deref (irqs s) a s) (\<lambda>x s.
        if iq_type x = IRQ_SLEEP then
          bindr (proc_wake (iq_proc x) s) (\<lambda>_ s.
            irq_check_loop irq kept as
              (s\<lparr>irqs := (irqs s)(a := None), interrupt_irq := (interrupt_irq s)[unat irq := kept @ as]\<rparr>))
        else
          bindr (proc_call (iq_proc x) (iq_func x) [irq] s) (\<lambda>_. irq_check_loop irq (kept @ [a]) as)))"

definition interrupt_irq_check :: "u32 \<Rightarrow> 'a irq_scheme \<Rightarrow> (unit, 'a irq_scheme) res" where
  "interrupt_irq_check irq s = irq_check_loop irq [] (interrupt_irq s ! unat irq) s"

section \<open>Handlers\<close>

definition interrupt_timer :: "'a irq_scheme \<Rightarrow> (unit, 'a irq_scheme) res" where
  "interrupt_timer s =
     (let cpu = cpu_this s in
      bindr (updcpu cpu (\<lambda>c. c\<lparr>cpu_ticks := cpu_ticks c + 1\<rparr>) s) (\<lambda>_ s.
      bindr (getcpu cpu s) (\<lambda>c s.
      bindr (interrupt_time_check (cpu_interval c * 1000) s) (\<lambda>_. proc_shedule))))"

text \<open>\<open>lapic\<close> is a pointer that no code initialises.\<close>

definition interrupt_lapic_handler :: "u32 \<Rightarrow> 'a irq_scheme \<Rightarrow> (unit, 'a irq_scheme) res" where
  "interrupt_lapic_handler interrupt s =
     bindr (Stop Dangling s :: (unit, _) res) (\<lambda>_ s. if interrupt = 0x30 then interrupt_timer s else Ret () s)"

definition interrupt_irq_handler :: "u32 \<Rightarrow> 'a irq_scheme \<Rightarrow> (unit, 'a irq_scheme) res" where
  "interrupt_irq_handler irq s =
     bindr (pic_eoi irq s) (\<lambda>_ s. if irq = 0 then interrupt_timer s else interrupt_irq_check irq s)"

definition INTERRUPT_EXCEPTION_INVALID_OPCODE :: u32 where "INTERRUPT_EXCEPTION_INVALID_OPCODE = 0x06"
definition INTERRUPT_EXCEPTION_PAGE_FAULT :: u32 where "INTERRUPT_EXCEPTION_PAGE_FAULT = 0x0E"

text \<open>
  The exception handler without its messages. The interrupt gates of the IDT disable interrupts, so
  \<open>cpu_halt\<close> does not return.
\<close>

definition cpu_halt :: "'s \<Rightarrow> (unit, 's) res" where
  "cpu_halt s = Stop Shutdown s"

definition interrupt_exception_handler :: "u32 \<Rightarrow> u32 \<Rightarrow> 'a irq_scheme \<Rightarrow> (unit, 'a irq_scheme) res" where
  "interrupt_exception_handler exception errcode s =
     bindr (if exception = INTERRUPT_EXCEPTION_PAGE_FAULT
            then bindr (memuser_pagefault (cr2 s) s) (\<lambda>r. Ret (r = 0))
            else Ret False s) (\<lambda>handled s.
       if handled then Ret () s
       else
         bindr (cpu_halt s) (\<lambda>_ s.
         bindr (signal_send (proc_current s)
                  (if exception = INTERRUPT_EXCEPTION_PAGE_FAULT then SIGSEGV
                   else if exception = INTERRUPT_EXCEPTION_INVALID_OPCODE then SIGILL else SIGKILL) s) (\<lambda>_.
           proc_idle)))"

text \<open>The condition for the local APIC asks for a number above \<open>0x2F\<close> that equals \<open>0x0F\<close>.\<close>

definition interrupt_handler :: "u32 \<Rightarrow> u32 list \<Rightarrow> 'a irq_scheme \<Rightarrow> (unit, 'a irq_scheme) res" where
  "interrupt_handler interrupt stack s =
     (let cpu = cpu_this s in
      bindr (interrupt_save_stack stack s) (\<lambda>errorcode s.
      bindr (if interrupt < 0x20 \<and> interrupt \<noteq> 0x0F
             then interrupt_exception_handler interrupt errorcode s else Ret () s) (\<lambda>_ s.
      bindr (if interrupt > 0x1F \<and> interrupt < 0x30
             then interrupt_irq_handler (interrupt - 0x20) s else Ret () s) (\<lambda>_ s.
      bindr (getcpu cpu s) (\<lambda>c s.
      bindr (if cpu_uselapic c = 0 \<and> interrupt = 0x30
             then interrupt_irq_handler 0 s else Ret () s) (\<lambda>_ s.
      bindr (getcpu cpu s) (\<lambda>c s.
      bindr (if cpu_uselapic c \<noteq> 0 \<and> interrupt > 0x2F \<and> interrupt < 0x37 \<and> interrupt = 0x0F
             then interrupt_lapic_handler interrupt s else Ret () s) (\<lambda>_ s.
        if proc_current s = NULL then proc_shedule s else Ret () s))))))))"

text \<open>
  A whole interrupt: the stub for vector \<open>0x20\<close> only prints when the local APIC is used, and jumps to
  the one for \<open>0x30\<close> otherwise; the words of the frame that \<open>interrupt_curregs\<close> points to are restored by the stub.
\<close>

definition isr_frame :: "u32 list \<Rightarrow> proc_registers \<Rightarrow> u32 list" where
  "isr_frame st r =
     [r_edi r, r_esi r, r_ebp r, st ! 3, r_ebx r, r_edx r, r_ecx r, r_eax r,
      r_ds r, r_es r, r_fs r, r_gs r, st ! 12, r_eip r, r_cs r, r_efl r, r_esp r, r_ss r] @ drop 18 st"

definition isr :: "u32 \<Rightarrow> u32 \<Rightarrow> u32 \<Rightarrow> proc_registers \<Rightarrow> vm86_segmentregs \<Rightarrow> 'a irq_scheme \<Rightarrow> (proc_registers, 'a irq_scheme) res" where
  "isr n err kesp r v s =
     (if n = 0x20 \<and> isr_uselapic s \<noteq> 0 then Ret r s
      else
        let n = (if n = 0x20 then 0x30 else n); st = isr_entry n err kesp r v in
        bindr (interrupt_handler n st s) (\<lambda>_ s. Ret (isr_return (isr_frame st (curregs s))) s))"

end
