(* ===== verification/Syscall.thy ===== *)
theory Syscall
  imports Interrupt Msg Sem Shm
begin

text \<open>
  The handler of system calls (\<open>kernel2/syscall.c\<close>, the stub \<open>isr37\<close> and \<open>dyn_call\<close> of
  \<open>lib/libmeinos/dyncall.asm\<close>), with the small system calls of \<open>ioport.c\<close>, \<open>biosint.c\<close> and \<open>main.c\<close>
  and the initialiser of the IPC components.
\<close>

unbundle bit_operations_syntax

section \<open>Small system calls\<close>

definition ioport_syscalls :: "(u32 \<times> sysfunc \<times> u32) list" where
  "ioport_syscalls =
     [(SYSCALL_IO_REG, SysMisc F_ioport_reg, 1), (SYSCALL_IO_UNREG, SysMisc F_ioport_unreg, 1)]"

definition ioport_init :: "'a kernel_scheme \<Rightarrow> (u32, 'a kernel_scheme) res" where
  "ioport_init s =
     bindr (kmalloc_obj s) (\<lambda>_.
       syscall_register ioport_syscalls)"

definition ioport_reg :: "u32 \<Rightarrow> 's \<Rightarrow> (u32, 's) res" where
  "ioport_reg port s = Ret 0 s"

definition ioport_unreg :: "u32 \<Rightarrow> 's \<Rightarrow> (u32, 's) res" where
  "ioport_unreg port s = Ret 0 s"

definition biosint_init :: "'a kernel_scheme \<Rightarrow> (u32, 'a kernel_scheme) res" where
  "biosint_init s = syscall_register [(SYSCALL_MISC_BIOSINT, SysMisc F_biosint_call, 10)] s"

text \<open>The name \<open>bios_int\<close>. The new process is never started, and the caller sleeps until something wakes it.\<close>

definition bios_int_name :: "u8 list" where
  "bios_int_name = [0x62, 0x69, 0x6F, 0x73, 0x5F, 0x69, 0x6E, 0x74]"

definition biosint_call ::
  "u32 \<Rightarrow> u32 \<Rightarrow> u16 \<Rightarrow> u16 \<Rightarrow> u16 \<Rightarrow> u16 \<Rightarrow> u16 \<Rightarrow> u16 \<Rightarrow> u16 \<Rightarrow> u16 \<Rightarrow> 'a kernel_scheme \<Rightarrow>
   (u16, 'a kernel_scheme) res" where
  "biosint_call meminfo meminfo_count ax bx cx dx si di ds es s =
     bindr (getp (proc_current s) s) (\<lambda>c s.
     bindr (vm86_proc_create bios_int_name (p_uid c) (p_gid c) (proc_current s) s) (\<lambda>proc s.
     bindr (load16 (IVT_ADDRESS + 2 * (0x10 * 2)) s) (\<lambda>ip s.
     bindr (load16 (IVT_ADDRESS + 2 * (0x10 * 2 + 1)) s) (\<lambda>cs s.
     bindr (updp proc (\<lambda>p. p\<lparr>p_registers := (p_registers p)\<lparr>
              r_eax := ucast ax, r_ebx := ucast bx, r_ecx := ucast cx, r_edx := ucast dx,
              r_esi := ucast si, r_edi := ucast di, r_ds := ucast ds, r_es := ucast es,
              r_eip := ucast ip, r_cs := ucast cs\<rparr>\<rparr>) s) (\<lambda>_ s.
     bindr (foreach (\<lambda>i s. bindr (load32 (meminfo + 4 * of_nat i) s) (\<lambda>_. Ret ()))
              [0..<unat (meminfo_count * 3)] s) (\<lambda>_ s.
     bindr (proc_sleep (proc_current s) s) (\<lambda>_. Ret (-1))))))))"

definition fourtytwo :: "'s \<Rightarrow> (u32, 's) res" where
  "fourtytwo s = Ret 42 s"

text \<open>\<open>putsn\<close> reads a byte before it looks at \<open>maxlen\<close>; the printing itself is not modelled.\<close>

fun putsn_loop :: "nat \<Rightarrow> u32 \<Rightarrow> u32 \<Rightarrow> 'a mem_scheme \<Rightarrow> (u32, 'a mem_scheme) res" where
  "putsn_loop 0 buf i s = bindr (load8 (buf + i) s) (\<lambda>_. Ret i)"
| "putsn_loop (Suc n) buf i s =
     bindr (load8 (buf + i) s) (\<lambda>b s. if b \<noteq> 0 then putsn_loop n buf (i + 1) s else Ret i s)"

definition putsn :: "u32 \<Rightarrow> u32 \<Rightarrow> 'a mem_scheme \<Rightarrow> (u32, 'a mem_scheme) res" where
  "putsn buf maxlen s = putsn_loop (unat maxlen) buf 0 s"

definition ipc_init :: "'a ipc_scheme \<Rightarrow> (u32, 'a ipc_scheme) res" where
  "ipc_init s =
     bindr (ipc_msg_init (s\<lparr>ipc_objects := [], ipc_lastid := 0\<rparr>)) (\<lambda>r s.
       if r = -1 then Ret (-1) s
       else bindr (ipc_sem_init s) (\<lambda>r s.
         if r = -1 then Ret (-1) s
         else bindr (ipc_shm_init s) (\<lambda>r s. if r = -1 then Ret (-1) s else Ret 0 s)))"

section \<open>Calling a function through its pointer\<close>

text \<open>How many parameters each C function has.\<close>

fun sys_arity :: "sysfunc \<Rightarrow> nat" where
  "sys_arity (SysMem f) = (case f of
      F_memuser_alloc_syscall \<Rightarrow> 1 | F_memuser_free_syscall \<Rightarrow> 1 | F_memuser_getphysaddr_syscall \<Rightarrow> 1
    | F_memuser_dma_alloc \<Rightarrow> 1 | F_memuser_dma_free \<Rightarrow> 2 | F_memuser_getvga \<Rightarrow> 0)"
| "sys_arity (SysMsg f) = (case f of
      F_ipc_msg_get \<Rightarrow> 1 | F_ipc_msg_create \<Rightarrow> 3 | F_ipc_msg_destroy \<Rightarrow> 1
    | F_ipc_msg_send \<Rightarrow> 6 | F_ipc_msg_recv \<Rightarrow> 6)"
| "sys_arity (SysSem f) = (case f of
      F_ipc_sem_get \<Rightarrow> 1 | F_ipc_sem_create \<Rightarrow> 4 | F_ipc_sem_op \<Rightarrow> 4 | F_ipc_sem_getval \<Rightarrow> 2
    | F_ipc_sem_setval \<Rightarrow> 4 | F_ipc_sem_getpid \<Rightarrow> 2 | F_ipc_sem_getcnt \<Rightarrow> 3 | F_ipc_sem_getall \<Rightarrow> 2
    | F_ipc_sem_setall \<Rightarrow> 3 | F_ipc_sem_stat \<Rightarrow> 9 | F_ipc_sem_set \<Rightarrow> 5 | F_ipc_sem_destroy \<Rightarrow> 1)"
| "sys_arity (SysShm f) = (case f of
      F_ipc_shm_get \<Rightarrow> 1 | F_ipc_shm_create \<Rightarrow> 4 | F_ipc_shm_attach \<Rightarrow> 4 | F_ipc_shm_detach \<Rightarrow> 2
    | F_ipc_shm_stat \<Rightarrow> 13 | F_ipc_shm_set \<Rightarrow> 5 | F_ipc_shm_destroy \<Rightarrow> 1)"
| "sys_arity (SysRpc f) = (case f of
      F_rpc_function_create \<Rightarrow> 4 | F_rpc_function_destroy \<Rightarrow> 1 | F_rpc_function_getinfo \<Rightarrow> 8
    | F_rpc_function_call \<Rightarrow> 5 | F_rpc_call_poll \<Rightarrow> 4 | F_rpc_call_return \<Rightarrow> 3 | F_rpc_list \<Rightarrow> 3)"
| "sys_arity (SysProc f) = (case f of
      F_proc_getpid \<Rightarrow> 0 | F_proc_getuid \<Rightarrow> 1 | F_proc_getgid \<Rightarrow> 1 | F_proc_setuid \<Rightarrow> 2 | F_proc_setgid \<Rightarrow> 2
    | F_proc_getparent \<Rightarrow> 1 | F_proc_getchild \<Rightarrow> 2 | F_proc_getname \<Rightarrow> 3 | F_proc_setname \<Rightarrow> 2
    | F_proc_getpidbyname \<Rightarrow> 1 | F_proc_getvar \<Rightarrow> 1 | F_proc_setvar \<Rightarrow> 2 | F_proc_exit \<Rightarrow> 1
    | F_proc_abort \<Rightarrow> 0 | F_proc_stop \<Rightarrow> 0 | F_proc_create_syscall \<Rightarrow> 4 | F_proc_destroy_syscall \<Rightarrow> 1
    | F_proc_memmap \<Rightarrow> 6 | F_proc_memalloc \<Rightarrow> 4 | F_proc_memunmap \<Rightarrow> 2 | F_proc_memfree \<Rightarrow> 2
    | F_proc_memget \<Rightarrow> 6 | F_proc_mempagelist \<Rightarrow> 3 | F_proc_system \<Rightarrow> 2 | F_proc_jump \<Rightarrow> 2
    | F_proc_createstack \<Rightarrow> 1 | F_proc_getstack \<Rightarrow> 1 | F_proc_setstack \<Rightarrow> 2 | F_proc_waitpid \<Rightarrow> 3)"
| "sys_arity (SysIrq f) = (case f of
      F_interrupt_time_sleep \<Rightarrow> 1 | F_interrupt_time_usleep \<Rightarrow> 1 | F_interrupt_time_getticks \<Rightarrow> 0
    | F_interrupt_irq_reghandler \<Rightarrow> 2 | F_interrupt_irq_sleep \<Rightarrow> 1)"
| "sys_arity (SysMisc f) = (case f of
      F_ioport_reg \<Rightarrow> 1 | F_ioport_unreg \<Rightarrow> 1 | F_signal_setup \<Rightarrow> 1 | F_signal_send_syscall \<Rightarrow> 2
    | F_biosint_call \<Rightarrow> 10 | F_putsn \<Rightarrow> 2 | F_fourtytwo \<Rightarrow> 0)"

text \<open>
  The calls, one function per component; \<open>a i\<close> is the \<open>i\<close>-th word above the return address. What a
  \<open>void\<close> function leaves in \<open>eax\<close> is unknown (\<open>junk32\<close>).
\<close>

definition void_res :: "(unit, 'a irq_scheme) res \<Rightarrow> (u32, 'a irq_scheme) res" where
  "void_res r = bindr r (\<lambda>_ s. Ret (junk32 s) s)"

definition call_mem :: "mem_func \<Rightarrow> (nat \<Rightarrow> u32) \<Rightarrow> 'a irq_scheme \<Rightarrow> (u32, 'a irq_scheme) res" where
  "call_mem f a s = (case f of
      F_memuser_alloc_syscall \<Rightarrow> memuser_alloc_syscall (a 0) s
    | F_memuser_free_syscall \<Rightarrow> memuser_free_syscall (a 0) s
    | F_memuser_getphysaddr_syscall \<Rightarrow> memuser_getphysaddr_syscall (a 0) s
    | F_memuser_dma_alloc \<Rightarrow> memuser_dma_alloc (a 0) s
    | F_memuser_dma_free \<Rightarrow> memuser_dma_free (a 0) (a 1) s
    | F_memuser_getvga \<Rightarrow> memuser_getvga s)"

definition call_msg :: "msg_func \<Rightarrow> (nat \<Rightarrow> u32) \<Rightarrow> 'a irq_scheme \<Rightarrow> (u32, 'a irq_scheme) res" where
  "call_msg f a s = (case f of
      F_ipc_msg_get \<Rightarrow> ipc_msg_get (a 0) s
    | F_ipc_msg_create \<Rightarrow> ipc_msg_create (a 0) (a 1) (a 2) s
    | F_ipc_msg_destroy \<Rightarrow> ipc_msg_destroy (a 0) s
    | F_ipc_msg_send \<Rightarrow> ipc_msg_send (a 0) (a 1) (a 2) (a 3) (a 4) (a 5) s
    | F_ipc_msg_recv \<Rightarrow> ipc_msg_recv (a 0) (a 1) (a 2) (a 3) (a 4) (a 5) s)"

definition call_sem :: "sem_func \<Rightarrow> (nat \<Rightarrow> u32) \<Rightarrow> 'a irq_scheme \<Rightarrow> (u32, 'a irq_scheme) res" where
  "call_sem f a s = (case f of
      F_ipc_sem_get \<Rightarrow> ipc_sem_get (a 0) s
    | F_ipc_sem_create \<Rightarrow> ipc_sem_create (a 0) (a 1) (a 2) (a 3) s
    | F_ipc_sem_op \<Rightarrow> ipc_sem_op (a 0) (a 1) (a 2) (a 3) s
    | F_ipc_sem_getval \<Rightarrow> ipc_sem_getval (a 0) (a 1) s
    | F_ipc_sem_setval \<Rightarrow> ipc_sem_setval (a 0) (a 1) (a 2) (a 3) s
    | F_ipc_sem_getpid \<Rightarrow> ipc_sem_getpid (a 0) (a 1) s
    | F_ipc_sem_getcnt \<Rightarrow> ipc_sem_getcnt (a 0) (a 1) (a 2) s
    | F_ipc_sem_getall \<Rightarrow> ipc_sem_getall (a 0) (a 1) s
    | F_ipc_sem_setall \<Rightarrow> ipc_sem_setall (a 0) (a 1) (a 2) s
    | F_ipc_sem_stat \<Rightarrow> ipc_sem_stat (a 0) (a 1) (a 2) (a 3) (a 4) (a 5) (a 6) (a 7) (a 8) s
    | F_ipc_sem_set \<Rightarrow> ipc_sem_set (a 0) (a 1) (a 2) (a 3) (a 4) s
    | F_ipc_sem_destroy \<Rightarrow> ipc_sem_destroy (a 0) s)"

definition call_shm :: "shm_func \<Rightarrow> (nat \<Rightarrow> u32) \<Rightarrow> 'a irq_scheme \<Rightarrow> (u32, 'a irq_scheme) res" where
  "call_shm f a s = (case f of
      F_ipc_shm_get \<Rightarrow> ipc_shm_get (a 0) s
    | F_ipc_shm_create \<Rightarrow> ipc_shm_create (a 0) (a 1) (a 2) (a 3) s
    | F_ipc_shm_attach \<Rightarrow> ipc_shm_attach (a 0) (a 1) (a 2) (a 3) s
    | F_ipc_shm_detach \<Rightarrow> ipc_shm_detach (a 0) (a 1) s
    | F_ipc_shm_stat \<Rightarrow> ipc_shm_stat (a 0) (a 1) (a 2) (a 3) (a 4) (a 5) (a 6) (a 7) (a 8) (a 9) (a 10) (a 11) (a 12) s
    | F_ipc_shm_set \<Rightarrow> ipc_shm_set (a 0) (a 1) (a 2) (a 3) (a 4) s
    | F_ipc_shm_destroy \<Rightarrow> ipc_shm_destroy (a 0) s)"

definition call_rpc :: "rpc_func \<Rightarrow> (nat \<Rightarrow> u32) \<Rightarrow> 'a irq_scheme \<Rightarrow> (u32, 'a irq_scheme) res" where
  "call_rpc f a s = (case f of
      F_rpc_function_create \<Rightarrow> rpc_function_create (a 0) (a 1) (a 2) (a 3) s
    | F_rpc_function_destroy \<Rightarrow> rpc_function_destroy (a 0) s
    | F_rpc_function_getinfo \<Rightarrow> rpc_function_getinfo (a 0) (a 1) (a 2) (a 3) (a 4) (a 5) (a 6) (a 7) s
    | F_rpc_function_call \<Rightarrow> rpc_function_call (a 0) (a 1) (a 2) (a 3) (a 4) s
    | F_rpc_call_poll \<Rightarrow> rpc_call_poll (a 0) (a 1) (a 2) (a 3) s
    | F_rpc_call_return \<Rightarrow> rpc_call_return (a 0) (a 1) (a 2) s
    | F_rpc_list \<Rightarrow> rpc_list (a 0) (a 1) (a 2) s)"

definition call_proc :: "proc_func \<Rightarrow> (nat \<Rightarrow> u32) \<Rightarrow> 'a irq_scheme \<Rightarrow> (u32, 'a irq_scheme) res" where
  "call_proc f a s = (case f of
      F_proc_getpid \<Rightarrow> proc_getpid s
    | F_proc_getuid \<Rightarrow> proc_getuid (a 0) s
    | F_proc_getgid \<Rightarrow> proc_getgid (a 0) s
    | F_proc_setuid \<Rightarrow> void_res (proc_setuid (a 0) (a 1) s)
    | F_proc_setgid \<Rightarrow> void_res (proc_setgid (a 0) (a 1) s)
    | F_proc_getparent \<Rightarrow> proc_getparent (a 0) s
    | F_proc_getchild \<Rightarrow> proc_getchild (a 0) (a 1) s
    | F_proc_getname \<Rightarrow> proc_getname (a 0) (a 1) (a 2) s
    | F_proc_setname \<Rightarrow> proc_setname (a 0) (a 1) s
    | F_proc_getpidbyname \<Rightarrow> proc_getpidbyname (a 0) s
    | F_proc_getvar \<Rightarrow> proc_getvar (a 0) s
    | F_proc_setvar \<Rightarrow> void_res (proc_setvar (a 0) (a 1) s)
    | F_proc_exit \<Rightarrow> proc_exit (a 0) s
    | F_proc_abort \<Rightarrow> proc_abort s
    | F_proc_stop \<Rightarrow> void_res (proc_stop s)
    | F_proc_create_syscall \<Rightarrow> proc_create_syscall (a 0) (a 1) (a 2) (a 3) s
    | F_proc_destroy_syscall \<Rightarrow> proc_destroy_syscall (a 0) s
    | F_proc_memmap \<Rightarrow> proc_memmap (a 0) (a 1) (a 2) (a 3) (a 4) (a 5) s
    | F_proc_memalloc \<Rightarrow> proc_memalloc (a 0) (a 1) (a 2) (a 3) s
    | F_proc_memunmap \<Rightarrow> proc_memunmap (a 0) (a 1) s
    | F_proc_memfree \<Rightarrow> proc_memfree (a 0) (a 1) s
    | F_proc_memget \<Rightarrow> proc_memget (a 0) (a 1) (a 2) (a 3) (a 4) (a 5) s
    | F_proc_mempagelist \<Rightarrow> proc_mempagelist (a 0) (a 1) (a 2) s
    | F_proc_system \<Rightarrow> proc_system (a 0) (a 1) s
    | F_proc_jump \<Rightarrow> proc_jump (a 0) (a 1) s
    | F_proc_createstack \<Rightarrow> proc_createstack (a 0) s
    | F_proc_getstack \<Rightarrow> proc_getstack (a 0) s
    | F_proc_setstack \<Rightarrow> proc_setstack (a 0) (a 1) s
    | F_proc_waitpid \<Rightarrow> proc_waitpid (a 0) (a 1) (a 2) s)"

definition call_irq :: "irq_func \<Rightarrow> (nat \<Rightarrow> u32) \<Rightarrow> 'a irq_scheme \<Rightarrow> (u32, 'a irq_scheme) res" where
  "call_irq f a s = (case f of
      F_interrupt_time_sleep \<Rightarrow> interrupt_time_sleep (a 0) s
    | F_interrupt_time_usleep \<Rightarrow> interrupt_time_usleep (a 0) s
    | F_interrupt_time_getticks \<Rightarrow> interrupt_time_getticks s
    | F_interrupt_irq_reghandler \<Rightarrow> interrupt_irq_reghandler (a 0) (a 1) s
    | F_interrupt_irq_sleep \<Rightarrow> interrupt_irq_sleep (a 0) s)"

definition call_misc :: "misc_func \<Rightarrow> (nat \<Rightarrow> u32) \<Rightarrow> 'a irq_scheme \<Rightarrow> (u32, 'a irq_scheme) res" where
  "call_misc f a s = (case f of
      F_ioport_reg \<Rightarrow> ioport_reg (a 0) s
    | F_ioport_unreg \<Rightarrow> ioport_unreg (a 0) s
    | F_signal_setup \<Rightarrow> void_res (signal_setup (a 0) s)
    | F_signal_send_syscall \<Rightarrow> void_res (signal_send_syscall (a 0) (a 1) s)
    | F_biosint_call \<Rightarrow>
        bindr (biosint_call (a 0) (a 1) (ucast (a 2)) (ucast (a 3)) (ucast (a 4)) (ucast (a 5)) (ucast (a 6))
                 (ucast (a 7)) (ucast (a 8)) (ucast (a 9)) s) (\<lambda>r. Ret (ucast r))
    | F_putsn \<Rightarrow> putsn (a 0) (a 1) s
    | F_fourtytwo \<Rightarrow> fourtytwo s)"

definition call_sys :: "sysfunc \<Rightarrow> (nat \<Rightarrow> u32) \<Rightarrow> 'a irq_scheme \<Rightarrow> (u32, 'a irq_scheme) res" where
  "call_sys f a s = (case f of
      SysMem g \<Rightarrow> call_mem g a s | SysMsg g \<Rightarrow> call_msg g a s | SysSem g \<Rightarrow> call_sem g a s
    | SysShm g \<Rightarrow> call_shm g a s | SysRpc g \<Rightarrow> call_rpc g a s | SysProc g \<Rightarrow> call_proc g a s
    | SysIrq g \<Rightarrow> call_irq g a s | SysMisc g \<Rightarrow> call_misc g a s)"

text \<open>\<open>dyn_call\<close> pushes the parameters from the last to the first.\<close>

fun load_params :: "nat \<Rightarrow> u32 \<Rightarrow> 'a mem_scheme \<Rightarrow> (u32 list, 'a mem_scheme) res" where
  "load_params 0 v s = Ret [] s"
| "load_params (Suc n) v s =
     bindr (load32 (v + 4 * of_nat n) s) (\<lambda>x s. bindr (load_params n v s) (\<lambda>xs. Ret (xs @ [x])))"

definition dyn_call :: "sysfunc \<Rightarrow> u32 \<Rightarrow> u32 \<Rightarrow> 'a irq_scheme \<Rightarrow> (u32, 'a irq_scheme) res" where
  "dyn_call f params numparams s =
     bindr (load_params (unat numparams) params s) (\<lambda>xs s.
       call_sys f (\<lambda>i. if i < length xs then xs ! i else junk32 s) s)"

section \<open>The handler\<close>

definition syscall_handler :: "u32 list \<Rightarrow> 'a irq_scheme \<Rightarrow> (unit, 'a irq_scheme) res" where
  "syscall_handler stack s =
     (let caller = proc_current s in
      bindr (interrupt_save_stack stack s) (\<lambda>_ s.
      bindr (load32 (r_esp (curregs s)) s) (\<lambda>cmd s.
      bindr (load32 (r_esp (curregs s) + 4) s) (\<lambda>params s.
      bindr (if cmd \<le>s SYSCALL_MAXNUM then
               bindr (syscall_entry cmd s) (\<lambda>e s.
                 case sys_func e of
                   Some f \<Rightarrow> dyn_call f params (sys_numparams e) s
                 | None \<Rightarrow> bindr (signal_send (proc_current s) SIGSYS s) (\<lambda>_. Ret (-1)))
             else Ret (-1) s) (\<lambda>r s.
        if proc_current s = caller then Ret () (s\<lparr>curregs := (curregs s)\<lparr>r_eax := r\<rparr>\<rparr>) else Ret () s)))))"

text \<open>The stub \<open>isr37\<close> around it.\<close>

definition isr37 :: "u32 \<Rightarrow> proc_registers \<Rightarrow> vm86_segmentregs \<Rightarrow> 'a irq_scheme \<Rightarrow> (proc_registers, 'a irq_scheme) res" where
  "isr37 kesp r v s =
     (let st = isr_entry 0x37 0 kesp r v in
      bindr (syscall_handler st s) (\<lambda>_ s. Ret (isr37_return (r_ds r) (isr_frame st (curregs s))) s))"

end
