(* ===== verification/KernelInv.thy ===== *)
theory KernelInv
  imports IpcInv Syscall
begin

text \<open>
  Interrupts and system calls as a whole keep the invariant of the process table.
\<close>

section \<open>Interrupts\<close>

lemma env_rel_irq_fields [simp]:
  "env_rel s (s\<lparr>interrupt_sleep := a\<rparr>)" "env_rel s (s\<lparr>sleepers := b\<rparr>)" "env_rel s (s\<lparr>interrupt_irq := c\<rparr>)"
  "env_rel s (s\<lparr>irqs := d\<rparr>)" "env_rel s (s\<lparr>cpus := e\<rparr>)" "env_rel s (s\<lparr>cpu_objs := f\<rparr>)"
  "env_rel s (s\<lparr>isr_uselapic := g\<rparr>)" "env_rel s (s\<lparr>outs := h\<rparr>)" "env_rel s (s\<lparr>ins := i\<rparr>)"
  "env_rel s (s\<lparr>irqs := d, interrupt_irq := c\<rparr>)"
  by (simp_all add: env_rel_def)

lemma procs_ok_irq_fields [simp]:
  "procs_ok (s\<lparr>interrupt_sleep := a\<rparr>) \<longleftrightarrow> procs_ok s" "procs_ok (s\<lparr>sleepers := b\<rparr>) \<longleftrightarrow> procs_ok s"
  "procs_ok (s\<lparr>interrupt_irq := c\<rparr>) \<longleftrightarrow> procs_ok s" "procs_ok (s\<lparr>irqs := d\<rparr>) \<longleftrightarrow> procs_ok s"
  by (simp_all add: procs_ok_def table_ok_def proc_ok_def mallocs_ok_def)

lemma procs_ok_vm86_curregs [simp]: "procs_ok (s\<lparr>vm86_curregs := r\<rparr>) \<longleftrightarrow> procs_ok s"
  by (simp add: procs_ok_def table_ok_def proc_ok_def mallocs_ok_def)

lemma env_getcpu [env_intros]: "env s (getcpu a s)"
  unfolding getcpu_def by (intro env_intros)

lemma env_updcpu [env_intros]: "env s (updcpu a f s)"
  unfolding updcpu_def by (intro env_intros; simp)

lemma env_outb [env_intros]: "env s (outb port v s)"
  by (simp add: outb_def env_def)

lemma env_pic_eoi [env_intros]: "env s (pic_eoi irq s)"
  unfolding pic_eoi_def by (intro env_intros) simp

lemma env_interrupt_save_stack [env_intros]: "env s (interrupt_save_stack st s)"
  by (simp add: interrupt_save_stack_def env_def env_rel_def)

lemma env_irq_push [env_intros]: "env s (irq_push irq x s)"
  unfolding irq_push_def by (intro env_intros) simp_all

lemmas inv_irq_ops [inv_intros] =
  keeps_procs_op [OF env_getcpu] keeps_procs_op [OF env_updcpu] keeps_procs_op [OF env_pic_eoi]
  keeps_procs_op [OF env_interrupt_save_stack] keeps_procs_op [OF env_irq_push]

lemma keeps_procs_sleep_for [inv_intros]: "procs_ok s \<Longrightarrow> keeps_procs (interrupt_sleep_for usec s)"
  unfolding interrupt_sleep_for_def by (intro goes_on_intros inv_intros) simp_all

lemma keeps_procs_time_check [inv_intros]: "procs_ok s \<Longrightarrow> keeps_procs (interrupt_time_check usec s)"
proof -
  have "keeps_procs (time_check_loop u kept as s)" if "procs_ok s" for u kept as
    using that
  proof (induction as arbitrary: kept s)
    case (Cons a as)
    then show ?case unfolding time_check_loop.simps
      by (intro goes_on_intros inv_intros Cons.IH) simp_all
  qed (simp add: goes_on_Ret)
  then show "procs_ok s \<Longrightarrow> ?thesis" unfolding interrupt_time_check_def .
qed

lemma keeps_procs_irq_check [inv_intros]: "procs_ok s \<Longrightarrow> keeps_procs (interrupt_irq_check irq s)"
proof -
  have "keeps_procs (irq_check_loop irq kept as s)" if "procs_ok s" for kept as
    using that
  proof (induction as arbitrary: kept s)
    case (Cons a as)
    then show ?case unfolding irq_check_loop.simps
      by (intro goes_on_intros inv_intros Cons.IH) simp_all
  qed (simp add: goes_on_Ret)
  then show "procs_ok s \<Longrightarrow> ?thesis" unfolding interrupt_irq_check_def .
qed

lemma keeps_procs_shedule_ok [inv_intros]: "procs_ok s \<Longrightarrow> keeps_procs (proc_shedule s)"
  by (rule keeps_procs_shedule [OF procs_ok_sched_pre])

lemma keeps_procs_timer [inv_intros]: "procs_ok s \<Longrightarrow> keeps_procs (interrupt_timer s)"
  unfolding interrupt_timer_def by (intro goes_on_intros inv_intros)

lemma keeps_procs_irq_handler [inv_intros]: "procs_ok s \<Longrightarrow> keeps_procs (interrupt_irq_handler irq s)"
  unfolding interrupt_irq_handler_def by (intro goes_on_intros inv_intros)

lemma keeps_procs_exception_handler [inv_intros]:
  "procs_ok s \<Longrightarrow> keeps_procs (interrupt_exception_handler e err s)"
proof -
  have halt: "goes_on (bindr (cpu_halt t) g) P" for t :: "'a irq_scheme" and g P
    by (simp add: cpu_halt_def goes_on_def)
  show "procs_ok s \<Longrightarrow> ?thesis" unfolding interrupt_exception_handler_def
    by (intro halt goes_on_if goes_on_bindr inv_intros goes_on_Ret keeps_procs_op [OF env_memuser_pagefault])
qed

lemma keeps_procs_handler [inv_intros]: "procs_ok s \<Longrightarrow> keeps_procs (interrupt_handler n st s)"
proof -
  have lapic: "goes_on (interrupt_lapic_handler n t) P" for t :: "'a irq_scheme" and P
    by (simp add: interrupt_lapic_handler_def goes_on_def)
  show "procs_ok s \<Longrightarrow> ?thesis" unfolding interrupt_handler_def
    by (intro goes_on_intros inv_intros lapic)
qed

lemma keeps_procs_isr: "procs_ok s \<Longrightarrow> keeps_procs (isr n err kesp r v s)"
  unfolding isr_def by (intro goes_on_intros inv_intros)

section \<open>System calls\<close>

lemma keeps_procs_void_res: "keeps_procs r \<Longrightarrow> keeps_procs (void_res r)"
  unfolding void_res_def by (intro goes_on_intros)

lemma keeps_procs_putsn: "procs_ok s \<Longrightarrow> keeps_procs (putsn buf n s)"
proof -
  have "env s (putsn_loop k buf i s)" for k i
  proof (induction k arbitrary: i s)
    case 0
    show ?case unfolding putsn_loop.simps by (intro env_intros) simp
  next
    case (Suc k)
    show ?case unfolding putsn_loop.simps by (intro env_intros Suc) simp
  qed
  then show "procs_ok s \<Longrightarrow> ?thesis" unfolding putsn_def by (intro keeps_procs_op)
qed

lemma keeps_procs_biosint: "procs_ok s \<Longrightarrow> keeps_procs (biosint_call m n ax bx cx dx si di ds es s)"
  unfolding biosint_call_def
  by (intro goes_on_intros inv_intros keeps_procs_op [OF env_load16]) (simp_all add: pcore_def)

lemma keeps_procs_call_mem: "procs_ok s \<Longrightarrow> keeps_procs (call_mem f a s)"
  by (cases f) (simp_all add: call_mem_def keeps_procs_op [OF env_memuser_alloc_syscall]
    keeps_procs_op [OF env_memuser_free_syscall] keeps_procs_op [OF env_memuser_getphysaddr_syscall]
    keeps_procs_op [OF env_memuser_dma_alloc] keeps_procs_op [OF env_memuser_dma_free]
    keeps_procs_op [OF env_memuser_getvga])

lemma keeps_procs_call_msg: "procs_ok s \<Longrightarrow> keeps_procs (call_msg f a s)"
  by (cases f) (simp_all add: call_msg_def keeps_procs_op [OF env_ipc_msg_get]
    keeps_procs_op [OF env_ipc_msg_create] keeps_procs_ipc_msg_destroy keeps_procs_ipc_msg_send
    keeps_procs_ipc_msg_recv)

lemma keeps_procs_call_sem: "procs_ok s \<Longrightarrow> keeps_procs (call_sem f a s)"
  by (cases f) (simp_all add: call_sem_def keeps_procs_op [OF env_ipc_sem_get]
    keeps_procs_op [OF env_ipc_sem_create] keeps_procs_ipc_sem_op keeps_procs_op [OF env_sem_small(1)]
    keeps_procs_op [OF env_sem_small(2)] keeps_procs_op [OF env_sem_small(3)]
    keeps_procs_op [OF env_sem_small(4)] keeps_procs_op [OF env_sem_small(5)]
    keeps_procs_op [OF env_sem_small(6)] keeps_procs_op [OF env_sem_small(7)]
    keeps_procs_op [OF env_ipc_sem_stat] keeps_procs_ipc_sem_destroy)

lemma keeps_procs_call_shm: "procs_ok s \<Longrightarrow> keeps_procs (call_shm f a s)"
  by (cases f) (simp_all add: call_shm_def keeps_procs_op [OF env_ipc_shm_get]
    keeps_procs_op [OF env_ipc_shm_create] keeps_procs_op [OF env_ipc_shm_attach]
    keeps_procs_op [OF env_ipc_shm_detach] keeps_procs_op [OF env_ipc_shm_stat]
    keeps_procs_op [OF env_ipc_shm_set] keeps_procs_op [OF env_ipc_shm_destroy])

lemma keeps_procs_call_rpc: "procs_ok s \<Longrightarrow> keeps_procs (call_rpc f a s)"
  by (cases f) (simp_all add: call_rpc_def keeps_procs_op [OF env_rpc_function_create]
    keeps_procs_op [OF env_rpc_function_destroy] keeps_procs_rpc_function_getinfo
    keeps_procs_rpc_function_call keeps_procs_op [OF env_rpc_call_poll] keeps_procs_rpc_call_return
    keeps_procs_op [OF env_rpc_list])

lemma keeps_procs_call_proc: "procs_ok s \<Longrightarrow> keeps_procs (call_proc f a s)"
  by (cases f) (simp_all add: call_proc_def keeps_procs_void_res
    keeps_procs_op [OF env_proc_getpid] keeps_procs_op [OF env_proc_getuid] keeps_procs_op [OF env_proc_getgid]
    keeps_procs_op [OF env_proc_setuid] keeps_procs_op [OF env_proc_setgid] keeps_procs_op [OF env_proc_getparent]
    keeps_procs_op [OF env_proc_getchild] keeps_procs_op [OF env_proc_getname] keeps_procs_op [OF env_proc_setname]
    keeps_procs_op [OF env_proc_getpidbyname] keeps_procs_op [OF env_proc_getvar] keeps_procs_op [OF env_proc_setvar]
    keeps_procs_exit keeps_procs_abort keeps_procs_stop keeps_procs_create_syscall keeps_procs_destroy_syscall
    keeps_procs_op [OF env_proc_memmap] keeps_procs_op [OF env_proc_memalloc] keeps_procs_op [OF env_proc_memunmap]
    keeps_procs_op [OF env_proc_memfree] keeps_procs_op [OF env_proc_memget] keeps_procs_op [OF env_proc_mempagelist]
    keeps_procs_op [OF env_proc_system] keeps_procs_op [OF env_proc_jump] keeps_procs_op [OF env_proc_createstack]
    keeps_procs_op [OF env_proc_getstack] keeps_procs_op [OF env_proc_setstack] keeps_procs_waitpid)

lemma keeps_procs_call_irq: "procs_ok s \<Longrightarrow> keeps_procs (call_irq f a s)"
proof -
  have ticks: "procs_ok s \<Longrightarrow> keeps_procs (interrupt_time_getticks s)"
    unfolding interrupt_time_getticks_def by (intro goes_on_intros inv_intros)
  show "procs_ok s \<Longrightarrow> ?thesis"
    by (cases f) (simp_all add: call_irq_def interrupt_time_sleep_def interrupt_time_usleep_def ticks
      keeps_procs_sleep_for interrupt_irq_reghandler_def interrupt_irq_sleep_def
      keeps_procs_op [OF env_irq_push] goes_on_Ret)
qed

lemma keeps_procs_call_misc: "procs_ok s \<Longrightarrow> keeps_procs (call_misc f a s)"
  by (cases f) (simp_all add: call_misc_def keeps_procs_void_res ioport_reg_def ioport_unreg_def fourtytwo_def
    goes_on_Ret keeps_procs_op [OF env_signal_setup] keeps_procs_signal_send_syscall keeps_procs_putsn
    keeps_procs_biosint goes_on_bindr)

lemma keeps_procs_call_sys [inv_intros]: "procs_ok s \<Longrightarrow> keeps_procs (call_sys f a s)"
  by (cases f) (simp_all add: call_sys_def keeps_procs_call_mem keeps_procs_call_msg keeps_procs_call_sem
    keeps_procs_call_shm keeps_procs_call_rpc keeps_procs_call_proc keeps_procs_call_irq keeps_procs_call_misc)

lemma env_load_params [env_intros]: "env s (load_params n v s)"
proof (induction n arbitrary: s)
  case (Suc n)
  show ?case unfolding load_params.simps by (intro env_intros Suc) simp
qed (simp add: env_def)

lemma keeps_procs_dyn_call [inv_intros]: "procs_ok s \<Longrightarrow> keeps_procs (dyn_call f params n s)"
  unfolding dyn_call_def by (intro goes_on_intros inv_intros keeps_procs_op [OF env_load_params])

lemma goes_on_case_option:
  "(r = None \<Longrightarrow> goes_on f P) \<Longrightarrow> (\<And>x. r = Some x \<Longrightarrow> goes_on (g x) P) \<Longrightarrow>
   goes_on (case r of None \<Rightarrow> f | Some x \<Rightarrow> g x) P"
  by (cases r) simp_all

lemma env_syscall_entry [env_intros]: "env s (syscall_entry cmd s)"
  by (simp add: syscall_entry_def env_def)

lemma keeps_procs_syscall_handler [inv_intros]: "procs_ok s \<Longrightarrow> keeps_procs (syscall_handler st s)"
  unfolding syscall_handler_def
  by (intro goes_on_intros inv_intros goes_on_case_option keeps_procs_op [OF env_syscall_entry]) simp_all

lemma keeps_procs_isr37: "procs_ok s \<Longrightarrow> keeps_procs (isr37 kesp r v s)"
  unfolding isr37_def by (intro goes_on_intros inv_intros)

end
