(* ===== verification/Desc.thy ===== *)
theory Desc
  imports Interrupt
begin

text \<open>
  The descriptor tables of the processor (\<open>kernel2/gdt.c\<close>, \<open>idt.c\<close>, \<open>tss.c\<close>). The instructions that load
  the tables are not modelled; how the processor reads a descriptor is given by decoding functions.
\<close>

unbundle bit_operations_syntax

section \<open>Segments\<close>

record gdtdesc_t =
  gd_size0_15 :: u16
  gd_base0_15 :: u16
  gd_base16_23 :: u8
  gd_access :: u8
  gd_flags :: u8
  gd_base24_31 :: u8

definition GDT_CODESEG :: u32 where "GDT_CODESEG = 0x0A"
definition GDT_DATASEG :: u32 where "GDT_DATASEG = 0x02"
definition GDT_TSS :: u32 where "GDT_TSS = 0x09"
definition GDT_PRESENT :: u32 where "GDT_PRESENT = 0x80"
definition GDT_SEGMENT :: u32 where "GDT_SEGMENT = 0x10"
definition GDT_TSSDESC :: nat where "GDT_TSSDESC = 8"
definition GDT_MAXDESC :: nat where "GDT_MAXDESC = 64"
definition PRIV_KERNEL :: u32 where "PRIV_KERNEL = 0"

lemmas gdt_consts = GDT_CODESEG_def GDT_DATASEG_def GDT_TSS_def GDT_PRESENT_def GDT_SEGMENT_def
  GDT_TSSDESC_def GDT_MAXDESC_def PRIV_KERNEL_def PRIV_USER_def

definition zero_gdtdesc :: gdtdesc_t where
  "zero_gdtdesc = \<lparr>gd_size0_15 = 0, gd_base0_15 = 0, gd_base16_23 = 0, gd_access = 0, gd_flags = 0, gd_base24_31 = 0\<rparr>"

definition gdt_descriptor :: "u32 \<Rightarrow> u32 \<Rightarrow> u32 \<Rightarrow> u32 \<Rightarrow> gdtdesc_t" where
  "gdt_descriptor sz base access priv =
     \<lparr>gd_size0_15 = ucast (sz AND 0xFFFF),
      gd_base0_15 = ucast (base AND 0xFFFF),
      gd_base16_23 = ucast (drop_bit 16 base AND 0xFF),
      gd_access = ucast (access OR push_bit 5 (priv AND 3)),
      gd_flags = ucast ((drop_bit 16 sz AND 0x0F) OR 0xC0),
      gd_base24_31 = ucast (drop_bit 24 base AND 0xFF)\<rparr>"

section \<open>Gates\<close>

record idtdesc_t =
  id_address0_15 :: u16
  id_selector :: u16
  id_zero :: u8
  id_type :: u8
  id_address16_31 :: u16

definition IDT_PRESENT :: u32 where "IDT_PRESENT = 0x80"
definition IDT_INTGATE32 :: u32 where "IDT_INTGATE32 = 0x0E"
definition ISR_NUM :: nat where "ISR_NUM = 0x38"
definition SYSCALL_INT :: nat where "SYSCALL_INT = 0x37"

lemmas idt_consts = IDT_PRESENT_def IDT_INTGATE32_def ISR_NUM_def SYSCALL_INT_def

definition idt_descriptor :: "u32 \<Rightarrow> u16 \<Rightarrow> u32 \<Rightarrow> u32 \<Rightarrow> idtdesc_t" where
  "idt_descriptor addr selector priv typ =
     \<lparr>id_address0_15 = ucast (addr AND 0xFFFF),
      id_selector = selector,
      id_zero = 0,
      id_type = ucast (typ OR push_bit 5 (priv AND 3)),
      id_address16_31 = ucast (drop_bit 16 addr AND 0xFFFF)\<rparr>"

text \<open>A \<open>selector_t\<close> with the given index and privilege, in the global table.\<close>

definition selector :: "nat \<Rightarrow> u32 \<Rightarrow> u16" where
  "selector index priv = push_bit 3 (of_nat index) OR ucast (priv AND 3)"

section \<open>State and initialisation\<close>

record tss_t =
  ts_esp0 :: u32
  ts_ss0 :: u32
  ts_iopb_offset :: u16

record desc = irq +
  gdt :: "gdtdesc_t list"
  idt :: "idtdesc_t list"
  tsss :: "u32 \<Rightarrow> tss_t option"

definition gdt_set_descriptor :: "nat \<Rightarrow> u32 \<Rightarrow> u32 \<Rightarrow> u32 \<Rightarrow> u32 \<Rightarrow> 'a desc_scheme \<Rightarrow> (unit, 'a desc_scheme) res" where
  "gdt_set_descriptor segment sz base access priv s =
     (if segment < length (gdt s) then Ret () (s\<lparr>gdt := (gdt s)[segment := gdt_descriptor sz base access priv]\<rparr>)
      else Stop Dangling s)"

definition gdt_init :: "'a desc_scheme \<Rightarrow> (u32, 'a desc_scheme) res" where
  "gdt_init s =
     (let code = GDT_SEGMENT OR GDT_PRESENT OR GDT_CODESEG; data = GDT_SEGMENT OR GDT_PRESENT OR GDT_DATASEG in
      bindr (gdt_set_descriptor 1 0x000FFFFF 0 code PRIV_KERNEL (s\<lparr>gdt := replicate GDT_MAXDESC zero_gdtdesc\<rparr>)) (\<lambda>_ s.
      bindr (gdt_set_descriptor 2 0x000FFFFF 0 data PRIV_KERNEL s) (\<lambda>_ s.
      bindr (gdt_set_descriptor 3 0x000FFFFF 0 code PRIV_USER s) (\<lambda>_ s.
      bindr (gdt_set_descriptor 4 0x000FFFFF 0 data PRIV_USER s) (\<lambda>_. Ret 0)))))"

text \<open>The addresses of the stubs, \<open>isr_addr\<close>, are given by the linker.\<close>

definition idt_init :: "(nat \<Rightarrow> u32) \<Rightarrow> 'a desc_scheme \<Rightarrow> (u32, 'a desc_scheme) res" where
  "idt_init isr_addr s =
     Ret 0 (s\<lparr>idt := map (\<lambda>i. idt_descriptor (isr_addr i) (selector 1 PRIV_KERNEL)
                             (if i = SYSCALL_INT then PRIV_USER else PRIV_KERNEL) (IDT_INTGATE32 OR IDT_PRESENT))
                        [0..<ISR_NUM]\<rparr>)"

text \<open>\<open>sizeof(tss_t)\<close> is 104 bytes and the 2048 words of the I/O bitmap; \<open>sizeof(struct vm86_segmentregs)\<close> is 16.\<close>

definition sizeof_tss :: u32 where "sizeof_tss = 104 + 4 * 2048"

definition tss_init :: "'a desc_scheme \<Rightarrow> (u32, 'a desc_scheme) res" where
  "tss_init s =
     (let cpu = cpu_this s in
      bindr (kmalloc_obj s) (\<lambda>tss s.
        if tss = NULL then Ret (-1) s
        else
          bindr (getcpu cpu s) (\<lambda>c s.
          bindr (updcpu cpu (\<lambda>c. c\<lparr>cpu_tss := tss\<rparr>)
                   (s\<lparr>tsss := (tsss s)(tss \<mapsto>
                      \<lparr>ts_esp0 = cpu_stack c + cpu_stacksize c - 4 + 16,
                       ts_ss0 = IDX2SEL 2 PRIV_KERNEL, ts_iopb_offset = 104\<rparr>)\<rparr>)) (\<lambda>_ s.
          bindr (gdt_set_descriptor GDT_TSSDESC (sizeof_tss - 1) tss (GDT_PRESENT OR GDT_TSS) PRIV_USER s) (\<lambda>_ s.
            Ret 0 (s\<lparr>gdt := (gdt s)[GDT_TSSDESC := (gdt s ! GDT_TSSDESC)\<lparr>
                      gd_flags := gd_flags (gdt s ! GDT_TSSDESC) AND 0x0F\<rparr>]\<rparr>))))))"

section \<open>What the processor reads\<close>

definition gdt_base :: "gdtdesc_t \<Rightarrow> u32" where
  "gdt_base d = ucast (gd_base0_15 d) OR push_bit 16 (ucast (gd_base16_23 d)) OR push_bit 24 (ucast (gd_base24_31 d))"

text \<open>The limit in units of its granularity (bit 7 of the flags).\<close>

definition gdt_limit :: "gdtdesc_t \<Rightarrow> u32" where
  "gdt_limit d = ucast (gd_size0_15 d) OR push_bit 16 (ucast (gd_flags d AND 0x0F))"

definition gdt_dpl :: "gdtdesc_t \<Rightarrow> u8" where
  "gdt_dpl d = drop_bit 5 (gd_access d) AND 3"

definition idt_address :: "idtdesc_t \<Rightarrow> u32" where
  "idt_address d = ucast (id_address0_15 d) OR push_bit 16 (ucast (id_address16_31 d))"

definition idt_dpl :: "idtdesc_t \<Rightarrow> u8" where
  "idt_dpl d = drop_bit 5 (id_type d) AND 3"

end
