(* ===== verification/Boot.thy ===== *)
theory Boot
  imports Desc Syscall
begin

text \<open>
  The ELF loader (\<open>kernel2/elf.c\<close>) and \<open>main\<close> (\<open>kernel2/main.c\<close>): the initialisers in the order of the
  code, whose results are only printed, and the programs that the boot loader left in memory.
\<close>

unbundle bit_operations_syntax

section \<open>ELF\<close>

text \<open>\<open>elf_validate\<close> on the header at an address; fields are at their offsets in the packed structure.\<close>

fun bytes_are :: "(u32 \<times> u8) list \<Rightarrow> u32 \<Rightarrow> 'a mem_scheme \<Rightarrow> (bool, 'a mem_scheme) res" where
  "bytes_are [] v s = Ret True s"
| "bytes_are ((off, x) # rest) v s =
     bindr (load8 (v + off) s) (\<lambda>b s. if b = x then bytes_are rest v s else Ret False s)"

definition elf_validate :: "u32 \<Rightarrow> 'a mem_scheme \<Rightarrow> (u32, 'a mem_scheme) res" where
  "elf_validate header s =
     bindr (bytes_are [(0, 0x7F), (1, 0x45), (2, 0x4C), (3, 0x46)] header s) (\<lambda>magic s.
       if \<not> magic then Ret (-1) s
       else
         bindr (load16 (header + 18) s) (\<lambda>machine s.
           if machine \<noteq> 3 then Ret (-1) s
           else
             bindr (bytes_are [(4, 1), (5, 1)] header s) (\<lambda>ok s.
               if \<not> ok then Ret (-1) s
               else
                 bindr (load8 (header + 6) s) (\<lambda>v s.
                 bindr (load32 (header + 20) s) (\<lambda>version.
                   Ret (if ucast v \<noteq> version then -1 else 0))))))"

text \<open>
  The loop over the pages of a segment. \<open>i\<close> wraps around when the size is within a page of
  \<open>2^32\<close>; more than \<open>2^20\<close> iterations are therefore a loop without end.
\<close>

fun elf_pages :: "nat \<Rightarrow> u32 \<Rightarrow> u32 \<Rightarrow> u32 \<Rightarrow> u32 \<Rightarrow> u32 \<Rightarrow> u32 \<Rightarrow> u32 \<Rightarrow> 'a kernel_scheme \<Rightarrow> (u32, 'a kernel_scheme) res" where
  "elf_pages 0 i memaddr memsize fileaddr filesize addrspace wrt s = (if i < memsize then Stop Diverge s else Ret 0 s)"
| "elf_pages (Suc k) i memaddr memsize fileaddr filesize addrspace wrt s =
     (if i < memsize then
        bindr (if i < filesize then paging_getphysaddr (fileaddr + i) s else Ret NULL s) (\<lambda>frame s.
        bindr (memuser_alloc_at addrspace (memaddr + i) frame wrt s) (\<lambda>r s.
          if r = -1 then Ret (-1) s
          else elf_pages k (i + PAGE_SIZE) memaddr memsize fileaddr filesize addrspace wrt s))
      else Ret 0 s)"

definition elf_loadseg :: "u32 \<Rightarrow> u32 \<Rightarrow> u32 \<Rightarrow> u32 \<Rightarrow> u32 \<Rightarrow> u32 \<Rightarrow> 'a kernel_scheme \<Rightarrow> (u32, 'a kernel_scheme) res" where
  "elf_loadseg memaddr memsize fileaddr filesize addrspace wrt s =
     (if memaddr < USERDATA_ADDRESS then Ret (-1) s
      else
        bindr (memuser_load_addrspace addrspace s) (\<lambda>r s.
          if r = -1 then Ret (-1) s
          else
            bindr (elf_pages 1048576 0 memaddr memsize fileaddr filesize addrspace wrt s) (\<lambda>r s.
              if r = -1 then Ret (-1) s
              else
                bindr (if filesize < memsize
                       then memset_v (unat (memsize - filesize)) (memaddr + filesize) 0 s else Ret () s) (\<lambda>_.
                  Ret 0))))"

text \<open>The loop over the program headers; \<open>phnum\<close> has sixteen bits.\<close>

fun elf_segments :: "nat \<Rightarrow> u32 \<Rightarrow> u32 \<Rightarrow> u32 \<Rightarrow> u32 \<Rightarrow> 'a kernel_scheme \<Rightarrow> (u32, 'a kernel_scheme) res" where
  "elf_segments 0 i addrspace file progheader s = Stop Diverge s"
| "elf_segments (Suc k) i addrspace file progheader s =
     bindr (load16 (file + 44) s) (\<lambda>phnum s.
       if i < ucast phnum then
         let ph = progheader + i * 32 in
         bindr (load32 ph s) (\<lambda>typ s.
           if typ = 1 then
             bindr (load32 (ph + 8) s) (\<lambda>vaddr s.
             bindr (load32 (ph + 20) s) (\<lambda>memsz s.
             bindr (load32 (ph + 4) s) (\<lambda>offset s.
             bindr (load32 (ph + 16) s) (\<lambda>filesz s.
             bindr (load32 (ph + 24) s) (\<lambda>flags s.
             bindr (elf_loadseg vaddr memsz (file + offset) filesz addrspace (if flags AND 2 = 2 then 1 else 0) s) (\<lambda>r s.
               if r = -1 then Ret (-1) s
               else elf_segments k (i + 1) addrspace file progheader s))))))
           else elf_segments k (i + 1) addrspace file progheader s)
       else Ret 0 s)"

definition elf_load :: "u32 \<Rightarrow> u32 \<Rightarrow> u32 \<Rightarrow> 'a kernel_scheme \<Rightarrow> (u32, 'a kernel_scheme) res" where
  "elf_load addrspace file filesize s =
     bindr (elf_validate file s) (\<lambda>r s.
       if r = -1 then Ret NULL s
       else
         bindr (load32 (file + 24) s) (\<lambda>entrypoint s.
         bindr (load32 (file + 28) s) (\<lambda>phoff s.
         bindr (elf_segments 65536 0 addrspace file (file + phoff) s) (\<lambda>r.
           Ret (if r = -1 then NULL else entrypoint)))))"

section \<open>Names of programs\<close>

text \<open>\<open>basename\<close>: the position of the last slash, and the text behind it. A path without a slash
  loses its first character.\<close>

fun last_slash :: "nat \<Rightarrow> nat \<Rightarrow> u8 list \<Rightarrow> nat" where
  "last_slash base i [] = base"
| "last_slash base i (c # cs) = last_slash (if c = 0x2F then i else base) (Suc i) cs"

definition basename :: "u8 list \<Rightarrow> u8 list" where
  "basename path = (let rest = drop (last_slash 0 0 path) path in if rest = [] then rest else tl rest)"

section \<open>The kernel starts\<close>

definition MULTIBOOT_MAGIC :: u32 where "MULTIBOOT_MAGIC = 0x2BADB002"

text \<open>\<open>test(f)\<close> prints whether \<open>f\<close> succeeded and goes on in any case.\<close>

definition test :: "(u32, 's) res \<Rightarrow> ('s \<Rightarrow> ('b, 's) res) \<Rightarrow> ('b, 's) res" where
  "test r k = bindr r (\<lambda>_. k)"

text \<open>
  The part of \<open>main\<close> up to the programs. The kernel heap is behind \<open>malloc\<close> here, so \<open>memkernel_init\<close>
  does nothing. \<open>fuel\<close> bounds the entries of the memory map.
\<close>

definition kernel_init :: "nat \<Rightarrow> (nat \<Rightarrow> u32) \<Rightarrow> u32 \<Rightarrow> u32 \<Rightarrow> 'a desc_scheme \<Rightarrow> (unit, 'a desc_scheme) res" where
  "kernel_init fuel isr_addr mbi magic s =
     (if magic \<noteq> MULTIBOOT_MAGIC then Stop Panic s
      else
        test (multiboot_init mbi (s\<lparr>memuser_inited := 0\<rparr>)) (\<lambda>s.
        test (paging_init s) (\<lambda>s.
        test (memphys_init fuel s) (\<lambda>s.
        test (syscall_init s) (\<lambda>s.
        test (cpu_init s) (\<lambda>s.
        test (gdt_init s) (\<lambda>s.
        test (idt_init isr_addr s) (\<lambda>s.
        test (interrupt_init s) (\<lambda>s.
        test (lapic_init s) (\<lambda>s.
        test (tss_init s) (\<lambda>s.
        test (ioport_init s) (\<lambda>s.
        test (ipc_init s) (\<lambda>s.
        test (rpc_init s) (\<lambda>s.
        test (signal_init s) (\<lambda>s.
        test (memuser_init s) (\<lambda>s.
        test (proc_init s) (\<lambda>s.
        test (biosint_init s) (\<lambda>s.
        test (syscall_create SYSCALL_PUTSN (SysMisc F_putsn) 2 s) (\<lambda>s.
        test (syscall_create SYSCALL_FOURTYTWO (SysMisc F_fourtytwo) 0 s) (\<lambda>s. Ret () s))))))))))))))))))))"

text \<open>
  One program. \<open>init\<close> is the C variable \<open>proc_init\<close>, the process of the first program. The number of
  modules has 32 bits, which bounds the loop.
\<close>

definition load_program :: "u32 \<Rightarrow> u32 \<Rightarrow> u32 \<Rightarrow> u32 \<Rightarrow> u32 \<Rightarrow> 'a kernel_scheme \<Rightarrow> (u32, 'a kernel_scheme) res" where
  "load_program i init addr file sz s =
     bindr (load_cstr file s) (\<lambda>path s.
       if addr + sz > KERNELCODE_ADDRESS + KERNELCODE_SIZE then Stop Panic s
       else
         let first = (if i = 0 then 1 else 0) in
         bindr (proc_create (basename path) PERM_ROOTUID PERM_ROOTGID (if i = 0 then NULL else init) first first s) (\<lambda>new s.
         let init = (if i = 0 then new else init) in
         bindr (if new \<noteq> NULL then
                  bindr (getp new s) (\<lambda>p s.
                  bindr (elf_load (p_addrspace p) addr sz s) (\<lambda>entrypoint s.
                    if entrypoint \<noteq> NULL then
                      bindr (updp new (\<lambda>p. p\<lparr>p_registers := (p_registers p)\<lparr>r_eip := entrypoint\<rparr>\<rparr>) s) (\<lambda>_ s.
                      bindr (memuser_create_stack (p_addrspace p) s) (\<lambda>stack.
                        updp new (\<lambda>p. p\<lparr>p_registers := (p_registers p)\<lparr>r_esp := stack\<rparr>\<rparr>)))
                    else bindr (proc_destroy new s) (\<lambda>_. Ret ())))
                else Ret () s) (\<lambda>_. Ret init)))"

fun load_programs :: "nat \<Rightarrow> u32 \<Rightarrow> u32 \<Rightarrow> 'a kernel_scheme \<Rightarrow> (unit, 'a kernel_scheme) res" where
  "load_programs 0 i init s = Stop Diverge s"
| "load_programs (Suc k) i init s =
     bindr (multiboot_get_mod i s) (\<lambda>m s.
       case m of
         None \<Rightarrow> Ret () s
       | Some (addr, file, sz) \<Rightarrow>
           if addr = NULL then Ret () s
           else bindr (load_program i init addr file sz s) (\<lambda>init. load_programs k (i + 1) init))"

definition kernel_main :: "nat \<Rightarrow> (nat \<Rightarrow> u32) \<Rightarrow> u32 \<Rightarrow> u32 \<Rightarrow> 'a desc_scheme \<Rightarrow> (unit, 'a desc_scheme) res" where
  "kernel_main fuel isr_addr mbi magic s =
     bindr (kernel_init fuel isr_addr mbi magic s) (\<lambda>_ s.
     bindr (load_programs 4294967296 0 (junk32 s) s) (\<lambda>_. proc_idle))"

end
