(* ===== verification/CallTable.thy ===== *)
theory CallTable
  imports Boot
begin

text \<open>
  The table of system calls is filled without a clash when the kernel starts, and every function in it
  gets all its parameters.
\<close>

section \<open>The table of system calls\<close>

definition set_entry :: "u32 \<times> sysfunc \<times> u32 \<Rightarrow> syscall list \<Rightarrow> syscall list" where
  "set_entry r tab = (case r of (cmd, f, n) \<Rightarrow> tab[unat cmd := \<lparr>sys_func = Some f, sys_numparams = n\<rparr>])"

text \<open>Numbers that are in range, free and pairwise different.\<close>

definition free_entries :: "(u32 \<times> sysfunc \<times> u32) list \<Rightarrow> syscall list \<Rightarrow> bool" where
  "free_entries rs tab \<longleftrightarrow> distinct (map fst rs) \<and>
     (\<forall>cmd \<in> set (map fst rs). cmd < SYSCALL_MAXNUM \<and> unat cmd < length tab \<and> sys_func (tab ! unat cmd) = None)"

lemma length_set_entry [simp]: "length (set_entry r tab) = length tab"
  by (cases r) (simp add: set_entry_def)

lemma nth_set_entry:
  "n < length tab \<Longrightarrow>
   set_entry (cmd, f, k) tab ! n = (if n = unat cmd then \<lparr>sys_func = Some f, sys_numparams = k\<rparr> else tab ! n)"
  by (auto simp: set_entry_def nth_list_update)

lemma free_entries_Cons:
  "free_entries ((cmd, f, n) # rs) tab \<longleftrightarrow>
     cmd < SYSCALL_MAXNUM \<and> unat cmd < length tab \<and> sys_func (tab ! unat cmd) = None \<and>
     cmd \<notin> set (map fst rs) \<and> free_entries rs tab"
  unfolding free_entries_def by auto

lemma free_entries_set_entry:
  assumes "free_entries rs tab" "cmd \<notin> set (map fst rs)"
  shows "free_entries rs (set_entry (cmd, f, n) tab)"
  using assms unfolding free_entries_def
  by (auto simp: nth_set_entry image_iff simp flip: word_unat_eq_iff)

lemma small_not_sless: "cmd < SYSCALL_MAXNUM \<Longrightarrow> \<not> SYSCALL_MAXNUM <s cmd"
proof -
  assume "cmd < SYSCALL_MAXNUM"
  then have c: "uint cmd < 83" by (simp add: SYSCALL_MAXNUM_def SYSCALL_FOURTYTWO_def word_less_def)
  moreover have "signed_take_bit 31 (uint cmd) = uint cmd"
    by (rule signed_take_bit_int_eq_self) (use c in \<open>simp_all add: order_trans [OF _ uint_ge_0]\<close>)
  ultimately show ?thesis
    by (simp add: SYSCALL_MAXNUM_def SYSCALL_FOURTYTWO_def word_sless_alt sint_uint)
qed

lemma syscall_create_ok:
  assumes "cmd < SYSCALL_MAXNUM" "unat cmd < length (syscalls s)" "sys_func (syscalls s ! unat cmd) = None"
  shows "syscall_create cmd f n s = Ret 0 (s\<lparr>syscalls := set_entry (cmd, f, n) (syscalls s)\<rparr>)"
  using assms small_not_sless [OF assms(1)] by (simp add: syscall_create_def syscall_entry_def set_entry_def)

lemma syscall_register_ok:
  "free_entries rs (syscalls s) \<Longrightarrow>
   syscall_register rs s = Ret 0 (s\<lparr>syscalls := fold set_entry rs (syscalls s)\<rparr>)"
proof (induction rs arbitrary: s)
  case (Cons r rs)
  obtain cmd f n where r: "r = (cmd, f, n)" by (cases r)
  let ?s = "s\<lparr>syscalls := set_entry r (syscalls s)\<rparr>"
  from Cons.prems have c: "cmd < SYSCALL_MAXNUM" "unat cmd < length (syscalls s)"
    "sys_func (syscalls s ! unat cmd) = None" "cmd \<notin> set (map fst rs)" "free_entries rs (syscalls s)"
    by (simp_all add: r free_entries_Cons)
  have "free_entries rs (syscalls ?s)" using free_entries_set_entry [OF c(5,4)] by (simp add: r)
  from Cons.IH [OF this] show ?case by (simp add: r syscall_create_ok [OF c(1-3)])
qed simp

lemma length_fold_set_entry [simp]: "length (fold set_entry rs tab) = length tab"
  by (induction rs arbitrary: tab) simp_all

lemma free_entries_append:
  assumes "free_entries (rs @ qs) tab"
  shows "free_entries rs tab" "free_entries qs (fold set_entry rs tab)"
proof -
  show "free_entries rs tab" using assms by (simp add: free_entries_def)
  show "free_entries qs (fold set_entry rs tab)" using assms
  proof (induction rs arbitrary: tab)
    case (Cons r rs)
    obtain cmd f n where r: "r = (cmd, f, n)" by (cases r)
    from Cons.prems have "free_entries (rs @ qs) tab" "cmd \<notin> set (map fst (rs @ qs))"
      by (simp_all add: r free_entries_Cons)
    from Cons.IH [OF free_entries_set_entry [OF this]] show ?case by (simp add: r)
  qed simp
qed

text \<open>What the table holds after a run of registrations.\<close>

lemma nth_fold_set_entry:
  assumes "distinct (map fst rs)" "n < length tab"
  shows "fold set_entry rs tab ! n =
    (case find (\<lambda>r. unat (fst r) = n) rs of
       None \<Rightarrow> tab ! n | Some (cmd, f, k) \<Rightarrow> \<lparr>sys_func = Some f, sys_numparams = k\<rparr>)"
  using assms
proof (induction rs arbitrary: tab)
  case (Cons r rs)
  obtain cmd f k where r: "r = (cmd, f, k)" by (cases r)
  from Cons have IH: "fold set_entry rs (set_entry r tab) ! n =
    (case find (\<lambda>r. unat (fst r) = n) rs of
       None \<Rightarrow> set_entry r tab ! n | Some (cmd, f, k) \<Rightarrow> \<lparr>sys_func = Some f, sys_numparams = k\<rparr>)" by simp
  show ?case
  proof (cases "unat cmd = n")
    case True
    then have "find (\<lambda>r. unat (fst r) = n) rs = None"
      using Cons.prems(1) by (force simp: r find_None_iff image_iff simp flip: word_unat_eq_iff)
    with True IH Cons.prems(2) show ?thesis by (simp add: r nth_set_entry)
  next
    case False
    with IH Cons.prems(2) show ?thesis by (simp add: r nth_set_entry split: option.split)
  qed
qed simp

text \<open>The initialisers of \<open>main\<close> that register system calls, in its order, and what they register.\<close>

definition boot_calls :: "'a irq_scheme \<Rightarrow> (unit, 'a irq_scheme) res" where
  "boot_calls s =
     test (syscall_init s) (\<lambda>s.
     test (interrupt_init s) (\<lambda>s.
     test (ioport_init s) (\<lambda>s.
     test (ipc_init s) (\<lambda>s.
     test (rpc_init s) (\<lambda>s.
     test (signal_init s) (\<lambda>s.
     test (memuser_init s) (\<lambda>s.
     test (proc_init s) (\<lambda>s.
     test (biosint_init s) (\<lambda>s.
     test (syscall_create SYSCALL_PUTSN (SysMisc F_putsn) 2 s) (\<lambda>s.
     test (syscall_create SYSCALL_FOURTYTWO (SysMisc F_fourtytwo) 0 s) (\<lambda>s. Ret () s)))))))))))"

definition registrations :: "(u32 \<times> sysfunc \<times> u32) list" where
  "registrations = interrupt_syscalls @ ioport_syscalls @ ipc_msg_syscalls @ ipc_sem_syscalls @ ipc_shm_syscalls @
     rpc_syscalls @ signal_syscalls @ memuser_syscalls @ proc_syscalls @
     [(SYSCALL_MISC_BIOSINT, SysMisc F_biosint_call, 10)] @ [(SYSCALL_PUTSN, SysMisc F_putsn, 2)] @
     [(SYSCALL_FOURTYTWO, SysMisc F_fourtytwo, 0)]"

lemmas registrations_defs = registrations_def interrupt_syscalls_def ioport_syscalls_def ipc_msg_syscalls_def
  ipc_sem_syscalls_def ipc_shm_syscalls_def rpc_syscalls_def signal_syscalls_def memuser_syscalls_def
  proc_syscalls_def syscall_numbers

lemma registrations_numbers:
  "map (\<lambda>r. unat (fst r)) registrations =
     [76, 77, 73, 74, 75, 70, 71, 7, 8, 9, 10, 11, 14, 15, 16, 17, 18, 19, 20, 21, 22, 23, 24,
      25, 26, 27, 28, 29, 30, 31, 32, 33, 34, 35, 36, 37, 38, 39, 78, 79, 1, 2, 3, 6, 4, 5, 40,
      41, 42, 43, 44, 45, 46, 47, 48, 49, 50, 51, 52, 53, 54, 55, 56, 57, 58, 59, 60, 62, 63,
      64, 65, 66, 67, 68, 69, 80, 81, 82]"
  by (simp add: registrations_defs)

lemma registrations_distinct: "distinct (map fst registrations)"
proof -
  have "distinct (map unat (map fst registrations))"
    using registrations_numbers by (simp add: comp_def)
  then show ?thesis by (simp only: distinct_map)
qed

text \<open>Every number is taken but five: \<open>0\<close>, those of \<open>msg_stat\<close> and \<open>msg_set\<close>, and two without a function.\<close>

lemma registrations_taken:
  assumes "n < 83"
  shows "n \<in> (\<lambda>r. unat (fst r)) ` set registrations \<longleftrightarrow> n \<notin> {0, 12, 13, 61, 72}"
proof -
  have "list_all (\<lambda>n. n \<in> set (map (\<lambda>r. unat (fst r)) registrations) \<longleftrightarrow> n \<notin> {0, 12, 13, 61, 72}) [0..<83]"
    unfolding registrations_numbers by (simp add: upt_rec [of 0] upt_rec [of "Suc 0"] numeral_2_eq_2 [symmetric])
  with assms show ?thesis by (auto simp: list_all_iff)
qed

lemma registrations_typed: "\<forall>(cmd, f, k) \<in> set registrations. sys_arity f \<le> unat k"
  by (simp add: registrations_defs)

definition no_entry :: syscall where
  "no_entry = \<lparr>sys_func = None, sys_numparams = 0\<rparr>"

lemma registrations_free: "free_entries registrations (replicate (unat SYSCALL_MAXNUM) no_entry)"
proof -
  have "\<forall>r \<in> set registrations. unat (fst r) < 83"
    using registrations_numbers by (auto simp: registrations_defs)
  then show ?thesis unfolding free_entries_def
    using registrations_distinct
    by (auto simp: no_entry_def SYSCALL_MAXNUM_def SYSCALL_FOURTYTWO_def word_less_nat_alt)
qed

lemma test_create: "test (syscall_create cmd f n s) k = test (syscall_register [(cmd, f, n)] s) k"
  by (cases "syscall_create cmd f n s") (simp_all add: test_def)

lemma boot_calls_table:
  assumes "mallocs s \<noteq> []"
  shows "\<exists>t. boot_calls s = Ret () t \<and>
    syscalls t = fold set_entry registrations (replicate (unat SYSCALL_MAXNUM) no_entry)"
proof -
  note f = registrations_free [unfolded registrations_def]
  note a1 = free_entries_append [OF f]
  note a2 = free_entries_append [OF a1(2)]
  note a3 = free_entries_append [OF a2(2)]
  note a4 = free_entries_append [OF a3(2)]
  note a5 = free_entries_append [OF a4(2)]
  note a6 = free_entries_append [OF a5(2)]
  note a7 = free_entries_append [OF a6(2)]
  note a8 = free_entries_append [OF a7(2)]
  note a9 = free_entries_append [OF a8(2)]
  note a10 = free_entries_append [OF a9(2)]
  note a11 = free_entries_append [OF a10(2)]
  note frees = a1(1) a2(1) a3(1) a4(1) a5(1) a6(1) a7(1) a8(1) a9(1) a10(1) a11 [unfolded fold_simps]
  from assms obtain a as where "mallocs s = a # as" by (cases "mallocs s") auto
  then show ?thesis
    unfolding boot_calls_def syscall_init_def interrupt_init_def ioport_init_def ipc_init_def ipc_msg_init_def
      ipc_sem_init_def ipc_shm_init_def rpc_init_def signal_init_def memuser_init_def proc_init_def
      biosint_init_def test_create kmalloc_obj_def no_entry_def [symmetric] registrations_def
    by (simp add: test_def memphys_dma_init_def swap_init_def syscall_register_ok frees Let_def del: syscall_register.simps)
qed

lemma table_entry:
  assumes "n < 83"
  shows "case sys_func (fold set_entry registrations (replicate (unat SYSCALL_MAXNUM) no_entry) ! n) of
      None \<Rightarrow> n \<in> {0, 12, 13, 61, 72}
    | Some f \<Rightarrow> n \<notin> {0, 12, 13, 61, 72} \<and>
        sys_arity f \<le> unat (sys_numparams (fold set_entry registrations (replicate (unat SYSCALL_MAXNUM) no_entry) ! n))"
proof -
  have len: "n < length (replicate (unat SYSCALL_MAXNUM) no_entry)"
    using assms by (simp add: SYSCALL_MAXNUM_def SYSCALL_FOURTYTWO_def)
  show ?thesis
  proof (cases "find (\<lambda>r. unat (fst r) = n) registrations")
    case None
    then have "n \<notin> (\<lambda>r. unat (fst r)) ` set registrations" by (force simp: find_None_iff)
    with registrations_taken [OF assms] have "n \<in> {0, 12, 13, 61, 72}" by blast
    moreover have "sys_func (fold set_entry registrations (replicate (unat SYSCALL_MAXNUM) no_entry) ! n) = None"
      unfolding nth_fold_set_entry [OF registrations_distinct len] None
      using len by (simp add: no_entry_def)
    ultimately show ?thesis by simp
  next
    case (Some r)
    then have "r \<in> set registrations" "unat (fst r) = n" by (auto simp: find_Some_iff)
    then have "n \<in> (\<lambda>r. unat (fst r)) ` set registrations" by blast
    moreover from \<open>r \<in> set registrations\<close> registrations_typed have "sys_arity (fst (snd r)) \<le> unat (snd (snd r))" by auto
    ultimately show ?thesis using registrations_taken [OF assms] Some
      by (simp add: nth_fold_set_entry [OF registrations_distinct len] split_def)
  qed
qed

text \<open>A function only looks at the parameters it has.\<close>

lemma call_sys_args: "(\<And>i. i < sys_arity f \<Longrightarrow> a i = b i) \<Longrightarrow> call_sys f a s = call_sys f b s"
proof (cases f)
  case (SysMem g)
  then show "(\<And>i. i < sys_arity f \<Longrightarrow> a i = b i) \<Longrightarrow> ?thesis" by (cases g) (simp_all add: call_sys_def call_mem_def)
next
  case (SysMsg g)
  then show "(\<And>i. i < sys_arity f \<Longrightarrow> a i = b i) \<Longrightarrow> ?thesis" by (cases g) (simp_all add: call_sys_def call_msg_def)
next
  case (SysSem g)
  then show "(\<And>i. i < sys_arity f \<Longrightarrow> a i = b i) \<Longrightarrow> ?thesis" by (cases g) (simp_all add: call_sys_def call_sem_def)
next
  case (SysShm g)
  then show "(\<And>i. i < sys_arity f \<Longrightarrow> a i = b i) \<Longrightarrow> ?thesis" by (cases g) (simp_all add: call_sys_def call_shm_def)
next
  case (SysRpc g)
  then show "(\<And>i. i < sys_arity f \<Longrightarrow> a i = b i) \<Longrightarrow> ?thesis" by (cases g) (simp_all add: call_sys_def call_rpc_def)
next
  case (SysProc g)
  then show "(\<And>i. i < sys_arity f \<Longrightarrow> a i = b i) \<Longrightarrow> ?thesis" by (cases g) (simp_all add: call_sys_def call_proc_def)
next
  case (SysIrq g)
  then show "(\<And>i. i < sys_arity f \<Longrightarrow> a i = b i) \<Longrightarrow> ?thesis" by (cases g) (simp_all add: call_sys_def call_irq_def)
next
  case (SysMisc g)
  then show "(\<And>i. i < sys_arity f \<Longrightarrow> a i = b i) \<Longrightarrow> ?thesis" by (cases g) (simp_all add: call_sys_def call_misc_def)
qed

lemma load_params_length: "load_params n v s = Ret xs t \<Longrightarrow> length xs = n"
  by (induction n arbitrary: xs s t) (auto simp: bindr_Ret_iff)

lemma dyn_call_typed:
  assumes "sys_arity f \<le> unat k"
  shows "dyn_call f params k s =
    bindr (load_params (unat k) params s) (\<lambda>xs. call_sys f (\<lambda>i. if i < length xs then xs ! i else z))"
proof (cases "load_params (unat k) params s")
  case (Ret xs t)
  with load_params_length have "length xs = unat k" by blast
  then have "call_sys f (\<lambda>i. if i < length xs then xs ! i else junk32 t) t =
      call_sys f (\<lambda>i. if i < length xs then xs ! i else z) t"
    by (intro call_sys_args) (use assms in simp)
  with Ret show ?thesis by (simp add: dyn_call_def)
qed (simp add: dyn_call_def)

lemma small_not_negative: "unat (cmd :: u32) < 83 \<Longrightarrow> \<not> cmd <s 0"
proof -
  assume "unat cmd < 83"
  then have c: "uint cmd < 83" unfolding uint_nat by linarith
  have "signed_take_bit 31 (uint cmd) = uint cmd"
    by (rule signed_take_bit_int_eq_self) (use c in \<open>simp_all add: order_trans [OF _ uint_ge_0]\<close>)
  then show ?thesis by (simp add: word_sless_alt sint_uint)
qed

lemma load32_cong:
  "load32 v s = Ret x s \<Longrightarrow> vaddr t = vaddr s \<Longrightarrow> phys t = phys s \<Longrightarrow> load32 v t = Ret x t"
  by (auto simp: load32_def split: option.splits)

lemma syscall_register_only: "syscall_register rs s = Ret r t \<Longrightarrow> \<exists>x. t = s\<lparr>syscalls := x\<rparr>"
proof (induction rs arbitrary: s)
  case Nil
  then show ?case by (intro exI [of _ "syscalls s"]) simp
next
  case (Cons c rs)
  obtain cmd f n where c: "c = (cmd, f, n)" by (cases c)
  with Cons.prems obtain q u where u: "syscall_create cmd f n s = Ret q u"
    "(if q = -1 then Ret (-1) u else syscall_register rs u) = Ret r t" by (auto simp: bindr_Ret_iff)
  from u(1) have "u = s \<or> (\<exists>x. u = s\<lparr>syscalls := x\<rparr>)"
    by (auto simp: syscall_create_def syscall_entry_def bindr_Ret_iff split: if_splits)
  moreover have "s = s\<lparr>syscalls := syscalls s\<rparr>" by simp
  ultimately obtain x where x: "u = s\<lparr>syscalls := x\<rparr>" by blast
  from u(2) Cons.IH [of u] x show ?case by (auto split: if_splits)
qed

end
