(* ===== verification/BootInv.thy ===== *)
theory BootInv
  imports KernelInv CallTable
begin

text \<open>
  Process management starts with its invariant, and whatever happens afterwards keeps it: programs
  loaded by the kernel, system calls, interrupts and exceptions in any order.
\<close>

section \<open>The start of process management\<close>

lemma procs_ok_start:
  assumes "\<And>p. procs s p = None" "distinct (mallocs s)" "NULL \<notin> set (mallocs s)"
    "\<And>a. a \<in> set (mallocs s) \<Longrightarrow> addrspaces s a = None" "length (mallocs s) < 2 ^ 31 - 1"
  shows "procs_ok (s\<lparr>proc_all := [], proc_running := [], proc_sleeping := [], proc_nextpid := 1, proc_current := NULL\<rparr>)"
  using assms by (simp add: procs_ok_def table_ok_def mallocs_ok_def)

lemma procs_ok_syscalls [simp]: "procs_ok (s\<lparr>syscalls := x\<rparr>) \<longleftrightarrow> procs_ok s"
  by (simp add: procs_ok_def table_ok_def proc_ok_def mallocs_ok_def)

section \<open>Programs from the boot loader\<close>

text \<open>While the kernel starts no process runs.\<close>

definition starting :: "'a kernel_scheme \<Rightarrow> bool" where
  "starting s \<longleftrightarrow> procs_ok s \<and> proc_current s = NULL"

lemma starting_env: "env s r \<Longrightarrow> starting s \<Longrightarrow> goes_on r starting"
proof -
  assume e: "env s r" and st: "starting s"
  then have "starting (final r)" unfolding starting_def env_def
    by (auto intro: procs_ok_env simp: env_rel_def)
  then show ?thesis by (cases r) (simp_all add: goes_on_def)
qed

lemma goes_on_conj: "goes_on r P \<Longrightarrow> goes_on r Q \<Longrightarrow> goes_on r (\<lambda>t. P t \<and> Q t)"
  by (cases r) (simp_all add: goes_on_def)

lemma current_env: "env s r \<Longrightarrow> proc_current s = c \<Longrightarrow> goes_on r (\<lambda>t. proc_current t = c)"
  by (cases r) (auto simp: env_def env_rel_def goes_on_def)

lemma current_create:
  assumes "proc_current s = c"
  shows "goes_on (proc_create name uid gid parent running sys s) (\<lambda>t. proc_current t = c)"
  unfolding proc_create_def using assms
  by (intro goes_on_intros current_env [OF env_kmalloc_obj] current_env [OF env_updp]
      current_env [OF env_memuser_create_addrspace]) (simp_all add: pcore_def)

lemma starting_create: "starting s \<Longrightarrow> goes_on (proc_create name uid gid parent running sys s) starting"
  unfolding starting_def by (intro goes_on_conj keeps_procs_create current_create) simp_all

lemma current_destroy: "proc_current s = c \<Longrightarrow> goes_on (proc_destroy p s) (\<lambda>t. proc_current t = c)"
  unfolding proc_destroy_def split_def
  by (intro goes_on_intros current_env [OF env_getp] current_env [OF env_updp]
      current_env [OF env_memuser_destroy_addrspace]) (simp_all add: pcore_def)

lemma starting_destroy: "starting s \<Longrightarrow> p \<noteq> NULL \<Longrightarrow> goes_on (proc_destroy p s) starting"
  unfolding starting_def by (intro goes_on_conj keeps_procs_destroy current_destroy) simp_all

lemma env_bytes_are [env_intros]: "env s (bytes_are xs v s)"
proof (induction xs arbitrary: s)
  case (Cons x xs)
  then show ?case by (cases x) (auto intro!: env_intros)
qed (simp add: env_def)

lemma env_elf_validate [env_intros]: "env s (elf_validate h s)"
  unfolding elf_validate_def by (intro env_intros) simp_all

lemma env_paging_getphysaddr [env_intros]: "env s (paging_getphysaddr v s)"
  unfolding paging_getphysaddr_def by (intro env_intros) simp

lemma env_elf_pages [env_intros]: "env s (elf_pages k i memaddr memsize fileaddr filesize a w s)"
proof (induction k arbitrary: i s)
  case 0
  show ?case by (simp add: env_def)
next
  case (Suc k)
  show ?case unfolding elf_pages.simps by (intro env_intros Suc) simp_all
qed

lemma env_elf_loadseg [env_intros]: "env s (elf_loadseg memaddr memsize fileaddr filesize a w s)"
  unfolding elf_loadseg_def by (intro env_intros) simp_all

lemma env_elf_segments [env_intros]: "env s (elf_segments k i a file ph s)"
proof (induction k arbitrary: i s)
  case 0
  show ?case by (simp add: env_def)
next
  case (Suc k)
  show ?case unfolding elf_segments.simps by (intro env_intros Suc) simp_all
qed

lemma env_elf_load [env_intros]: "env s (elf_load a file sz s)"
  unfolding elf_load_def by (intro env_intros) simp_all

lemma starting_load_program: "starting s \<Longrightarrow> goes_on (load_program i init addr file sz s) starting"
  unfolding load_program_def
  by (intro goes_on_intros starting_env [OF mkeeps_load_cstr [THEN env_mem]] starting_create
      starting_env [OF env_getp] starting_env [OF env_elf_load] starting_env [OF env_updp]
      starting_env [OF env_memuser_create_stack] starting_destroy goes_on_Stop) (simp_all add: pcore_def)

section \<open>Runs of the kernel\<close>

text \<open>
  The kernel is entered by a system call, by an interrupt or an exception, and by \<open>main\<close> for every program of
  the boot loader, while no process runs. It goes on if the entry returns or idles.
\<close>

datatype kernel_entry =
  System_call u32 proc_registers vm86_segmentregs
| Interrupt_call u32 u32 u32 proc_registers vm86_segmentregs
| Load_program u32 u32 u32 u32 u32

fun enter :: "kernel_entry \<Rightarrow> 'a irq_scheme \<Rightarrow> (unit, 'a irq_scheme) res" where
  "enter (System_call kesp r v) s = bindr (isr37 kesp r v s) (\<lambda>_. Ret ())"
| "enter (Interrupt_call n err kesp r v) s = bindr (isr n err kesp r v s) (\<lambda>_. Ret ())"
| "enter (Load_program i init addr file sz) s = bindr (load_program i init addr file sz s) (\<lambda>_. Ret ())"

fun can_enter :: "kernel_entry \<Rightarrow> 'a irq_scheme \<Rightarrow> bool" where
  "can_enter (System_call kesp r v) s \<longleftrightarrow> proc_current s \<noteq> NULL"
| "can_enter (Interrupt_call n err kesp r v) s \<longleftrightarrow> n \<noteq> 0x37"
| "can_enter (Load_program i init addr file sz) s \<longleftrightarrow> proc_current s = NULL"

definition outcome :: "('b, 's) res \<Rightarrow> 's \<Rightarrow> bool" where
  "outcome r t \<longleftrightarrow> (case r of Ret x u \<Rightarrow> u = t | Stop e u \<Rightarrow> e = Idle \<and> u = t)"

lemma outcome_goes_on: "goes_on r P \<Longrightarrow> outcome r t \<Longrightarrow> P t"
  by (cases r) (auto simp: goes_on_def outcome_def)

lemma keeps_procs_enter:
  assumes "procs_ok s" "can_enter e s"
  shows "keeps_procs (enter e s)"
proof (cases e)
  case (Load_program i init addr path sz)
  then have "starting s" using assms by (simp add: starting_def)
  from starting_load_program [OF this, of i init addr path sz] have "keeps_procs (load_program i init addr path sz s)"
    by (cases "load_program i init addr path sz s") (simp_all add: goes_on_def starting_def)
  then show ?thesis unfolding Load_program enter.simps by (intro goes_on_intros)
qed (use assms in \<open>auto intro!: goes_on_intros keeps_procs_isr37 keeps_procs_isr\<close>)

text \<open>
  The stores of objects stand for the bytes of the kernel's variables and of its heap. System calls
  do not check where the pointers they get from a process point to, and can write there. So the model follows
  the code only as long as the pages of the kernel keep their frames, and their bytes.
\<close>

definition kernel_private :: "u32 \<Rightarrow> bool" where
  "kernel_private v \<longleftrightarrow>
     KERNELCODE_ADDRESS \<le> v \<and> v < KERNELCODE_ADDRESS + KERNELCODE_SIZE \<or>
     KERNELDATA_ADDRESS \<le> v \<and> v < KERNELDATA_ADDRESS + KERNELDATA_SIZE"

definition undisturbed :: "'a mem_scheme \<Rightarrow> 'a mem_scheme \<Rightarrow> bool" where
  "undisturbed s t \<longleftrightarrow>
     (\<forall>v p. kernel_private v \<and> vaddr s v = Some p \<longrightarrow> vaddr t v = Some p \<and> phys t p = phys s p)"

text \<open>
  Such writes need no privilege: a process that is not a system process sets any word of the
  kernel to zero with \<open>proc_memget\<close>, which stores through its pointer \<open>exists\<close> when it refuses.
\<close>

theorem memget_disturbs_kernel:
  assumes "procs s (proc_current s) = Some c" "p_system c = 0"
    "kernel_private v" "aligned4 v" "vaddr s v = Some p" "phys s p \<noteq> 0"
  shows "\<exists>t. proc_memget pid virt v wr swp cw s = Ret NULL t \<and> phys t p = 0 \<and> \<not> undisturbed s t"
proof -
  let ?t = "s\<lparr>phys := wr32 (phys s) p 0\<rparr>"
  have "proc_memget pid virt v wr swp cw s = Ret NULL ?t"
    using assms by (simp add: proc_memget_def for_system_def getp_def store32_aligned)
  moreover have "phys ?t p = 0" by (simp add: wr32_def byte_of_def)
  moreover have "\<not> undisturbed s ?t" using assms(3,5,6) \<open>phys ?t p = 0\<close> unfolding undisturbed_def by metis
  ultimately show ?thesis by blast
qed

text \<open>
  A step of the system. The flag says that something went wrong: a write to memory of the kernel, the use of a
  dangling pointer or a page fault inside of the kernel; anything may be the case afterwards. Between two
  entries a program may write to memory. What \<open>malloc\<close> is going to answer is only restricted by what is in use:
  an address that has been freed may come again.
\<close>

inductive kernel_step :: "'a irq_scheme \<Rightarrow> bool \<Rightarrow> 'a irq_scheme \<Rightarrow> bool" where
  step_enter: "can_enter e s \<Longrightarrow> outcome (enter e s) t \<Longrightarrow> undisturbed s t \<Longrightarrow> kernel_step s False t"
| step_stray: "can_enter e s \<Longrightarrow> outcome (enter e s) u \<Longrightarrow> \<not> undisturbed s u \<Longrightarrow> kernel_step s True t"
| step_wrong: "can_enter e s \<Longrightarrow> enter e s = Stop x u \<Longrightarrow> x = Dangling \<or> x = Fault a \<Longrightarrow> kernel_step s True t"
| step_program: "mem.more t = mem.more s \<Longrightarrow> undisturbed s t \<Longrightarrow> kernel_step s False t"
| step_program_stray: "mem.more u = mem.more s \<Longrightarrow> \<not> undisturbed s u \<Longrightarrow> kernel_step s True t"
| step_malloc: "distinct as \<Longrightarrow> NULL \<notin> set as \<Longrightarrow> (\<And>a. a \<in> set as \<Longrightarrow> procs s a = None \<and> addrspaces s a = None) \<Longrightarrow>
    length as \<le> length (mallocs s) \<Longrightarrow> kernel_step s False (s\<lparr>mallocs := as\<rparr>)"

text \<open>The states of a run, with the flag that something has gone wrong so far.\<close>

inductive kernel_reach :: "'a irq_scheme \<Rightarrow> bool \<Rightarrow> 'a irq_scheme \<Rightarrow> bool" for s where
  reach_refl: "kernel_reach s False s"
| reach_step: "kernel_reach s w t \<Longrightarrow> kernel_step t w' u \<Longrightarrow> kernel_reach s (w \<or> w') u"

lemma procs_ok_mallocs:
  assumes "procs_ok s" "distinct as" "NULL \<notin> set as" "\<And>a. a \<in> set as \<Longrightarrow> procs s a = None \<and> addrspaces s a = None"
    "length as \<le> length (mallocs s)"
  shows "procs_ok (s\<lparr>mallocs := as\<rparr>)"
  using assms by (simp add: procs_ok_def table_ok_def proc_ok_def mallocs_ok_def)

lemma kernel_step_procs_ok:
  assumes "kernel_step s False t" "procs_ok s"
  shows "procs_ok t"
  using assms(1)
proof cases
  case (step_enter e)
  show ?thesis by (rule outcome_goes_on [OF keeps_procs_enter [OF assms(2) step_enter(1)] step_enter(2)])
next
  case step_program
  show ?thesis by (rule procs_ok_env [OF assms(2) env_rel_more [OF step_program(1)]])
next
  case (step_malloc as)
  show ?thesis unfolding step_malloc(1) by (rule procs_ok_mallocs [OF assms(2) step_malloc(2-5)])
qed simp_all

lemma kernel_reach_procs_ok: "kernel_reach s w t \<Longrightarrow> procs_ok s \<Longrightarrow> \<not> w \<Longrightarrow> procs_ok t"
proof (induction rule: kernel_reach.induct)
  case (reach_step w t w' u)
  then show ?case using kernel_step_procs_ok [of t u] by simp
qed

text \<open>A path of proper steps.\<close>

lemma reach_proper: "kernel_reach s False t \<Longrightarrow> kernel_step t False u \<Longrightarrow> kernel_reach s False u"
  using reach_step [of s False t False u] by simp

lemma undisturbed_same: "phys t = phys s \<Longrightarrow> vaddr t = vaddr s \<Longrightarrow> undisturbed s t"
  by (simp add: undisturbed_def)

section \<open>Names of programs\<close>

lemma last_slash_none: "0x2F \<notin> set nm \<Longrightarrow> last_slash base i nm = base"
  by (induction nm arbitrary: i) auto

lemma last_slash_last: "0x2F \<notin> set nm \<Longrightarrow> last_slash base i (dir @ 0x2F # nm) = i + length dir"
  by (induction dir arbitrary: base i) (auto simp: last_slash_none)

end
