(* ===== verification/Waking.thy ===== *)
theory Waking
  imports ProcOps
begin

text \<open>
  What the queues of the kernel rely on when they wake processes, as a locale, and the loops over
  waiting processes proved from it once. The process manager provides it.
\<close>

locale waker =
  fixes ok :: "'s \<Rightarrow> bool" and known :: "'s \<Rightarrow> u32 set" and asleep :: "'s \<Rightarrow> u32 set"
    and wake :: "u32 \<Rightarrow> 's \<Rightarrow> (u32, 's) res"
  assumes wake_returns:
    "ok s \<Longrightarrow> p \<in> known s \<Longrightarrow>
     \<exists>t. wake p s = Ret 0 t \<and> ok t \<and> known t = known s \<and> asleep t = asleep s - {p}"
begin

text \<open>
  \<open>while ((p = llist_pop(l))) wake(p);\<close> empties the list and wakes everybody in it. \<open>J\<close> is what the owner
  of the list keeps while others are woken.
\<close>

lemma drain_wakes:
  assumes put: "\<And>xs t. ok t \<Longrightarrow> J t \<Longrightarrow>
      \<exists>u. put xs t = Ret () u \<and> ok u \<and> J u \<and> known u = known t \<and> asleep u = asleep t \<and> lst u = xs"
    and keep: "\<And>p t u. J t \<Longrightarrow> wake p t = Ret 0 u \<Longrightarrow> J u \<and> lst u = lst t"
    and "ok s" "J s" "set ps \<subseteq> known s" "NULL \<notin> set ps" "lst s = ps"
  shows "\<exists>t. drain put (\<lambda>p s. bindr (wake p s) (\<lambda>_. Ret ())) ps s = Ret () t \<and> ok t \<and> J t \<and>
    known t = known s \<and> asleep t = asleep s - set ps \<and> lst t = []"
  using assms(3-)
proof (induction ps arbitrary: s)
  case (Cons p ps)
  from put [OF Cons.prems(1,2), of ps] obtain u where u: "put ps s = Ret () u" "ok u" "J u" "known u = known s"
    "asleep u = asleep s" "lst u = ps" by blast
  with wake_returns [of u p] Cons.prems(3) obtain v where v: "wake p u = Ret 0 v" "ok v" "known v = known s"
    "asleep v = asleep s - {p}" by auto
  from keep [OF u(3) v(1)] u(6) have "J v" "lst v = ps" by auto
  with Cons.IH [of v] v Cons.prems obtain t where
    "drain put (\<lambda>p s. bindr (wake p s) (\<lambda>_. Ret ())) ps v = Ret () t" "ok t" "J t" "known t = known s"
    "asleep t = asleep s - {p} - set ps" "lst t = []" by auto
  with u v Cons.prems(4) show ?case by auto
qed auto

end

interpretation pw: waker procs_ok "\<lambda>s. dom (procs s)" "\<lambda>s. set (proc_sleeping s)" proc_wake
proof
  fix s :: "'a kernel_scheme" and p
  assume s: "procs_ok s" and p: "p \<in> dom (procs s)"
  then obtain x where x: "procs s p = Some x" by blast
  have tab: "table_ok s" using s by (simp add: procs_ok_def)
  note eq = proc_wake_eq [OF tab x]
  show "\<exists>t. proc_wake p s = Ret 0 t \<and> procs_ok t \<and> dom (procs t) = dom (procs s) \<and>
      set (proc_sleeping t) = set (proc_sleeping s) - {p}"
  proof (cases "p_is_sleeping x = 0")
    case True
    have "p \<notin> set (proc_sleeping s)"
    proof
      assume "p \<in> set (proc_sleeping s)"
      moreover from this table_lists(9) [OF tab] have "p \<in> set (proc_all s)" by blast
      from table_proc [OF tab this] x have "proc_ok s p x" by auto
      ultimately show False using True by (simp add: proc_ok_def)
    qed
    with True eq s show ?thesis by simp
  next
    case False
    with eq procs_ok_wake [OF s x False] x table_lists(3) [OF tab] show ?thesis by auto
  qed
qed

text \<open>Waking changes nothing but the two lists and the flags of processes.\<close>

definition awake :: "proc_S \<Rightarrow> proc_S" where
  "awake x = x\<lparr>p_is_sleeping := 0\<rparr>"

definition wakes_only :: "'a kernel_scheme \<Rightarrow> 'a kernel_scheme \<Rightarrow> bool" where
  "wakes_only s t \<longleftrightarrow>
     t = s\<lparr>procs := procs t, proc_running := proc_running t, proc_sleeping := proc_sleeping t\<rparr> \<and>
     (\<forall>q. map_option awake (procs t q) = map_option awake (procs s q))"

lemma wakes_only_refl [simp]: "wakes_only s s"
  by (simp add: wakes_only_def)

lemma wakes_only_trans:
  assumes "wakes_only s t" "wakes_only t u"
  shows "wakes_only s u"
proof -
  from assms(2) have "u = t\<lparr>procs := procs u, proc_running := proc_running u, proc_sleeping := proc_sleeping u\<rparr>"
    by (simp add: wakes_only_def)
  also from assms(1) have "t = s\<lparr>procs := procs t, proc_running := proc_running t, proc_sleeping := proc_sleeping t\<rparr>"
    by (simp add: wakes_only_def)
  finally show ?thesis using assms by (simp add: wakes_only_def)
qed

lemma proc_wake_only: "proc_wake p s = Ret r t \<Longrightarrow> wakes_only s t"
  by (auto simp: proc_wake_def getp_def updp_def deref_def bindr_Ret_iff wakes_only_def awake_def
      split: option.splits if_splits)

lemma wakes_only_fields:
  assumes "wakes_only s t"
  shows "proc_current t = proc_current s" "mallocs t = mallocs s" "kernel.more t = kernel.more s" "phys t = phys s"
    "vaddr t = vaddr s" "dom (procs t) = dom (procs s)" "curregs t = curregs s"
    "addrspaces t = addrspaces s" "proc_all t = proc_all s"
proof -
  let ?t = "s\<lparr>procs := procs t, proc_running := proc_running t, proc_sleeping := proc_sleeping t\<rparr>"
  have t: "t = ?t" using assms by (simp add: wakes_only_def)
  have "proc_current ?t = proc_current s" "mallocs ?t = mallocs s" "kernel.more ?t = kernel.more s" "phys ?t = phys s"
    "curregs ?t = curregs s" "addrspaces ?t = addrspaces s" "proc_all ?t = proc_all s" by simp_all
  with t show "proc_current t = proc_current s" "mallocs t = mallocs s" "kernel.more t = kernel.more s"
    "phys t = phys s" "curregs t = curregs s" "addrspaces t = addrspaces s" "proc_all t = proc_all s" by metis+
  have "vaddr ?t = vaddr s" by (simp add: vaddr_def fun_eq_iff)
  with t show "vaddr t = vaddr s" by metis
  show "dom (procs t) = dom (procs s)"
    using assms unfolding wakes_only_def by (metis (mono_tags, lifting) domIff map_option_is_None subsetI subset_antisym)
qed

end
