(* ===== verification/InterruptProps.thy ===== *)
theory InterruptProps
  imports Waking Desc ProcProps
begin

text \<open>
  Properties of interrupts: the layout of the frame, sleeping for a time, and the descriptors the
  processor uses.
\<close>

unbundle bit_operations_syntax

section \<open>What scheduling leaves alone\<close>

text \<open>The components above the process manager keep their state in \<^const>\<open>kernel.more\<close>.\<close>

definition more_is :: "'a \<Rightarrow> 'a kernel_scheme \<Rightarrow> bool" where
  "more_is m s \<longleftrightarrow> kernel.more s = m"

lemma more_is_primitives:
  "more_is m s \<Longrightarrow> goes_on (getp p s) (more_is m)"
  "more_is m s \<Longrightarrow> goes_on (updp p f s) (more_is m)"
  "more_is m s \<Longrightarrow> goes_on (memuser_load_addrspace a s) (more_is m)"
  by (auto simp: more_is_def goes_on_def getp_def updp_def deref_def memuser_load_addrspace_def geta_def
      paging_loadpagedir_def split: option.splits)

lemma more_is_switch: "more_is m s \<Longrightarrow> goes_on (switch_from p s) (more_is m)"
  unfolding switch_from_def proc_regs_save_def proc_regs_load_def cur_addrspace_def vm86_save_segregs_def
    vm86_load_segregs_def
  by (intro goes_on_intros more_is_primitives) (simp_all add: more_is_def)

lemma more_is_shedule: "more_is m s \<Longrightarrow> goes_on (proc_shedule s) (more_is m)"
  unfolding proc_shedule_def pick_process_def refill_ticks_def proc_idle_def cpu_shutdown_def proc_regs_save_def
    vm86_save_segregs_def
  by (intro goes_on_intros more_is_primitives more_is_switch goes_on_Stop) (simp_all add: more_is_def)

lemma proc_shedule_more: "proc_shedule s = Ret () t \<Longrightarrow> kernel.more t = kernel.more s"
  using more_is_shedule [of "kernel.more s" s] by (simp add: more_is_def goes_on_def)

section \<open>Sleeping processes are woken\<close>

definition usec_of :: "'a irq_scheme \<Rightarrow> u32 \<Rightarrow> 64 word" where
  "usec_of s a = sl_usec (the (sleepers s a))"

definition proc_of :: "'a irq_scheme \<Rightarrow> u32 \<Rightarrow> u32" where
  "proc_of s a = sl_proc (the (sleepers s a))"

text \<open>The list of sleepers is in order: existing entries of existing processes, each once.\<close>

definition sleepers_ok :: "'a irq_scheme \<Rightarrow> u32 list \<Rightarrow> bool" where
  "sleepers_ok s as \<longleftrightarrow> distinct as \<and> NULL \<notin> set as \<and>
     (\<forall>a \<in> set as. \<exists>x. sleepers s a = Some x \<and> sl_type x = TIME_SLEEP \<and> procs s (sl_proc x) \<noteq> None)"

lemma irq_more:
  assumes "kernel.more t = kernel.more s"
  shows "sleepers t = sleepers s" "interrupt_sleep t = interrupt_sleep s" "cpus t = cpus s" "cpu_objs t = cpu_objs s"
    "isr_uselapic t = isr_uselapic s"
  using assms by (cases s; cases t; simp)+

text \<open>
  What looking for sleepers leaves alone: the processor, the registers, and which processes there are;
  a process that sleeps can only begin to run.
\<close>

definition checked :: "'a irq_scheme \<Rightarrow> 'a irq_scheme \<Rightarrow> bool" where
  "checked s t \<longleftrightarrow> curregs t = curregs s \<and> proc_current t = proc_current s \<and> cpus t = cpus s \<and>
     cpu_objs t = cpu_objs s \<and> isr_uselapic t = isr_uselapic s \<and>
     (\<forall>q. map_option p_registers (procs t q) = map_option p_registers (procs s q)) \<and>
     set (proc_running s) \<subseteq> set (proc_running t) \<and>
     set (proc_running t) \<union> set (proc_sleeping t) = set (proc_running s) \<union> set (proc_sleeping s)"

lemma checked_trans: "checked s t \<Longrightarrow> checked t u \<Longrightarrow> checked s u"
  by (auto simp: checked_def)

lemma checked_dom: "checked s t \<Longrightarrow> dom (procs t) = dom (procs s)"
  unfolding checked_def by (metis (mono_tags, lifting) domIff map_option_is_None subsetI subset_antisym)

lemma checked_wake:
  assumes "procs_ok s" "p \<in> dom (procs s)" "proc_wake p s = Ret 0 t"
  shows "checked s t"
proof -
  from assms(2) obtain x where x: "procs s p = Some x" by blast
  have tab: "table_ok s" using assms(1) by (simp add: procs_ok_def)
  note eq = proc_wake_eq [OF tab x]
  show ?thesis
  proof (cases "p_is_sleeping x = 0")
    case True
    with eq assms(3) show ?thesis by (simp add: checked_def)
  next
    case False
    then have "p \<in> set (proc_all s)" using tab x unfolding table_ok_def by blast
    with table_proc [OF tab this] x False have "p \<in> set (proc_sleeping s)" by (auto simp: proc_ok_def)
    with False eq assms(3) x table_lists(3) [OF tab] show ?thesis by (auto simp: checked_def)
  qed
qed

lemma time_check_loop_ok:
  assumes "procs_ok s" "sleepers_ok s as" "set kept \<inter> set as = {}" "interrupt_sleep s = kept @ as"
  shows "\<exists>t. time_check_loop u kept as s = Ret () t \<and> procs_ok t \<and> checked s t \<and>
    interrupt_sleep t = kept @ filter (\<lambda>a. u < usec_of s a) as \<and>
    (\<forall>a. sleepers t a = (if a \<in> set as \<and> u < usec_of s a
       then Some ((the (sleepers s a))\<lparr>sl_usec := usec_of s a - u\<rparr>) else sleepers s a)) \<and>
    set (proc_sleeping t) = set (proc_sleeping s) - proc_of s ` {a \<in> set as. usec_of s a \<le> u}"
  using assms
proof (induction as arbitrary: kept s)
  case Nil
  then show ?case by (auto simp: checked_def)
next
  case (Cons a as)
  from Cons.prems(2) obtain x where x: "sleepers s a = Some x" "sl_type x = TIME_SLEEP"
    "sl_proc x \<in> dom (procs s)" "a \<noteq> NULL" "a \<notin> set as" by (auto simp: sleepers_ok_def)
  show ?case
  proof (cases "sl_usec x \<le> u")
    case True
    from pw.wake_returns [OF Cons.prems(1) x(3)] obtain v where v: "proc_wake (sl_proc x) s = Ret 0 v"
      "procs_ok v" "dom (procs v) = dom (procs s)" "set (proc_sleeping v) = set (proc_sleeping s) - {sl_proc x}" by blast
    note m = irq_more [OF wakes_only_fields(3) [OF proc_wake_only [OF v(1)]]]
    let ?v = "v\<lparr>interrupt_sleep := kept @ as\<rparr>"
    have sl: "procs v p \<noteq> None \<longleftrightarrow> procs s p \<noteq> None" for p using v(3) by (metis domIff)
    have c: "checked s ?v" using checked_wake [OF Cons.prems(1) x(3) v(1)] by (simp add: checked_def)
    have "procs_ok ?v" using v(2) by (simp add: procs_ok_def table_ok_def proc_ok_def mallocs_ok_def)
    moreover have "sleepers_ok ?v as" using Cons.prems(2) m sl by (auto simp: sleepers_ok_def)
    ultimately obtain t where t: "time_check_loop u kept as ?v = Ret () t" "procs_ok t" "checked ?v t"
      "interrupt_sleep t = kept @ filter (\<lambda>a. u < usec_of s a) as"
      "\<forall>a. sleepers t a = (if a \<in> set as \<and> u < usec_of s a
         then Some ((the (sleepers s a))\<lparr>sl_usec := usec_of s a - u\<rparr>) else sleepers s a)"
      "set (proc_sleeping t) = set (proc_sleeping s) - {sl_proc x} - proc_of s ` {a \<in> set as. usec_of s a \<le> u}"
      using Cons.IH [of ?v kept] Cons.prems(3) v m by (auto simp: usec_of_def proc_of_def)
    have "time_check_loop u kept (a # as) s = Ret () t" using x True v(1) t(1) by simp
    moreover have "{b \<in> set (a # as). usec_of s b \<le> u} = insert a {b \<in> set as. usec_of s b \<le> u}"
      using True x(1) by (auto simp: usec_of_def)
    ultimately show ?thesis using t x True checked_trans [OF c t(3)] by (auto simp: usec_of_def proc_of_def)
  next
    case False
    let ?y = "x\<lparr>sl_usec := sl_usec x - u\<rparr>"
    let ?v = "s\<lparr>sleepers := (sleepers s)(a \<mapsto> ?y)\<rparr>"
    have same: "usec_of ?v b = usec_of s b" "sleepers ?v b = sleepers s b" "proc_of ?v b = proc_of s b"
      if "b \<in> set as" for b
      using that x(5) by (auto simp: usec_of_def proc_of_def)
    have c: "checked s ?v" by (simp add: checked_def)
    have "procs_ok ?v" using Cons.prems(1) by (simp add: procs_ok_def table_ok_def proc_ok_def mallocs_ok_def)
    moreover have "sleepers_ok ?v as" using Cons.prems(2) x(5) by (auto simp: sleepers_ok_def)
    ultimately obtain t where t: "time_check_loop u (kept @ [a]) as ?v = Ret () t" "procs_ok t"
      "checked ?v t"
      "interrupt_sleep t = (kept @ [a]) @ filter (\<lambda>a. u < usec_of ?v a) as"
      "\<forall>b. sleepers t b = (if b \<in> set as \<and> u < usec_of ?v b
         then Some ((the (sleepers ?v b))\<lparr>sl_usec := usec_of ?v b - u\<rparr>) else sleepers ?v b)"
      "set (proc_sleeping t) = set (proc_sleeping s) - proc_of ?v ` {a \<in> set as. usec_of ?v a \<le> u}"
      using Cons.IH [of ?v "kept @ [a]"] Cons.prems(3,4) x(5) by auto
    have "time_check_loop u kept (a # as) s = Ret () t" using x False t(1) by simp
    moreover have "interrupt_sleep t = kept @ filter (\<lambda>a. u < usec_of s a) (a # as)"
      using t(4) same(1) False x(1) by (simp add: usec_of_def [of s] not_le cong: filter_cong)
    moreover have "sleepers t b = (if b \<in> set (a # as) \<and> u < usec_of s b
         then Some ((the (sleepers s b))\<lparr>sl_usec := usec_of s b - u\<rparr>) else sleepers s b)" for b
      using t(5) same x False by (auto simp: usec_of_def not_le)
    moreover have "proc_of ?v ` {a \<in> set as. usec_of ?v a \<le> u} = proc_of s ` {b \<in> set (a # as). usec_of s b \<le> u}"
    proof (rule image_cong)
      have "\<not> usec_of s a \<le> u" using False x(1) by (simp add: usec_of_def)
      then show "{b \<in> set as. usec_of ?v b \<le> u} = {b \<in> set (a # as). usec_of s b \<le> u}"
        using same(1) by auto
      show "proc_of ?v b = proc_of s b" if "b \<in> {b \<in> set (a # as). usec_of s b \<le> u}" for b
        using that same(3) \<open>\<not> usec_of s a \<le> u\<close> by auto
    qed
    ultimately show ?thesis using t(2,3,6) checked_trans [OF c t(3)] by auto
  qed
qed

definition sleep_inv :: "'a irq_scheme \<Rightarrow> bool" where
  "sleep_inv s \<longleftrightarrow> procs_ok s \<and> sleepers_ok s (interrupt_sleep s)"

text \<open>The list of sleepers after \<open>u\<close> microseconds.\<close>

definition passed :: "64 word \<Rightarrow> 'a irq_scheme \<Rightarrow> 'a irq_scheme \<Rightarrow> bool" where
  "passed u s t \<longleftrightarrow>
     interrupt_sleep t = filter (\<lambda>a. u < usec_of s a) (interrupt_sleep s) \<and>
     (\<forall>a \<in> set (interrupt_sleep t). sleepers t a = Some ((the (sleepers s a))\<lparr>sl_usec := usec_of s a - u\<rparr>)) \<and>
     set (proc_sleeping t) = set (proc_sleeping s) - proc_of s ` {a \<in> set (interrupt_sleep s). usec_of s a \<le> u}"

lemma time_check_ok:
  assumes "sleep_inv s"
  shows "\<exists>t. interrupt_time_check u s = Ret () t \<and> sleep_inv t \<and> checked s t \<and> passed (ucast u) s t"
proof -
  from assms have "procs_ok s" "sleepers_ok s (interrupt_sleep s)" by (simp_all add: sleep_inv_def)
  from time_check_loop_ok [OF this, of "[]" "ucast u"] obtain t where
    t: "time_check_loop (ucast u) [] (interrupt_sleep s) s = Ret () t" "procs_ok t" "checked s t"
    "interrupt_sleep t = filter (\<lambda>a. ucast u < usec_of s a) (interrupt_sleep s)"
    "\<forall>a. sleepers t a = (if a \<in> set (interrupt_sleep s) \<and> ucast u < usec_of s a
       then Some ((the (sleepers s a))\<lparr>sl_usec := usec_of s a - ucast u\<rparr>) else sleepers s a)"
    "set (proc_sleeping t) = set (proc_sleeping s) -
      proc_of s ` {a \<in> set (interrupt_sleep s). usec_of s a \<le> ucast u}" by auto
  have dom: "procs t p \<noteq> None \<longleftrightarrow> procs s p \<noteq> None" for p using checked_dom [OF t(3)] by (metis domIff)
  have "sleepers_ok t (interrupt_sleep t)"
    using \<open>sleepers_ok s (interrupt_sleep s)\<close> t(4,5) dom unfolding sleepers_ok_def by fastforce
  with t show ?thesis by (auto simp: interrupt_time_check_def sleep_inv_def passed_def)
qed

section \<open>The timer\<close>

lemma sleep_inv_cpu_objs [simp]: "sleep_inv (s\<lparr>cpu_objs := x\<rparr>) \<longleftrightarrow> sleep_inv s"
  by (simp add: sleep_inv_def sleepers_ok_def procs_ok_def table_ok_def proc_ok_def mallocs_ok_def)

text \<open>How the registers change places when the scheduler runs.\<close>

definition switched :: "proc_registers \<Rightarrow> 'a kernel_scheme \<Rightarrow> 'a kernel_scheme \<Rightarrow> bool" where
  "switched r s t \<longleftrightarrow>
     (if proc_current t = proc_current s then curregs t = r \<and>
        (\<forall>p. map_option p_registers (procs t p) = map_option p_registers (procs s p))
      else Some (curregs t) = map_option p_registers (procs s (proc_current t)) \<and>
        map_option p_registers (procs t (proc_current s)) = Some r \<and>
        (\<forall>p. p \<noteq> proc_current s \<longrightarrow> map_option p_registers (procs t p) = map_option p_registers (procs s p)))"

lemma switched_other:
  assumes "switched r s t" "p \<noteq> proc_current s"
  shows "map_option p_registers (procs t p) = map_option p_registers (procs s p)"
    "proc_current t = p \<Longrightarrow> Some (curregs t) = map_option p_registers (procs s p)"
  using assms unfolding switched_def by presburger+

lemma shedule_switched:
  assumes "procs_ok s" "proc_current s \<noteq> NULL"
  obtains t where "proc_shedule s = Ret () t" "procs_ok t" "proc_current t \<in> set (proc_running t)"
    "proc_running t = proc_running s" "proc_sleeping t = proc_sleeping s" "kernel.more t = kernel.more s"
    "switched (curregs s) s t" "dom (procs t) = dom (procs s)"
proof -
  have run: "proc_current s \<in> set (proc_running s)" using assms by (simp add: procs_ok_def)
  then have ne: "proc_running s \<noteq> []" by auto
  from proc_shedule_runs [OF procs_ok_sched_pre [OF assms(1)] ne] obtain t where t: "proc_shedule s = Ret () t"
    "procs_ok t" "proc_current t \<in> set (proc_running s)" "proc_all t = proc_all s"
    "proc_running t = proc_running s" "proc_sleeping t = proc_sleeping s"
    and regs: "if proc_current t = proc_current s then curregs t = curregs s \<and>
         (\<forall>p. map_option p_registers (procs t p) = map_option p_registers (procs s p))
     else curregs t = p_registers (the (procs s (proc_current t))) \<and>
         (proc_current s \<noteq> NULL \<longrightarrow> p_registers (the (procs t (proc_current s))) = curregs s) \<and>
         (\<forall>p. p \<noteq> proc_current s \<longrightarrow>
            map_option p_registers (procs t p) = map_option p_registers (procs s p))" .
  have tab: "table_ok s" "table_ok t" using assms(1) t(2) by (simp_all add: procs_ok_def)
  have live: "\<exists>x y. procs s p = Some x \<and> procs t p = Some y" if "p \<in> set (proc_running s)" for p
  proof -
    from that table_lists(8) [OF tab(1)] t(4) have a: "p \<in> set (proc_all s)" "p \<in> set (proc_all t)" by auto
    obtain x where "procs s p = Some x" by (rule table_proc [OF tab(1) a(1)])
    moreover obtain y where "procs t p = Some y" by (rule table_proc [OF tab(2) a(2)])
    ultimately show ?thesis by simp
  qed
  have sw: "switched (curregs s) s t"
    using regs live [OF run] live [OF t(3)] assms(2) by (auto simp: switched_def)
  have "procs t p = None \<longleftrightarrow> procs s p = None" for p
  proof (cases "p = proc_current s")
    case True
    with live [OF run] show ?thesis by auto
  next
    case False
    with regs have "map_option p_registers (procs t p) = map_option p_registers (procs s p)"
      by (simp split: if_splits)
    then show ?thesis by (cases "procs t p"; cases "procs s p") auto
  qed
  then have "dom (procs t) = dom (procs s)" by (auto simp: dom_def)
  with that t sw proc_shedule_more [OF t(1)] show thesis by auto
qed

lemma interrupt_timer_runs:
  assumes inv: "sleep_inv s" and cur: "proc_current s \<noteq> NULL" and cpu: "cpu_objs s (cpu_this s) = Some c"
  obtains t where "interrupt_timer s = Ret () t" "sleep_inv t" "proc_current t \<noteq> NULL" "cpus t = cpus s"
    "cpu_objs t = (cpu_objs s)(cpu_this s \<mapsto> c\<lparr>cpu_ticks := cpu_ticks c + 1\<rparr>)"
    "isr_uselapic t = isr_uselapic s" "passed (ucast (cpu_interval c * 1000)) s t"
    "set (proc_running t) \<union> set (proc_sleeping t) = set (proc_running s) \<union> set (proc_sleeping s)"
    "switched (curregs s) s t"
proof -
  let ?u = "cpu_interval c * 1000"
  let ?s = "s\<lparr>cpu_objs := (cpu_objs s)(cpu_this s \<mapsto> c\<lparr>cpu_ticks := cpu_ticks c + 1\<rparr>)\<rparr>"
  from time_check_ok [of ?s ?u] inv obtain v where v: "interrupt_time_check ?u ?s = Ret () v" "sleep_inv v"
    "checked ?s v" "passed (ucast ?u) ?s v" by auto
  have pv: "procs_ok v" "proc_current v \<noteq> NULL" "curregs v = curregs s" "proc_current v = proc_current s"
    using v(2,3) cur by (simp_all add: sleep_inv_def checked_def)
  from shedule_switched [OF pv(1,2)] obtain t where t: "proc_shedule v = Ret () t" "procs_ok t"
    "proc_current t \<in> set (proc_running t)" "proc_running t = proc_running v" "proc_sleeping t = proc_sleeping v"
    "kernel.more t = kernel.more v" "switched (curregs v) v t" "dom (procs t) = dom (procs v)" .
  note m = irq_more [OF t(6)]
  have dom: "procs t p \<noteq> None \<longleftrightarrow> procs v p \<noteq> None" for p using t(8) by (metis domIff)
  have "interrupt_timer s = Ret () t"
    using cpu v(1) t(1) by (simp add: interrupt_timer_def updcpu_def getcpu_def Let_def)
  moreover have "sleep_inv t" using v(2) t(2) m dom by (simp add: sleep_inv_def sleepers_ok_def)
  moreover have "proc_current t \<noteq> NULL"
    using t(2,3) table_lists(5) [of t] by (auto simp: procs_ok_def)
  moreover have "passed (ucast ?u) s t"
    using v(4) m t(5) by (simp add: passed_def usec_of_def proc_of_def)
  moreover have "switched (curregs s) s t"
    using t(7) v(3) by (simp add: switched_def checked_def split: if_splits)
  ultimately show thesis
    using v(3) m t(4,5) by (intro that [of t]) (simp_all add: checked_def)
qed

text \<open>Who has been woken stays awake at further ticks, and no entry comes back.\<close>

lemma ticks_shrink:
  assumes "sleep_inv s" "proc_current s \<noteq> NULL" "cpu_objs s (cpu_this s) = Some c"
  shows "\<exists>xs t. repeat_op k interrupt_timer s = Ret xs t \<and>
    set (interrupt_sleep t) \<subseteq> set (interrupt_sleep s) \<and> set (proc_sleeping t) \<subseteq> set (proc_sleeping s) \<and>
    set (proc_running t) \<union> set (proc_sleeping t) = set (proc_running s) \<union> set (proc_sleeping s)"
  using assms
proof (induction k arbitrary: s c)
  case (Suc k)
  from interrupt_timer_runs [OF Suc.prems] obtain v where v: "interrupt_timer s = Ret () v" "sleep_inv v"
    "proc_current v \<noteq> NULL" "cpus v = cpus s"
    "cpu_objs v = (cpu_objs s)(cpu_this s \<mapsto> c\<lparr>cpu_ticks := cpu_ticks c + 1\<rparr>)"
    "passed (ucast (cpu_interval c * 1000)) s v"
    "set (proc_running v) \<union> set (proc_sleeping v) = set (proc_running s) \<union> set (proc_sleeping s)" .
  have "cpu_this v = cpu_this s" using v(4) by (simp add: cpu_this_def)
  with v(5) have "cpu_objs v (cpu_this v) = Some (c\<lparr>cpu_ticks := cpu_ticks c + 1\<rparr>)" by simp
  from Suc.IH [OF v(2,3) this] obtain xs t where t: "repeat_op k interrupt_timer v = Ret xs t"
    "set (interrupt_sleep t) \<subseteq> set (interrupt_sleep v)" "set (proc_sleeping t) \<subseteq> set (proc_sleeping v)"
    "set (proc_running t) \<union> set (proc_sleeping t) = set (proc_running v) \<union> set (proc_sleeping v)" by blast
  moreover have "set (interrupt_sleep v) \<subseteq> set (interrupt_sleep s)" "set (proc_sleeping v) \<subseteq> set (proc_sleeping s)"
    using v(6) by (auto simp: passed_def)
  ultimately show ?case using v(1,7) by (intro exI [of _ "() # xs"] exI [of _ t]) auto
qed auto

lemma unat_ucast64 [simp]: "unat (ucast (u :: u32) :: 64 word) = unat u"
proof -
  have "unat u < 2 ^ 64" by (rule order_less_trans [OF unsigned_less [where ?'a = nat and w = u]]) simp
  then show ?thesis by (simp add: unsigned_ucast_eq take_bit_nat_eq_self)
qed

text \<open>The entry is the only one of its process.\<close>

definition sole_sleeper :: "'a irq_scheme \<Rightarrow> u32 \<Rightarrow> bool" where
  "sole_sleeper s a \<longleftrightarrow> (\<forall>b \<in> set (interrupt_sleep s). b \<noteq> a \<longrightarrow> proc_of s b \<noteq> proc_of s a)"

text \<open>One tick, seen from an entry that still has time left, and from one that has none.\<close>

lemma passed_left:
  assumes "passed u s t" "a \<in> set (interrupt_sleep s)" "sleepers s a = Some x" "\<not> sl_usec x \<le> u"
  shows "a \<in> set (interrupt_sleep t)" "sleepers t a = Some (x\<lparr>sl_usec := sl_usec x - u\<rparr>)"
    "sole_sleeper s a \<Longrightarrow> sole_sleeper t a"
    "sole_sleeper s a \<Longrightarrow> sl_proc x \<in> set (proc_sleeping s) \<Longrightarrow> sl_proc x \<in> set (proc_sleeping t)"
proof -
  have us: "usec_of s a = sl_usec x" "proc_of s a = sl_proc x" using assms(3) by (simp_all add: usec_of_def proc_of_def)
  show a: "a \<in> set (interrupt_sleep t)" using assms us by (simp add: passed_def not_le)
  with assms(1,3) us show "sleepers t a = Some (x\<lparr>sl_usec := sl_usec x - u\<rparr>)" by (auto simp: passed_def)
  have "proc_of t b = proc_of s b" "b \<in> set (interrupt_sleep s)" if "b \<in> set (interrupt_sleep t)" for b
    using assms(1) that by (auto simp: passed_def proc_of_def)
  with a show "sole_sleeper s a \<Longrightarrow> sole_sleeper t a" by (auto simp: sole_sleeper_def)
  show "sl_proc x \<in> set (proc_sleeping t)" if "sole_sleeper s a" "sl_proc x \<in> set (proc_sleeping s)"
  proof -
    have "sl_proc x \<notin> proc_of s ` {b \<in> set (interrupt_sleep s). usec_of s b \<le> u}"
      using that(1) us assms(4) by (auto simp: sole_sleeper_def)
    with that(2) assms(1) show ?thesis by (simp add: passed_def)
  qed
qed

lemma passed_over:
  assumes "passed u s t" "a \<in> set (interrupt_sleep s)" "sleepers s a = Some x" "sl_usec x \<le> u"
  shows "a \<notin> set (interrupt_sleep t)" "sl_proc x \<notin> set (proc_sleeping t)"
proof -
  have us: "usec_of s a = sl_usec x" "proc_of s a = sl_proc x" using assms(3) by (simp_all add: usec_of_def proc_of_def)
  show "a \<notin> set (interrupt_sleep t)" using assms us by (simp add: passed_def)
  have "a \<in> {a \<in> set (interrupt_sleep s). usec_of s a \<le> u}" using assms us by simp
  then have "sl_proc x \<in> proc_of s ` {a \<in> set (interrupt_sleep s). usec_of s a \<le> u}"
    unfolding us(2) [symmetric] by (rule imageI)
  with assms(1) show "sl_proc x \<notin> set (proc_sleeping t)" by (simp add: passed_def)
qed

lemma ticks_wake:
  assumes "sleep_inv s" "proc_current s \<noteq> NULL" "cpu_objs s (cpu_this s) = Some c"
    "a \<in> set (interrupt_sleep s)" "sleepers s a = Some x" "0 < k"
  shows "\<exists>xs t. repeat_op k interrupt_timer s = Ret xs t \<and>
    set (proc_running t) \<union> set (proc_sleeping t) = set (proc_running s) \<union> set (proc_sleeping s) \<and>
    (if k * unat (cpu_interval c * 1000) < unat (sl_usec x)
     then a \<in> set (interrupt_sleep t) \<and>
       (sole_sleeper s a \<and> sl_proc x \<in> set (proc_sleeping s) \<longrightarrow> sl_proc x \<in> set (proc_sleeping t))
     else a \<notin> set (interrupt_sleep t) \<and> sl_proc x \<notin> set (proc_sleeping t))"
  using assms
proof (induction k arbitrary: s c x)
  case (Suc k)
  let ?u = "ucast (cpu_interval c * 1000) :: 64 word"
  from interrupt_timer_runs [OF Suc.prems(1-3)] obtain v where v: "interrupt_timer s = Ret () v" "sleep_inv v"
    "proc_current v \<noteq> NULL" "cpus v = cpus s"
    "cpu_objs v = (cpu_objs s)(cpu_this s \<mapsto> c\<lparr>cpu_ticks := cpu_ticks c + 1\<rparr>)" "passed ?u s v"
    "set (proc_running v) \<union> set (proc_sleeping v) = set (proc_running s) \<union> set (proc_sleeping s)" .
  have "cpu_this v = cpu_this s" using v(4) by (simp add: cpu_this_def)
  with v(5) have cpu: "cpu_objs v (cpu_this v) = Some (c\<lparr>cpu_ticks := cpu_ticks c + 1\<rparr>)" by simp
  show ?case
  proof (cases "sl_usec x \<le> ?u")
    case True
    note over = passed_over [OF v(6) Suc.prems(4,5) True]
    from True have "unat (sl_usec x) \<le> unat (cpu_interval c * 1000)" by (simp add: word_le_nat_alt)
    then have "\<not> Suc k * unat (cpu_interval c * 1000) < unat (sl_usec x)" by simp
    moreover from ticks_shrink [OF v(2,3) cpu] obtain xs t where "repeat_op k interrupt_timer v = Ret xs t"
      "set (interrupt_sleep t) \<subseteq> set (interrupt_sleep v)" "set (proc_sleeping t) \<subseteq> set (proc_sleeping v)"
      "set (proc_running t) \<union> set (proc_sleeping t) = set (proc_running v) \<union> set (proc_sleeping v)" by blast
    ultimately show ?thesis using over v(1,7) by (intro exI [of _ "() # xs"] exI [of _ t]) auto
  next
    case False
    note left = passed_left [OF v(6) Suc.prems(4,5) False]
    from False have lt: "unat (cpu_interval c * 1000) < unat (sl_usec x)" by (simp add: word_le_nat_alt)
    show ?thesis
    proof (cases "k = 0")
      case True
      with v(1,7) left lt show ?thesis by (intro exI [of _ "[()]"] exI [of _ v]) simp
    next
      case False
      have "unat (sl_usec x - ?u) = unat (sl_usec x) - unat (cpu_interval c * 1000)"
        using lt by (simp add: unat_sub word_le_nat_alt)
      then have iff: "k * unat (cpu_interval c * 1000) < unat (sl_usec x - ?u) \<longleftrightarrow>
          Suc k * unat (cpu_interval c * 1000) < unat (sl_usec x)" using lt by auto
      from Suc.IH [OF v(2,3) cpu left(1,2)] False obtain xs t where t: "repeat_op k interrupt_timer v = Ret xs t"
        "set (proc_running t) \<union> set (proc_sleeping t) = set (proc_running v) \<union> set (proc_sleeping v)"
        "if Suc k * unat (cpu_interval c * 1000) < unat (sl_usec x)
         then a \<in> set (interrupt_sleep t) \<and>
           (sole_sleeper v a \<and> sl_proc x \<in> set (proc_sleeping v) \<longrightarrow> sl_proc x \<in> set (proc_sleeping t))
         else a \<notin> set (interrupt_sleep t) \<and> sl_proc x \<notin> set (proc_sleeping t)"
        by (auto simp: iff simp del: mult_Suc cong: if_cong)
      have "repeat_op (Suc k) interrupt_timer s = Ret (() # xs) t" using v(1) t(1) by simp
      with t(2,3) left(3,4) v(7) show ?thesis by (intro exI [of _ "() # xs"] exI [of _ t]) (simp split: if_splits)
    qed
  qed
qed simp

text \<open>
  C12. A process that sleeps for a time is woken in time and not before. While ticks of the timer follow
  each other, every one returns. As long as \<open>k\<close> ticks are shorter than the time of an entry, the entry is in the
  list of sleepers, and its process sleeps on if no other entry has the same process; as soon as they are not, the
  entry is gone, and its process is no longer asleep but among those that run.
\<close>

theorem sleeper_is_woken:
  assumes "sleep_inv s" "proc_current s \<noteq> NULL" "cpu_objs s (cpu_this s) = Some c"
    "a \<in> set (interrupt_sleep s)" "sleepers s a = Some x" "0 < k"
  shows "\<exists>xs t. repeat_op k interrupt_timer s = Ret xs t \<and>
    (if k * unat (cpu_interval c * 1000) < unat (sl_usec x)
     then a \<in> set (interrupt_sleep t) \<and>
       (sole_sleeper s a \<and> sl_proc x \<in> set (proc_sleeping s) \<longrightarrow> sl_proc x \<in> set (proc_sleeping t))
     else a \<notin> set (interrupt_sleep t) \<and> sl_proc x \<notin> set (proc_sleeping t) \<and>
       (sl_proc x \<in> set (proc_sleeping s) \<longrightarrow> sl_proc x \<in> set (proc_running t)))"
  using ticks_wake [OF assms] by (auto split: if_splits)

section \<open>A small system with sleepers\<close>

definition zero_irq :: "kernel \<Rightarrow> irq" where
  "zero_irq k = rpc.extend (ipc.extend (kernel.extend k
       (ipc.fields [] 0 Map.empty Map.empty Map.empty Map.empty Map.empty Map.empty))
       (rpc.fields [] 0 0 Map.empty Map.empty))
       (irq.fields [] Map.empty [] Map.empty [0xA000]
          [0xA000 \<mapsto> \<lparr>cpu_enabled = 1, cpu_stack = 0xC0000, cpu_stacksize = 0x1000, cpu_tss = 0, cpu_uselapic = 0,
                       cpu_interval = 10, cpu_ticks = 0\<rparr>] 0 0 [] [])"

lemmas zero_irq_defs = zero_irq_def kernel.defs ipc.defs rpc.defs irq.defs

text \<open>The third process of the small system sleeps for another 25 ms.\<close>

definition demo_sleeping :: irq where
  "demo_sleeping = (zero_irq demo_kernel)\<lparr>interrupt_sleep := [0xB000],
     sleepers := [0xB000 \<mapsto> \<lparr>sl_type = TIME_SLEEP, sl_usec = 25000, sl_proc = 0x3000\<rparr>]\<rparr>"

lemma demo_sleeping_inv: "sleep_inv demo_sleeping"
  by (simp add: sleep_inv_def sleepers_ok_def demo_sleeping_def zero_irq_defs procs_ok_def table_ok_def
      proc_ok_def mallocs_ok_def demo_defs)

theorem sleeper_is_woken_witness:
  "(\<exists>xs t. repeat_op 2 interrupt_timer demo_sleeping = Ret xs t \<and> 0x3000 \<in> set (proc_sleeping t)) \<and>
   (\<exists>xs t. repeat_op 3 interrupt_timer demo_sleeping = Ret xs t \<and> 0x3000 \<in> set (proc_running t))"
proof -
  let ?x = "\<lparr>sl_type = TIME_SLEEP, sl_usec = 25000, sl_proc = 0x3000\<rparr>"
  have f: "proc_current demo_sleeping \<noteq> NULL" "0xB000 \<in> set (interrupt_sleep demo_sleeping)"
    "sleepers demo_sleeping 0xB000 = Some ?x" "0x3000 \<in> set (proc_sleeping demo_sleeping)"
    by (simp_all add: demo_sleeping_def zero_irq_defs demo_defs)
  obtain c where c: "cpu_objs demo_sleeping (cpu_this demo_sleeping) = Some c" "cpu_interval c = 10"
    by (simp add: demo_sleeping_def zero_irq_defs demo_defs cpu_this_def ll_get_def)
  have sole: "sole_sleeper demo_sleeping 0xB000" by (simp add: sole_sleeper_def demo_sleeping_def)
  note woken = sleeper_is_woken [OF demo_sleeping_inv f(1) c(1) f(2,3)]
  from woken [of 2] woken [of 3] show ?thesis using f(4) sole c(2) by auto
qed

section \<open>Bounds of sleeping\<close>

text \<open>
  \<open>interrupt_time_sleep\<close> multiplies the seconds in 32 bits: the microseconds it sleeps are the right
  number exactly up to 4294 seconds, and never more than \<open>2\<^sup>3\<^sup>2\<close>; a sleep of 4295 seconds lasts 32704
  microseconds.
\<close>

theorem time_sleep_bounds:
  "(unat (sleep_usec sec) = unat sec * 1000000 \<longleftrightarrow> unat sec \<le> 4294) \<and>
   unat (sleep_usec sec) < 2 ^ 32 \<and> sleep_usec 4295 = 32704 \<and>
   interrupt_time_sleep sec s = interrupt_sleep_for (sleep_usec sec) s"
proof -
  have u: "unat (sleep_usec sec) = unat sec * 1000000 mod 2 ^ 32"
    by (simp add: sleep_usec_def unat_word_ariths)
  have "unat (sleep_usec sec) = unat sec * 1000000 \<longleftrightarrow> unat sec * 1000000 < 2 ^ 32"
    unfolding u by (metis mod_less mod_less_divisor zero_less_numeral zero_less_power)
  also have "\<dots> \<longleftrightarrow> unat sec \<le> 4294" by auto
  finally show ?thesis
    by (simp add: u interrupt_time_sleep_def) (simp add: sleep_usec_def)
qed

section \<open>The interrupt frame\<close>

text \<open>The registers with which a program goes on after an interrupt: the stub pops the segment registers in the
  order it pushed them.\<close>

definition exchanged :: "proc_registers \<Rightarrow> proc_registers" where
  "exchanged r = r\<lparr>r_ds := r_gs r, r_es := r_fs r, r_fs := r_es r, r_gs := r_ds r\<rparr>"

lemma frame_layout:
  assumes "n \<noteq> 17"
  shows "interrupt_save_stack (isr_entry n err kesp r v) s =
      Ret (if hw_errcode n then err else 0) (s\<lparr>curregs := exchanged r, vm86_curregs := v\<rparr>)"
    "isr_return (isr_entry n err kesp r v) = exchanged r"
proof -
  have "hw_errcode n \<longleftrightarrow> \<not> isr_dummy_errcode n"
    using assms by (auto simp: hw_errcode_def isr_dummy_errcode_def)
  then show "interrupt_save_stack (isr_entry n err kesp r v) s =
      Ret (if hw_errcode n then err else 0) (s\<lparr>curregs := exchanged r, vm86_curregs := v\<rparr>)"
    "isr_return (isr_entry n err kesp r v) = exchanged r"
    by (cases "hw_errcode n"; simp add: interrupt_save_stack_def isr_entry_def isr_return_def isr_pushad_def
      isr_pushsr_def exchanged_def)+
qed

lemma isr_return_frame: "isr_return (isr_frame st r) = r"
  by (simp add: isr_return_def isr_frame_def)

text \<open>
  C22. The frame that the stubs build and the C code agree on every register, on the segment
  registers of virtual 8086 mode and on the error code, for every vector but 17: what
  \<open>interrupt_save_stack\<close> reads as a register is what the stub restores on return. But the stub pops the
  segment registers in the order it pushed them: after an interrupt the program goes on with \<open>ds\<close> and \<open>gs\<close>
  exchanged, and \<open>es\<close> and \<open>fs\<close>.
\<close>

theorem isr_frame_layout:
  assumes "n \<noteq> 17"
  shows "interrupt_save_stack (isr_entry n err kesp r v) s =
      Ret (if hw_errcode n then err else 0) (s\<lparr>curregs := isr_return (isr_entry n err kesp r v), vm86_curregs := v\<rparr>) \<and>
    isr_return (isr_entry n err kesp r v) = r\<lparr>r_ds := r_gs r, r_es := r_fs r, r_fs := r_es r, r_gs := r_ds r\<rparr>"
  by (simp add: frame_layout [OF assms] exchanged_def)

theorem isr_frame_layout_witness:
  "isr_return (isr_entry 0x21 0 0 (zero_regs\<lparr>r_ds := 0x23, r_gs := 0x2B\<rparr>) zero_segregs) =
     zero_regs\<lparr>r_ds := 0x2B, r_gs := 0x23\<rparr>"
  using isr_frame_layout [of "0x21" 0 0 "zero_regs\<lparr>r_ds := 0x23, r_gs := 0x2B\<rparr>" zero_segregs zero_kernel]
  by (simp add: zero_regs_def)

section \<open>Preemption\<close>

lemma sleep_inv_entry [simp]:
  "sleep_inv (s\<lparr>curregs := a, vm86_curregs := b, outs := d\<rparr>) \<longleftrightarrow> sleep_inv s"
  by (simp add: sleep_inv_def sleepers_ok_def procs_ok_def table_ok_def proc_ok_def mallocs_ok_def)

text \<open>The processor as \<open>lapic_init\<close> leaves it, which never uses the local APIC.\<close>

definition uses_pic :: "'a irq_scheme \<Rightarrow> bool" where
  "uses_pic s \<longleftrightarrow> isr_uselapic s = 0 \<and> (\<exists>c. cpu_objs s (cpu_this s) = Some c \<and> cpu_uselapic c = 0)"

lemma irq0_master [simp]: "\<not> (8 :: u32) \<le>s 0"
  by (simp add: word_sle_eq)

text \<open>A tick of the timer as a whole, from the registers of the interrupted program to those of the next one.\<close>

lemma isr_timer:
  assumes "sleep_inv s" "proc_current s \<noteq> NULL" "uses_pic s"
  obtains t where "isr 0x20 err kesp r v s = Ret (curregs t) t" "sleep_inv t" "proc_current t \<noteq> NULL" "uses_pic t"
    "switched (exchanged r) s t"
proof -
  from assms(3) obtain c where c: "isr_uselapic s = 0" "cpu_objs s (cpu_this s) = Some c" "cpu_uselapic c = 0"
    by (auto simp: uses_pic_def)
  let ?s = "s\<lparr>curregs := exchanged r, vm86_curregs := v, outs := (0x20, ucast (0x20 :: u32)) # outs s\<rparr>"
  have same: "cpu_this ?s = cpu_this s" by (simp add: cpu_this_def)
  have s1: "sleep_inv ?s" "proc_current ?s \<noteq> NULL" "cpu_objs ?s (cpu_this ?s) = Some c"
    using assms c same by simp_all
  from interrupt_timer_runs [OF s1] obtain t where t: "interrupt_timer ?s = Ret () t" "sleep_inv t"
    "proc_current t \<noteq> NULL" "cpus t = cpus s"
    "cpu_objs t = (cpu_objs s)(cpu_this s \<mapsto> c\<lparr>cpu_ticks := cpu_ticks c + 1\<rparr>)" "isr_uselapic t = 0"
    "switched (exchanged r) ?s t" using same c(1) by auto
  have "cpu_this t = cpu_this s" using t(4) by (simp add: cpu_this_def)
  then have pic: "uses_pic t" using t(5,6) c(3) by (simp add: uses_pic_def)
  have "interrupt_handler 0x30 (isr_entry 0x30 err kesp r v) s = Ret () t"
    using t c by (simp add: interrupt_handler_def frame_layout getcpu_def interrupt_irq_handler_def pic_eoi_def outb_def)
  then have "isr 0x20 err kesp r v s = Ret (curregs t) t"
    using c(1) by (simp add: isr_def isr_return_frame)
  moreover have "switched (exchanged r) s t" using t(7) by (simp add: switched_def split: if_splits)
  ultimately show thesis using t(2,3) pic by (intro that)
qed

text \<open>
  Time slices: the running program is interrupted by the timer with given registers; the result are the registers
  with which the program goes on that is chosen last.
\<close>

fun slices :: "(u32 \<times> proc_registers \<times> vm86_segmentregs) list \<Rightarrow> proc_registers \<Rightarrow> 'a irq_scheme \<Rightarrow>
    (proc_registers, 'a irq_scheme) res" where
  "slices [] x s = Ret x s"
| "slices ((kesp, r, v) # rs) x s = bindr (isr 0x20 0 kesp r v s) (slices rs)"

text \<open>As long as a process does not run, its saved registers stay, and when it runs they are loaded.\<close>

lemma saved_registers_kept:
  assumes "sleep_inv s" "proc_current s \<noteq> NULL" "uses_pic s" "proc_current s \<noteq> p"
    "map_option p_registers (procs s p) = Some r"
    "slices rs x s = Ret y t" "proc_current t = p"
    "\<And>k u z. k < length rs \<Longrightarrow> slices (take k rs) x s = Ret z u \<Longrightarrow> proc_current u \<noteq> p"
  shows "y = r"
  using assms
proof (induction rs arbitrary: s x)
  case (Cons e rs)
  obtain kesp r1 v where e: "e = (kesp, r1, v)" by (cases e)
  from isr_timer [OF Cons.prems(1-3)] obtain u where u: "isr 0x20 0 kesp r1 v s = Ret (curregs u) u" "sleep_inv u"
    "proc_current u \<noteq> NULL" "uses_pic u" "switched (exchanged r1) s u" .
  have kept: "map_option p_registers (procs u p) = Some r"
    using switched_other(1) [OF u(5), of p] Cons.prems(4,5) by simp
  have rest: "slices rs (curregs u) u = Ret y t" using Cons.prems(6) u(1) e by simp
  show ?case
  proof (cases "rs = []")
    case True
    with rest have "u = t" "y = curregs u" by auto
    with switched_other(2) [OF u(5), of p] Cons.prems(4,5,7) show ?thesis by simp
  next
    case False
    have ne: "proc_current u \<noteq> p" using Cons.prems(8) [of 1 "curregs u" u] u(1) e False by simp
    show ?thesis
    proof (rule Cons.IH [OF u(2-4) ne kept rest Cons.prems(7)])
      show "proc_current w \<noteq> p" if "k < length rs" "slices (take k rs) (curregs u) u = Ret z w" for k z w
        using Cons.prems(8) [of "Suc k" z w] that u(1) e by simp
    qed
  qed
qed simp

text \<open>
  C9. Preemption keeps the registers of a process, but for what every interrupt does to them. A process that the
  timer interrupts with the registers \<open>r\<close>, and that next runs after any number of slices of other processes, whatever those
  have done to their registers, goes on with the registers \<open>r\<close> in which \<open>ds\<close> and \<open>gs\<close> are exchanged,
  and \<open>es\<close> and \<open>fs\<close>. So a process in which these are the same in pairs does not notice.
\<close>

theorem preemption_keeps_registers:
  assumes "sleep_inv s" "uses_pic s" "proc_current s = p" "p \<noteq> NULL"
    "slices ((kesp, r, v) # rs) x s = Ret y t" "proc_current t = p"
    "\<And>k u z. 0 < k \<Longrightarrow> k \<le> length rs \<Longrightarrow> slices (take k ((kesp, r, v) # rs)) x s = Ret z u \<Longrightarrow> proc_current u \<noteq> p"
  shows "y = r\<lparr>r_ds := r_gs r, r_es := r_fs r, r_fs := r_es r, r_gs := r_ds r\<rparr>"
proof -
  have cur: "proc_current s \<noteq> NULL" using assms(3,4) by simp
  from isr_timer [OF assms(1) cur assms(2)] obtain u where u: "isr 0x20 0 kesp r v s = Ret (curregs u) u" "sleep_inv u"
    "proc_current u \<noteq> NULL" "uses_pic u" "switched (exchanged r) s u" .
  have rest: "slices rs (curregs u) u = Ret y t" using assms(5) u(1) by simp
  show ?thesis unfolding exchanged_def [symmetric]
  proof (cases "rs = []")
    case True
    with rest assms(3,6) u(5) show "y = exchanged r" by (auto simp: switched_def)
  next
    case False
    have ne: "proc_current u \<noteq> p" using assms(7) [of 1 "curregs u" u] u(1) False by (cases rs) simp_all
    have saved: "map_option p_registers (procs u p) = Some (exchanged r)"
      using u(5) ne assms(3) by (simp add: switched_def)
    show "y = exchanged r"
    proof (rule saved_registers_kept [OF u(2-4) ne saved rest assms(6)])
      show "proc_current w \<noteq> p" if "k < length rs" "slices (take k rs) (curregs u) u = Ret z w" for k z w
        using assms(7) [of "Suc k" z w] that u(1) by simp
    qed
  qed
qed

theorem preemption_keeps_registers_witness:
  "\<exists>t. slices [(0, zero_regs\<lparr>r_ebx := 5, r_ds := 0x23\<rparr>, zero_segregs), (0, zero_regs\<lparr>r_ebx := 6\<rparr>, zero_segregs)] zero_regs
      (zero_irq demo_kernel) = Ret (zero_regs\<lparr>r_ebx := 5, r_gs := 0x23\<rparr>) t"
proof -
  let ?s = "zero_irq demo_kernel" and ?r = "zero_regs\<lparr>r_ebx := 5, r_ds := 0x23\<rparr>"
  let ?e = "(0, ?r, zero_segregs)" and ?f = "(0, zero_regs\<lparr>r_ebx := 6\<rparr>, zero_segregs)"
  have inv: "sleep_inv ?s" "uses_pic ?s" "proc_current ?s = 0x1000"
    by (simp_all add: sleep_inv_def sleepers_ok_def zero_irq_defs procs_ok_def table_ok_def proc_ok_def
        mallocs_ok_def demo_defs uses_pic_def cpu_this_def ll_get_def)
  note ev = zero_irq_defs demo_defs isr_def interrupt_handler_def getcpu_def updcpu_def cpu_this_def
    interrupt_irq_handler_def pic_eoi_def outb_def interrupt_timer_def interrupt_time_check_def
    proc_shedule_def pick_process_def refill_ticks_def switch_from_def proc_regs_save_def
    proc_regs_load_def getp_def updp_def cur_addrspace_def memuser_load_addrspace_def geta_def
    paging_loadpagedir_def ll_elems_def ll_get_def NICE2TICKS_def frame_layout isr_return_frame exchanged_def
  obtain u y where u: "slices [?e] zero_regs ?s = Ret y u" "proc_current u = 0x2000"
    by (simp add: ev)
  obtain t z where t: "slices [?e, ?f] zero_regs ?s = Ret z t" "proc_current t = 0x1000"
    by (simp add: ev)
  have "z = ?r\<lparr>r_ds := r_gs ?r, r_es := r_fs ?r, r_fs := r_es ?r, r_gs := r_ds ?r\<rparr>"
  proof (rule preemption_keeps_registers [OF inv(1,2,3) _ t(1,2)])
    show "proc_current w \<noteq> 0x1000" if "0 < k" "k \<le> length [?f]" "slices (take k [?e, ?f]) zero_regs ?s = Ret x w" for k x w
    proof -
      have "k = 1" using that(1,2) by simp
      with that(3) u show ?thesis by simp
    qed
  qed simp
  then show ?thesis using t(1) by (intro exI [of _ t]) (simp add: zero_regs_def)
qed

section \<open>Descriptors\<close>

lemma word_masks:
  "(0xFFFF :: u32) = mask 16" "(0xFF :: u32) = mask 8" "(0xF :: u32) = mask 4" "(0xFFFFF :: u32) = mask 20"
  "(0xF :: u8) = mask 4"
  by (simp_all add: mask_eq_exp_minus_1)

lemma bit_192: "k < 4 \<Longrightarrow> \<not> bit (192 :: int) k"
proof -
  assume "k < 4"
  then have "k = 0 \<or> k = 1 \<or> k = 2 \<or> k = 3" by arith
  then show ?thesis by (auto simp: bit_iff_odd)
qed

lemma gdt_base_descriptor: "gdt_base (gdt_descriptor sz base access priv) = base"
proof (rule bit_word_eqI)
  fix n assume "n < LENGTH(32)"
  then show "bit (gdt_base (gdt_descriptor sz base access priv)) n = bit base n"
    by (cases "n < 16"; cases "n < 24") (auto simp: gdt_base_def gdt_descriptor_def word_masks bit_simps)
qed

lemma gdt_limit_descriptor: "gdt_limit (gdt_descriptor sz base access priv) = sz AND 0xFFFFF"
proof (rule bit_word_eqI)
  fix n assume "n < LENGTH(32)"
  then show "bit (gdt_limit (gdt_descriptor sz base access priv)) n = bit (sz AND 0xFFFFF) n"
    by (cases "n < 16"; cases "n < 24") (auto simp: gdt_limit_def gdt_descriptor_def word_masks bit_simps bit_192)
qed

lemma idt_address_descriptor: "idt_address (idt_descriptor addr sel priv typ) = addr"
proof (rule bit_word_eqI)
  fix n assume "n < LENGTH(32)"
  then show "bit (idt_address (idt_descriptor addr sel priv typ)) n = bit addr n"
    by (cases "n < 16") (auto simp: idt_address_def idt_descriptor_def word_masks bit_simps)
qed

lemma idt_user_gates:
  "filter (\<lambda>i. idt_dpl (map (\<lambda>i. idt_descriptor (isr_addr i) (selector 1 PRIV_KERNEL)
     (if i = SYSCALL_INT then PRIV_USER else PRIV_KERNEL) (IDT_INTGATE32 OR IDT_PRESENT)) [0..<ISR_NUM] ! i) = 3)
     [0..<ISR_NUM] = [SYSCALL_INT]"
proof -
  have dpl: "idt_dpl (idt_descriptor a sel p (IDT_INTGATE32 OR IDT_PRESENT)) = 3 \<longleftrightarrow> p = PRIV_USER"
    if "p = PRIV_USER \<or> p = PRIV_KERNEL" for a sel p
    using that by (auto simp: idt_dpl_def idt_descriptor_def idt_consts gdt_consts)
  have "[0..<56] = [0..<55] @ [55 :: nat]" using upt_Suc_append [of 0 55] by simp
  then have "filter (\<lambda>i. i = SYSCALL_INT) [0..<ISR_NUM] = [SYSCALL_INT]"
    by (simp add: idt_consts filter_empty_conv)
  moreover have "filter (\<lambda>i. idt_dpl (map (\<lambda>i. idt_descriptor (isr_addr i) (selector 1 PRIV_KERNEL)
     (if i = SYSCALL_INT then PRIV_USER else PRIV_KERNEL) (IDT_INTGATE32 OR IDT_PRESENT)) [0..<ISR_NUM] ! i) = 3)
     [0..<ISR_NUM] = filter (\<lambda>i. i = SYSCALL_INT) [0..<ISR_NUM]"
    by (rule filter_cong) (simp_all add: dpl gdt_consts)
  ultimately show ?thesis by simp
qed

lemma gdt_dpl_descriptor:
  assumes "access AND 0x60 = 0" "priv \<le> 3"
  shows "gdt_dpl (gdt_descriptor sz base access priv) = ucast priv"
proof -
  have acc: "\<not> bit access 5" "\<not> bit access 6"
  proof -
    have "bit (0x60 :: u32) 5" "bit (0x60 :: u32) 6" by (simp_all add: bit_iff_odd)
    then show "\<not> bit access 5" "\<not> bit access 6"
      using arg_cong [OF assms(1), of "\<lambda>w. bit w 5"] arg_cong [OF assms(1), of "\<lambda>w. bit w 6"]
      by (simp_all add: bit_and_iff)
  qed
  have three: "(3 :: u32) = mask 2" "(3 :: u8) = mask 2" by (simp_all add: mask_eq_exp_minus_1)
  have "unat priv < 4" using assms(2) by (simp add: word_le_nat_alt)
  then have pr: "take_bit 2 priv = priv" by (simp add: word_unat_eq_iff unsigned_take_bit_eq take_bit_nat_eq_self)
  show ?thesis
  proof (rule bit_word_eqI)
    fix n assume n: "n < LENGTH(8)"
    have p: "bit priv n \<longleftrightarrow> n < 2 \<and> bit priv n" using arg_cong [OF pr, of "\<lambda>w. bit w n"] by (auto simp: bit_take_bit_iff)
    consider "n = 0" | "n = 1" | "2 \<le> n" by linarith
    then show "bit (gdt_dpl (gdt_descriptor sz base access priv)) n = bit (ucast priv :: u8) n"
      using n p acc by cases (auto simp: gdt_dpl_def gdt_descriptor_def three bit_simps)
  qed
qed

text \<open>
  C23. The processor reads back from a descriptor that \<open>gdt_set_descriptor\<close> has written the base, the size (up to twenty bits)
  and the privilege it was built with, if the access byte leaves the two bits of the privilege free, and no other descriptor has
  changed. The four segments of \<open>gdt_init\<close> span the whole memory, the first two for the kernel and the others for programs. From a gate of the IDT
  the processor reads the address of the handler, and after \<open>idt_init\<close> the gate of the system calls is the only one a program may call.
\<close>

theorem descriptors_read_back:
  assumes "segment < length (gdt s)" "access AND 0x60 = 0" "priv \<le> 3"
  shows "(\<exists>t. gdt_set_descriptor segment sz base access priv s = Ret () t \<and>
      gdt_base (gdt t ! segment) = base \<and> gdt_limit (gdt t ! segment) = sz AND 0xFFFFF \<and>
      gdt_dpl (gdt t ! segment) = ucast priv \<and> (\<forall>i. i \<noteq> segment \<longrightarrow> gdt t ! i = gdt s ! i)) \<and>
    (\<exists>t. gdt_init s = Ret 0 t \<and> length (gdt t) = GDT_MAXDESC \<and>
      map (\<lambda>i. (gdt_base (gdt t ! i), gdt_limit (gdt t ! i), gdt_dpl (gdt t ! i))) [1, 2, 3, 4] =
        [(0, 0xFFFFF, 0), (0, 0xFFFFF, 0), (0, 0xFFFFF, 3), (0, 0xFFFFF, 3)]) \<and>
    idt_address (idt_descriptor addr sel priv typ) = addr \<and>
    (\<exists>t. idt_init isr_addr s = Ret 0 t \<and> length (idt t) = ISR_NUM \<and>
      filter (\<lambda>i. idt_dpl (idt t ! i) = 3) [0..<ISR_NUM] = [SYSCALL_INT])"
proof (intro conjI)
  show "\<exists>t. gdt_set_descriptor segment sz base access priv s = Ret () t \<and>
      gdt_base (gdt t ! segment) = base \<and> gdt_limit (gdt t ! segment) = sz AND 0xFFFFF \<and>
      gdt_dpl (gdt t ! segment) = ucast priv \<and> (\<forall>i. i \<noteq> segment \<longrightarrow> gdt t ! i = gdt s ! i)"
    using assms by (simp add: gdt_set_descriptor_def gdt_base_descriptor gdt_limit_descriptor gdt_dpl_descriptor)
  have seg: "(GDT_SEGMENT OR GDT_PRESENT OR GDT_CODESEG) AND 0x60 = 0" "(GDT_SEGMENT OR GDT_PRESENT OR GDT_DATASEG) AND 0x60 = 0"
    "PRIV_KERNEL \<le> 3" "PRIV_USER \<le> 3" "(ucast PRIV_KERNEL :: u8) = 0" "(ucast PRIV_USER :: u8) = 3"
    by (simp_all add: gdt_consts)
  show "\<exists>t. gdt_init s = Ret 0 t \<and> length (gdt t) = GDT_MAXDESC \<and>
      map (\<lambda>i. (gdt_base (gdt t ! i), gdt_limit (gdt t ! i), gdt_dpl (gdt t ! i))) [1, 2, 3, 4] =
        [(0, 0xFFFFF, 0), (0, 0xFFFFF, 0), (0, 0xFFFFF, 3), (0, 0xFFFFF, 3)]"
    by (simp add: gdt_init_def Let_def gdt_set_descriptor_def GDT_MAXDESC_def gdt_base_descriptor gdt_limit_descriptor
        gdt_dpl_descriptor seg)
  show "idt_address (idt_descriptor addr sel priv typ) = addr" by (rule idt_address_descriptor)
  show "\<exists>t. idt_init isr_addr s = Ret 0 t \<and> length (idt t) = ISR_NUM \<and>
      filter (\<lambda>i. idt_dpl (idt t ! i) = 3) [0..<ISR_NUM] = [SYSCALL_INT]"
    by (simp add: idt_init_def idt_user_gates del: One_nat_def)
qed

definition demo_desc :: desc where
  "demo_desc = irq.extend ((zero_irq zero_kernel)\<lparr>mallocs := [0xA000, 0xD000], memphys_stackbase := 0x2000,
       memphys_stackptr := 0x2004, memphys_stackend := 0x3000, cpus := [], cpu_objs := Map.empty,
       phys := (\<lambda>_. 0)(4 := 1, 5 := 0x90, 0x2001 := 0x80)\<rparr>)
     (desc.fields (replicate 64 zero_gdtdesc) [] Map.empty)"

theorem descriptors_read_back_witness:
  "\<exists>t. gdt_set_descriptor 5 0xFFFF 0x1234 0x92 3 demo_desc = Ret () t \<and>
     gdt_base (gdt t ! 5) = 0x1234 \<and> gdt_limit (gdt t ! 5) = 0xFFFF \<and> gdt_dpl (gdt t ! 5) = 3"
proof -
  have "5 < length (gdt demo_desc)" by (simp add: demo_desc_def zero_irq_defs desc.defs)
  from descriptors_read_back [OF this, of "0x92" 3] show ?thesis by fastforce
qed

section \<open>The stack of the kernel\<close>

lemma memuser_inited_more: "mem.more t = mem.more s \<Longrightarrow> memuser_inited (t :: 'a kernel_scheme) = memuser_inited s"
  by (cases t; cases s) simp

lemma mkeeps_memkernel_alloc:
  assumes "memuser_inited s = 0"
  shows "mkeeps s (memkernel_alloc sz s)"
proof -
  have loop: "mkeeps s (memkernel_alloc_loop n virt i s)" if "memuser_inited s = 0" for n virt i and s :: "'a kernel_scheme"
    using that
  proof (induction n arbitrary: i s)
    case (Suc n)
    show ?case unfolding memkernel_alloc_loop.simps
    proof (intro keeps_bindr mkeeps_memphys_pop mkeeps_paging_map)
      fix f t r u w z
      assume e: "mem.more t = mem.more s" "mem.more u = mem.more t"
      have "memuser_inited u = 0" using memuser_inited_more [of u s] e Suc.prems by simp
      then show "mkeeps u (if memuser_inited u \<noteq> 0 then memuser_syncpds (virt + i) u else Ret 0 u)"
        by (simp add: keeps_def)
      assume "mem.more z = mem.more u"
      then show "mkeeps z (memkernel_alloc_loop n virt (i + 1) z)"
        using Suc.IH [of z] memuser_inited_more [of z s] e Suc.prems by simp
    qed
  qed (simp add: keeps_def)
  show ?thesis unfolding memkernel_alloc_def memkernel_findvirt_def Let_def
    by (intro keeps_bindr mkeeps_kfindvirt_loop keeps_Ret loop) (simp_all add: assms memuser_inited_more [of _ s])
qed

text \<open>
  C40. The stack pointer that \<open>tss_init\<close> gives the processor for entering the kernel lies 12 bytes beyond
  the one page that \<open>cpu_init\<close> has allocated for the stack of the processor: the first three words an interrupt pushes
  (\<open>ss\<close>, \<open>esp\<close> and the flags, at 4, 8 and 12 bytes below the pointer) are written outside of it.
\<close>

theorem tss_esp0_beyond_stack:
  assumes "mallocs s = cpu # tss # rest" "cpu \<noteq> NULL" "tss \<noteq> NULL" "8 < length (gdt s)" "memuser_inited s = 0"
    "memkernel_alloc PAGE_SIZE (s\<lparr>cpus := [], mallocs := tss # rest, cpu_objs := (cpu_objs s)(cpu \<mapsto> new_cpu (junk32 s))\<rparr>) = Ret stack u"
    "stack \<noteq> NULL"
  shows "\<exists>t esp0. bindr (cpu_init s) (\<lambda>_. tss_init) = Ret 0 t \<and> map_option ts_esp0 (tsss t tss) = Some esp0 \<and>
    esp0 = stack + PAGE_SIZE + 12 \<and> (\<forall>i \<in> {4, 8, 12}. PAGE_SIZE \<le> esp0 - i - stack)"
proof -
  let ?s = "s\<lparr>cpus := [], mallocs := tss # rest, cpu_objs := (cpu_objs s)(cpu \<mapsto> new_cpu (junk32 s))\<rparr>"
  have "mem.more u = mem.more ?s"
    using mkeeps_memkernel_alloc [of ?s PAGE_SIZE] assms(5,6) by (simp add: keeps_def)
  then have u: "mallocs u = tss # rest" "cpus u = []" "cpu_objs u cpu = Some (new_cpu (junk32 s))" "gdt u = gdt s"
    "tsss u = tsss s"
    by (cases u; cases s; simp)+
  have up: "PAGEUP PAGE_SIZE = PAGE_SIZE" by (simp add: PAGEUP_def PAGE_SIZE_def)
  obtain v where v: "cpu_init s = Ret 0 v" "mallocs v = tss # rest" "cpus v = [cpu]" "gdt v = gdt s"
    "cpu_objs v cpu = Some ((new_cpu (junk32 s))\<lparr>cpu_stack := stack, cpu_stacksize := PAGE_SIZE\<rparr>)"
    using assms(1,2,6,7) u
    by (simp add: cpu_init_def cpu_stack_create_def up kmalloc_obj_def updcpu_def getcpu_def ll_push_def)
  have "cpu_this v = cpu" using v(3) by (simp add: cpu_this_def ll_get_def)
  then have "\<exists>t. tss_init v = Ret 0 t \<and> map_option ts_esp0 (tsss t tss) = Some (stack + PAGE_SIZE + 12)"
    using v assms(3,4)
    by (simp add: tss_init_def kmalloc_obj_def getcpu_def updcpu_def gdt_set_descriptor_def GDT_TSSDESC_def)
  with v(1) show ?thesis by (auto simp: PAGE_SIZE_def)
qed

theorem tss_esp0_beyond_stack_witness:
  "\<exists>t esp0. bindr (cpu_init demo_desc) (\<lambda>_. tss_init) = Ret 0 t \<and> map_option ts_esp0 (tsss t 0xD000) = Some esp0 \<and>
     esp0 = 0x70100C"
proof -
  let ?s = "demo_desc\<lparr>cpus := [], mallocs := [0xD000], cpu_objs := (cpu_objs demo_desc)(0xA000 \<mapsto> new_cpu (junk32 demo_desc))\<rparr>"
  have f: "mallocs demo_desc = [0xA000, 0xD000]" "8 < length (gdt demo_desc)" "memuser_inited demo_desc = 0"
    "phys demo_desc = (\<lambda>_. 0)(4 := 1, 5 := 0x90, 0x2001 := 0x80)" "\<not> paging_enabled demo_desc"
    "paging_curpd demo_desc = 0" "memphys_stackbase demo_desc = 0x2000" "memphys_stackptr demo_desc = 0x2004"
    "memphys_stackend demo_desc = 0x3000"
    by (simp_all add: demo_desc_def zero_irq_defs desc.defs zero_kernel_def)
  have ld: "load32 v ?s = Ret (rd32 (phys demo_desc) v) ?s" for v
    by (simp add: load32_def vaddr_def f(5) rd32_def)
  have rd: "rd32 (phys demo_desc) 4 = 0x9001" "rd32 (phys demo_desc) 0x9C00 = 0" "rd32 (phys demo_desc) 0x2000 = 0x8000"
    by (simp_all add: rd32_def join32_def f(4))
  have pde: "paging_getpde 0x700000 ?s = Ret (pde_dec 0x9001) ?s" "pde_exists (pde_dec 0x9001)" "pde_page (pde_dec 0x9001) = 9"
    by (simp_all add: paging_getpde_def ld rd f(5,6) page_macros pde_dec_def)
  have pte: "paging_getpte 0x700000 ?s = Ret (pte_dec 0) ?s" "\<not> exists (pte_dec 0)"
    by (simp_all add: paging_getpte_def pde ld rd f(5) page_macros pte_dec_def)
  have virt: "memkernel_findvirt 1 ?s = Ret 0x700000 ?s"
    unfolding memkernel_findvirt_def memmap_values
    apply (subst kfindvirt_loop.simps)
    apply (simp add: KERNELDATA_END_eq page_macros pte)
    apply (subst kfindvirt_loop.simps)
    apply (simp add: KERNELDATA_END_eq PAGE_SIZE_def)
    done
  have pop: "memphys_pop ?s = Ret 0x8000 (?s\<lparr>memphys_stackptr := 0x2000\<rparr>)"
    using ld [of "0x2000"] by (simp add: memphys_pop_def f(7,8,9) rd load32_def vaddr_def f(5))
  let ?t = "?s\<lparr>memphys_stackptr := 0x2000\<rparr>"
  have "paging_getpde 0x700000 ?t = Ret (pde_dec 0x9001) ?t"
    using pde(1) by (simp add: paging_getpde_def load32_def vaddr_def f(5,6) page_macros)
  then have "\<exists>u. paging_map 0x700000 0x8000 0 1 ?t = Ret 0 u"
    using pde(2,3) by (simp add: paging_map_def paging_map_with_def paging_setpte_def store32_def vaddr_def f(5))
  moreover have "memuser_inited u = 0" if "paging_map 0x700000 0x8000 0 1 ?t = Ret 0 u" for u
    using memuser_inited_more [OF keepsD_Ret [OF mkeeps_paging_map that]] f(3) by simp
  moreover have "ADDR2PAGE PAGE_SIZE = 1" by (simp add: page_macros)
  ultimately obtain u where u: "memkernel_alloc PAGE_SIZE ?s = Ret 0x700000 u"
    using virt pop by (auto simp: memkernel_alloc_def)
  from tss_esp0_beyond_stack [OF f(1) _ _ f(2,3) u] show ?thesis by (simp add: PAGE_SIZE_def)
qed

end
