(* ===== verification/IpcProps.thy ===== *)
theory IpcProps
  imports Waking IpcInv InterruptProps
begin

text \<open>
  Properties of message queues, semaphores and remote procedure calls: delivery of a message, waking
  of those who wait for it, and the faults of the code.
\<close>

unbundle bit_operations_syntax

section \<open>Reading\<close>

lemma load_bytes_same: "load_bytes n v s = Ret bs t \<Longrightarrow> t = s"
  by (induction n arbitrary: v bs t) (auto simp: bindr_Ret_iff load8_def split: option.splits)

lemma load_bytes_cong:
  assumes "vaddr t = vaddr s" "phys t = phys s" "load_bytes n v s = Ret bs s"
  shows "load_bytes n v t = Ret bs t"
  using assms(3)
proof (induction n arbitrary: v bs)
  case (Suc n)
  from Suc.prems obtain b cs where b: "load8 v s = Ret b s" "load_bytes n (v + 1) s = Ret cs s" "bs = b # cs"
    by (auto simp: bindr_Ret_iff load8_def split: option.splits dest: load_bytes_same)
  moreover from b(1) have "load8 v t = Ret b t" using assms(1,2) by (auto simp: load8_def split: option.splits)
  ultimately show ?case using Suc.IH by simp
qed simp

lemma vaddr_fields [simp]:
  "vaddr (s\<lparr>mallocs := a\<rparr>) = vaddr s" "vaddr (s\<lparr>procs := b\<rparr>) = vaddr s" "vaddr (s\<lparr>proc_running := c\<rparr>) = vaddr s"
  "vaddr (s\<lparr>proc_sleeping := d\<rparr>) = vaddr s"
  by (simp_all add: vaddr_def fun_eq_iff)

lemma ipc_find_newest:
  assumes "ipc_objects s = a # rest" "a \<noteq> NULL" "ipc_header s a = Some h" "i_type h = typ"
    "i_key h = key \<or> key = -1" "i_id h = ident \<or> ident = -1"
  shows "ipc_find key ident typ s = Ret a s"
  using assms by (simp add: ipc_find_def ll_elems_def)

section \<open>Message queues of users\<close>

lemma perm_check_mode_0:
  "access_uid \<noteq> PERM_ROOTUID \<Longrightarrow> access_gid \<noteq> PERM_ROOTGID \<Longrightarrow>
   \<not> perm_check owner_uid owner_gid access_uid access_gid 0 op"
  by (simp add: perm_check_def)

text \<open>
  C36. A private message queue of an ordinary user (one with the key \<open>IPC_PRIVATE\<close>) cannot be used. \<open>ipc_msg_create\<close> stores the permissions in a field
  that the permission checks do not look at: whatever permissions a process that belongs neither
  to root nor to the group of root asks for, sending to the new queue, receiving from it and
  destroying it all fail with \<open>EACCES\<close>, even for the process itself.
\<close>

theorem msg_queue_of_user_unusable:
  assumes "mallocs s = new # rest" "new \<noteq> NULL"
    "procs s (proc_current s) = Some p" "p_uid p \<noteq> PERM_ROOTUID" "p_gid p \<noteq> PERM_ROOTGID"
  shows "\<exists>t. ipc_msg_create IPC_PRIVATE mode time s = Ret (ipc_lastid s) t \<and>
    ipc_msg_send (ipc_lastid s) data msgsz typ flags now t = Ret (- EACCES) t \<and>
    ipc_msg_recv (ipc_lastid s) data msgsz typ flags now t = Ret (- EACCES) t \<and>
    ipc_msg_destroy (ipc_lastid s) t = Ret (- EACCES) t"
proof -
  let ?q = "new_msgq IPC_PRIVATE (proc_current s) (ipc_lastid s) mode time"
  let ?t = "s\<lparr>mallocs := rest, ipc_lastid := ipc_lastid s + 1, msgqs := (msgqs s)(new \<mapsto> ?q),
     ipc_objects := new # ipc_objects s\<rparr>"
  have "ipc_msg_create IPC_PRIVATE mode time s = Ret (ipc_lastid s) ?t"
    using assms(1,2) by (simp add: ipc_msg_create_def kmalloc_obj_def ipc_newid_def ll_push_def)
  moreover have "ipc_find (-1) (ipc_lastid s) IPC_MSG ?t = Ret new ?t"
    by (rule ipc_find_newest [where h = "ipc_obj_t.truncate ?q"])
       (use assms(2) in \<open>simp_all add: ipc_header_def new_msgq_def ipc_obj_t.defs\<close>)
  moreover have "msg_permcheck new op ?t = Ret False ?t" for op
    using assms(3-5) by (simp add: msg_permcheck_def getp_def getq_def deref_def new_msgq_def perm_check_mode_0)
  ultimately show ?thesis
    using assms(2) by (simp add: ipc_msg_send_def ipc_msg_recv_def ipc_msg_destroy_def)
qed

text \<open>The small system, with an ordinary user for the running process.\<close>

definition demo_user :: irq where
  "demo_user = (zero_irq demo_kernel)\<lparr>procs := (procs demo_kernel)(0x1000 \<mapsto>
     (the (procs demo_kernel 0x1000))\<lparr>p_uid := 100, p_gid := 100\<rparr>)\<rparr>"

theorem msg_queue_of_user_unusable_witness:
  "\<exists>t. ipc_msg_create IPC_PRIVATE 0x1FF 0 demo_user = Ret 0 t \<and> ipc_msg_send 0 0x9000 4 1 0 0 t = Ret (- EACCES) t"
proof -
  have "\<exists>t. ipc_msg_create IPC_PRIVATE 0x1FF 0 demo_user = Ret (ipc_lastid demo_user) t \<and>
    ipc_msg_send (ipc_lastid demo_user) 0x9000 4 1 0 0 t = Ret (- EACCES) t \<and>
    ipc_msg_recv (ipc_lastid demo_user) 0x9000 4 1 0 0 t = Ret (- EACCES) t \<and>
    ipc_msg_destroy (ipc_lastid demo_user) t = Ret (- EACCES) t"
    by (rule msg_queue_of_user_unusable [where new = "0x7000" and rest = "[0x7100]"
          and p = "the (procs demo_user 0x1000)"])
       (simp_all add: demo_user_def zero_irq_defs demo_defs PERM_ROOTUID_def PERM_ROOTGID_def)
  then show ?thesis by (auto simp: demo_user_def zero_irq_defs)
qed

section \<open>Delivery of messages\<close>

lemma store_bytes_only: "store_bytes bs d s = Ret () v \<Longrightarrow> v = s\<lparr>phys := phys v\<rparr>"
proof (induction bs arbitrary: d s)
  case (Cons b bs)
  then obtain u where u: "store8 d b s = Ret () u" "store_bytes bs (d + 1) u = Ret () v" by (auto simp: bindr_Ret_iff)
  from u(1) have "u = s\<lparr>phys := phys u\<rparr>" by (auto simp: store8_def split: option.splits)
  moreover from Cons.IH [OF u(2)] have "v = u\<lparr>phys := phys v\<rparr>" .
  ultimately show ?case by (metis mem.surjective mem.update_convs(1))
qed simp

lemma procs_ok_phys [simp]: "procs_ok (s\<lparr>phys := m\<rparr>) \<longleftrightarrow> procs_ok s"
  by (simp add: procs_ok_def table_ok_def proc_ok_def mallocs_ok_def)

lemma procs_ok_kernel_fields [simp]: "procs_ok (s\<lparr>ipc_lastid := i\<rparr>) \<longleftrightarrow> procs_ok s"
  by (simp add: procs_ok_def table_ok_def proc_ok_def mallocs_ok_def)

text \<open>The permission check looks only at what waking leaves alone.\<close>

lemma awake_eq_fields:
  "awake x = awake y \<Longrightarrow> p_pid x = p_pid y \<and> p_uid x = p_uid y \<and> p_gid x = p_gid y"
  unfolding awake_def by (metis proc_S.select_convs(1,2,5) proc_S.surjective proc_S.update_convs(17))

definition perm_view :: "'a ipc_scheme \<Rightarrow> u32 \<Rightarrow> (u32 \<times> u32 \<times> u32) option" where
  "perm_view s p = map_option (\<lambda>x. (p_pid x, p_uid x, p_gid x)) (procs s p)"

lemma perm_view_wakes: "wakes_only s t \<Longrightarrow> perm_view t p = perm_view s p"
proof -
  assume "wakes_only s t"
  then have "map_option awake (procs t p) = map_option awake (procs s p)" by (simp add: wakes_only_def)
  then show ?thesis by (cases "procs t p"; cases "procs s p") (auto simp: perm_view_def dest: awake_eq_fields)
qed

lemma msg_permcheck_view:
  "msg_permcheck q op s = Ret b s \<longleftrightarrow>
   (\<exists>c m ow. perm_view s (proc_current s) = Some c \<and> msgqs s q = Some m \<and> perm_view s (i_owner m) = Some ow \<and>
      b = perm_check (fst c) (snd (snd c)) (fst (snd ow)) (snd (snd ow)) (m_mode m) op)"
  by (auto simp: msg_permcheck_def getp_def getq_def deref_def perm_view_def bindr_Ret_iff split: option.splits)

lemma msg_permcheck_cong:
  assumes "msg_permcheck q op s = Ret b s" "proc_current t = proc_current s" "\<And>p. perm_view t p = perm_view s p"
    "msgqs s q = Some m" "msgqs t q = Some m'" "i_owner m' = i_owner m" "m_mode m' = m_mode m"
  shows "msg_permcheck q op t = Ret b t"
  using assms unfolding msg_permcheck_view by auto

lemma wake_waiting_ok:
  assumes "procs_ok s" "msgqs s q = Some m" "set (m_waiting m) \<subseteq> dom (procs s)" "NULL \<notin> set (m_waiting m)"
  shows "\<exists>t. wake_waiting q s = Ret () t \<and> procs_ok t \<and>
    wakes_only (s\<lparr>msgqs := (msgqs s)(q \<mapsto> m\<lparr>m_waiting := []\<rparr>)\<rparr>) t \<and>
    set (proc_sleeping t) = set (proc_sleeping s) - set (m_waiting m)"
proof -
  let ?s = "\<lambda>ws. s\<lparr>msgqs := (msgqs s)(q \<mapsto> m\<lparr>m_waiting := ws\<rparr>)\<rparr>"
  define J where "J u \<longleftrightarrow> (\<exists>ws. wakes_only (?s ws) u \<and> m_waiting (the (msgqs u q)) = ws)" for u
  have put: "\<exists>u. updq q (\<lambda>x. x\<lparr>m_waiting := xs\<rparr>) t = Ret () u \<and> procs_ok u \<and> J u \<and> dom (procs u) = dom (procs t) \<and>
      set (proc_sleeping u) = set (proc_sleeping t) \<and> m_waiting (the (msgqs u q)) = xs"
    if "procs_ok t" "J t" for xs t
  proof -
    from that(2) obtain ws where w: "wakes_only (?s ws) t" unfolding J_def by blast
    then have t: "t = ?s ws\<lparr>procs := procs t, proc_running := proc_running t, proc_sleeping := proc_sleeping t\<rparr>"
      by (simp add: wakes_only_def)
    have q: "msgqs t q = Some (m\<lparr>m_waiting := ws\<rparr>)" by (subst t) simp
    let ?u = "t\<lparr>msgqs := (msgqs t)(q \<mapsto> m\<lparr>m_waiting := xs\<rparr>)\<rparr>"
    have "updq q (\<lambda>x. x\<lparr>m_waiting := xs\<rparr>) t = Ret () ?u" using q by (simp add: updq_def getq_def)
    moreover have "wakes_only (?s xs) ?u"
      unfolding wakes_only_def
    proof
      show "?u = ?s xs\<lparr>procs := procs ?u, proc_running := proc_running ?u, proc_sleeping := proc_sleeping ?u\<rparr>"
        using arg_cong [OF t, of "\<lambda>u. u\<lparr>msgqs := (msgqs u)(q \<mapsto> m\<lparr>m_waiting := xs\<rparr>)\<rparr>"] by simp
      show "\<forall>p. map_option awake (procs ?u p) = map_option awake (procs (?s xs) p)"
        using w by (simp add: wakes_only_def)
    qed
    ultimately show ?thesis using that(1) by (auto simp: J_def)
  qed
  have keep: "J u \<and> m_waiting (the (msgqs u q)) = m_waiting (the (msgqs t q))" if "J t" "proc_wake p t = Ret 0 u" for p t u
  proof -
    have w: "wakes_only t u" by (rule proc_wake_only [OF that(2)])
    then have "msgqs u = msgqs t" using wakes_only_fields(3) [OF w] by (cases t; cases u; simp)
    with w that(1) show ?thesis unfolding J_def by (auto intro: wakes_only_trans)
  qed
  have "J s" unfolding J_def using assms(2) by (intro exI [of _ "m_waiting m"]) (simp add: fun_upd_idem)
  let ?put = "\<lambda>ws. updq q (\<lambda>x. x\<lparr>m_waiting := ws\<rparr>)" and ?lst = "\<lambda>u. m_waiting (the (msgqs u q))"
  have "\<exists>t. drain ?put (\<lambda>p s. bindr (proc_wake p s) (\<lambda>_. Ret ())) (m_waiting m) s = Ret () t \<and> procs_ok t \<and> J t \<and>
    dom (procs t) = dom (procs s) \<and> set (proc_sleeping t) = set (proc_sleeping s) - set (m_waiting m) \<and> ?lst t = []"
    by (rule pw.drain_wakes [where J = J and lst = ?lst]) (use put keep assms \<open>J s\<close> in simp_all)
  then obtain t where "drain ?put (\<lambda>p s. bindr (proc_wake p s) (\<lambda>_. Ret ())) (m_waiting m) s = Ret () t"
    "procs_ok t" "J t" "set (proc_sleeping t) = set (proc_sleeping s) - set (m_waiting m)" "?lst t = []" by blast
  with assms(2) show ?thesis by (auto simp: wake_waiting_def getq_def J_def)
qed

lemma wakes_only_mem:
  assumes "wakes_only s t"
  shows "phys t = phys s" "paging_enabled t = paging_enabled s" "cr3 t = cr3 s"
proof -
  have "t = s\<lparr>procs := procs t, proc_running := proc_running t, proc_sleeping := proc_sleeping t\<rparr>"
    using assms by (simp add: wakes_only_def)
  from arg_cong [OF this, of phys] arg_cong [OF this, of paging_enabled] arg_cong [OF this, of cr3]
  show "phys t = phys s" "paging_enabled t = paging_enabled s" "cr3 t = cr3 s" by simp_all
qed

lemma wakes_only_ipc:
  assumes "wakes_only s (t :: 'a ipc_scheme)"
  shows "msgqs t = msgqs s" "msgs t = msgs s" "ipc_objects t = ipc_objects s" "semsets t = semsets s"
    "sleepns t = sleepns s" "shms t = shms s" "\<And>a. ipc_header t a = ipc_header s a"
proof -
  from wakes_only_fields(3) [OF assms] show "msgqs t = msgqs s" "msgs t = msgs s" "ipc_objects t = ipc_objects s"
    "semsets t = semsets s" "sleepns t = sleepns s" "shms t = shms s" by (cases s; cases t; simp)+
  then show "\<And>a. ipc_header t a = ipc_header s a" by (simp add: ipc_header_def cong: option.case_cong)
qed

lemma ipc_find_cong:
  assumes "ipc_find key ident typ s = Ret a s" "ipc_objects t = ipc_objects s" "\<And>a. ipc_header t a = ipc_header s a"
  shows "ipc_find key ident typ t = Ret a t"
proof -
  have "ipc_find_loop key ident typ xs s = Ret a s \<Longrightarrow> ipc_find_loop key ident typ xs t = Ret a t" for xs
    using assms(3) by (induction xs) (auto simp: deref_def split: option.splits if_splits)
  with assms(1,2) show ?thesis by (simp add: ipc_find_def)
qed

text \<open>The queue and the message that \<open>ipc_msg_send\<close> leaves behind.\<close>

definition sent_queue :: "ipc_msg_t \<Rightarrow> u32 \<Rightarrow> u32 \<Rightarrow> u32 \<Rightarrow> ipc_msg_t" where
  "sent_queue m pid time new = m\<lparr>m_lspid := pid, m_stime := time, m_msgs := new # m_msgs m, m_waiting := []\<rparr>"

definition sent_message :: "u32 \<Rightarrow> u8 list \<Rightarrow> u32 \<Rightarrow> u32 \<Rightarrow> u32 \<Rightarrow> u32 \<Rightarrow> ipc_msg_msg_t" where
  "sent_message q bytes sz typ flags sender =
     \<lparr>mm_msg = q, mm_data = bytes, mm_size = sz, mm_type = typ, mm_flags = flags, mm_sender = sender\<rparr>"

lemma ipc_header_same_queue:
  assumes "msgqs s q = Some m" "msgqs t = (msgqs s)(q \<mapsto> m')" "ipc_obj_t.truncate m' = ipc_obj_t.truncate m"
    "semsets t = semsets s" "shms t = shms s"
  shows "ipc_header t a = ipc_header s a"
  using assms by (simp add: ipc_header_def cong: option.case_cong)

lemma procs_ok_mallocs_tail:
  assumes "procs_ok s" "mallocs s = a # rest"
  shows "procs_ok (s\<lparr>mallocs := rest\<rparr>)"
proof -
  have "kmalloc_obj s = Ret a (s\<lparr>mallocs := rest\<rparr>)" using assms(2) by (simp add: kmalloc_obj_def)
  with env_kmalloc_obj [of s] have "env_rel s (s\<lparr>mallocs := rest\<rparr>)" by (simp add: env_def)
  from procs_ok_env [OF assms(1) this] show ?thesis .
qed

lemma ipc_msg_send_ok:
  assumes ok: "procs_ok s" and find: "ipc_find (-1) ident IPC_MSG s = Ret q s" "q \<noteq> NULL" "msgqs s q = Some m"
    and perm: "msg_permcheck q PERM_W s = Ret True s" and cur: "procs s (proc_current s) = Some c"
    and wait: "set (m_waiting m) \<subseteq> dom (procs s)" "NULL \<notin> set (m_waiting m)"
    and heap: "mallocs s = new # buf # rest" and data: "load_bytes (unat sz) data s = Ret bytes s"
    and flags: "flags AND IPC_NOWAIT = flags"
  shows "\<exists>t. ipc_msg_send ident data sz typ flags time s = Ret 0 t \<and> procs_ok t \<and>
    wakes_only (s\<lparr>mallocs := rest, msgs := (msgs s)(new \<mapsto> sent_message q bytes sz typ flags (proc_current s)),
      msgqs := (msgqs s)(q \<mapsto> sent_queue m (p_pid c) time new)\<rparr>) t \<and>
    set (proc_sleeping t) = set (proc_sleeping s) - set (m_waiting m)"
proof -
  let ?m = "m\<lparr>m_lspid := p_pid c, m_stime := time, m_msgs := new # m_msgs m\<rparr>"
  let ?s1 = "s\<lparr>mallocs := rest\<rparr>"
  let ?s2 = "s\<lparr>mallocs := rest, msgs := (msgs s)(new \<mapsto> sent_message q bytes sz typ flags (proc_current s)),
      msgqs := (msgqs s)(q \<mapsto> ?m)\<rparr>"
  have k: "kmalloc_obj s = Ret new (s\<lparr>mallocs := buf # rest\<rparr>)" "kmalloc_obj (s\<lparr>mallocs := buf # rest\<rparr>) = Ret buf ?s1"
    using heap by (simp_all add: kmalloc_obj_def)
  have ok2: "procs_ok ?s2"
    using procs_ok_mallocs_tail [OF procs_ok_mallocs_tail [OF ok heap], of buf rest] by simp
  have l: "load_bytes (unat sz) data ?s1 = Ret bytes ?s1" by (rule load_bytes_cong [OF _ _ data]) simp_all
  from wake_waiting_ok [of ?s2 q ?m] ok2 wait obtain t where t: "wake_waiting q ?s2 = Ret () t" "procs_ok t"
    "wakes_only (?s2\<lparr>msgqs := (msgqs ?s2)(q \<mapsto> ?m\<lparr>m_waiting := []\<rparr>)\<rparr>) t"
    "set (proc_sleeping t) = set (proc_sleeping s) - set (m_waiting m)" by auto
  have "ipc_msg_send ident data sz typ flags time s = Ret 0 t"
    using find perm k l cur t(1) flags
    by (simp add: ipc_msg_send_def getp_def deref_def updq_def getq_def sent_message_def ll_push_def)
  with t show ?thesis by (auto simp: sent_queue_def)
qed

lemma perm_view_pid: "perm_view t p = perm_view s p \<Longrightarrow> procs s p = Some x \<Longrightarrow> \<exists>y. procs t p = Some y \<and> p_pid y = p_pid x"
  by (cases "procs t p") (auto simp: perm_view_def)

lemma store_bytes_ipc:
  assumes "store_bytes bs d s = Ret () (v :: 'a ipc_scheme)"
  shows "procs v = procs s" "proc_current v = proc_current s" "msgqs v = msgqs s" "msgs v = msgs s"
    "ipc_objects v = ipc_objects s" "procs_ok v \<longleftrightarrow> procs_ok s" "\<And>p. perm_view v p = perm_view s p"
    "\<And>a. ipc_header v a = ipc_header s a"
proof -
  obtain m where v: "v = s\<lparr>phys := m\<rparr>" using store_bytes_only [OF assms] by blast
  show "procs v = procs s" "proc_current v = proc_current s" "msgqs v = msgqs s" "msgs v = msgs s"
    "ipc_objects v = ipc_objects s" "procs_ok v \<longleftrightarrow> procs_ok s" "\<And>p. perm_view v p = perm_view s p"
    "\<And>a. ipc_header v a = ipc_header s a"
    unfolding v by (simp_all add: perm_view_def ipc_header_def cong: option.case_cong)
qed

lemma find_msg_behind:
  assumes "\<forall>b \<in> set newer. \<exists>x. msgs s b = Some x \<and> \<not> type_wanted typ (mm_type x)" "NULL \<notin> set newer"
    "a \<noteq> NULL" "msgs s a = Some x" "type_wanted typ (mm_type x)"
  shows "find_msg typ (ll_elems (newer @ a # older)) s = Ret a s"
  using assms by (induction newer) (auto simp: ll_elems_def)

lemma ipc_msg_recv_ok:
  assumes ok: "procs_ok s" and find: "ipc_find (-1) ident IPC_MSG s = Ret q s" "q \<noteq> NULL" "msgqs s q = Some m"
    and perm: "msg_permcheck q PERM_R s = Ret True s" and cur: "procs s (proc_current s) = Some c"
    and msg: "m_msgs m = newer @ a # older" "NULL \<notin> set newer"
      "\<forall>b \<in> set newer. \<exists>x. msgs s b = Some x \<and> \<not> type_wanted typ (mm_type x)"
      "a \<noteq> NULL" "msgs s a = Some x" "type_wanted typ (mm_type x)"
    and sender: "procs s (mm_sender x) \<noteq> None"
    and store: "store_bytes (take (unat (min sz (mm_size x))) (mm_data x)) data s = Ret () v"
  shows "\<exists>w. wakes_only v w \<and> procs_ok w \<and>
    ipc_msg_recv ident data sz typ flags time s = Ret (min sz (mm_size x))
      (w\<lparr>msgqs := (msgqs w)(q \<mapsto> m\<lparr>m_lrpid := p_pid c, m_rtime := time\<rparr>), msgs := (msgs w)(a := None)\<rparr>)"
proof -
  note v = store_bytes_ipc [OF store]
  have count: "(if mm_size x < sz then mm_size x else sz) = min sz (mm_size x)" by (auto simp: min_def)
  have find_msg: "find_msg typ (ll_elems (m_msgs m)) s = Ret a s"
    unfolding msg(1) by (rule find_msg_behind [OF msg(3,2,4-6)])
  obtain w where w: "wakes_only v w" "procs_ok w"
    "(if mm_flags x AND IPC_NOWAIT = flags then proc_wake (mm_sender x) v else Ret 0 v) = Ret 0 w"
  proof (cases "mm_flags x AND IPC_NOWAIT = flags")
    case True
    from pw.wake_returns [of v "mm_sender x"] v ok sender obtain w where "proc_wake (mm_sender x) v = Ret 0 w" "procs_ok w"
      by auto
    with that [of w] True proc_wake_only [of "mm_sender x" v] show ?thesis by auto
  next
    case False
    with that [of v] v(6) ok show ?thesis by simp
  qed
  from perm_view_pid [OF perm_view_wakes [OF w(1)], of "proc_current s" c] v cur obtain d where
    d: "procs w (proc_current w) = Some d" "p_pid d = p_pid c"
    using wakes_only_fields(1) [OF w(1)] by auto
  have "msgqs w q = Some m" using wakes_only_ipc(1) [OF w(1)] v find(3) by simp
  with d w(3) have "ipc_msg_recv ident data sz typ flags time s = Ret (min sz (mm_size x))
      (w\<lparr>msgqs := (msgqs w)(q \<mapsto> m\<lparr>m_lrpid := p_pid c, m_rtime := time\<rparr>), msgs := (msgs w)(a := None)\<rparr>)"
    using find perm msg find_msg store
    by (simp add: ipc_msg_recv_def getq_def deref_def count Let_def updq_def getp_def free_msg_def del: if_split)
  with w show ?thesis by blast
qed

text \<open>
  A message is still in its queue, and what was sent after it (the queue holds the newest message first)
  are messages of types that are not wanted.
\<close>

definition pending :: "u32 \<Rightarrow> u32 \<Rightarrow> u32 \<Rightarrow> 'a ipc_scheme \<Rightarrow> bool" where
  "pending q a wanted u \<longleftrightarrow> (\<exists>m newer older. msgqs u q = Some m \<and> m_msgs m = newer @ a # older \<and> NULL \<notin> set newer \<and>
     (\<forall>b \<in> set newer. \<exists>x. msgs u b = Some x \<and> \<not> type_wanted wanted (mm_type x)))"

text \<open>
  C7. Messages arrive. When \<open>ipc_msg_send\<close> succeeds without waiting, every process that waited for a message of the
  queue is awake, and the message is the newest of the queue. In every later state \<open>u\<close> in which the message has not been received
  yet and no newer message of an accepted type is in the queue, whichever process with the
  permission to read then calls \<open>ipc_msg_recv\<close>, and whatever has happened to the memory in between, the buffer of the
  sender included: the call returns as many bytes as both sizes allow, and has written exactly the bytes that were in the buffer
  of the sender at the time of the call to \<open>ipc_msg_send\<close> to the buffer of the receiver.
\<close>

theorem msg_send_receive:
  assumes "procs_ok (s :: 'a ipc_scheme)" "ipc_find (-1) ident IPC_MSG s = Ret q s" "q \<noteq> NULL" "msgqs s q = Some m"
    "msg_permcheck q PERM_W s = Ret True s"
    "set (m_waiting m) \<subseteq> dom (procs s)" "NULL \<notin> set (m_waiting m)"
    "mallocs s = new # buf # rest" "load_bytes (unat sz) data s = Ret bytes s" "flags AND IPC_NOWAIT = flags"
  shows "\<exists>t. ipc_msg_send ident data sz typ flags time s = Ret 0 t \<and>
    set (proc_sleeping t) = set (proc_sleeping s) - set (m_waiting m) \<and>
    (\<exists>m'. msgqs t q = Some m' \<and> m_msgs m' = new # m_msgs m) \<and>
    (\<forall>(u :: 'a ipc_scheme) out sz' wanted fl now v. procs_ok u \<and> ipc_find (-1) ident IPC_MSG u = Ret q u \<and>
       msg_permcheck q PERM_R u = Ret True u \<and> pending q new wanted u \<and> msgs u new = msgs t new \<and>
       proc_current s \<in> dom (procs u) \<and> type_wanted wanted typ \<and>
       store_bytes (take (unat (min sz' sz)) bytes) out u = Ret () v \<longrightarrow>
       (\<exists>w. ipc_msg_recv ident out sz' wanted fl now u = Ret (min sz' sz) w \<and> phys w = phys v))"
proof -
  from assms(5) obtain c where c: "procs s (proc_current s) = Some c"
    unfolding msg_permcheck_view by (auto simp: perm_view_def)
  let ?q = "sent_queue m (p_pid c) time new" and ?x = "sent_message q bytes sz typ flags (proc_current s)"
  let ?s = "s\<lparr>mallocs := rest, msgs := (msgs s)(new \<mapsto> ?x), msgqs := (msgqs s)(q \<mapsto> ?q)\<rparr>"
  from ipc_msg_send_ok [OF assms(1-5) c assms(6-10)] obtain t where t: "procs_ok t" "wakes_only ?s t"
    "ipc_msg_send ident data sz typ flags time s = Ret 0 t"
    "set (proc_sleeping t) = set (proc_sleeping s) - set (m_waiting m)" by blast
  have q: "msgqs t q = Some ?q" and x: "msgs t new = Some ?x" using wakes_only_ipc [OF t(2)] by simp_all
  have new: "new \<noteq> NULL" using assms(1,8) by (auto simp: procs_ok_def table_ok_def mallocs_ok_def)
  have "\<exists>w. ipc_msg_recv ident out sz' wanted fl now u = Ret (min sz' sz) w \<and> phys w = phys v"
    if u: "procs_ok u" "ipc_find (-1) ident IPC_MSG u = Ret q u" "msg_permcheck q PERM_R u = Ret True u"
      "pending q new wanted u" "msgs u new = msgs t new" "proc_current s \<in> dom (procs u)"
      and w: "type_wanted wanted typ" "store_bytes (take (unat (min sz' sz)) bytes) out u = Ret () v"
    for u :: "'a ipc_scheme" and out sz' wanted fl now v
  proof -
    from u(4) obtain m' newer older where m': "msgqs u q = Some m'" "m_msgs m' = newer @ new # older" "NULL \<notin> set newer"
      "\<forall>b \<in> set newer. \<exists>x. msgs u b = Some x \<and> \<not> type_wanted wanted (mm_type x)" by (auto simp: pending_def)
    from u(3) obtain d where d: "procs u (proc_current u) = Some d"
      unfolding msg_permcheck_view by (auto simp: perm_view_def)
    have x': "msgs u new = Some ?x" using u(5) x by simp
    have "\<exists>y. wakes_only v y \<and> procs_ok y \<and>
      ipc_msg_recv ident out sz' wanted fl now u = Ret (min sz' (mm_size ?x))
        (y\<lparr>msgqs := (msgqs y)(q \<mapsto> m'\<lparr>m_lrpid := p_pid d, m_rtime := now\<rparr>), msgs := (msgs y)(new := None)\<rparr>)"
      by (rule ipc_msg_recv_ok [OF u(1,2) assms(3) m'(1) u(3) d m'(2-4) new x'])
         (use w u(6) in \<open>auto simp: sent_message_def\<close>)
    then show ?thesis by (auto simp: sent_message_def dest: wakes_only_fields(4))
  qed
  moreover have "\<exists>m'. msgqs t q = Some m' \<and> m_msgs m' = new # m_msgs m" using q by (simp add: sent_queue_def)
  ultimately show ?thesis using t(3,4) by blast
qed

text \<open>The small system with a message queue on which the third process waits.\<close>

definition demo_queue :: ipc_msg_t where
  "demo_queue = (new_msgq 7 0x1000 5 0 0)\<lparr>m_waiting := [0x3000]\<rparr>"

definition demo_msg :: irq where
  "demo_msg = (zero_irq demo_kernel)\<lparr>ipc_objects := [0x8000], msgqs := [0x8000 \<mapsto> demo_queue],
     procs := (procs demo_kernel)(0x1000 \<mapsto> (the (procs demo_kernel 0x1000))\<lparr>p_uid := 1, p_gid := 1\<rparr>),
     phys := (\<lambda>_. 0)(0x9000 := 65, 0x9001 := 66)\<rparr>"

lemmas demo_msg_defs = demo_msg_def demo_queue_def new_msgq_def zero_irq_defs demo_defs

lemma demo_msg_ok: "procs_ok demo_msg"
  by (simp add: procs_ok_def table_ok_def proc_ok_def mallocs_ok_def demo_msg_defs)

lemma demo_msg_find: "ipc_find (-1) 5 IPC_MSG demo_msg = Ret 0x8000 demo_msg"
  by (rule ipc_find_newest [where h = "ipc_obj_t.truncate demo_queue"])
     (simp_all add: demo_msg_defs ipc_header_def ipc_obj_t.defs)

lemma demo_msg_perm: "msg_permcheck 0x8000 op demo_msg = Ret True demo_msg"
  by (simp add: msg_permcheck_def getp_def getq_def deref_def demo_msg_defs perm_check_def PERM_ROOTUID_def)

lemma demo_msg_fields:
  "phys demo_msg = (\<lambda>_. 0)(0x9000 := 65, 0x9001 := 66)" "vaddr demo_msg v = Some v" "mallocs demo_msg = [0x7000, 0x7100]"
  "proc_sleeping demo_msg = [0x3000]" "msgqs demo_msg 0x8000 = Some demo_queue" "m_waiting demo_queue = [0x3000]"
  "dom (procs demo_msg) = {0x1000, 0x2000, 0x3000}" "\<not> paging_enabled demo_msg"
  by (auto simp: demo_msg_defs vaddr_def)

text \<open>
  The receiver: the second process runs, in a memory where the buffer of the sender has been cleared.
\<close>

definition demo_reader :: irq where
  "demo_reader = demo_msg\<lparr>phys := (\<lambda>_. 0), proc_current := 0x2000,
     procs := (procs demo_msg)(0x2000 \<mapsto> (the (procs demo_msg 0x2000))\<lparr>p_ticks_rem := 1, p_uid := 0\<rparr>),
     msgqs := [0x8000 \<mapsto> demo_queue\<lparr>m_msgs := [0x7000], m_waiting := []\<rparr>]\<rparr>"

lemma demo_reader_ok: "procs_ok demo_reader"
  by (simp add: procs_ok_def table_ok_def proc_ok_def mallocs_ok_def demo_reader_def demo_msg_defs)

lemma demo_reader_msgs:
  "procs_ok (demo_reader\<lparr>msgs := x\<rparr>)"
  "ipc_find (-1) 5 IPC_MSG (demo_reader\<lparr>msgs := x\<rparr>) = Ret 0x8000 (demo_reader\<lparr>msgs := x\<rparr>)"
  "msg_permcheck 0x8000 op (demo_reader\<lparr>msgs := x\<rparr>) = Ret True (demo_reader\<lparr>msgs := x\<rparr>)"
  "pending 0x8000 0x7000 wanted (demo_reader\<lparr>msgs := x\<rparr>)"
  "0x1000 \<in> dom (procs (demo_reader\<lparr>msgs := x\<rparr>))" "vaddr (demo_reader\<lparr>msgs := x\<rparr>) v = Some v"
proof -
  show "procs_ok (demo_reader\<lparr>msgs := x\<rparr>)" using demo_reader_ok by simp
  show "ipc_find (-1) 5 IPC_MSG (demo_reader\<lparr>msgs := x\<rparr>) = Ret 0x8000 (demo_reader\<lparr>msgs := x\<rparr>)"
    by (rule ipc_find_newest [where h = "ipc_obj_t.truncate (demo_queue\<lparr>m_msgs := [0x7000], m_waiting := []\<rparr>)"])
       (simp_all add: demo_reader_def demo_msg_defs ipc_header_def ipc_obj_t.defs)
  show "msg_permcheck 0x8000 op (demo_reader\<lparr>msgs := x\<rparr>) = Ret True (demo_reader\<lparr>msgs := x\<rparr>)"
    by (simp add: msg_permcheck_def getp_def getq_def deref_def demo_reader_def demo_msg_defs perm_check_def PERM_ROOTUID_def
        PERM_ROOTGID_def)
  show "pending 0x8000 0x7000 wanted (demo_reader\<lparr>msgs := x\<rparr>)"
    by (auto simp: pending_def demo_reader_def intro: exI [of _ "[]"])
  show "0x1000 \<in> dom (procs (demo_reader\<lparr>msgs := x\<rparr>))" "vaddr (demo_reader\<lparr>msgs := x\<rparr>) v = Some v"
    by (simp_all add: demo_reader_def demo_msg_defs vaddr_def)
qed

theorem msg_send_receive_witness:
  "\<exists>t. ipc_msg_send 5 0x9000 2 1 0 0 demo_msg = Ret 0 t \<and> 0x3000 \<notin> set (proc_sleeping t) \<and>
    (\<exists>w. ipc_msg_recv 5 0x9100 8 0 0 0 (demo_reader\<lparr>msgs := msgs t\<rparr>) = Ret 2 w \<and> phys w 0x9100 = 65 \<and> phys w 0x9101 = 66)"
proof -
  have two: "unat (2 :: u32) = Suc (Suc 0)" by simp
  have "load_bytes (unat (2 :: u32)) 0x9000 demo_msg = Ret [65, 66] demo_msg"
    unfolding two by (simp add: load8_def demo_msg_fields)
  from msg_send_receive [OF demo_msg_ok demo_msg_find _ _ demo_msg_perm _ _ _ this,
      of demo_queue "0x7000" "0x7100" "[]" 0 1 0]
  obtain t where t: "ipc_msg_send 5 0x9000 2 1 0 0 demo_msg = Ret 0 t" "set (proc_sleeping t) = {}"
    and r: "\<forall>(u :: irq) out sz' wanted fl now v. procs_ok u \<and> ipc_find (-1) 5 IPC_MSG u = Ret 0x8000 u \<and>
       msg_permcheck 0x8000 PERM_R u = Ret True u \<and> pending 0x8000 0x7000 wanted u \<and> msgs u 0x7000 = msgs t 0x7000 \<and>
       proc_current demo_msg \<in> dom (procs u) \<and> type_wanted wanted 1 \<and>
       store_bytes (take (unat (min sz' 2)) [65, 66]) out u = Ret () v \<longrightarrow>
       (\<exists>w. ipc_msg_recv 5 out sz' wanted fl now u = Ret (min sz' 2) w \<and> phys w = phys v)"
    by (auto simp: demo_msg_fields)
  let ?u = "demo_reader\<lparr>msgs := msgs t\<rparr>"
  let ?v = "?u\<lparr>phys := (phys ?u)(0x9100 := 65, 0x9101 := 66)\<rparr>"
  have m: "min (8 :: u32) 2 = 2" by (simp add: min_def)
  have v: "vaddr (?u\<lparr>phys := x\<rparr>) a = Some a" for x a
    by (simp add: vaddr_def demo_reader_def demo_msg_defs)
  have st: "store_bytes [65, 66] 0x9100 ?u = Ret () ?v"
    using demo_reader_msgs(6) v by (simp add: store8_def)
  have cur: "proc_current demo_msg = 0x1000" by (simp add: demo_msg_defs)
  have "\<exists>w. ipc_msg_recv 5 0x9100 8 0 0 0 ?u = Ret (min 8 2) w \<and> phys w = phys ?v"
    by (rule r [THEN spec [of _ ?u], THEN spec [of _ "0x9100"], THEN spec [of _ 8], THEN spec [of _ 0], THEN spec [of _ 0],
        THEN spec [of _ 0], THEN spec [of _ ?v], THEN mp])
       (use st m cur demo_reader_msgs in \<open>simp add: type_wanted_def\<close>)
  with t m show ?thesis by auto
qed

text \<open>
  C34. When the newest message of a queue has been received, the queue is dead. The receiver frees the message
  but leaves it at the head of the list of the queue: whatever the next receive asks for, it looks at the freed
  message first.
\<close>

theorem msg_received_dangles:
  assumes "procs_ok s" "ipc_find (-1) ident IPC_MSG s = Ret q s" "q \<noteq> NULL" "msgqs s q = Some m"
    "msg_permcheck q PERM_R s = Ret True s" "m_msgs m = a # rest" "a \<noteq> NULL" "msgs s a = Some x"
    "type_wanted typ (mm_type x)" "procs s (mm_sender x) \<noteq> None"
    "store_bytes (take (unat (min sz (mm_size x))) (mm_data x)) data s = Ret () v"
  shows "\<exists>u. ipc_msg_recv ident data sz typ flags time s = Ret (min sz (mm_size x)) u \<and>
    (\<forall>data sz typ flags time. ipc_msg_recv ident data sz typ flags time u = Stop Dangling u)"
proof -
  from assms(5) obtain c where c: "procs s (proc_current s) = Some c"
    unfolding msg_permcheck_view by (auto simp: perm_view_def)
  let ?m = "m\<lparr>m_lrpid := p_pid c, m_rtime := time\<rparr>"
  have head: "m_msgs m = [] @ a # rest" using assms(6) by simp
  from ipc_msg_recv_ok [OF assms(1-5) c head _ _ assms(7-11), of flags time] obtain w where w: "wakes_only v w"
    "ipc_msg_recv ident data sz typ flags time s = Ret (min sz (mm_size x))
      (w\<lparr>msgqs := (msgqs w)(q \<mapsto> ?m), msgs := (msgs w)(a := None)\<rparr>)" by auto
  let ?u = "w\<lparr>msgqs := (msgqs w)(q \<mapsto> ?m), msgs := (msgs w)(a := None)\<rparr>"
  note v = store_bytes_ipc [OF assms(11)] wakes_only_ipc [OF w(1)] wakes_only_fields(1) [OF w(1)]
  have wq: "msgqs w q = Some m" using v assms(4) by simp
  have head: "ipc_header ?u b = ipc_header s b" for b
  proof -
    have "ipc_header ?u b = ipc_header w b"
      by (rule ipc_header_same_queue [where m' = ?m, OF wq]) (simp_all add: ipc_obj_t.defs)
    with v show ?thesis by simp
  qed
  have find: "ipc_find (-1) ident IPC_MSG ?u = Ret q ?u"
    by (rule ipc_find_cong [OF assms(2)]) (use v head in simp_all)
  have view: "perm_view ?u p = perm_view s p" for p
    using perm_view_wakes [OF w(1), of p] v(7) [of p] by (simp add: perm_view_def)
  have "msg_permcheck q PERM_R ?u = Ret True ?u"
    by (rule msg_permcheck_cong [where m' = ?m, OF assms(5) _ view assms(4)]) (use v in simp_all)
  then have "ipc_msg_recv ident d k ty fl now ?u = Stop Dangling ?u" for d k ty fl now
    using find assms(3,6,7) by (simp add: ipc_msg_recv_def getq_def deref_def ll_elems_def)
  with w(2) show ?thesis by blast
qed

definition demo_received :: irq where
  "demo_received = demo_msg\<lparr>msgqs := [0x8000 \<mapsto> demo_queue\<lparr>m_msgs := [0x8100], m_waiting := []\<rparr>],
     msgs := [0x8100 \<mapsto> sent_message 0x8000 [65] 1 1 0 0x2000]\<rparr>"

theorem msg_received_dangles_witness:
  "\<exists>u. ipc_msg_recv 5 0x9100 8 1 0 0 demo_received = Ret 1 u \<and> ipc_msg_recv 5 0x9100 8 1 0 0 u = Stop Dangling u"
proof -
  let ?q = "demo_queue\<lparr>m_msgs := [0x8100], m_waiting := []\<rparr>" and ?x = "sent_message 0x8000 [65] 1 1 0 0x2000"
  have ok: "procs_ok demo_received" using demo_msg_ok by (simp add: demo_received_def)
  have q: "msgqs demo_received 0x8000 = Some ?q" by (simp add: demo_received_def)
  have find: "ipc_find (-1) 5 IPC_MSG demo_received = Ret 0x8000 demo_received"
    by (rule ipc_find_newest [where h = "ipc_obj_t.truncate ?q"])
       (simp_all add: demo_received_def demo_msg_defs ipc_header_def ipc_obj_t.defs)
  have perm: "msg_permcheck 0x8000 PERM_R demo_received = Ret True demo_received"
    by (rule msg_permcheck_cong [OF demo_msg_perm _ _ demo_msg_fields(5) q])
       (simp_all add: demo_received_def perm_view_def)
  have m: "min (8 :: u32) 1 = 1" by (simp add: min_def word_le_nat_alt)
  have store: "store_bytes (take (unat (min 8 (mm_size ?x))) (mm_data ?x)) 0x9100 demo_received =
      Ret () (demo_received\<lparr>phys := (phys demo_received)(0x9100 := 65)\<rparr>)"
    by (simp add: sent_message_def m store8_def vaddr_def demo_received_def demo_msg_fields)
  have "procs demo_received (mm_sender ?x) \<noteq> None"
    by (simp add: sent_message_def demo_received_def demo_msg_defs)
  from msg_received_dangles [OF ok find _ q perm _ _ _ _ this store, of "0x8100" "[]" 1 0 0]
  show ?thesis by (auto simp: m sent_message_def demo_received_def type_wanted_def)
qed

section \<open>Semaphores\<close>

text \<open>
  C35. Wake-ups of semaphores get lost. A process waits until a semaphore has reached a value, and an
  operation raises it to exactly that value: the operation succeeds, takes the process off the list of
  those who wait, and does not wake it. Nothing in the semaphore refers to the process any more.
\<close>

theorem sem_wakeup_lost:
  assumes "ipc_find (-1) ident IPC_SEM s = Ret q s" "q \<noteq> NULL" "semsets s q = Some x"
    "load_sem_op ops s = Ret \<lparr>so_num = num, so_op = amount, so_flags = flags\<rparr> s"
    "ucast num < s_num x" "unat num < length (s_sems x)"
    "procs s (proc_current s) = Some c" "0 <s (scast amount :: u32)"
    "ss_waitn (s_sems x ! unat num) = [w]" "w \<noteq> NULL" "sleepns s w = Some sn"
    "sn_val sn = ss_val (s_sems x ! unat num) + scast amount" "0 <s sn_val sn"
  shows "\<exists>t y. ipc_sem_op ident ops 1 time s = Ret 0 t \<and> proc_sleeping t = proc_sleeping s \<and>
    semsets t q = Some y \<and> ss_val (s_sems y ! unat num) = sn_val sn \<and>
    ss_waitn (s_sems y ! unat num) = [] \<and> ss_waitz (s_sems y ! unat num) = ss_waitz (s_sems x ! unat num)"
proof -
  have "sn_val sn \<noteq> 0" "\<not> (scast amount :: u32) <s 0" using assms(8,13) by (auto simp: word_sless_alt)
  with assms show ?thesis
    by (simp add: ipc_sem_op_def getsem_def deref_def getp_def upd1_def get1_def updsem_def sem_apply_def sem_wake_def
        wake_waitn_def Let_def not_le [symmetric] word_sless_alt)
qed

text \<open>A semaphore with the value 1, and the third process waiting for 2.\<close>

definition demo_semset :: ipc_sem_S where
  "demo_semset = \<lparr>i_type = IPC_SEM, i_id = 5, i_key = 7, i_owner = 0x1000, i_creator = 0x1000, i_mode = 0, s_num = 1,
     s_sems = [(new_sem 0x8000)\<lparr>ss_val := 1, ss_waitn := [0x8200]\<rparr>], s_otime = 0, s_ctime = 0\<rparr>"

definition demo_sem :: irq where
  "demo_sem = (zero_irq demo_kernel)\<lparr>ipc_objects := [0x8000], semsets := [0x8000 \<mapsto> demo_semset],
     sleepns := [0x8200 \<mapsto> \<lparr>sn_val = 2, sn_proc = 0x3000\<rparr>], phys := (\<lambda>_. 0)(0x9002 := 1)\<rparr>"

lemmas demo_sem_defs = demo_sem_def zero_irq_defs demo_defs

theorem sem_wakeup_lost_witness:
  "\<exists>t y. ipc_sem_op 5 0x9000 1 0 demo_sem = Ret 0 t \<and> 0x3000 \<in> set (proc_sleeping t) \<and>
    semsets t 0x8000 = Some y \<and> ss_val (s_sems y ! 0) = 2 \<and> ss_waitn (s_sems y ! 0) = []"
proof -
  have mem: "phys demo_sem = (\<lambda>_. 0)(0x9002 := 1)" "vaddr demo_sem v = Some v" for v
    by (simp_all add: demo_sem_defs vaddr_def)
  have load: "load_sem_op 0x9000 demo_sem = Ret \<lparr>so_num = 0, so_op = 1, so_flags = 0\<rparr> demo_sem"
    by (simp add: load_sem_op_def load16_def load8_def mem)
  have find: "ipc_find (-1) 5 IPC_SEM demo_sem = Ret 0x8000 demo_sem"
    by (rule ipc_find_newest [where h = "ipc_obj_t.truncate demo_semset"])
       (simp_all add: demo_sem_defs demo_semset_def ipc_header_def ipc_obj_t.defs)
  have "semsets demo_sem 0x8000 = Some demo_semset" by (simp add: demo_sem_def)
  from sem_wakeup_lost [OF find _ this load, of "the (procs demo_kernel 0x1000)" "0x8200" "\<lparr>sn_val = 2, sn_proc = 0x3000\<rparr>" 0]
  show ?thesis by (auto simp: demo_semset_def new_sem_def demo_sem_defs word_sless_alt)
qed

end
