(* ===== verification/RpcProps.thy ===== *)
theory RpcProps
  imports IpcProps
begin

text \<open>
  Remote procedure calls: what a call hands over to the server, and that the caller and the server
  change places.
\<close>

unbundle bit_operations_syntax

section \<open>Falling asleep\<close>

lemma proc_sleep_switches:
  assumes "procs_ok s" "proc_current s \<noteq> NULL" "w \<in> set (proc_running s)" "w \<noteq> proc_current s"
  shows "\<exists>t. proc_sleep (proc_current s) s = Ret 0 t \<and> procs_ok t \<and>
    proc_current s \<in> set (proc_sleeping t) \<and> w \<in> set (proc_running t) \<and>
    p_registers (the (procs t (proc_current s))) = curregs s \<and> kernel.more t = kernel.more s"
proof -
  let ?p = "proc_current s"
  let ?s = "put_to_sleep ?p (the (procs s ?p)) s"
  note eq = proc_sleep_current_eq [OF assms(1,2)]
  have w: "w \<in> set (proc_running ?s)" using assms(3,4) by (simp add: put_to_sleep_def)
  then have "proc_running ?s \<noteq> []" by auto
  from proc_shedule_runs [OF eq(2) this] obtain t where t: "proc_shedule ?s = Ret () t" "procs_ok t"
    "proc_current t \<in> set (proc_running ?s)" "proc_running t = proc_running ?s" "proc_sleeping t = proc_sleeping ?s"
    "if proc_current t = proc_current ?s then True
     else proc_current ?s \<noteq> NULL \<longrightarrow> p_registers (the (procs t (proc_current ?s))) = curregs ?s"
    by metis
  have "distinct (proc_running s)" using assms(1) by (simp add: procs_ok_def table_ok_def)
  then have "proc_current t \<noteq> ?p" using t(3) by (auto simp: put_to_sleep_def)
  with t(6) assms(2) have "p_registers (the (procs t ?p)) = curregs s" by (simp add: put_to_sleep_def)
  moreover have "kernel.more t = kernel.more s" using proc_shedule_more [OF t(1)] by (simp add: put_to_sleep_def)
  moreover have "proc_sleep ?p s = Ret 0 t" using eq(1) t(1) by simp
  moreover have "?p \<in> set (proc_sleeping t)" "w \<in> set (proc_running t)" using t(4,5) w by (simp_all add: put_to_sleep_def)
  ultimately show ?thesis using t(2) by blast
qed

lemma proc_wake_running:
  assumes "procs_ok s" "p \<in> set (proc_running s) \<union> set (proc_sleeping s)"
  shows "\<exists>t. proc_wake p s = Ret 0 t \<and> procs_ok t \<and> wakes_only s t \<and> p \<in> set (proc_running t)"
proof -
  have tab: "table_ok s" using assms(1) by (simp add: procs_ok_def)
  then have "p \<in> set (proc_all s)" using assms(2) by (auto simp: table_ok_def)
  with tab obtain x where x: "procs s p = Some x" "proc_ok s p x" by (auto simp: table_ok_def)
  from pw.wake_returns [of s p] assms(1) x(1) obtain t where t: "proc_wake p s = Ret 0 t" "procs_ok t" by auto
  have "p \<in> set (proc_running t)"
    using t(1) x assms(2)
    by (auto simp: proc_wake_def getp_def updp_def ll_push_def proc_ok_def split: if_splits)
  with t proc_wake_only [OF t(1)] show ?thesis by blast
qed

lemma store32_cong:
  assumes "store32 v x s = Ret () (s\<lparr>phys := m\<rparr>)" "vaddr t = vaddr s" "phys t = phys s"
  shows "store32 v x t = Ret () (t\<lparr>phys := m\<rparr>)"
proof -
  from assms(1) have "\<exists>a b c d. vaddr s v = Some a \<and> vaddr s (v + 1) = Some b \<and> vaddr s (v + 2) = Some c \<and>
    vaddr s (v + 3) = Some d \<and> m = (phys s)(a := byte_of 0 x, b := byte_of 1 x, c := byte_of 2 x, d := byte_of 3 x)"
    by (auto simp: store32_def split: option.splits dest!: arg_cong [of _ _ phys])
  with assms(2,3) show ?thesis by (auto simp: store32_def)
qed

lemma store_opt_cong:
  "store_opt v x s = Ret () (s\<lparr>phys := m\<rparr>) \<Longrightarrow> vaddr t = vaddr s \<Longrightarrow> phys t = phys s \<Longrightarrow>
   store_opt v x t = Ret () (t\<lparr>phys := m\<rparr>)"
  by (cases "v = NULL") (auto simp: store_opt_def intro: store32_cong dest: arg_cong [of _ _ phys])

lemma procs_ok_rfuncs [simp]: "procs_ok (s\<lparr>rfuncs := f\<rparr>) \<longleftrightarrow> procs_ok s"
  by (simp add: procs_ok_def table_ok_def proc_ok_def mallocs_ok_def)

lemma rpc_more:
  "kernel.more t = kernel.more (s :: 'a rpc_scheme) \<Longrightarrow> rcalls t = rcalls s \<and> rfuncs t = rfuncs s"
  by (cases s; cases t) simp

section \<open>Calls\<close>

text \<open>
  C11. A remote procedure call hands over to the server. The kernel copies the parameters, queues the call at the
  server's function, wakes the server and puts the caller to sleep, whose system call will return
  \<open>0\<close>; the server can run.
\<close>

theorem rpc_call_hands_over:
  assumes ok: "procs_ok s" "proc_current s \<noteq> NULL"
    and find: "rpc_find ident NULL NULL 0 0 s = Ret func s" "func \<noteq> NULL" "rfuncs s func = Some f"
    and heap: "mallocs s = new # buf # rest"
    and params: "load_bytes (unat (rf_params_size f)) params s = Ret bytes s"
    and error: "store_opt error 1 s = Ret () (s\<lparr>phys := m\<rparr>)"
    and owner: "rf_owner f \<in> set (proc_running s) \<union> set (proc_sleeping s)" "rf_owner f \<noteq> proc_current s"
  shows "\<exists>t. rpc_function_call ident params ret ret_params error s = Ret 0 t \<and> procs_ok t \<and>
    proc_current s \<in> set (proc_sleeping t) \<and> rf_owner f \<in> set (proc_running t) \<and>
    p_registers (the (procs t (proc_current s))) = (curregs s)\<lparr>r_eax := 0\<rparr> \<and>
    rcalls t new = Some \<lparr>rc_caller = proc_current s, rc_params = bytes, rc_ret = ret, rc_ret_params = ret_params,
      rc_error = error\<rparr> \<and>
    rfuncs t func = Some (f\<lparr>rf_calls := new # rf_calls f\<rparr>)"
proof -
  let ?call = "\<lparr>rc_caller = proc_current s, rc_params = bytes, rc_ret = ret, rc_ret_params = ret_params, rc_error = error\<rparr>"
  let ?s1 = "s\<lparr>mallocs := buf # rest\<rparr>" and ?s2 = "s\<lparr>mallocs := rest\<rparr>"
  let ?s3 = "?s2\<lparr>rcalls := (rcalls s)(new \<mapsto> ?call), rfuncs := (rfuncs s)(func \<mapsto> f\<lparr>rf_calls := new # rf_calls f\<rparr>)\<rparr>"
  let ?s4 = "?s3\<lparr>phys := m\<rparr>"
  have ok4: "procs_ok ?s4"
    using procs_ok_mallocs_tail [OF procs_ok_mallocs_tail [OF ok(1) heap], of buf rest] by simp
  from proc_wake_running [OF ok4, of "rf_owner f"] owner(1) obtain u where u: "proc_wake (rf_owner f) ?s4 = Ret 0 u"
    "procs_ok u" "wakes_only ?s4 u" "rf_owner f \<in> set (proc_running u)" by auto
  note w = wakes_only_fields [OF u(3)]
  let ?u = "u\<lparr>curregs := (curregs u)\<lparr>r_eax := 0\<rparr>\<rparr>"
  from proc_sleep_switches [of ?u "rf_owner f"] u w ok(2) owner(2) obtain t where
    t: "proc_sleep (proc_current s) ?u = Ret 0 t" "procs_ok t" "proc_current s \<in> set (proc_sleeping t)"
    "rf_owner f \<in> set (proc_running t)" "p_registers (the (procs t (proc_current s))) = (curregs s)\<lparr>r_eax := 0\<rparr>"
    "kernel.more t = kernel.more ?s4" by auto
  have "load_bytes (unat (rf_params_size f)) params ?s2 = Ret bytes ?s2" by (rule load_bytes_cong [OF _ _ params]) simp_all
  moreover have "store_opt error 1 ?s3 = Ret () ?s4"
    by (rule store_opt_cong [OF error]) (simp_all add: vaddr_def fun_eq_iff)
  ultimately have "rpc_function_call ident params ret ret_params error s = Ret 0 t"
    using find heap u(1) t(1) w(1)
    by (simp add: rpc_function_call_def kmalloc_obj_def getf_def updf_def ll_push_def)
  moreover from rpc_more [OF t(6)] have "rcalls t new = Some ?call" "rfuncs t func = Some (f\<lparr>rf_calls := new # rf_calls f\<rparr>)"
    by simp_all
  ultimately show ?thesis using t by blast
qed

text \<open>The small system, with a function of the third process that takes two bytes.\<close>

definition demo_function :: rpc_function_t where
  "demo_function = \<lparr>rf_id = 4, rf_name = None, rf_func = 0x8048000, rf_synopsis = None, rf_params_size = 2,
     rf_owner = 0x3000, rf_calls = [], rf_current = 0\<rparr>"

definition demo_rpc :: irq where
  "demo_rpc = (zero_irq demo_kernel)\<lparr>rpc_functions := [0x8000], rfuncs := [0x8000 \<mapsto> demo_function],
     phys := (\<lambda>_. 0)(0x9000 := 65, 0x9001 := 66)\<rparr>"

lemmas demo_rpc_defs = demo_rpc_def zero_irq_defs demo_defs

theorem rpc_call_hands_over_witness:
  "\<exists>t. rpc_function_call 4 0x9000 0 0 0 demo_rpc = Ret 0 t \<and> 0x1000 \<in> set (proc_sleeping t) \<and>
    0x3000 \<in> set (proc_running t) \<and> map_option rc_params (rcalls t 0x7000) = Some [65, 66]"
proof -
  have f: "phys demo_rpc = (\<lambda>_. 0)(0x9000 := 65, 0x9001 := 66)" "vaddr demo_rpc v = Some v" "mallocs demo_rpc = [0x7000, 0x7100]"
    "proc_sleeping demo_rpc = [0x3000]" "rfuncs demo_rpc 0x8000 = Some demo_function" "proc_current demo_rpc = 0x1000"
    "ll_elems (rpc_functions demo_rpc) = [0x8000]" for v
    by (auto simp: demo_rpc_defs vaddr_def ll_elems_def)
  have ok: "procs_ok demo_rpc"
    by (simp add: procs_ok_def table_ok_def proc_ok_def mallocs_ok_def demo_rpc_defs)
  have find: "rpc_find 4 NULL NULL 0 0 demo_rpc = Ret 0x8000 demo_rpc"
    by (simp add: rpc_find_def f rpc_match_def getf_def) (simp add: demo_function_def)
  have two: "unat (rf_params_size demo_function) = Suc (Suc 0)" by (simp add: demo_function_def)
  have load: "load_bytes (unat (rf_params_size demo_function)) 0x9000 demo_rpc = Ret [65, 66] demo_rpc"
    unfolding two by (simp add: load8_def f)
  have "store_opt 0 1 demo_rpc = Ret () (demo_rpc\<lparr>phys := phys demo_rpc\<rparr>)" by (simp add: store_opt_def)
  from rpc_call_hands_over [OF ok _ find _ f(5,3) load this, of 0 0]
  show ?thesis by (auto simp: f demo_function_def)
qed

end
