(* ===== verification/PagingInit.thy ===== *)
theory PagingInit
  imports PagingInv
begin

text \<open>
  What \<open>paging_init\<close> leaves behind: paging is on with a well-formed kernel directory, the memory
  below \<open>KERNELCODE_ADDRESS + KERNELCODE_SIZE\<close> is mapped one to one, and nothing else is
  mapped outside the window of the page tables.
\<close>

section \<open>With paging off an address is its own translation\<close>

lemma vaddr_off [simp]: "\<not> paging_enabled s \<Longrightarrow> vaddr s v = Some v"
  by (simp add: vaddr_def)

lemma load32_off: "\<not> paging_enabled s \<Longrightarrow> load32 v s = Ret (rd32 (phys s) v) s"
  by (simp add: load32_def rd32_def)

lemma store32_off: "\<not> paging_enabled s \<Longrightarrow> store32 v x s = Ret () (s\<lparr>phys := wr32 (phys s) v x\<rparr>)"
  by (simp add: store32_def wr32_def)

lemma memset_off:
  "\<not> paging_enabled s \<Longrightarrow>
   memset_v n v x s = Ret () (s\<lparr>phys := \<lambda>a. if \<exists>k<n. a = v + of_nat k then x else phys s a\<rparr>)"
  by (rule memset_v_mapped) simp

lemma memset_page_off:
  assumes "\<not> paging_enabled s" "page_aligned f"
  shows "memset_v 4096 f 0 s = Ret () (s\<lparr>phys := clear_page (phys s) f\<rparr>)"
  using memset_off [OF assms(1), of 4096 f 0] by (simp add: page_bytes [OF assms(2)] clear_page_def)

lemma update_pde_off:
  "\<not> paging_enabled s \<Longrightarrow>
   update_pde a f s = Ret () (s\<lparr>phys := wr32 (phys s) a (pde_enc (f (pde_dec (rd32 (phys s) a))))\<rparr>)"
  by (simp add: update_pde_def load32_off store32_off)

lemma map_off:
  assumes "\<not> paging_enabled s" "pde_exists (pde_at (phys s) (paging_curpd s) (ADDR2PDE v))"
  shows "paging_map v p u w s = Ret 0 (s\<lparr>phys := wr32 (phys s)
     (frame_of_pde (pde_at (phys s) (paging_curpd s) (ADDR2PDE v)) + 4 * ADDR2PTE v) (pte_enc (new_pte p u w 0 0))\<rparr>)"
  using assms by (simp add: paging_map_def paging_map_with_def paging_getpde_def paging_setpte_def load32_off
      store32_off pde_at_def frame_of_pde_def)

section \<open>The identity mapping\<close>

text \<open>The entry the loop writes for the page at \<open>v\<close>.\<close>

definition boot_pte :: "u32 \<Rightarrow> pte" where
  "boot_pte v =
     (if (v \<ge> IVT_ADDRESS \<and> v < IVT_ADDRESS + IVT_SIZE) \<or>
         (v \<ge> BIOSCODE_ADDRESS \<and> v < BIOSCODE_ADDRESS + BIOSCODE_SIZE)
      then new_pte v 1 0 0 0 else new_pte v 0 1 0 0)"

lemma unat_low: "j \<le> 1024 \<Longrightarrow> unat (4096 * of_nat j :: u32) = 4096 * j"
  using unat_of_nat_u32 [of "4096 * j"] by simp

lemma low_page:
  assumes "j < 1024"
  shows "ADDR2PDE (of_nat (4096 * j)) = 0" "ADDR2PTE (of_nat (4096 * j)) = of_nat j"
  using assms by (simp_all add: word_unat_eq_iff unat_macros unat_low)

lemma paging_init_loop_ok:
  assumes "\<not> paging_enabled s" "pde_exists (pde_at (phys s) (paging_curpd s) 0)"
    and "frame_of_pde (pde_at (phys s) (paging_curpd s) 0) = pt" "page_aligned (paging_curpd s)"
    and "pt \<noteq> paging_curpd s" "i + n = 768"
  shows "\<exists>m'. paging_init_loop (of_nat (4096 * i)) s = Ret () (s\<lparr>phys := m'\<rparr>) \<and>
    (\<forall>a. PAGEDOWN a \<noteq> pt \<longrightarrow> m' a = phys s a) \<and>
    (\<forall>j<1024. rd32 m' (pt + 4 * of_nat j) =
       (if i \<le> j \<and> j < 768 then pte_enc (boot_pte (of_nat (4096 * j))) else rd32 (phys s) (pt + 4 * of_nat j)))"
  using assms
proof (induction n arbitrary: i s)
  case 0
  then have "\<not> (of_nat (4096 * i) :: u32) < KERNELCODE_ADDRESS + KERNELCODE_SIZE"
    by (simp add: memmap_defs)
  with 0 show ?case by (intro exI [of _ "phys s"]) (auto simp: paging_init_loop.simps)
next
  case (Suc n)
  then have i: "i < 768" by simp
  let ?v = "of_nat (4096 * i) :: u32"
  let ?pd = "paging_curpd s"
  have pt: "page_aligned pt" using Suc.prems(3) by auto
  let ?m = "wr32 (phys s) (pt + 4 * of_nat i) (pte_enc (boot_pte ?v))"
  let ?s = "s\<lparr>phys := ?m\<rparr>"
  have iw: "unat (of_nat i :: u32) < 1024" using i by simp
  have lt: "?v < KERNELCODE_ADDRESS + KERNELCODE_SIZE"
    using i by (simp add: memmap_defs u32_less_iff unat_low)
  have "paging_init_loop v s = paging_init_loop (v + PAGE_SIZE)
      (s\<lparr>phys := wr32 (phys s) (pt + 4 * of_nat i) (pte_enc (boot_pte v))\<rparr>)"
    if "v < KERNELCODE_ADDRESS + KERNELCODE_SIZE" "ADDR2PDE v = 0" "ADDR2PTE v = of_nat i" for v
    using Suc.prems that by (subst paging_init_loop.simps) (simp add: map_off boot_pte_def)
  from this [OF lt] low_page [of i] i have "paging_init_loop ?v s = paging_init_loop (?v + PAGE_SIZE) ?s" by simp
  moreover have "?v + PAGE_SIZE = of_nat (4096 * Suc i)" by (simp add: PAGE_SIZE_def)
  ultimately have step: "paging_init_loop ?v s = paging_init_loop (of_nat (4096 * Suc i)) ?s" by (simp only:)
  have "pde_at (phys ?s) ?pd 0 = pde_at (phys s) ?pd 0"
    using Suc.prems(4,5) pt iw rd32_write_slot [OF pt Suc.prems(4) iw, of 0] by (simp add: pde_at_def)
  with Suc have "\<exists>m'. paging_init_loop (of_nat (4096 * Suc i)) ?s = Ret () (?s\<lparr>phys := m'\<rparr>) \<and>
    (\<forall>a. PAGEDOWN a \<noteq> pt \<longrightarrow> m' a = phys ?s a) \<and>
    (\<forall>j<1024. rd32 m' (pt + 4 * of_nat j) =
       (if Suc i \<le> j \<and> j < 768 then pte_enc (boot_pte (of_nat (4096 * j))) else rd32 (phys ?s) (pt + 4 * of_nat j)))"
    by (intro Suc.IH) auto
  then obtain m' where m': "paging_init_loop ?v s = Ret () (s\<lparr>phys := m'\<rparr>)"
    "\<And>a. PAGEDOWN a \<noteq> pt \<Longrightarrow> m' a = ?m a"
    "\<And>j. j < 1024 \<Longrightarrow> rd32 m' (pt + 4 * of_nat j) =
       (if Suc i \<le> j \<and> j < 768 then pte_enc (boot_pte (of_nat (4096 * j))) else rd32 ?m (pt + 4 * of_nat j))"
    using step by auto
  have "m' a = phys s a" if "PAGEDOWN a \<noteq> pt" for a
    using m'(2) [OF that] wr32_slot_other [OF pt iw that] by simp
  moreover have "rd32 m' (pt + 4 * of_nat j) =
       (if i \<le> j \<and> j < 768 then pte_enc (boot_pte (of_nat (4096 * j))) else rd32 (phys s) (pt + 4 * of_nat j))"
    if "j < 1024" for j
  proof -
    have "unat (of_nat j :: u32) < 1024" "(of_nat i :: u32) = of_nat j \<longleftrightarrow> i = j"
      using that i by (auto simp: word_unat_eq_iff)
    with rd32_write_slot [OF pt pt iw] m'(3) [OF that] i show ?thesis by auto
  qed
  ultimately show ?case using m'(1) by auto
qed

section \<open>The state after initialisation\<close>

text \<open>The directory entries for the two tables and for the directory itself.\<close>

definition self_pde :: "u32 \<Rightarrow> pde" where
  "self_pde frame = zero_pde\<lparr>pde_page := ucast (ADDR2PAGE frame), pde_writable := True, pde_exists := True\<rparr>"

lemma self_pde_simps [simp]: "pde_exists (self_pde f)" "page_aligned f \<Longrightarrow> frame_of_pde (self_pde f) = f"
  by (simp_all add: self_pde_def frame_of_pde_def PAGE2ADDR_ADDR2PAGE)

lemma boot_frames_aligned [simp]: "page_aligned 0x300000" "page_aligned 0x301000" "page_aligned 0x302000"
  by (simp_all add: page_aligned_def)

lemma word_lt_1024:
  assumes "unat (i :: u32) < 1024"
  obtains j where "i = of_nat j" "j < 1024"
  using assms that [of "unat i"] by simp

text \<open>The directory after the eight steps, and the table of the first four megabytes.\<close>

definition boot_tables :: "pmem \<Rightarrow> bool" where
  "boot_tables m \<longleftrightarrow>
     (\<forall>i. unat i < 1024 \<longrightarrow> rd32 m (0x300000 + 4 * i) =
        (if i = 1023 then pde_enc (self_pde 0x300000) else if i = 1 then pde_enc (new_pde 0x302000)
         else if i = 0 then pde_enc (new_pde 0x301000) else 0)) \<and>
     (\<forall>j<1024. rd32 m (0x301000 + 4 * of_nat j) =
        (if j < 768 then pte_enc (boot_pte (of_nat (4096 * j))) else 0)) \<and>
     (\<forall>i. unat i < 1024 \<longrightarrow> rd32 m (0x302000 + 4 * i) = 0)"

lemma memset4_off:
  assumes "\<not> paging_enabled s"
  shows "memset_v 4 v 0 s = Ret () (s\<lparr>phys := wr32 (phys s) v 0\<rparr>)"
proof -
  have "(\<exists>k<4. P k) \<longleftrightarrow> P 0 \<or> P 1 \<or> P 2 \<or> P 3" for P :: "nat \<Rightarrow> bool"
    by (simp add: eval_nat_numeral Ex_less_Suc) blast
  then have "(\<lambda>a. if \<exists>k<4. a = v + of_nat k then 0 else phys s a) = wr32 (phys s) v 0"
    by (simp add: wr32_def byte_of_def fun_eq_iff)
  with memset_off [OF assms, of 4 v 0] show ?thesis by simp
qed

text \<open>The edits of \<open>paging_init\<close>, for any three frames and three slots of the directory.\<close>

lemma boot_edits:
  fixes e2 :: u32
  assumes al: "page_aligned pd" "page_aligned t0" "page_aligned t1" and ne: "pd \<noteq> t0" "pd \<noteq> t1" "t0 \<noteq> t1"
    and ix: "unat a < 1024" "unat b < 1024" "unat c < 1024"
    and m5: "\<forall>x. PAGEDOWN x \<noteq> t0 \<longrightarrow>
      m5 x = clear_page (wr32 (wr32 (clear_page m pd) (pd + 4 * a) e0) (pd + 4 * b) e1) t0 x"
  defines "m8 \<equiv> wr32 (wr32 (clear_page m5 t1) (pd + 4 * c) 0) (pd + 4 * c) e2"
  shows "unat i < 1024 \<Longrightarrow> rd32 m8 (pd + 4 * i) = (if i = c then e2 else if i = b then e1 else if i = a then e0 else 0)"
    and "unat i < 1024 \<Longrightarrow> rd32 m8 (t0 + 4 * i) = rd32 m5 (t0 + 4 * i)"
    and "unat i < 1024 \<Longrightarrow> rd32 m8 (t1 + 4 * i) = 0"
    and "PAGEDOWN x \<notin> {pd, t0, t1} \<Longrightarrow> m8 x = m x"
proof -
  let ?m4 = "clear_page (wr32 (wr32 (clear_page m pd) (pd + 4 * a) e0) (pd + 4 * b) e1) t0"
  have page: "PAGEDOWN x = g" if "ADDR2PAGE x = ADDR2PAGE g" "page_aligned g" for x g
    using that PAGEDOWN_aligned [OF that(2)] by (simp add: PAGEDOWN_def ADDR2PAGE_def)
  have rd5: "rd32 m5 (pd + 4 * i) = rd32 ?m4 (pd + 4 * i)" if "unat i < 1024" for i
    using m5 ne page [OF slot_page [OF al(1) that] al(1)] by (intro rd32_cong) simp
  show "rd32 m8 (pd + 4 * i) = (if i = c then e2 else if i = b then e1 else if i = a then e0 else 0)"
    if "unat i < 1024"
    using that al ne ix rd5 [OF that] by (auto simp: m8_def rd32_write_slot rd32_clear_page)
  show "rd32 m8 (t0 + 4 * i) = rd32 m5 (t0 + 4 * i)" if "unat i < 1024"
    using that al ne ix by (auto simp: m8_def rd32_write_slot rd32_clear_page)
  show "rd32 m8 (t1 + 4 * i) = 0" if "unat i < 1024"
    using that al ne ix by (auto simp: m8_def rd32_write_slot rd32_clear_page)
  show "m8 x = m x" if "PAGEDOWN x \<notin> {pd, t0, t1}"
    using that al ix m5 by (simp add: m8_def wr32_slot_other clear_page_other)
qed

lemma paging_init_run:
  "\<exists>m. paging_init s = Ret 0 (s\<lparr>paging_enabled := True, paging_physrw_lastpage := NULL,
       paging_physrw_lastpd := NULL, paging_kernelpd := KERNELPD_ADDRESS, paging_curpd := KERNELPD_ADDRESS,
       cr3 := KERNELPD_ADDRESS, phys := m\<rparr>) \<and> boot_tables m \<and>
     (\<forall>a. PAGEDOWN a \<notin> {0x300000, 0x301000, 0x302000} \<longrightarrow> m a = phys s a)"
proof -
  define s0 where "s0 = s\<lparr>paging_enabled := False, paging_physrw_lastpage := NULL, paging_physrw_lastpd := NULL,
                 paging_kernelpd := KERNELPD_ADDRESS, paging_curpd := KERNELPD_ADDRESS\<rparr>"
  have off: "\<not> paging_enabled (s0\<lparr>phys := m\<rparr>)" "\<not> paging_enabled s0" for m by (simp_all add: s0_def)
  have s0: "phys s0 = phys s" "paging_curpd s0 = 0x300000" by (simp_all add: s0_def memmap_values)
  let ?m1 = "clear_page (phys s) 0x300000"
  let ?m2 = "wr32 ?m1 0x300000 (pde_enc (new_pde 0x301000))"
  let ?m3 = "wr32 ?m2 0x300004 (pde_enc (new_pde 0x302000))"
  let ?m4 = "clear_page ?m3 0x301000"
  have w: "rd32 (wr32 m 0x300000 x) 0x300004 = rd32 m 0x300004" "rd32 (wr32 m 0x300004 x) 0x300000 = rd32 m 0x300000"
    for m x
    using rd32_write_slot [of "0x300000" "0x300000" 0 1 m x] rd32_write_slot [of "0x300000" "0x300000" 1 0 m x] by simp_all
  have c: "rd32 (clear_page m f) 0x300000 = (if f = 0x300000 then 0 else rd32 m 0x300000)"
    "rd32 (clear_page m f) 0x300004 = (if f = 0x300000 then 0 else rd32 m 0x300004)" if "page_aligned f" for m f
    using rd32_clear_page [OF that, where g = "0x300000" and i = 0 and m = m] rd32_clear_page [OF that, where g = "0x300000" and i = 1 and m = m] by simp_all
  have e0: "pde_at ?m4 0x300000 0 = new_pde 0x301000" by (simp add: pde_at_def c w)
  from paging_init_loop_ok [of "s0\<lparr>phys := ?m4\<rparr>" "0x301000" 0 768] obtain m5 where m5:
    "paging_init_loop 0 (s0\<lparr>phys := ?m4\<rparr>) = Ret () (s0\<lparr>phys := m5\<rparr>)"
    "\<forall>a. PAGEDOWN a \<noteq> 0x301000 \<longrightarrow> m5 a = ?m4 a"
    "\<And>j. j < 1024 \<Longrightarrow> rd32 m5 (0x301000 + 4 * of_nat j) =
       (if j < 768 then pte_enc (boot_pte (of_nat (4096 * j))) else rd32 ?m4 (0x301000 + 4 * of_nat j))"
    using e0 off s0 by auto
  let ?m8 = "wr32 (wr32 (clear_page m5 0x302000) 0x300FFC 0) 0x300FFC (pde_enc (self_pde 0x300000))"
  have entry: "zero_pde\<lparr>pde_page := ucast (ADDR2PAGE f), pde_pagesize := False, pde_user := True,
      pde_writable := True, pde_exists := True\<rparr> = new_pde f"
    "zero_pde\<lparr>pde_page := ucast (ADDR2PAGE f), pde_pagesize := False, pde_user := False,
      pde_writable := True, pde_exists := True\<rparr> = self_pde f" for f
    by (simp_all add: new_pde_def self_pde_def zero_pde_def)
  have run: "paging_init s = Ret 0 (s0\<lparr>paging_enabled := True, cr3 := KERNELPD_ADDRESS, paging_curpd := KERNELPD_ADDRESS, phys := ?m8\<rparr>)"
    using m5(1) unfolding paging_init_def Let_def s0_def [symmetric]
    by (simp add: memset_page_off memset4_off update_pde_off off s0 pde_dec_zero c w memmap_values PAGE_SIZE_def entry
        paging_loadpagedir_def)
  note E = boot_edits [where pd = "0x300000" and ?t0.0 = "0x301000" and ?t1.0 = "0x302000" and a = 0 and b = 1 and c = 1023
      and ?e2.0 = "pde_enc (self_pde 0x300000)", simplified, OF m5(2)]
  have z: "rd32 ?m4 (0x301000 + 4 * of_nat j) = 0" if "j < 1024" for j
    using that by (subst rd32_clear_page) simp_all
  have "boot_tables ?m8"
    unfolding boot_tables_def
  proof (intro conjI allI impI)
    fix j :: nat
    assume j: "j < 1024"
    then have "unat (of_nat j :: u32) < 1024" by simp
    from E(2) [OF this] m5(3) [OF j] z [OF j]
    show "rd32 ?m8 (0x301000 + 4 * of_nat j) = (if j < 768 then pte_enc (boot_pte (of_nat (4096 * j))) else 0)"
      by (simp del: of_nat_mult)
  qed (fact E(1), fact E(3))
  then show ?thesis using run E(4) by (intro exI [of _ ?m8]) (simp add: s0_def)
qed

lemma boot_table_exists:
  assumes "boot_tables m" "unat i < 1024"
  shows "table_exists m 0x300000 i \<longleftrightarrow> i = 0 \<or> i = 1 \<or> i = 1023"
    and "table_frame m 0x300000 0 = 0x301000" "table_frame m 0x300000 1 = 0x302000"
    "table_frame m 0x300000 1023 = 0x300000"
proof -
  have rd: "rd32 m (0x300000 + 4 * i) =
      (if i = 1023 then pde_enc (self_pde 0x300000) else if i = 1 then pde_enc (new_pde 0x302000)
       else if i = 0 then pde_enc (new_pde 0x301000) else 0)" if "unat i < 1024" for i
    using assms(1) that unfolding boot_tables_def by blast
  show "table_exists m 0x300000 i \<longleftrightarrow> i = 0 \<or> i = 1 \<or> i = 1023"
    unfolding table_exists_def pde_at_def rd [OF assms(2)] by (simp add: pde_dec_zero zero_pde_def)
  show "table_frame m 0x300000 0 = 0x301000" "table_frame m 0x300000 1 = 0x302000"
    "table_frame m 0x300000 1023 = 0x300000"
    using rd [of 0] rd [of 1] rd [of 1023] by (simp_all add: table_frame_def pde_at_def)
qed

lemma boot_pd_ok:
  assumes "boot_tables m"
  shows "pd_ok m 0x300000"
proof -
  note T = boot_table_exists [OF assms]
  have "i = j" if "unat i < 1024" "unat j < 1024" "table_exists m 0x300000 i" "table_exists m 0x300000 j"
    "table_frame m 0x300000 i = table_frame m 0x300000 j" for i j
    using that(3-5) unfolding T(1) [OF that(1)] T(1) [OF that(2)] by (auto simp: T(2-4) [OF that(1)])
  then show ?thesis
    using T(1) [of 1023] T(4) [of 0] unfolding pd_ok_def by simp
qed

lemma boot_walk:
  assumes "boot_tables m" "ADDR2PDE v \<noteq> 1023"
  shows "walk m 0x300000 v =
    (if ADDR2PDE v = 0 \<and> unat v < 0x300000 then Some (boot_pte (PAGEDOWN v))
     else if ADDR2PDE v = 0 \<or> ADDR2PDE v = 1 then Some zero_pte else None)"
proof -
  note T = boot_table_exists [OF assms(1) ADDR2PDE_lt]
  define j where "j = unat (ADDR2PTE v)"
  have j: "j < 1024" "of_nat j = ADDR2PTE v" using ADDR2PTE_lt by (simp_all add: j_def)
  have "rd32 m (0x301000 + 4 * of_nat j) = (if j < 768 then pte_enc (boot_pte (of_nat (4096 * j))) else 0)"
    using assms(1) j(1) unfolding boot_tables_def by blast
  then have rd0: "rd32 m (0x301000 + 4 * ADDR2PTE v) = (if j < 768 then pte_enc (boot_pte (of_nat (4096 * j))) else 0)"
    unfolding j(2) .
  have rd1: "rd32 m (0x302000 + 4 * ADDR2PTE v) = 0"
    using assms(1) ADDR2PTE_lt unfolding boot_tables_def by blast
  have low: "of_nat (4096 * j) = PAGEDOWN v \<and> (j < 768 \<longleftrightarrow> unat v < 0x300000)" if "ADDR2PDE v = 0"
  proof -
    have lt: "unat v < 4194304" using that by (simp add: word_unat_eq_iff unat_macros div_eq_0_iff)
    then have "unat v div 4096 < 1024" by (simp add: less_mult_imp_div_less)
    then have "j = unat v div 4096" by (simp add: j_def unat_macros)
    then have "unat (of_nat (4096 * j) :: u32) = unat (PAGEDOWN v)" "j < 768 \<longleftrightarrow> unat v < 0x300000"
      using j(1) unat_low [of j] by (simp_all add: unat_macros div_less_iff_less_mult)
    then show ?thesis by (simp add: word_unat_eq_iff del: of_nat_mult)
  qed
  show ?thesis
    using T(1) boot_table_exists(1) [OF assms(1), of 0] boot_table_exists(1) [OF assms(1), of 1] assms(2) low
    unfolding walk_alt
    by (cases "ADDR2PDE v = 0"; cases "ADDR2PDE v = 1")
       (simp_all add: T(2,3) pte_at_def rd0 rd1 pte_dec_zero del: of_nat_mult)
qed

lemma boot_pte_simps [simp]: "in_memory (boot_pte v)" "frame_of_pte (boot_pte v) = PAGEDOWN v"
  by (simp_all add: boot_pte_def)

lemma boot_xlate:
  assumes "boot_tables m" "ADDR2PDE v \<noteq> 1023"
  shows "xlate m 0x300000 v = (if unat v < 0x300000 then Some v else None)"
proof -
  have "ADDR2PDE v = 0" if "unat v < 0x300000"
    using that by (simp add: word_unat_eq_iff unat_macros)
  then show ?thesis
    using boot_walk [OF assms] by (auto simp: xlate_def zero_pte_def PAGEDOWN_PAGEOFF)
qed

text \<open>
  C3. \<open>paging_init\<close> returns 0 from any state. Afterwards paging is on, the kernel directory is
  loaded and well formed, the window at \<open>PAGETABLES_ADDRESS\<close> included; every address below
  \<open>KERNELCODE_ADDRESS + KERNELCODE_SIZE\<close> is mapped to itself and no other address outside the
  window is mapped. Physical memory outside the directory and its two tables keeps its content.
\<close>

theorem paging_init_identity:
  fixes s :: "'a mem_scheme"
  shows "\<exists>s'. paging_init s = Ret 0 s' \<and> paging_ok s' \<and> paging_curpd s' = KERNELPD_ADDRESS \<and>
    (\<forall>v. ADDR2PDE v \<noteq> 1023 \<longrightarrow>
       vaddr s' v = (if v < KERNELCODE_ADDRESS + KERNELCODE_SIZE then Some v else None)) \<and>
    (\<forall>a. a < KERNELPD_ADDRESS \<or> FREEPHYS_ADDRESS \<le> a \<longrightarrow> phys s' a = phys s a)"
proof -
  from paging_init_run [of s] obtain m where m: "paging_init s = Ret 0 (s\<lparr>paging_enabled := True,
       paging_physrw_lastpage := NULL, paging_physrw_lastpd := NULL, paging_kernelpd := KERNELPD_ADDRESS,
       paging_curpd := KERNELPD_ADDRESS, cr3 := KERNELPD_ADDRESS, phys := m\<rparr>)" (is "_ = Ret 0 ?s")
    "boot_tables m" "\<And>a. PAGEDOWN a \<notin> {0x300000, 0x301000, 0x302000} \<Longrightarrow> m a = phys s a"
    by blast
  have ok: "paging_ok ?s" using boot_pd_ok [OF m(2)] by (simp add: paging_ok_def memmap_values)
  moreover have "vaddr ?s v = (if v < KERNELCODE_ADDRESS + KERNELCODE_SIZE then Some v else None)"
    if "ADDR2PDE v \<noteq> 1023" for v
    using boot_xlate [OF m(2) that] paging_okD(5) [OF ok]
    by (simp add: memmap_values u32_less_iff) (simp add: memmap_defs)
  moreover have "phys ?s a = phys s a" if "a < KERNELPD_ADDRESS \<or> FREEPHYS_ADDRESS \<le> a" for a
  proof -
    have "unat a = unat (PAGEDOWN a) + unat a mod 4096"
      by (simp add: unat_macros)
    moreover have "unat a mod 4096 < 4096" by simp
    ultimately have "PAGEDOWN a \<notin> {0x300000, 0x301000, 0x302000}"
      using that by (auto simp: memmap_values u32_less_iff u32_le_iff)
    then show ?thesis using m(3) by simp
  qed
  ultimately show ?thesis using m(1) by (intro exI [of _ ?s]) simp
qed

text \<open>A machine whose memory is all zero, before the kernel starts.\<close>

definition zero_machine :: mem where
  "zero_machine = \<lparr>phys = \<lambda>_. 0, cr3 = 0, paging_enabled = False, paging_curpd = 0, paging_kernelpd = 0,
     paging_physrw_lastpage = 0, paging_physrw_lastpd = 0, memphys_memory = 0, memphys_stackbase = 0,
     memphys_stackend = 0, memphys_stackptr = 0, memphys_dma_bitmap = \<lambda>_. 0, memphys_dma_bitmap_size = 0,
     multiboot_info = 0\<rparr>"

theorem paging_init_identity_witness:
  "\<exists>s'. paging_init zero_machine = Ret 0 s' \<and> vaddr s' 0x100123 = Some 0x100123 \<and> vaddr s' 0x300000 = None \<and>
     phys s' 0x400000 = 0"
proof -
  have "ADDR2PDE 0x100123 \<noteq> 1023" "ADDR2PDE 0x300000 \<noteq> 1023" by (simp_all add: page_macros)
  with paging_init_identity [of zero_machine] show ?thesis
    by (auto simp: memmap_defs zero_machine_def)
qed

end
