(* ===== verification/MemProps.thy ===== *)
theory MemProps
  imports MemPhys PagingInit
begin

text \<open>
  The contract of the frame allocator with its interpretation on \<open>memphys_push\<close> and
  \<open>memphys_pop\<close>, and the properties of the memory managers of the kernel: frames, pages, the
  buffer page and the DMA bitmap. Witnesses run the code on a machine that was booted by
  \<open>paging_init\<close> and given three frames.
\<close>

section \<open>The contract of the frame allocator\<close>

text \<open>
  \<open>holds s fs\<close>: the allocator has the free frames \<open>fs\<close>, the last one on top.
  \<open>may_give s fs f\<close>: the frame \<open>f\<close> can be given back.
\<close>

locale frame_allocator =
  fixes holds :: "'s \<Rightarrow> u32 list \<Rightarrow> bool"
    and may_give :: "'s \<Rightarrow> u32 list \<Rightarrow> u32 \<Rightarrow> bool"
    and take_op :: "'s \<Rightarrow> (u32, 's) res"
    and give_op :: "u32 \<Rightarrow> 's \<Rightarrow> (unit, 's) res"
  assumes distinct_law: "holds s fs \<Longrightarrow> distinct fs"
    and take_law: "holds s (fs @ [f]) \<Longrightarrow> \<exists>s'. take_op s = Ret f s' \<and> holds s' fs"
    and take_empty: "holds s [] \<Longrightarrow> take_op s = Stop Panic s"
    and give_law: "holds s fs \<Longrightarrow> may_give s fs f \<Longrightarrow> \<exists>s'. give_op f s = Ret () s' \<and> holds s' (fs @ [f])"
begin

text \<open>Taking \<open>n\<close> frames yields the top \<open>n\<close>, so they are pairwise distinct.\<close>

lemma take_many:
  "holds s (fs @ rs) \<Longrightarrow> \<exists>s'. repeat_op (length rs) take_op s = Ret (rev rs) s' \<and> holds s' fs"
proof (induction "length rs" arbitrary: rs s)
  case (Suc n)
  then obtain rs' r where rs: "rs = rs' @ [r]" "length rs' = n" by (cases rs rule: rev_cases) auto
  with Suc.prems take_law [of s "fs @ rs'" r] obtain s1 where s1: "take_op s = Ret r s1" "holds s1 (fs @ rs')"
    by auto
  from Suc.hyps(1) [of rs' s1] rs s1 obtain s' where "repeat_op n take_op s1 = Ret (rev rs') s'" "holds s' fs"
    by auto
  with rs s1 show ?case by auto
qed auto

lemma take_too_many:
  "holds s fs \<Longrightarrow> length fs < n \<Longrightarrow> \<exists>s'. repeat_op n take_op s = Stop Panic s'"
proof (induction n arbitrary: s fs)
  case (Suc n)
  show ?case
  proof (cases fs rule: rev_cases)
    case Nil
    with Suc.prems take_empty show ?thesis by auto
  next
    case (snoc fs' f)
    with Suc.prems take_law [of s fs' f] obtain s1 where s1: "take_op s = Ret f s1" "holds s1 fs'" by auto
    with Suc.IH [of s1 fs'] Suc.prems snoc show ?thesis by auto
  qed
qed simp

lemma give_take:
  assumes "holds s fs" "may_give s fs f"
  shows "\<exists>s'. bindr (give_op f s) (\<lambda>_. take_op) = Ret f s' \<and> holds s' fs"
  using give_law [OF assms] take_law by (metis bindr.simps(1))

end

definition has_frames :: "'a mem_scheme \<Rightarrow> u32 list \<Rightarrow> bool" where
  "has_frames s fs \<longleftrightarrow> (\<exists>gs. frames_ok s gs fs)"

text \<open>A frame that is used for nothing, while the page on top of the stack has room.\<close>

definition givable :: "'a mem_scheme \<Rightarrow> u32 list \<Rightarrow> u32 \<Rightarrow> bool" where
  "givable s fs f \<longleftrightarrow>
     (\<exists>gs. frames_ok s gs fs \<and> length fs < 1024 * length gs \<and> f \<notin> set (gs @ fs)) \<and>
     frame_unused (phys s) (paging_curpd s) f"

interpretation fa: frame_allocator has_frames givable memphys_pop memphys_push
proof unfold_locales
  fix s :: "'a mem_scheme" and fs f
  show "distinct fs" if "has_frames s fs" using that by (auto simp: has_frames_def dest: frames_okD(8))
  show "\<exists>s'. memphys_pop s = Ret f s' \<and> has_frames s' fs" if "has_frames s (fs @ [f])"
    using that memphys_pop_ok unfolding has_frames_def by blast
  show "memphys_pop s = Stop Panic s" if "has_frames s []"
    using that memphys_pop_empty unfolding has_frames_def by blast
  show "\<exists>s'. memphys_push f s = Ret () s' \<and> has_frames s' (fs @ [f])" if "has_frames s fs" "givable s fs f"
  proof -
    from that(2) obtain gs where "frames_ok s gs fs" "length fs < 1024 * length gs" "f \<notin> set (gs @ fs)"
      "frame_unused (phys s) (paging_curpd s) f" by (auto simp: givable_def)
    from memphys_push_cell [OF this(1,2,4,3)] show ?thesis by (auto simp: has_frames_def)
  qed
qed

section \<open>A booted machine\<close>

definition booted :: mem where
  "booted = (final (paging_init zero_machine))\<lparr>memphys_stackbase := STACKDATA_ADDRESS,
     memphys_stackend := STACKDATA_ADDRESS, memphys_stackptr := STACKDATA_ADDRESS\<rparr>"

lemma booted_tables: "boot_tables (phys booted)" "paging_curpd booted = 0x300000" "paging_ok booted"
proof -
  from paging_init_run [of zero_machine] show "boot_tables (phys booted)" "paging_curpd booted = 0x300000"
    by (auto simp: booted_def memmap_values)
  from paging_init_run [of zero_machine] boot_pd_ok show "paging_ok booted"
    by (auto simp: booted_def memmap_values paging_ok_def)
qed

lemma booted_frames: "frames_ok booted [] []"
  using booted_tables(3) by (auto simp: frames_ok_def booted_def stack_page_def paging_ok_def)

lemma booted_unused:
  assumes "page_aligned f" "f \<notin> {0, 0x300000, 0x301000, 0x302000}"
  shows "frame_unused (phys booted) (paging_curpd booted) f"
  using assms boot_table_exists [OF booted_tables(1)] unfolding frame_unused_def booted_tables(2) by auto

lemma booted_stack_table: "cur_table booted (stack_page 0)"
  using boot_table_exists(1) [OF booted_tables(1), of 0] booted_tables(2)
  by (simp add: stack_page_def memmap_values page_macros)

definition demo1 :: mem where "demo1 = final (memphys_push 0x400000 booted)"
definition demo2 :: mem where "demo2 = final (memphys_push 0x401000 demo1)"
definition demo :: mem where "demo = final (memphys_push 0x402000 demo2)"

lemma demo_frames: "frames_ok demo [0x400000] [0x401000, 0x402000]"
    and demo_curpd: "paging_curpd demo = 0x300000"
    and demo_tables: "table_page (phys demo) 0x300000 f \<longleftrightarrow> f \<in> {0x300000, 0x301000, 0x302000}"
    and demo_exists: "table_exists (phys demo) 0x300000 (ADDR2PDE x) \<longleftrightarrow> ADDR2PDE x \<in> {0, 1, 1023}"
proof -
  note [simp] = page_aligned_def
  have u0: "frame_unused (phys booted) (paging_curpd booted) 0x400000" by (rule booted_unused) simp_all
  from memphys_push_page [OF booted_frames, of "0x400000"] booted_stack_table u0 obtain s1 where s1:
    "memphys_push 0x400000 booted = Ret () s1" "frames_ok s1 [0x400000] []" "paging_curpd s1 = 0x300000"
    "\<And>f. table_page (phys s1) 0x300000 f = table_page (phys booted) 0x300000 f"
    "\<And>x. table_exists (phys s1) 0x300000 (ADDR2PDE x) = table_exists (phys booted) 0x300000 (ADDR2PDE x)"
    using booted_tables(2) by auto
  have d1: "demo1 = s1" using s1(1) by (simp add: demo1_def)
  have tp: "table_page (phys booted) 0x300000 f \<longleftrightarrow> f \<in> {0x300000, 0x301000, 0x302000}" for f
  proof -
    note T = boot_table_exists [OF booted_tables(1)]
    have "table_page (phys booted) 0x300000 f \<longleftrightarrow>
        (\<exists>i. unat i < 1024 \<and> (i = 0 \<or> i = 1 \<or> i = 1023) \<and> table_frame (phys booted) 0x300000 i = f)"
      unfolding table_page_def using T(1) by blast
    also have "\<dots> \<longleftrightarrow> f \<in> {0x300000, 0x301000, 0x302000}"
      using T(2-4) [of 0] by (auto simp: conj_disj_distribR conj_disj_distribL ex_disj_distrib)
    finally show ?thesis .
  qed
  have u1: "frame_unused (phys s1) (paging_curpd s1) 0x401000"
    using s1(3,4) tp by (simp add: frame_unused_alt)
  from memphys_push_cell [OF s1(2) _ u1] obtain s2 where s2:
    "memphys_push 0x401000 s1 = Ret () s2" "frames_ok s2 [0x400000] [0x401000]" "paging_curpd s2 = 0x300000"
    "\<And>f. table_page (phys s2) 0x300000 f = table_page (phys s1) 0x300000 f"
    "\<And>x. table_exists (phys s2) 0x300000 (ADDR2PDE x) = table_exists (phys s1) 0x300000 (ADDR2PDE x)"
    using s1(3) by auto
  have u2: "frame_unused (phys s2) (paging_curpd s2) 0x402000"
    using s1(3,4) s2(3,4) tp by (simp add: frame_unused_alt)
  from memphys_push_cell [OF s2(2) _ u2] obtain s3 where s3:
    "memphys_push 0x402000 s2 = Ret () s3" "frames_ok s3 [0x400000] [0x401000, 0x402000]" "paging_curpd s3 = 0x300000"
    "\<And>f. table_page (phys s3) 0x300000 f = table_page (phys s2) 0x300000 f"
    "\<And>x. table_exists (phys s3) 0x300000 (ADDR2PDE x) = table_exists (phys s2) 0x300000 (ADDR2PDE x)"
    using s2(3) by auto
  have demo: "demo = s3" using s2(1) s3(1) d1 by (simp add: demo_def demo2_def)
  show "frames_ok demo [0x400000] [0x401000, 0x402000]" "paging_curpd demo = 0x300000"
    using s3 demo by auto
  show "table_page (phys demo) 0x300000 f \<longleftrightarrow> f \<in> {0x300000, 0x301000, 0x302000}"
    using s1(4) s2(4) s3(4) tp demo by simp
  show "table_exists (phys demo) 0x300000 (ADDR2PDE x) \<longleftrightarrow> ADDR2PDE x \<in> {0, 1, 1023}"
    using s1(5) s2(5) s3(5) boot_table_exists(1) [OF booted_tables(1) ADDR2PDE_lt] demo by simp
qed

section \<open>Properties\<close>

text \<open>
  C2. \<open>paging_map\<close> maps exactly one page: as long as the page table exists or a frame is left for
  it, the call returns 0, the page of \<open>v\<close> then translates to the page of \<open>p\<close> (and
  \<open>paging_getphysaddr\<close> says so), every other address outside the window of the page tables
  translates as before, at most one frame was taken from the stack of free frames, and no
  memory outside page tables was written.
\<close>

theorem paging_map_correct:
  assumes "frames_ok s gs fs" "off_stack v gs" "cur_table s v \<or> fs \<noteq> []"
  shows "\<exists>s'. paging_map v p u w s = Ret 0 s' \<and>
    frames_ok s' gs (if cur_table s v then fs else butlast fs) \<and>
    vaddr s' v = Some (PAGEDOWN p + PAGEOFF v) \<and>
    paging_getphysaddr v s' = Ret (PAGEDOWN p + PAGEOFF v) s' \<and>
    (\<forall>x. ADDR2PDE x \<noteq> 1023 \<and> ADDR2PAGE x \<noteq> ADDR2PAGE v \<longrightarrow> vaddr s' x = vaddr s x) \<and>
    (\<forall>a. \<not> table_page (phys s') (paging_curpd s) (PAGEDOWN a) \<longrightarrow> phys s' a = phys s a)"
proof -
  from map_loaded_ok [OF assms, of p u w 0 0] obtain s' where s':
    "paging_map v p u w s = Ret 0 s'" "mapped_to s v (new_pte p u w 0 0) s'"
    "frames_ok s' gs (if cur_table s v then fs else butlast fs)"
    by (auto simp: paging_map_def)
  have ok: "paging_ok s'" by (rule frames_okD(1) [OF s'(3)])
  have wk: "cur_walk s' v = Some (new_pte p u w 0 0)" using s'(2) unfolding mapped_to_def by blast
  have "vaddr s' v = Some (PAGEDOWN p + PAGEOFF v)"
    using wk by (simp add: paging_okD(5) [OF ok] xlate_def)
  moreover have "paging_getphysaddr v s' = Ret (PAGEDOWN p + PAGEOFF v) s'"
    using wk frame_of_new(2) [of p u w 0 0]
    by (simp add: paging_getphysaddr_def paging_getpte_ok [OF ok] frame_of_pte_def)
  ultimately show ?thesis
    using s' by (intro exI [of _ s']) (simp add: mapped_to_def)
qed

theorem paging_map_correct_witness:
  "\<exists>s'. paging_map 0x50000000 0x777000 1 1 demo = Ret 0 s' \<and> vaddr s' 0x50000000 = Some 0x777000 \<and>
     frames_ok s' [0x400000] [0x401000]"
proof -
  have "off_stack 0x50000000 [0x400000]" "\<not> cur_table demo 0x50000000"
    using demo_exists [of "0x50000000"] demo_curpd by (simp_all add: off_stack_def stack_page_def memmap_values page_macros)
  with paging_map_correct [OF demo_frames, of "0x50000000" "0x777000" 1 1] show ?thesis
    by (auto simp: page_macros)
qed

text \<open>
  C31. Without a free frame, \<open>paging_map\<close> on an address whose page table does not exist ends in
  \<open>panic\<close>, and nothing was changed before.
\<close>

theorem paging_map_out_of_frames:
  assumes "frames_ok s gs []" "\<not> cur_table s v"
  shows "paging_map v p u w s = Stop Panic s"
  using map_loaded_oom [OF assms] by (simp add: paging_map_def)

theorem paging_map_out_of_frames_witness: "paging_map 0x50000000 0x777000 1 1 booted = Stop Panic booted"
proof -
  have "\<not> cur_table booted 0x50000000"
    using boot_table_exists(1) [OF booted_tables(1), of 320] by (simp add: booted_tables(2) page_macros)
  from paging_map_out_of_frames [OF booted_frames this] show ?thesis .
qed

text \<open>
  C17. \<open>paging_unmap\<close> returns the frame the page was mapped to (NULL when it was not mapped), and
  afterwards the page is not mapped while the translation of every other page is as before.
\<close>

theorem paging_unmap_correct:
  assumes "frames_ok s gs fs" "off_stack v gs" "cur_table s v"
  shows "\<exists>s'. paging_unmap v s = Ret (case vaddr s (PAGEDOWN v) of None \<Rightarrow> NULL | Some f \<Rightarrow> f) s' \<and>
    frames_ok s' gs fs \<and> vaddr s' v = None \<and>
    (\<forall>x. ADDR2PAGE x \<noteq> ADDR2PAGE v \<longrightarrow> vaddr s' x = vaddr s x)"
proof -
  have ok: "paging_ok s" by (rule frames_okD(1) [OF assms(1)])
  note W = write_pte_frames [OF assms(1,3,2), where t = zero_pte]
  note ok' = frames_okD(1) [OF W(1)]
  have "ADDR2PAGE (PAGEDOWN v) = ADDR2PAGE v"
    by (simp add: word_unat_eq_iff unat_macros)
  then have "cur_walk s (PAGEDOWN v) = cur_walk s v" by (rule walk_page_cong)
  moreover have "PAGEOFF (PAGEDOWN v) = 0"
    by (simp add: word_unat_eq_iff unat_macros)
  ultimately show ?thesis
    using assms(3) W(1) W(4) paging_okD(5) [OF ok] paging_okD(5) [OF ok']
    by (auto simp: paging_unmap_def paging_getpte_ok [OF ok] paging_setpte_ok [OF ok] xlate_def zero_pte_def
        frame_of_pte_def walk_alt Let_def)
qed

theorem paging_unmap_correct_witness:
  "\<exists>s'. paging_unmap 0x100000 demo = Ret (case vaddr demo 0x100000 of None \<Rightarrow> NULL | Some f \<Rightarrow> f) s' \<and>
     vaddr s' 0x100000 = None"
proof -
  have "off_stack 0x100000 [0x400000]" "cur_table demo 0x100000"
    using demo_exists [of "0x100000"] demo_curpd by (simp_all add: off_stack_def stack_page_def memmap_values page_macros)
  with paging_unmap_correct [OF demo_frames, of "0x100000"] show ?thesis
    by (auto simp: page_macros)
qed

text \<open>
  Physical memory through the buffer page, as the page tables have it: bytes that \<open>paging_physwrite\<close> wrote to a frame that
  is neither free nor part of the page tables are what \<open>paging_physread\<close> reads back, also when
  the page table of the buffer page has to be created first, and no other byte outside the page
  tables and the free frames has changed. On a processor that remembers translations this fails (theory \<open>Tlb\<close>).
\<close>

theorem physwrite_physread:
  assumes "frames_ok s gs fs" "cur_table s BUFPAGE_ADDRESS \<or> fs \<noteq> []"
    and "unat (PAGEOFF a) + length bs \<le> 4096"
    and "\<not> table_page (phys s) (paging_curpd s) (PAGEDOWN a)" "PAGEDOWN a \<notin> set (gs @ fs)"
  shows "\<exists>s1 s2. paging_physwrite a bs s = Ret (of_nat (length bs)) s1 \<and>
    paging_physread a (of_nat (length bs)) s1 = Ret bs s2 \<and>
    (\<forall>x. \<not> table_page (phys s) (paging_curpd s) (PAGEDOWN x) \<and> PAGEDOWN x \<notin> set fs \<and>
         (\<forall>k<length bs. x \<noteq> a + of_nat k) \<longrightarrow> phys s2 x = phys s x)"
proof -
  from paging_physwrite_ok [OF assms] obtain s1 fs1 where s1:
    "paging_physwrite a bs s = Ret (of_nat (length bs)) s1" "frames_ok s1 gs fs1" "set fs1 \<subseteq> set fs" "buf_ok s1"
    "paging_curpd s1 = paging_curpd s" "cur_table s1 BUFPAGE_ADDRESS"
    "\<And>f. table_page (phys s1) (paging_curpd s) f \<Longrightarrow> table_page (phys s) (paging_curpd s) f \<or> f \<in> set fs"
    "\<And>k. k < length bs \<Longrightarrow> phys s1 (a + of_nat k) = bs ! k"
    "\<And>x. \<not> table_page (phys s) (paging_curpd s) (PAGEDOWN x) \<and> PAGEDOWN x \<notin> set fs \<and>
         (\<forall>k<length bs. x \<noteq> a + of_nat k) \<Longrightarrow> phys s1 x = phys s x"
    by blast
  have len: "unat (of_nat (length bs) :: u32) = length bs" using assms(3) by simp
  have keep: "\<not> table_page (phys s1) (paging_curpd s1) (PAGEDOWN x) \<and> PAGEDOWN x \<notin> set fs1"
    if "\<not> table_page (phys s) (paging_curpd s) (PAGEDOWN x)" "PAGEDOWN x \<notin> set fs" for x
    using s1(3) s1(5) s1(7) [of "PAGEDOWN x"] that by auto
  have "map (\<lambda>k. phys s1 (a + of_nat k)) [0..<length bs] = bs"
    using s1(8) by (intro nth_equalityI) auto
  with paging_physread_ok [OF s1(2,4), of a "of_nat (length bs)"] s1(6) assms(3-5) keep [of a] len obtain s2 where
    "paging_physread a (of_nat (length bs)) s1 = Ret bs s2"
    "\<And>x. \<not> table_page (phys s1) (paging_curpd s1) (PAGEDOWN x) \<and> PAGEDOWN x \<notin> set fs1 \<Longrightarrow> phys s2 x = phys s1 x"
    by auto
  with s1(1,9) keep show ?thesis by (intro exI [of _ s1] exI [of _ s2]) simp
qed

theorem physwrite_physread_witness:
  "\<exists>s1 s2. paging_physwrite 0x700010 [1, 2, 3] demo = Ret 3 s1 \<and> paging_physread 0x700010 3 s1 = Ret [1, 2, 3] s2"
proof -
  have "unat (PAGEOFF 0x700010) + length [1, 2, 3 :: u8] \<le> 4096" "PAGEDOWN 0x700010 = 0x700000"
    by (simp_all add: page_macros)
  with physwrite_physread [OF demo_frames, of "0x700010" "[1, 2, 3]"] demo_tables demo_curpd show ?thesis by auto
qed

text \<open>
  C5. The frame allocator never hands out a frame twice: as long as frames are left, \<open>n\<close> calls of
  \<open>memphys_pop\<close> return \<open>n\<close> pairwise distinct frames, none of which is a page table, and one call
  too many ends in \<open>panic\<close>.
\<close>

theorem memphys_pop_distinct:
  assumes "frames_ok s gs fs"
  shows "if n \<le> length fs
    then \<exists>rs s'. repeat_op n memphys_pop s = Ret rs s' \<and> length rs = n \<and> distinct rs \<and>
      (\<forall>f\<in>set rs. frame_unused (phys s) (paging_curpd s) f) \<and> has_frames s' (take (length fs - n) fs)
    else \<exists>s'. repeat_op n memphys_pop s = Stop Panic s'"
proof -
  have has: "has_frames s fs" using assms by (auto simp: has_frames_def)
  have oom: "\<exists>s'. repeat_op n memphys_pop s = Stop Panic s'" if "length fs < n"
    by (rule fa.take_too_many [OF has that])
  have "\<exists>rs s'. repeat_op n memphys_pop s = Ret rs s' \<and> length rs = n \<and> distinct rs \<and>
      (\<forall>f\<in>set rs. frame_unused (phys s) (paging_curpd s) f) \<and> has_frames s' (take (length fs - n) fs)"
    if n: "n \<le> length fs"
  proof -
    let ?rs = "drop (length fs - n) fs"
    from fa.take_many [of s "take (length fs - n) fs" ?rs] has n obtain s' where
      "repeat_op n memphys_pop s = Ret (rev ?rs) s'" "has_frames s' (take (length fs - n) fs)" by auto
    moreover have "distinct (rev ?rs)" using frames_okD(8) [OF assms] by (simp add: distinct_drop)
    moreover have "frame_unused (phys s) (paging_curpd s) f" if "f \<in> set (rev ?rs)" for f
      using that frames_okD(9) [OF assms, of f] by (auto dest: in_set_dropD)
    ultimately show ?thesis
      using n by (intro exI [of _ "rev ?rs"] exI [of _ s']) auto
  qed
  with oom show ?thesis by simp
qed

theorem memphys_pop_distinct_witness:
  "(\<exists>rs s'. repeat_op 2 memphys_pop demo = Ret rs s' \<and> length rs = 2 \<and> distinct rs) \<and>
   (\<exists>s'. repeat_op 3 memphys_pop demo = Stop Panic s')"
  using memphys_pop_distinct [OF demo_frames, of 2] memphys_pop_distinct [OF demo_frames, of 3] by auto

text \<open>
  C18. \<open>memphys_dma_alloc\<close> is first fit: it returns the address of the first run of that many free
  pages below 16 MB and marks exactly the pages of the run as used, or it returns NULL and
  changes nothing when there is no such run. The loop is left after at most 4096 rounds.
\<close>

theorem memphys_dma_alloc_first_fit:
  assumes "0 < unat pages"
  shows "\<exists>r s'. memphys_dma_alloc pages s = Ret r s' \<and>
    (if \<exists>p. p + unat pages \<le> 4096 \<and> dma_run (memphys_dma_bitmap s) p (unat pages)
     then \<exists>p. p + unat pages \<le> 4096 \<and> dma_run (memphys_dma_bitmap s) p (unat pages) \<and>
            (\<forall>q<p. \<not> dma_run (memphys_dma_bitmap s) q (unat pages)) \<and> r = of_nat (p * 4096) \<and>
            (\<forall>i. dma_used (memphys_dma_bitmap s') i \<longleftrightarrow>
                 dma_used (memphys_dma_bitmap s) i \<or> p \<le> unat i \<and> unat i < p + unat pages)
     else r = NULL \<and> memphys_dma_bitmap s' = memphys_dma_bitmap s)"
proof -
  let ?b = "memphys_dma_bitmap s" and ?n = "unat pages"
  obtain r b' where rb: "dma_search 4096 0 0 pages ?b = (r, b')" by fastforce
  have "first_fit ?b 4096 ?n (dma_search 4096 (of_nat 0) (of_nat 0) (of_nat ?n) ?b)"
    using assms by (intro dma_search_first_fit) auto
  then have ff: "first_fit ?b 4096 ?n (r, b')" using rb by simp
  have run: "memphys_dma_alloc pages s = Ret r (s\<lparr>memphys_dma_bitmap := b'\<rparr>)"
    using rb by (simp add: memphys_dma_alloc_def MEMPHYS_DMALIMIT_def memmap_defs)
  show ?thesis
  proof (cases "\<exists>p. p + ?n \<le> 4096 \<and> dma_run ?b p ?n")
    case True
    with ff obtain p where p: "p + ?n \<le> 4096" "dma_run ?b p ?n" "\<And>q. q < p \<Longrightarrow> \<not> dma_run ?b q ?n"
      "r = of_nat (p * 4096)" "b' = dma_mark ?n (of_nat p) ?b"
      unfolding first_fit_def by blast
    have "dma_used b' i \<longleftrightarrow> dma_used ?b i \<or> p \<le> unat i \<and> unat i < p + ?n" for i
      using p(1,5) dma_used_mark [of "of_nat p" ?n ?b i] by simp
    with p run True show ?thesis by auto
  next
    case False
    with ff have "r = NULL" "b' = ?b" unfolding first_fit_def by blast+
    with run False show ?thesis by auto
  qed
qed

theorem memphys_dma_alloc_first_fit_witness:
  "\<exists>r s'. memphys_dma_alloc 3 zero_machine = Ret r s' \<and> r = 0 \<and>
     (\<forall>i. dma_used (memphys_dma_bitmap s') i \<longleftrightarrow> unat i < 3)"
proof -
  have free: "\<not> dma_used (memphys_dma_bitmap zero_machine) i" for i
    by (simp add: dma_used_def zero_machine_def)
  then have run: "dma_run (memphys_dma_bitmap zero_machine) 0 3" by (simp add: dma_run_def)
  have "0 < unat (3 :: u32)" by simp
  from memphys_dma_alloc_first_fit [OF this, of zero_machine] obtain r s' p where
    "memphys_dma_alloc 3 zero_machine = Ret r s'" "\<forall>q<p. \<not> dma_run (memphys_dma_bitmap zero_machine) q 3"
    "r = of_nat (p * 4096)"
    "\<forall>i. dma_used (memphys_dma_bitmap s') i \<longleftrightarrow> dma_used (memphys_dma_bitmap zero_machine) i \<or> p \<le> unat i \<and> unat i < p + 3"
    using run by (auto split: if_splits)
  moreover from this(2) run have "p = 0" by (cases p) auto
  ultimately show ?thesis using free by auto
qed

text \<open>
  C32. After \<open>memphys_dma_init\<close> the first page that \<open>memphys_dma_alloc\<close> hands out is the page directory
  of the kernel: initialisation marks whole bytes of the bitmap only, eight pages each, so the
  three pages from \<open>KERNELPD_ADDRESS\<close> to \<open>FREEPHYS_ADDRESS\<close> count as free.
\<close>

theorem memphys_dma_first_page:
  "\<exists>s'. bindr (memphys_dma_init s) (\<lambda>_. memphys_dma_alloc 1) = Ret KERNELPD_ADDRESS s'"
proof -
  define s0 where "s0 = final (memphys_dma_init s)"
  have init: "memphys_dma_init s = Ret 0 s0"
    by (simp add: s0_def memphys_dma_init_def Let_def)
  have bm: "memphys_dma_bitmap s0 i = (if i < 24 then -1 else if i < 128 then 0 else memphys_dma_bitmap s i)" for i
    by (simp add: s0_def memphys_dma_init_def Let_def MEMPHYS_DMALIMIT_def memmap_defs)
  have used: "dma_used (memphys_dma_bitmap s0) (of_nat j) \<longleftrightarrow> j < 768" if "j < 4096" for j
  proof -
    have "unat (of_nat j div 32 :: u32) = j div 32" using that by (simp add: unat_div)
    moreover have "j div 32 < 24 \<longleftrightarrow> j < 768" "j div 32 < 128" using that by auto
    ultimately show ?thesis
      using mod32_lt [of "of_nat j"] by (simp add: dma_used_bit bm u32_less_iff)
  qed
  let ?r = "dma_search 4096 (of_nat 0) (of_nat 0) (of_nat 1) (memphys_dma_bitmap s0)"
  have ff: "first_fit (memphys_dma_bitmap s0) 4096 1 ?r"
    by (rule dma_search_first_fit) auto
  have run: "dma_run (memphys_dma_bitmap s0) p 1 \<longleftrightarrow> 768 \<le> p" if "p < 4096" for p
    using used [OF that] by (auto simp: dma_run_def less_Suc_eq_le)
  have "768 + 1 \<le> (4096 :: nat)" "dma_run (memphys_dma_bitmap s0) 768 1" using run by simp_all
  with ff obtain p where p: "?r = (of_nat (p * 4096), dma_mark 1 (of_nat p) (memphys_dma_bitmap s0))"
    "p + 1 \<le> 4096" "dma_run (memphys_dma_bitmap s0) p 1" "\<And>q. q < p \<Longrightarrow> \<not> dma_run (memphys_dma_bitmap s0) q 1"
    unfolding first_fit_def by blast
  have "768 \<le> p" using run [of p] p(2,3) by simp
  moreover have "\<not> 768 < p" using p(4) [of 768] run [of 768] by auto
  ultimately have "p = 768" by simp
  with p(1) init show ?thesis
    by (simp add: memphys_dma_alloc_def MEMPHYS_DMALIMIT_def memmap_defs)
qed

end
