(* ===== verification/CMem.thy ===== *)
theory CMem
  imports PhysMem
begin

text \<open>
  The memory functions of the C library (\<open>lib/stdlibc/string.c\<close>), which is linked into the kernel and into
  every program. Memory is what the program sees, a byte at every address; a function that
  writes returns its result and the new memory. \<open>memcpy\<close>, \<open>memmove\<close> and \<open>memcmp\<close> work on words first and on
  the remaining bytes afterwards.
\<close>

unbundle bit_operations_syntax

type_synonym vmem = "u32 \<Rightarrow> u8"

section \<open>Definitions\<close>

subsection \<open>Copying\<close>

fun memccpy_loop :: "nat \<Rightarrow> u32 \<Rightarrow> u32 \<Rightarrow> u32 \<Rightarrow> u8 \<Rightarrow> vmem \<Rightarrow> vmem" where
  "memccpy_loop 0 i dest src c m = m"
| "memccpy_loop (Suc k) i dest src c m =
     (let m = m(dest + i := m (src + i)) in
      if m (src + i) = c then m else memccpy_loop k (i + 1) dest src c m)"

definition memccpy :: "u32 \<Rightarrow> u32 \<Rightarrow> u32 \<Rightarrow> u32 \<Rightarrow> vmem \<Rightarrow> u32 \<times> vmem" where
  "memccpy dest src c n m = (dest, memccpy_loop (unat n) 0 dest src (ucast c) m)"

text \<open>The loops over words and bytes, upwards from index \<open>i\<close> and downwards.\<close>

fun words_up :: "nat \<Rightarrow> u32 \<Rightarrow> u32 \<Rightarrow> u32 \<Rightarrow> vmem \<Rightarrow> vmem" where
  "words_up 0 i dest src m = m"
| "words_up (Suc k) i dest src m = words_up k (i + 1) dest src (wr32 m (dest + 4 * i) (rd32 m (src + 4 * i)))"

fun bytes_up :: "nat \<Rightarrow> u32 \<Rightarrow> u32 \<Rightarrow> u32 \<Rightarrow> vmem \<Rightarrow> vmem" where
  "bytes_up 0 i dest src m = m"
| "bytes_up (Suc k) i dest src m = bytes_up k (i + 1) dest src (m(dest + i := m (src + i)))"

fun words_down :: "nat \<Rightarrow> u32 \<Rightarrow> u32 \<Rightarrow> vmem \<Rightarrow> vmem" where
  "words_down 0 dest src m = m"
| "words_down (Suc k) dest src m =
     words_down k dest src (wr32 m (dest + 4 * of_nat k) (rd32 m (src + 4 * of_nat k)))"

fun bytes_down :: "nat \<Rightarrow> u32 \<Rightarrow> u32 \<Rightarrow> vmem \<Rightarrow> vmem" where
  "bytes_down 0 dest src m = m"
| "bytes_down (Suc k) dest src m = bytes_down k dest src (m(dest + of_nat k := m (src + of_nat k)))"

definition memcpy :: "u32 \<Rightarrow> u32 \<Rightarrow> u32 \<Rightarrow> vmem \<Rightarrow> u32 \<times> vmem" where
  "memcpy dest src n m =
     (if dest = src then (dest, m)
      else
        let fast_count = n div 4; byte_count = n mod 4;
            byte_dest = dest + fast_count * 4; byte_src = src + fast_count * 4;
            m = words_up (unat fast_count) 0 dest src m
        in (dest, bytes_up (unat byte_count) 0 byte_dest byte_src m))"

definition memmove :: "u32 \<Rightarrow> u32 \<Rightarrow> u32 \<Rightarrow> vmem \<Rightarrow> u32 \<times> vmem" where
  "memmove dest src n m =
     (if dest = src then (dest, m)
      else
        let fast_count = n div 4; byte_count = n mod 4;
            byte_dest = dest + fast_count * 4; byte_src = src + fast_count * 4
        in if src > dest then
             let m = words_up (unat fast_count) 0 dest src m
             in (dest, bytes_up (unat byte_count) 0 byte_dest byte_src m)
           else
             let m = bytes_down (unat byte_count) byte_dest byte_src m
             in (dest, words_down (unat fast_count) dest src m))"

definition mempcpy :: "u32 \<Rightarrow> u32 \<Rightarrow> u32 \<Rightarrow> vmem \<Rightarrow> u32 \<times> vmem" where
  "mempcpy dest src n m = (dest + n, snd (memcpy dest src n m))"

fun memset_loop :: "nat \<Rightarrow> u32 \<Rightarrow> u32 \<Rightarrow> u8 \<Rightarrow> vmem \<Rightarrow> vmem" where
  "memset_loop 0 i dest v m = m"
| "memset_loop (Suc k) i dest v m = memset_loop k (i + 1) dest v (m(dest + i := v))"

definition memset :: "u32 \<Rightarrow> u32 \<Rightarrow> u32 \<Rightarrow> vmem \<Rightarrow> u32 \<times> vmem" where
  "memset dest val n m = (dest, memset_loop (unat n) 0 dest (ucast val) m)"

fun memswap_loop :: "nat \<Rightarrow> u32 \<Rightarrow> u32 \<Rightarrow> vmem \<Rightarrow> vmem" where
  "memswap_loop 0 p q m = m"
| "memswap_loop (Suc k) p q m =
     (let tmp = m p; m = m(p := m q); m = m(q := tmp) in memswap_loop k (p + 1) (q + 1) m)"

definition memswap :: "u32 \<Rightarrow> u32 \<Rightarrow> u32 \<Rightarrow> vmem \<Rightarrow> vmem" where
  "memswap m1 m2 n m = memswap_loop (unat n) m1 m2 m"

subsection \<open>Searching and comparing\<close>

fun memchr_loop :: "nat \<Rightarrow> u32 \<Rightarrow> u32 \<Rightarrow> u8 \<Rightarrow> vmem \<Rightarrow> u32" where
  "memchr_loop 0 i src c m = NULL"
| "memchr_loop (Suc k) i src c m = (if m (src + i) = c then src + i else memchr_loop k (i + 1) src c m)"

definition memchr :: "u32 \<Rightarrow> u32 \<Rightarrow> u32 \<Rightarrow> vmem \<Rightarrow> u32" where
  "memchr src c n m = memchr_loop (unat n) 0 src (ucast c) m"

text \<open>The two loops of \<open>memcmp\<close>: \<open>Some d\<close> returns the difference \<open>d\<close>. That of two words is a difference of
  \<open>int\<close>s, which wraps around.\<close>

fun cmp_words :: "nat \<Rightarrow> u32 \<Rightarrow> u32 \<Rightarrow> u32 \<Rightarrow> vmem \<Rightarrow> u32 option" where
  "cmp_words 0 i a b m = None"
| "cmp_words (Suc k) i a b m =
     (let x = rd32 m (a + 4 * i); y = rd32 m (b + 4 * i) in
      if x \<noteq> y then Some (x - y) else cmp_words k (i + 1) a b m)"

fun cmp_bytes :: "nat \<Rightarrow> u32 \<Rightarrow> u32 \<Rightarrow> u32 \<Rightarrow> vmem \<Rightarrow> u32 option" where
  "cmp_bytes 0 i a b m = None"
| "cmp_bytes (Suc k) i a b m =
     (let x = m (a + i); y = m (b + i) in
      if x \<noteq> y then Some (ucast x - ucast y) else cmp_bytes k (i + 1) a b m)"

definition memcmp :: "u32 \<Rightarrow> u32 \<Rightarrow> u32 \<Rightarrow> vmem \<Rightarrow> u32" where
  "memcmp srca srcb n m =
     (if srca = srcb then 0
      else
        let fast_count = n div 4; byte_count = n mod 4 in
        case cmp_words (unat fast_count) 0 srca srcb m of
          Some d \<Rightarrow> d
        | None \<Rightarrow>
            (case cmp_bytes (unat byte_count) 0 (srca + fast_count * 4) (srcb + fast_count * 4) m of
               Some d \<Rightarrow> d | None \<Rightarrow> 0))"

text \<open>
  \<open>memmem\<close>. The loop looks at the second byte of the needle first; \<open>k\<close> and \<open>l\<close> are how far it may go on
  after a mismatch there and elsewhere.
\<close>

partial_function (option) memmem_loop :: "u32 \<Rightarrow> u32 \<Rightarrow> u32 \<Rightarrow> u32 \<Rightarrow> u32 \<Rightarrow> u32 \<Rightarrow> u32 \<Rightarrow> vmem \<Rightarrow> u32 option" where
  "memmem_loop y n x m k l j mem =
     (if j \<le> n - m then
        if mem (x + 1) \<noteq> mem (y + j + 1) then memmem_loop y n x m k l (j + k) mem
        else if memcmp (x + 2) (y + j + 2) (m - 2) mem = 0 \<and> mem x = mem (y + j) then Some (y + j)
        else memmem_loop y n x m k l (j + l) mem
      else Some NULL)"

definition memmem :: "u32 \<Rightarrow> u32 \<Rightarrow> u32 \<Rightarrow> u32 \<Rightarrow> vmem \<Rightarrow> u32 option" where
  "memmem haystack n needle m mem =
     (if m > n \<or> m = 0 \<or> n = 0 then Some NULL
      else if m \<noteq> 1 then
        let same = (mem needle = mem (needle + 1)); k = (if same then 2 else 1); l = (if same then 1 else 2)
        in memmem_loop haystack n needle m k l 0 mem
      else Some (memchr_loop (unat n) 0 haystack (mem needle) mem))"

end
