(* ===== verification/CStr.thy ===== *)
theory CStr
  imports CMem "HOL-Library.Monad_Syntax"
begin

text \<open>
  The string functions of the C library (\<open>lib/stdlibc/string.c\<close>, \<open>strings.c\<close> and \<open>ctype.c\<close>). A string is its
  address; a loop over a string need not end, since nothing makes a terminating zero exist, so each is a
  partial function whose value \<open>None\<close> is a loop that goes on for ever. A \<open>char\<close> is signed: it is sign
  extended where the code computes with it.
\<close>

unbundle bit_operations_syntax

section \<open>Characters\<close>

definition iscntrl :: "u32 \<Rightarrow> bool" where "iscntrl c \<longleftrightarrow> c <s 32"
definition isdigit :: "u32 \<Rightarrow> bool" where "isdigit c \<longleftrightarrow> 48 \<le>s c \<and> c \<le>s 57"
definition islower :: "u32 \<Rightarrow> bool" where "islower c \<longleftrightarrow> 97 \<le>s c \<and> c \<le>s 122"
definition isprint :: "u32 \<Rightarrow> bool" where "isprint c \<longleftrightarrow> 32 \<le>s c"
definition isspace :: "u32 \<Rightarrow> bool" where
  "isspace c \<longleftrightarrow> c = 32 \<or> c = 12 \<or> c = 10 \<or> c = 13 \<or> c = 9 \<or> c = 11"
definition isblank :: "u32 \<Rightarrow> bool" where "isblank c \<longleftrightarrow> isspace c"
definition isupper :: "u32 \<Rightarrow> bool" where "isupper c \<longleftrightarrow> 65 \<le>s c \<and> c \<le>s 90"
definition isxdigit :: "u32 \<Rightarrow> bool" where
  "isxdigit c \<longleftrightarrow> isdigit c \<or> (65 \<le>s c \<and> c \<le>s 70) \<or> (97 \<le>s c \<and> c \<le>s 102)"
definition isalpha :: "u32 \<Rightarrow> bool" where "isalpha c \<longleftrightarrow> isupper c \<or> islower c"
definition isalnum :: "u32 \<Rightarrow> bool" where "isalnum c \<longleftrightarrow> isalpha c \<or> isdigit c"
definition isgraph :: "u32 \<Rightarrow> bool" where "isgraph c \<longleftrightarrow> isalnum c \<and> c \<noteq> 32"
definition ispunct :: "u32 \<Rightarrow> bool" where "ispunct c \<longleftrightarrow> isprint c \<and> \<not> isalnum c"
definition tolower :: "u32 \<Rightarrow> u8" where "tolower c = (if isupper c then ucast (c + (97 - 65)) else ucast c)"
definition toupper :: "u32 \<Rightarrow> u8" where "toupper c = (if islower c then ucast (c - (97 - 65)) else ucast c)"

section \<open>Length, copies and concatenation\<close>

partial_function (option) strlen_loop :: "u32 \<Rightarrow> u32 \<Rightarrow> vmem \<Rightarrow> u32 option" where
  "strlen_loop str i m = (if m (str + i) \<noteq> 0 then strlen_loop str (i + 1) m else Some i)"

definition strlen :: "u32 \<Rightarrow> vmem \<Rightarrow> u32 option" where
  "strlen str m = (if str = NULL then Some 0 else strlen_loop str 0 m)"

partial_function (option) strcpy_loop :: "u32 \<Rightarrow> u32 \<Rightarrow> u32 \<Rightarrow> vmem \<Rightarrow> (u32 \<times> vmem) option" where
  "strcpy_loop dest src i m =
     (if m (src + i) \<noteq> 0 then strcpy_loop dest src (i + 1) (m(dest + i := m (src + i)))
      else Some (i, m))"

definition strcpy :: "u32 \<Rightarrow> u32 \<Rightarrow> vmem \<Rightarrow> (u32 \<times> vmem) option" where
  "strcpy dest src m = do { (i, m) \<leftarrow> strcpy_loop dest src 0 m; Some (dest, m(dest + i := 0)) }"

definition stpcpy :: "u32 \<Rightarrow> u32 \<Rightarrow> vmem \<Rightarrow> (u32 \<times> vmem) option" where
  "stpcpy dest src m = do { (i, m) \<leftarrow> strcpy_loop dest src 0 m; Some (dest + i, m) }"

definition strcat :: "u32 \<Rightarrow> u32 \<Rightarrow> vmem \<Rightarrow> (u32 \<times> vmem) option" where
  "strcat str1 str2 m = do { len \<leftarrow> strlen str1 m; strcpy (str1 + len) str2 m }"

text \<open>\<open>malloc\<close> is that of the program the library is linked to: the address and the memory afterwards.\<close>

definition strdup :: "(u32 \<Rightarrow> vmem \<Rightarrow> u32 \<times> vmem) \<Rightarrow> u32 \<Rightarrow> vmem \<Rightarrow> (u32 \<times> vmem) option" where
  "strdup malloc src m = do {
     len \<leftarrow> strlen src m;
     let (p, m) = malloc (len + 1) m;
     Some (memcpy p src (len + 1) m) }"

fun strncat_loop :: "nat \<Rightarrow> u32 \<Rightarrow> u32 \<Rightarrow> u32 \<Rightarrow> vmem \<Rightarrow> vmem" where
  "strncat_loop 0 i d src2 m = m"
| "strncat_loop (Suc k) i d src2 m = strncat_loop k (i + 1) d src2 (m(d + i := m (src2 + i)))"

definition strncat :: "u32 \<Rightarrow> u32 \<Rightarrow> u32 \<Rightarrow> vmem \<Rightarrow> (u32 \<times> vmem) option" where
  "strncat src1 src2 n m = do {
     src2len \<leftarrow> strlen src2 m;
     let src2len = (if n < src2len then n else src2len);
     src1len \<leftarrow> strlen src1 m;
     let m = strncat_loop (unat src2len) 0 (src1 + src1len) src2 m;
     Some (src1, m(src1 + (src1len + src2len) := 0)) }"

definition strncpy :: "u32 \<Rightarrow> u32 \<Rightarrow> u32 \<Rightarrow> vmem \<Rightarrow> (u32 \<times> vmem) option" where
  "strncpy dest src n m = do {
     len \<leftarrow> strlen src m;
     let len = len + 1;
     let len = (if n < len then n else len);
     let m = snd (memcpy dest src (len - 1) m);
     Some (dest, m(dest + (len - 1) := 0)) }"

section \<open>Searching and comparing\<close>

partial_function (option) strchr_loop :: "u32 \<Rightarrow> u8 \<Rightarrow> u32 \<Rightarrow> vmem \<Rightarrow> u32 option" where
  "strchr_loop str c i m =
     (if m (str + i) \<noteq> 0 \<and> m (str + i) \<noteq> c then strchr_loop str c (i + 1) m else Some i)"

definition strchr :: "u32 \<Rightarrow> u32 \<Rightarrow> vmem \<Rightarrow> u32 option" where
  "strchr str chr m = do {
     i \<leftarrow> strchr_loop str (ucast chr) 0 m;
     Some (if scast (m (str + i)) = chr then str + i else NULL) }"

partial_function (option) strrchr_loop :: "u32 \<Rightarrow> u32 \<Rightarrow> u32 \<Rightarrow> u32 \<Rightarrow> vmem \<Rightarrow> u32 option" where
  "strrchr_loop s c l i m =
     (if m (s + i) \<noteq> 0 then
        strrchr_loop s c (if scast (m (s + i)) = c then s + i else l) (i + 1) m
      else Some l)"

definition strrchr :: "u32 \<Rightarrow> u32 \<Rightarrow> vmem \<Rightarrow> u32 option" where
  "strrchr s c m = strrchr_loop s c NULL 0 m"

partial_function (option) strcmp_loop :: "u32 \<Rightarrow> u32 \<Rightarrow> u32 \<Rightarrow> vmem \<Rightarrow> u32 option" where
  "strcmp_loop str1 str2 i m =
     (let x = m (str1 + i); y = m (str2 + i) in
      if x \<noteq> 0 \<or> y \<noteq> 0 then
        if x \<noteq> y then Some (scast x - scast y) else strcmp_loop str1 str2 (i + 1) m
      else Some 0)"

definition strcmp :: "u32 \<Rightarrow> u32 \<Rightarrow> vmem \<Rightarrow> u32 option" where
  "strcmp str1 str2 m = (if str1 = str2 then Some 0 else strcmp_loop str1 str2 0 m)"

partial_function (option) strncmp_loop :: "u32 \<Rightarrow> u32 \<Rightarrow> u32 \<Rightarrow> u32 \<Rightarrow> vmem \<Rightarrow> u32 option" where
  "strncmp_loop str1 str2 n i m =
     (let x = m (str1 + i); y = m (str2 + i) in
      if (x \<noteq> 0 \<or> y \<noteq> 0) \<and> i < n then
        if x \<noteq> y then Some (scast x - scast y) else strncmp_loop str1 str2 n (i + 1) m
      else Some 0)"

definition strncmp :: "u32 \<Rightarrow> u32 \<Rightarrow> u32 \<Rightarrow> vmem \<Rightarrow> u32 option" where
  "strncmp str1 str2 n m = (if str1 = str2 then Some 0 else strncmp_loop str1 str2 n 0 m)"

partial_function (option) strcasecmp_loop :: "u32 \<Rightarrow> u32 \<Rightarrow> u32 \<Rightarrow> vmem \<Rightarrow> u32 option" where
  "strcasecmp_loop str1 str2 i m =
     (let x = m (str1 + i); y = m (str2 + i) in
      if x \<noteq> 0 \<and> y \<noteq> 0 then
        if x \<noteq> y then Some (scast x - scast y) else strcasecmp_loop str1 str2 (i + 1) m
      else Some 0)"

definition strcasecmp :: "u32 \<Rightarrow> u32 \<Rightarrow> vmem \<Rightarrow> u32 option" where
  "strcasecmp str1 str2 m = strcasecmp_loop str1 str2 0 m"

partial_function (option) strncasecmp_loop :: "u32 \<Rightarrow> u32 \<Rightarrow> u32 \<Rightarrow> u32 \<Rightarrow> vmem \<Rightarrow> u32 option" where
  "strncasecmp_loop str1 str2 n i m =
     (let x = m (str1 + i); y = m (str2 + i) in
      if x \<noteq> 0 \<and> y \<noteq> 0 \<and> i < n then
        if x \<noteq> y then Some (scast x - scast y) else strncasecmp_loop str1 str2 n (i + 1) m
      else Some 0)"

definition strncasecmp :: "u32 \<Rightarrow> u32 \<Rightarrow> u32 \<Rightarrow> vmem \<Rightarrow> u32 option" where
  "strncasecmp str1 str2 n m = strncasecmp_loop str1 str2 n 0 m"

definition strstr :: "u32 \<Rightarrow> u32 \<Rightarrow> vmem \<Rightarrow> u32 option" where
  "strstr haystack needle m = do {
     n \<leftarrow> strlen haystack m; k \<leftarrow> strlen needle m; memmem haystack n needle k m }"

fun ffs_loop :: "nat \<Rightarrow> nat \<Rightarrow> u32 \<Rightarrow> u32" where
  "ffs_loop 0 i x = 0"
| "ffs_loop (Suc k) i x = (if x AND push_bit i 1 \<noteq> 0 then of_nat i + 1 else ffs_loop k (Suc i) x)"

definition ffs :: "u32 \<Rightarrow> u32" where
  "ffs x = ffs_loop 32 0 x"

section \<open>Spans and tokens\<close>

text \<open>The table \<open>matchmap\<close> is filled from the string \<open>s\<close> of characters.\<close>

partial_function (option) matchmap_loop :: "u32 \<Rightarrow> (u8 \<Rightarrow> u32) \<Rightarrow> vmem \<Rightarrow> (u8 \<Rightarrow> u32) option" where
  "matchmap_loop s t m = (if m s \<noteq> 0 then matchmap_loop (s + 1) (t(m s := 1)) m else Some t)"

partial_function (option) span_loop :: "u32 \<Rightarrow> (u8 \<Rightarrow> u32) \<Rightarrow> u32 \<Rightarrow> u32 \<Rightarrow> vmem \<Rightarrow> u32 option" where
  "span_loop s t parity n m =
     (if t (m s) XOR parity \<noteq> 0 then span_loop (s + 1) t parity (n + 1) m else Some n)"

definition strxspn :: "u32 \<Rightarrow> u32 \<Rightarrow> u32 \<Rightarrow> vmem \<Rightarrow> u32 option" where
  "strxspn s chars parity m = do {
     t \<leftarrow> matchmap_loop chars (\<lambda>_. 0) m;
     span_loop s (t(0 := parity)) parity 0 m }"

definition strspn :: "u32 \<Rightarrow> u32 \<Rightarrow> vmem \<Rightarrow> u32 option" where
  "strspn s accept m = strxspn s accept 0 m"

definition strcspn :: "u32 \<Rightarrow> u32 \<Rightarrow> vmem \<Rightarrow> u32 option" where
  "strcspn s reject m = strxspn s reject 1 m"

definition strpbrk :: "u32 \<Rightarrow> u32 \<Rightarrow> vmem \<Rightarrow> u32 option" where
  "strpbrk s accept m = do {
     n \<leftarrow> strxspn s accept 1 m;
     Some (if m (s + n) \<noteq> 0 then s + n else NULL) }"

text \<open>\<open>strsep\<close> takes the value of \<open>*stringp\<close> and returns its result, the new value and the memory.\<close>

definition strsep :: "u32 \<Rightarrow> u32 \<Rightarrow> vmem \<Rightarrow> (u32 \<times> u32 \<times> vmem) option" where
  "strsep s delim m =
     (if s = NULL then Some (NULL, NULL, m)
      else do {
        e \<leftarrow> strpbrk s delim m;
        Some (if e \<noteq> NULL then (s, e + 1, m(e := 0)) else (s, NULL, m)) })"

partial_function (option) strtok_loop :: "u32 \<Rightarrow> u32 \<Rightarrow> vmem \<Rightarrow> (u32 \<times> u32 \<times> vmem) option" where
  "strtok_loop holder delim m =
     Option.bind (strsep holder delim m)
       (\<lambda>(s, holder, m). if s \<noteq> NULL \<and> m s = 0 then strtok_loop holder delim m else Some (s, holder, m))"

text \<open>\<open>holder\<close> is the static variable.\<close>

definition strtok :: "u32 \<Rightarrow> u32 \<Rightarrow> u32 \<Rightarrow> vmem \<Rightarrow> (u32 \<times> u32 \<times> vmem) option" where
  "strtok holder s delim m = strtok_loop (if s \<noteq> NULL then s else holder) delim m"

section \<open>Numbers\<close>

text \<open>The value of a digit, \<open>-1\<close> for a character that is none.\<close>

definition digitval :: "u32 \<Rightarrow> u32" where
  "digitval ch =
     (if 48 \<le>s ch \<and> ch \<le>s 57 then ch - 48
      else if 65 \<le>s ch \<and> ch \<le>s 90 then ch - 65 + 10
      else if 97 \<le>s ch \<and> ch \<le>s 122 then ch - 97 + 10
      else - 1)"

fun skip_space :: "nat \<Rightarrow> u32 \<Rightarrow> vmem \<Rightarrow> nat \<times> u32" where
  "skip_space 0 p m = (0, p)"
| "skip_space (Suc n) p m = (if isspace (ucast (m p)) then skip_space n (p + 1) m else (Suc n, p))"

fun digits_loop :: "nat \<Rightarrow> u32 \<Rightarrow> u32 \<Rightarrow> u64 \<Rightarrow> vmem \<Rightarrow> u64 \<times> u32" where
  "digits_loop 0 p base v m = (v, p)"
| "digits_loop (Suc n) p base v m =
     (let d = digitval (scast (m p)) in
      if 0 \<le>s d \<and> d <s base then digits_loop n (p + 1) base (v * scast base + scast d) m else (v, p))"

definition opt_sign :: "nat \<Rightarrow> u32 \<Rightarrow> vmem \<Rightarrow> bool \<times> nat \<times> u32" where
  "opt_sign n p m =
     (if n \<noteq> 0 \<and> (m p = 45 \<or> m p = 43) then (m p = 45, n - 1, p + 1) else (False, n, p))"

definition find_base :: "u32 \<Rightarrow> nat \<Rightarrow> u32 \<Rightarrow> vmem \<Rightarrow> u32 \<times> nat \<times> u32" where
  "find_base base n p m =
     (if base = 0 then
        if 2 \<le> n \<and> m p = 48 \<and> (m (p + 1) = 120 \<or> m (p + 1) = 88) then (16, n - 2, p + 2)
        else if 1 \<le> n \<and> m p = 48 then (8, n - 1, p + 1)
        else (10, n, p)
      else if base = 16 then
        if 2 \<le> n \<and> m p = 48 \<and> (m (p + 1) = 120 \<or> m (p + 1) = 88) then (16, n - 2, p + 2)
        else (16, n, p)
      else (base, n, p))"

text \<open>The result is the value and where the number ended, which the code stores in \<open>*endptr\<close>.\<close>

definition strntoumax :: "u32 \<Rightarrow> u32 \<Rightarrow> u32 \<Rightarrow> vmem \<Rightarrow> u64 \<times> u32" where
  "strntoumax nptr base n m =
     (let (n, p) = skip_space (unat n) nptr m;
          (minus, n, p) = opt_sign n p m;
          (base, n, p) = find_base base n p m;
          (v, p) = digits_loop n p base 0 m
      in (if minus then - v else v, p))"

definition strntoimax :: "u32 \<Rightarrow> u32 \<Rightarrow> u32 \<Rightarrow> vmem \<Rightarrow> u64 \<times> u32" where
  "strntoimax nptr base n m = strntoumax nptr base n m"

definition strtoumax :: "u32 \<Rightarrow> u32 \<Rightarrow> vmem \<Rightarrow> u64 \<times> u32" where
  "strtoumax nptr base m = strntoumax nptr base (NOT 0) m"

definition strtoimax :: "u32 \<Rightarrow> u32 \<Rightarrow> vmem \<Rightarrow> u64 \<times> u32" where
  "strtoimax nptr base m = strntoumax nptr base (NOT 0) m"

section \<open>Error messages\<close>

definition errno_strings :: "string list" where
  "errno_strings =
    [''No Error'', ''Argument list too long.'',
     ''Permission denied.'', ''Address in use.'',
     ''Address not available.'', ''Address family not supported.'',
     ''Resource unavailable, try again.'', ''Connection already in progress.'',
     ''Bad file descriptor.'', ''Bad message.'',
     ''Device or resource busy.'', ''Operation canceled.'',
     ''No child processes.'', ''Connection aborted.'',
     ''Connection refused.'', ''Connection reset.'',
     ''Resource deadlock would occur.'', ''Destination address required.'',
     ''Mathematics argument out of domain of function.'', ''Reserved.'',
     ''File exists.'', ''Bad address.'',
     ''File too large.'', ''Host is unreachable.'',
     ''Identifier removed.'', ''Illegal byte sequence.'',
     ''Operation in progress.'', ''Interrupted function.'',
     ''Invalid argument.'', ''I/O error.'',
     ''Socket is connected.'', ''Is a directory.'',
     ''Too many levels of symbolic links.'', ''Too many open files.'',
     ''Too many links.'', ''Message too large.'',
     ''Reserved.'', ''Filename too long.'',
     ''Network is down.'', ''Connection aborted by network.'',
     ''Network unreachable.'', ''Too many files open in system.'',
     ''No buffer space available.'', ''No message is available on the STREAM head read queue.'',
     ''No such device.'', ''No such file or directory.'',
     ''Executable file format error.'', ''No locks available.'',
     ''Reserved.'', ''Not enough space.'',
     ''No message of the desired type.'', ''Protocol not available.'',
     ''No space left on device.'', ''No STREAM resources.'',
     ''Not a STREAM.'', ''Function not supported.'',
     ''The socket is not connected.'', ''Not a directory.'',
     ''Directory not empty.'', ''Not a socket.'',
     ''Not supported.'', ''Inappropriate I/O control operation.'',
     ''No such device or address.'', ''Operation not supported on socket.'',
     ''Value too large to be stored in data type.'', ''Operation not permitted.'',
     ''Broken pipe.'', ''Protocol error.'',
     ''Protocol not supported.'', ''Protocol wrong type for socket.'',
     ''Result too large.'', ''Read-only file system.'',
     ''Invalid seek.'', ''No such process.'',
     ''Reserved.'', ''Stream ioctl() timeout.'',
     ''Connection timed out.'', ''Text file busy.'',
     ''Operation would block.'', ''Cross-device link.'']"

text \<open>An index outside of the table reads whatever follows it: \<open>None\<close>.\<close>

definition strerror :: "u32 \<Rightarrow> string option" where
  "strerror errnum = (if unat errnum < length errno_strings then Some (errno_strings ! unat errnum) else None)"

end
