(* ===== verification/Console.thy ===== *)
theory Console
  imports CStr
begin

text \<open>
  The output of the kernel: the text screen with its copy to the serial port (\<open>kernel2/vga.c\<close>) and the
  formatted printing on top of it (\<open>kernel2/kprint.c\<close>). What the line status register of the serial port
  answers, read after read, is a list in the state; a function that would wait for ever has the value
  \<open>None\<close>. Port writes and the privileged instructions are recorded as events.
\<close>

unbundle bit_operations_syntax

section \<open>The screen\<close>

datatype con_event = Outb u16 u8 | Hlt | Cli

record console =
  cmem :: vmem
  vga_text_video :: u32
  cur_x :: u32
  cur_y :: u32
  cur_color :: u32
  line_status :: "u8 list"
  con_events :: "con_event list"

definition VGA_TEXT_BASE :: u32 where "VGA_TEXT_BASE = 0xB8000"
definition VGA_TEXT_WIDTH :: u32 where "VGA_TEXT_WIDTH = 80"
definition VGA_TEXT_HEIGHT :: u32 where "VGA_TEXT_HEIGHT = 25"
definition VGA_TEXT_BPC :: u32 where "VGA_TEXT_BPC = 2"
definition VGA_TEXT_SIZE :: u32 where "VGA_TEXT_SIZE = VGA_TEXT_WIDTH * VGA_TEXT_HEIGHT * VGA_TEXT_BPC"
definition VGA_TEXT_TABSIZE :: u32 where "VGA_TEXT_TABSIZE = 8"
definition VGA_TEXT_COLOR_DEFAULT :: u32 where "VGA_TEXT_COLOR_DEFAULT = 0x07"
definition VGA_TEXT_COLOR_RED_BLACK :: u32 where "VGA_TEXT_COLOR_RED_BLACK = 0x0C"

lemmas vga_consts = VGA_TEXT_WIDTH_def VGA_TEXT_HEIGHT_def VGA_TEXT_BPC_def VGA_TEXT_SIZE_def
  VGA_TEXT_TABSIZE_def

definition emit :: "con_event \<Rightarrow> console \<Rightarrow> console" where
  "emit e c = c\<lparr>con_events := con_events c @ [e]\<rparr>"

text \<open>The byte a blank screen is filled with: the background colour in both halves.\<close>

definition blank :: "u32 \<Rightarrow> u32" where
  "blank color = (color AND 0xF0) OR drop_bit 4 color"

definition vga_text_clear :: "console \<Rightarrow> console" where
  "vga_text_clear c =
     (let c = c\<lparr>cur_x := 0, cur_y := 0, cur_color := VGA_TEXT_COLOR_DEFAULT\<rparr>
      in c\<lparr>cmem := snd (memset (vga_text_video c) (blank (cur_color c)) VGA_TEXT_SIZE (cmem c))\<rparr>)"

definition vga_text_set_hwcursor :: "u32 \<Rightarrow> u32 \<Rightarrow> console \<Rightarrow> console" where
  "vga_text_set_hwcursor x y c =
     (let off = y * VGA_TEXT_WIDTH + x
      in emit (Outb 0x3D5 (ucast off)) (emit (Outb 0x3D4 15)
           (emit (Outb 0x3D5 (ucast (signed_drop_bit 8 off))) (emit (Outb 0x3D4 14) c))))"

definition vga_text_setcolor :: "u32 \<Rightarrow> console \<Rightarrow> console" where
  "vga_text_setcolor color c = c\<lparr>cur_color := color\<rparr>"

subsection \<open>The serial port\<close>

definition COM_PORT :: u16 where "COM_PORT = 0x3F8"
definition BOCHS_PORT :: u16 where "BOCHS_PORT = 0xE9"

definition com_init :: "console \<Rightarrow> console" where
  "com_init c =
     (let baud = 115200 div (9600 :: u32)
      in foldl (\<lambda>c e. emit e c) c
           [Outb (COM_PORT + 1) 0x00, Outb (COM_PORT + 3) 0x80, Outb (COM_PORT + 0) (ucast baud),
            Outb (COM_PORT + 1) (ucast (drop_bit 8 baud)), Outb (COM_PORT + 3) 0x03,
            Outb (COM_PORT + 2) 0xC7, Outb (COM_PORT + 4) 0x0B])"

definition is_transmit_empty :: "u8 \<Rightarrow> bool" where
  "is_transmit_empty lsr \<longleftrightarrow> lsr AND 0x20 \<noteq> 0"

fun wait_transmit :: "u8 list \<Rightarrow> u8 list option" where
  "wait_transmit [] = None"
| "wait_transmit (b # bs) = (if is_transmit_empty b then Some bs else wait_transmit bs)"

definition com_send :: "u8 \<Rightarrow> console \<Rightarrow> console option" where
  "com_send a c = do {
     ls \<leftarrow> wait_transmit (line_status c);
     Some (emit (Outb COM_PORT a) (c\<lparr>line_status := ls\<rparr>)) }"

definition bochs_send :: "u8 \<Rightarrow> console \<Rightarrow> console" where
  "bochs_send a c = emit (Outb BOCHS_PORT a) c"

subsection \<open>Printing a character\<close>

definition put_glyph :: "u8 \<Rightarrow> console \<Rightarrow> console" where
  "put_glyph chr c =
     (let off = cur_x c + cur_y c * VGA_TEXT_WIDTH;
          c = (if off = 0x3FD then emit Hlt c else c);
          p = vga_text_video c + off * VGA_TEXT_BPC
      in c\<lparr>cmem := (cmem c)(p := chr, p + 1 := ucast (cur_color c)), cur_x := cur_x c + 1\<rparr>)"

definition put_char :: "u8 \<Rightarrow> console \<Rightarrow> console" where
  "put_char chr c =
     (if chr = 8 then c\<lparr>cur_x := (if 0 <s cur_x c then cur_x c - 1 else cur_x c)\<rparr>
      else if chr = 13 then c\<lparr>cur_x := 0\<rparr>
      else if chr = 10 then c\<lparr>cur_y := cur_y c + 1, cur_x := 0\<rparr>
      else if chr = 12 then vga_text_clear c
      else if chr = 9 then
        c\<lparr>cur_x := (if 0 <s cur_x c then (cur_x c div VGA_TEXT_TABSIZE + 1) * VGA_TEXT_TABSIZE else 0)\<rparr>
      else if isprint (scast chr) then put_glyph chr c
      else c)"

definition wrap_line :: "console \<Rightarrow> console" where
  "wrap_line c = (if VGA_TEXT_WIDTH \<le>s cur_x c then c\<lparr>cur_x := 0, cur_y := cur_y c + 1\<rparr> else c)"

definition scroll_up :: "console \<Rightarrow> console" where
  "scroll_up c =
     (if VGA_TEXT_HEIGHT \<le>s cur_y c then
        let v = vga_text_video c;
            m = snd (memmove v (v + VGA_TEXT_WIDTH * VGA_TEXT_BPC)
                   (VGA_TEXT_WIDTH * (VGA_TEXT_HEIGHT - 1) * VGA_TEXT_BPC) (cmem c));
            m = snd (memset (v + VGA_TEXT_WIDTH * (VGA_TEXT_HEIGHT - 1) * VGA_TEXT_BPC)
                   (blank (cur_color c)) (VGA_TEXT_WIDTH * VGA_TEXT_BPC) m)
        in c\<lparr>cmem := m, cur_y := VGA_TEXT_HEIGHT - 1\<rparr>
      else c)"

definition vga_text_printchar :: "u8 \<Rightarrow> console \<Rightarrow> console option" where
  "vga_text_printchar chr c = do {
     let c = put_char chr c;
     c \<leftarrow> com_send chr c;
     let c = bochs_send chr c;
     Some (scroll_up (wrap_line c)) }"

definition vga_init :: "console \<Rightarrow> console" where
  "vga_init c =
     (let c = com_init c; c = c\<lparr>vga_text_video := VGA_TEXT_BASE\<rparr>;
          c = vga_text_set_hwcursor 0 (VGA_TEXT_HEIGHT + 1) c
      in vga_text_clear c)"

section \<open>Formatted output\<close>

definition kprintchar :: "u8 \<Rightarrow> console \<Rightarrow> console option" where
  "kprintchar chr c = vga_text_printchar chr c"

text \<open>The loop of \<open>kprintstr\<close> over a string of the kernel's own (a literal or a local buffer), and over one
  in memory.\<close>

fun kprintchars :: "u8 list \<Rightarrow> console \<Rightarrow> console option" where
  "kprintchars [] c = Some c"
| "kprintchars (x # xs) c = (if x = 0 then Some c else do { c \<leftarrow> kprintchar x c; kprintchars xs c })"

partial_function (option) kprintstr_loop :: "u32 \<Rightarrow> console \<Rightarrow> console option" where
  "kprintstr_loop str c =
     (if cmem c str \<noteq> 0
      then Option.bind (kprintchar (cmem c str) c) (kprintstr_loop (str + 1))
      else Some c)"

definition kprintstr :: "u32 \<Rightarrow> console \<Rightarrow> console option" where
  "kprintstr str c = (if str = NULL then kprintchars [40, 110, 117, 108, 108, 41] c else kprintstr_loop str c)"

definition divmod64 :: "u64 \<Rightarrow> u32 \<Rightarrow> u64 \<times> u32" where
  "divmod64 dividend divisor = (dividend div ucast divisor, ucast (dividend mod ucast divisor))"

text \<open>The digit tables, with the zero that ends a literal. The letter N is in neither.\<close>

definition num_chars :: "u32 \<Rightarrow> u8 list" where
  "num_chars uppercase =
     [48, 49, 50, 51, 52, 53, 54, 55, 56, 57] @
     (if uppercase \<noteq> 0 then
        [65, 66, 67, 68, 69, 70, 71, 72, 73, 74, 75, 76, 77, 79, 80, 81, 82, 83, 84, 85, 86, 87, 88, 89, 90]
      else
        [97, 98, 99, 100, 101, 102, 103, 104, 105, 106, 107, 108, 109, 111, 112, 113, 114, 115, 116, 117,
         118, 119, 120, 121, 122]) @ [0]"

partial_function (option) count_digits :: "u64 \<Rightarrow> u32 \<Rightarrow> u32 \<Rightarrow> u32 option" where
  "count_digits temp radix digits =
     (let digits = digits + 1; temp = fst (divmod64 temp radix)
      in if 0 < temp then count_digits temp radix digits else Some digits)"

text \<open>The digits are written from the last to the first; the pointer is \<open>digits\<close> behind the beginning of the
  buffer.\<close>

fun write_digits :: "nat \<Rightarrow> u64 \<Rightarrow> u32 \<Rightarrow> u8 list \<Rightarrow> u8 list \<Rightarrow> u8 list" where
  "write_digits 0 temp radix chars buf = buf"
| "write_digits (Suc digits) temp radix chars buf =
     (let (temp, remainder) = divmod64 temp radix
      in write_digits digits temp radix chars (buf[digits := chars ! unat remainder]))"

text \<open>The characters \<open>kprintnum\<close> prints; \<open>None\<close> also where it would write behind its buffer of 65 bytes.\<close>

definition kprintnum_text :: "u64 \<Rightarrow> u32 \<Rightarrow> u32 \<Rightarrow> u32 \<Rightarrow> u8 list option" where
  "kprintnum_text value radix uppercase sign =
     (let minus = (value <s 0 \<and> sign \<noteq> 0);
          value = (if minus then - value else value);
          out = (if minus then [45] else [])
      in if radix < 2 \<or> radix > 36 then Some out
         else do {
           digits \<leftarrow> count_digits value radix 0;
           if unat digits < 65 then
             let buf = (replicate 65 0)[unat digits := 0];
                 buf = write_digits (unat digits) value radix (num_chars uppercase) buf
             in Some (out @ takeWhile (\<lambda>b. b \<noteq> 0) buf)
           else None })"

definition kprintnum :: "u64 \<Rightarrow> u32 \<Rightarrow> u32 \<Rightarrow> u32 \<Rightarrow> console \<Rightarrow> console option" where
  "kprintnum value radix uppercase sign c =
     do { cs \<leftarrow> kprintnum_text value radix uppercase sign; kprintchars cs c }"

text \<open>\<open>vakprintf\<close>. The arguments are the words \<open>va_arg\<close> takes one after the other; where the format asks for
  more than there are, the next words of the stack would be taken, and the value is \<open>None\<close>.\<close>

definition print_arg :: "u8 \<Rightarrow> u32 list \<Rightarrow> console \<Rightarrow> (u32 list \<times> console) option" where
  "print_arg f args c =
     (let take_arg = (\<lambda>g. case args of [] \<Rightarrow> None | a # args \<Rightarrow> map_option (Pair args) (g a c)) in
      if f = 37 then map_option (Pair args) (kprintchar 37 c)
      else if f = 98 then take_arg (\<lambda>a. kprintnum (ucast a) 2 1 0)
      else if f = 99 then take_arg (\<lambda>a. kprintchar (ucast a))
      else if f = 111 then take_arg (\<lambda>a. kprintnum (ucast a) 8 1 0)
      else if f = 100 then take_arg (\<lambda>a. kprintnum (scast a) 10 1 1)
      else if f = 120 then take_arg (\<lambda>a. kprintnum (ucast a) 16 1 0)
      else if f = 115 then take_arg kprintstr
      else map_option (Pair args) (do { c \<leftarrow> kprintchar 37 c; kprintchar f c }))"

partial_function (option) vakprintf :: "u32 \<Rightarrow> u32 list \<Rightarrow> console \<Rightarrow> console option" where
  "vakprintf format args c =
     (if cmem c format \<noteq> 0 then
        if cmem c format = 37 then
          if cmem c (format + 1) = 0 then Some c
          else Option.bind (print_arg (cmem c (format + 1)) args c)
                 (\<lambda>(args, c). vakprintf (format + 1 + 1) args c)
        else Option.bind (kprintchar (cmem c format) c) (vakprintf (format + 1) args)
      else Some c)"

definition kprintf :: "u32 \<Rightarrow> u32 list \<Rightarrow> console \<Rightarrow> console option" where
  "kprintf format args c = vakprintf format args c"

definition panic :: "u32 \<Rightarrow> u32 list \<Rightarrow> console \<Rightarrow> console option" where
  "panic fmt args c = do {
     let c = vga_text_setcolor VGA_TEXT_COLOR_RED_BLACK c;
     c \<leftarrow> kprintchars [32, 42, 80, 65, 78, 73, 67, 42, 32] c;
     c \<leftarrow> vakprintf fmt args c;
     Some (emit Hlt (emit Cli c)) }"

end
