(* ===== verification/CMemProps.thy ===== *)
theory CMemProps
  imports CMem
begin

text \<open>
  Copying by words agrees with copying all bytes at once, also between areas that overlap, comparing
  by words decides equality, and \<open>memmem\<close> finds the first occurrence.
\<close>

unbundle bit_operations_syntax

section \<open>Copying\<close>

text \<open>The reference: all \<open>c\<close> bytes are read before any is written.\<close>

definition chunk :: "nat \<Rightarrow> u32 \<Rightarrow> u32 \<Rightarrow> vmem \<Rightarrow> vmem" where
  "chunk c d s m = (\<lambda>a. if unat (a - d) < c then m (s + (a - d)) else m a)"

lemma chunk_0 [simp]: "chunk 0 d s m = m"
  by (simp add: chunk_def)

lemma u32_offset: "\<exists>j < 2 ^ 32. a = d + (of_nat j :: u32)"
proof (intro exI conjI)
  show "unat (a - d) < 2 ^ 32" using unat_u32_lt [of "a - d"] by simp
  show "a = d + of_nat (unat (a - d))" by simp
qed

lemma of_nat_wrap: "b \<le> 2 ^ 32 + j \<Longrightarrow> (of_nat (2 ^ 32 + j - b) :: u32) = of_nat j - of_nat b"
proof -
  assume "b \<le> 2 ^ 32 + j"
  then have "(of_nat (2 ^ 32 + j - b) :: u32) = of_nat (2 ^ 32 + j) - of_nat b" by (rule of_nat_diff)
  then show ?thesis by simp
qed

lemma chunk_at:
  "j < 2 ^ 32 \<Longrightarrow> chunk c d s m (d + of_nat j) = (if j < c then m (s + of_nat j) else m (d + of_nat j))"
  by (simp add: chunk_def unat_of_nat_u32)

lemma chunk_at_shifted:
  assumes "j < 2 ^ 32" "b + c \<le> 2 ^ 32"
  shows "chunk c (d + of_nat b) s m (d + of_nat j) =
    (if b \<le> j \<and> j < b + c then m (s + of_nat (j - b)) else m (d + of_nat j))"
proof (cases "b \<le> j")
  case True
  then have "d + of_nat j = (d + of_nat b) + (of_nat (j - b) :: u32)" by (simp add: of_nat_diff)
  moreover have "j - b < 2 ^ 32" using assms(1) by simp
  ultimately show ?thesis using chunk_at [of "j - b" c "d + of_nat b" s m] True by (auto simp: add.assoc)
next
  case False
  then have "d + of_nat j = (d + of_nat b) + (of_nat (2 ^ 32 + j - b) :: u32)"
    using assms(2) by (subst of_nat_wrap) auto
  moreover have "2 ^ 32 + j - b < 2 ^ 32" "\<not> 2 ^ 32 + j - b < c" using False assms(2) by auto
  ultimately show ?thesis using chunk_at [of "2 ^ 32 + j - b" c "d + of_nat b" s m] False by (auto simp: add.assoc)
qed

lemma chunk_up:
  assumes "unat (s - d) + (b + c) \<le> 2 ^ 32"
  shows "chunk c (d + of_nat b) (s + of_nat b) (chunk b d s m) = chunk (b + c) d s m"
proof
  fix a :: u32
  obtain j where j: "j < 2 ^ 32" "a = d + of_nat j" using u32_offset by blast
  let ?e = "unat (s - d)"
  have far: "chunk b d s m (s + of_nat j) = m (s + of_nat j)" if "b \<le> j" "j < b + c"
  proof -
    have "s + of_nat j = d + of_nat (?e + j)" by simp
    moreover have "?e + j < 2 ^ 32" "\<not> ?e + j < b" using that assms by auto
    ultimately show ?thesis using chunk_at [of "?e + j" b d s m] by (auto simp del: of_nat_add)
  qed
  show "chunk c (d + of_nat b) (s + of_nat b) (chunk b d s m) a = chunk (b + c) d s m a"
    using j far assms
    by (cases "b \<le> j") (auto simp: chunk_at_shifted chunk_at of_nat_diff)
qed

lemma chunk_down:
  assumes "unat (d - s) + (b + c) \<le> 2 ^ 32"
  shows "chunk b d s (chunk c (d + of_nat b) (s + of_nat b) m) = chunk (b + c) d s m"
proof
  fix a :: u32
  obtain j where j: "j < 2 ^ 32" "a = d + of_nat j" using u32_offset by blast
  let ?e = "unat (d - s)"
  have far: "chunk c (d + of_nat b) (s + of_nat b) m (s + of_nat j) = m (s + of_nat j)" if "j < b"
  proof -
    obtain i where i: "i < 2 ^ 32" "s + of_nat j = d + (of_nat i :: u32)" "\<not> (b \<le> i \<and> i < b + c)"
    proof (cases "?e \<le> j")
      case True
      show thesis
        by (rule that [of "j - ?e"]) (use True j(1) \<open>j < b\<close> in \<open>auto simp: of_nat_diff\<close>)
    next
      case False
      show thesis
        by (rule that [of "2 ^ 32 + j - ?e"]) (use False assms in \<open>auto simp: of_nat_wrap\<close>)
    qed
    from chunk_at_shifted [OF i(1), of b c d "s + of_nat b" m] i assms show ?thesis by auto
  qed
  show "chunk b d s (chunk c (d + of_nat b) (s + of_nat b) m) a = chunk (b + c) d s m a"
    using j far assms
    by (cases "j < b") (auto simp: chunk_at_shifted chunk_at of_nat_diff)
qed

lemma chunk_word: "wr32 m d (rd32 m s) = chunk 4 d s m"
proof
  fix a :: u32
  obtain j where j: "j < 2 ^ 32" "a = d + of_nat j" using u32_offset by blast
  have off: "d + of_nat j = d + of_nat k \<longleftrightarrow> j = k" if "k < 4" for k
  proof
    assume "d + of_nat j = d + of_nat k"
    then have "unat (of_nat j :: u32) = unat (of_nat k :: u32)" by simp
    then show "j = k" using j(1) that by (simp add: unat_of_nat_u32)
  qed simp
  have lo: "chunk 4 d s m (d + of_nat k) = m (s + of_nat k)" if "k < 4" for k
    using that by (simp add: chunk_at)
  show "wr32 m d (rd32 m s) a = chunk 4 d s m a"
  proof (cases "j < 4")
    case True
    then consider "j = 0" | "j = 1" | "j = 2" | "j = 3" by linarith
    then show ?thesis
      using lo [of 0] lo [of 1] lo [of 2] lo [of 3] j(2) by cases (simp_all add: wr32_def rd32_def byte_of_join32 [unfolded One_nat_def])
  next
    case False
    then have "a \<noteq> d" "a \<noteq> d + 1" "a \<noteq> d + 2" "a \<noteq> d + 3"
      using off [of 0] off [of 1] off [of 2] off [of 3] j(2) by auto
    then show ?thesis using False j by (simp add: wr32_def chunk_at)
  qed
qed

lemma chunk_byte: "m(d := m s) = chunk 1 d s m"
  by (auto simp: chunk_def fun_eq_iff unat_eq_zero)

lemma words_up_chunk:
  "unat (s - d) + 4 * k \<le> 2 ^ 32 \<Longrightarrow>
   words_up k (of_nat i) d s m = chunk (4 * k) (d + of_nat (4 * i)) (s + of_nat (4 * i)) m"
proof (induction k arbitrary: i m)
  case (Suc k)
  let ?d = "d + of_nat (4 * i)" and ?s = "s + of_nat (4 * i)"
  have "words_up (Suc k) (of_nat i) d s m = words_up k (of_nat (Suc i)) d s (chunk 4 ?d ?s m)"
    by (simp add: chunk_word add.commute)
  also have "\<dots> = chunk (4 * k) (?d + of_nat 4) (?s + of_nat 4) (chunk 4 ?d ?s m)"
    using Suc.IH [of "Suc i" "chunk 4 ?d ?s m"] Suc.prems by (simp add: algebra_simps)
  also have "\<dots> = chunk (4 + 4 * k) ?d ?s m"
    by (rule chunk_up) (use Suc.prems in simp)
  finally show ?case by simp
qed simp

lemma bytes_up_chunk:
  "unat (s - d) + k \<le> 2 ^ 32 \<Longrightarrow>
   bytes_up k (of_nat i) d s m = chunk k (d + of_nat i) (s + of_nat i) m"
proof (induction k arbitrary: i m)
  case (Suc k)
  let ?d = "d + of_nat i" and ?s = "s + of_nat i"
  have "bytes_up (Suc k) (of_nat i) d s m = bytes_up k (of_nat (Suc i)) d s (chunk 1 ?d ?s m)"
    by (simp add: chunk_byte add.commute)
  also have "\<dots> = chunk k (?d + of_nat 1) (?s + of_nat 1) (chunk 1 ?d ?s m)"
    using Suc.IH [of "Suc i" "chunk 1 ?d ?s m"] Suc.prems by (simp add: algebra_simps)
  also have "\<dots> = chunk (1 + k) ?d ?s m"
    by (rule chunk_up) (use Suc.prems in simp)
  finally show ?case by simp
qed simp

lemma words_down_chunk:
  "unat (d - s) + 4 * k \<le> 2 ^ 32 \<Longrightarrow> words_down k d s m = chunk (4 * k) d s m"
proof (induction k arbitrary: m)
  case (Suc k)
  have "words_down (Suc k) d s m
      = words_down k d s (chunk 4 (d + of_nat (4 * k)) (s + of_nat (4 * k)) m)"
    by (simp add: chunk_word)
  also have "\<dots> = chunk (4 * k) d s (chunk 4 (d + of_nat (4 * k)) (s + of_nat (4 * k)) m)"
    using Suc by simp
  also have "\<dots> = chunk (4 * k + 4) d s m" by (rule chunk_down) (use Suc.prems in simp)
  finally show ?case by (simp add: add.commute)
qed simp

lemma bytes_down_chunk:
  "unat (d - s) + k \<le> 2 ^ 32 \<Longrightarrow> bytes_down k d s m = chunk k d s m"
proof (induction k arbitrary: m)
  case (Suc k)
  have "bytes_down (Suc k) d s m = bytes_down k d s (chunk 1 (d + of_nat k) (s + of_nat k) m)"
    by (simp add: chunk_byte)
  also have "\<dots> = chunk k d s (chunk 1 (d + of_nat k) (s + of_nat k) m)"
    using Suc by simp
  also have "\<dots> = chunk (k + 1) d s m" by (rule chunk_down) (use Suc.prems in simp)
  finally show ?case by simp
qed simp

text \<open>The split of \<open>n\<close> bytes into words and remaining bytes.\<close>

lemma fast_split:
  "unat (n :: u32) = 4 * unat (n div 4) + unat (n mod 4)"
  "n div 4 * 4 = (of_nat (4 * unat (n div 4)) :: u32)"
proof -
  show "unat n = 4 * unat (n div 4) + unat (n mod 4)" by (simp add: unat_div unat_mod)
  have "(of_nat (unat (n div 4)) :: u32) = n div 4" by (simp only: of_nat_unat ucast_id)
  then show "n div 4 * 4 = (of_nat (4 * unat (n div 4)) :: u32)" by (simp only: of_nat_mult) simp
qed

lemma chunk_up_split:
  assumes "unat (s - d) + unat n \<le> 2 ^ 32"
  shows "bytes_up (unat (n mod 4)) 0 (d + n div 4 * 4) (s + n div 4 * 4) (words_up (unat (n div 4)) 0 d s m)
       = chunk (unat n) d s m"
  using assms words_up_chunk [of s d "unat (n div 4)" 0 m] fast_split [of n]
    bytes_up_chunk [of "s + n div 4 * 4" "d + n div 4 * 4" "unat (n mod 4)" 0]
    chunk_up [of s d "4 * unat (n div 4)" "unat (n mod 4)" m]
  by (simp add: mult.commute)

lemma chunk_down_split:
  assumes "unat (d - s) + unat n \<le> 2 ^ 32"
  shows "words_down (unat (n div 4)) d s (bytes_down (unat (n mod 4)) (d + n div 4 * 4) (s + n div 4 * 4) m)
       = chunk (unat n) d s m"
  using assms words_down_chunk [of d s "unat (n div 4)"] fast_split [of n]
    bytes_down_chunk [of "d + n div 4 * 4" "s + n div 4 * 4" "unat (n mod 4)" m]
    chunk_down [of d s "4 * unat (n div 4)" "unat (n mod 4)" m]
  by (simp add: mult.commute)

lemma chunk_same [simp]: "chunk c d d m = m"
  by (auto simp: chunk_def)

lemma memcpy_chunk:
  "unat (src - dest) + unat n \<le> 2 ^ 32 \<Longrightarrow> memcpy dest src n m = (dest, chunk (unat n) dest src m)"
  by (simp add: memcpy_def Let_def chunk_up_split)

lemma memmove_chunk:
  assumes "unat dest + unat n \<le> 2 ^ 32" "unat src + unat n \<le> 2 ^ 32"
  shows "memmove dest src n m = (dest, chunk (unat n) dest src m)"
proof (cases "src > dest")
  case True
  then have "unat (src - dest) + unat n \<le> 2 ^ 32"
    using assms by (simp add: unat_sub_if' word_less_nat_alt)
  then show ?thesis using True by (auto simp: memmove_def Let_def chunk_up_split)
next
  case False
  then have "unat (dest - src) + unat n \<le> 2 ^ 32"
    using assms by (simp add: unat_sub_if' word_less_nat_alt)
  then show ?thesis using False by (auto simp: memmove_def Let_def chunk_down_split)
qed

text \<open>C15: for areas that do not wrap around the end of the address space, however they overlap, \<open>memmove\<close>
  returns the destination and leaves every byte of it with what the source held before the call, and
  every byte outside of it untouched.\<close>

theorem memmove_correct:
  assumes "unat dest + unat n \<le> 2 ^ 32" "unat src + unat n \<le> 2 ^ 32"
  shows "memmove dest src n m
       = (dest, \<lambda>a. if unat (a - dest) < unat n then m (src + (a - dest)) else m a)"
  using memmove_chunk [OF assms] by (simp add: chunk_def)

theorem memmove_correct_witness:
  "snd (memmove 5 3 6 (\<lambda>a. ucast a)) 7 = (5 :: u8) \<and> unat (5 :: u32) + unat (6 :: u32) \<le> 2 ^ 32"
  using memmove_correct [of 5 6 3 "\<lambda>a. ucast a"] by simp

text \<open>\<open>memset\<close> and \<open>memswap\<close>.\<close>

lemma memset_loop_fill:
  "i + k \<le> 2 ^ 32 \<Longrightarrow>
   memset_loop k (of_nat i) dest v m
     = (\<lambda>a. if i \<le> unat (a - dest) \<and> unat (a - dest) < i + k then v else m a)"
proof (induction k arbitrary: i m)
  case (Suc k)
  have "unat (a - dest) = i \<longleftrightarrow> a = dest + of_nat i" for a
    using Suc.prems unat_of_nat_u32 [of i] by (auto simp: algebra_simps)
  moreover have "i \<le> n \<longleftrightarrow> n = i \<or> Suc i \<le> n" for n by auto
  ultimately show ?case
    using Suc.IH [of "Suc i"] Suc.prems by (auto simp: fun_eq_iff add.commute [of 1])
qed (auto simp: fun_eq_iff)

lemma memset_fill:
  "memset dest val n m = (dest, \<lambda>a. if unat (a - dest) < unat n then ucast val else m a)"
  using memset_loop_fill [of 0 "unat n" dest "ucast val" m] unat_u32_lt [of n] by (simp add: memset_def)

section \<open>Comparing\<close>

definition same_bytes :: "nat \<Rightarrow> u32 \<Rightarrow> u32 \<Rightarrow> vmem \<Rightarrow> bool" where
  "same_bytes c a b m \<longleftrightarrow> (\<forall>i < c. m (a + of_nat i) = m (b + of_nat i))"

lemma same_bytes_simps [simp]: "same_bytes 0 a b m" "same_bytes c a a m"
  by (simp_all add: same_bytes_def)

lemma same_bytes_add:
  "same_bytes (c + e) a b m \<longleftrightarrow>
     same_bytes c a b m \<and> same_bytes e (a + of_nat c) (b + of_nat c) m" (is "?l \<longleftrightarrow> ?r")
proof
  assume ?l
  then have "m (a + of_nat (c + i)) = m (b + of_nat (c + i))" if "i < e" for i
    using that unfolding same_bytes_def by (metis add_strict_left_mono)
  then show ?r using \<open>?l\<close> by (simp add: same_bytes_def add.assoc)
next
  assume r: ?r
  show ?l unfolding same_bytes_def
  proof (intro allI impI)
    fix i assume i: "i < c + e"
    show "m (a + of_nat i) = m (b + of_nat i)"
    proof (cases "i < c")
      case True
      then show ?thesis using r by (simp add: same_bytes_def)
    next
      case False
      then have "i - c < e" using i by linarith
      then have "m (a + of_nat c + of_nat (i - c)) = m (b + of_nat c + of_nat (i - c))"
        using r unfolding same_bytes_def by blast
      then show ?thesis using False by (simp add: of_nat_diff)
    qed
  qed
qed

lemma same_bytes_1: "same_bytes (Suc 0) a b m \<longleftrightarrow> m a = m b"
  by (auto simp: same_bytes_def)

lemma same_bytes_word: "rd32 m a = rd32 m b \<longleftrightarrow> same_bytes 4 a b m"
proof -
  have "rd32 m a = rd32 m b \<longleftrightarrow>
      m a = m b \<and> m (a + 1) = m (b + 1) \<and> m (a + 2) = m (b + 2) \<and> m (a + 3) = m (b + 3)"
    unfolding rd32_def by (metis byte_of_join32)
  also have "\<dots> \<longleftrightarrow> same_bytes (Suc (Suc (Suc (Suc 0)))) a b m"
    by (auto simp: same_bytes_def less_Suc_eq)
  finally show ?thesis by (simp add: numeral_eq_Suc)
qed

lemma cmp_words_same:
  "cmp_words k (of_nat i) a b m = None \<longleftrightarrow>
     same_bytes (4 * k) (a + of_nat (4 * i)) (b + of_nat (4 * i)) m"
  "cmp_words k (of_nat i) a b m \<noteq> Some 0"
proof (induction k arbitrary: i)
  case (Suc k)
  case 1
  show ?case
    using Suc.IH(1) [of "Suc i"]
      same_bytes_add [of 4 "4 * k" "a + of_nat (4 * i)" "b + of_nat (4 * i)" m]
    by (simp add: Let_def same_bytes_word algebra_simps)
  case 2
  show ?case using Suc.IH(2) [of "Suc i"] by (simp add: Let_def algebra_simps)
qed simp_all

lemma cmp_bytes_same:
  "cmp_bytes k (of_nat i) a b m = None \<longleftrightarrow> same_bytes k (a + of_nat i) (b + of_nat i) m"
  "cmp_bytes k (of_nat i) a b m \<noteq> Some 0"
proof (induction k arbitrary: i)
  case (Suc k)
  case 1
  show ?case
    using Suc.IH(1) [of "Suc i"] same_bytes_add [of 1 k "a + of_nat i" "b + of_nat i" m]
    by (simp add: Let_def same_bytes_1 algebra_simps)
  case 2
  have "uint (ucast x :: u32) = uint x" for x :: u8 by (rule uint_up_ucast) (simp add: is_up)
  then have "(ucast x :: u32) = ucast y \<longleftrightarrow> x = y" for x y :: u8 by (metis word_uint_eqI)
  then show ?case using Suc.IH(2) [of "Suc i"] by (simp add: Let_def algebra_simps)
qed simp_all

lemma memcmp_0_iff: "memcmp a b n m = 0 \<longleftrightarrow> same_bytes (unat n) a b m"
  using cmp_words_same [of "unat (n div 4)" 0 a b m] fast_split [of n]
    cmp_bytes_same [of "unat (n mod 4)" 0 "a + n div 4 * 4" "b + n div 4 * 4" m]
    same_bytes_add [of "4 * unat (n div 4)" "unat (n mod 4)" a b m]
  by (auto simp: memcmp_def Let_def mult.commute split: option.splits)

section \<open>Searching\<close>

text \<open>The first index of a range with a property, as an address.\<close>

definition first_at :: "u32 \<Rightarrow> (nat \<Rightarrow> bool) \<Rightarrow> nat \<Rightarrow> nat \<Rightarrow> u32" where
  "first_at base P i e = (case find P [i..<e] of None \<Rightarrow> NULL | Some j \<Rightarrow> base + of_nat j)"

lemma first_at_end [simp]: "e \<le> i \<Longrightarrow> first_at base P i e = NULL"
  by (simp add: first_at_def)

lemma first_at_hit: "i < e \<Longrightarrow> P i \<Longrightarrow> first_at base P i e = base + of_nat i"
  by (simp add: first_at_def upt_rec)

lemma first_at_miss: "\<not> P i \<Longrightarrow> first_at base P i e = first_at base P (Suc i) e"
  by (cases "i < e") (simp_all add: first_at_def upt_rec [of i])

lemma memchr_loop_first:
  "memchr_loop k (of_nat i) src c m = first_at src (\<lambda>j. m (src + of_nat j) = c) i (i + k)"
proof (induction k arbitrary: i)
  case (Suc k)
  show ?case
    using Suc.IH [of "Suc i"] by (auto simp: first_at_hit first_at_miss [of _ i] add.commute)
qed simp

text \<open>The needle begins at offset \<open>j\<close> of the haystack.\<close>

definition occurs_at :: "u32 \<Rightarrow> u32 \<Rightarrow> nat \<Rightarrow> vmem \<Rightarrow> nat \<Rightarrow> bool" where
  "occurs_at y x c mem j \<longleftrightarrow> same_bytes c x (y + of_nat j) mem"

lemma occurs_at_two:
  "2 \<le> c \<Longrightarrow> occurs_at y x c mem j \<longleftrightarrow>
     mem x = mem (y + of_nat j) \<and> mem (x + 1) = mem (y + of_nat j + 1) \<and>
     same_bytes (c - 2) (x + 2) (y + of_nat j + 2) mem"
  using same_bytes_add [of 1 "Suc (c - 2)" x "y + of_nat j" mem]
    same_bytes_add [of 1 "c - 2" "x + 1" "y + of_nat j + 1" mem]
  by (simp add: occurs_at_def same_bytes_1 numeral_2_eq_2 add.assoc Suc_diff_Suc)

lemma memmem_loop_first:
  assumes m: "2 \<le> unat m" "unat m \<le> unat n"
    and kl: "(k, l) = (if mem x = mem (x + 1) then (2, 1) else (1, 2))"
  shows "j \<le> unat n - unat m + 2 \<Longrightarrow> memmem_loop y n x m k l (of_nat j) mem
       = Some (first_at y (occurs_at y x (unat m) mem) j (Suc (unat n - unat m)))"
proof (induction "unat n - unat m + 2 - j" arbitrary: j rule: less_induct)
  case less
  let ?P = "occurs_at y x (unat m) mem" and ?E = "Suc (unat n - unat m)"
  have nm: "unat (n - m) = unat n - unat m" using m(2) by (simp add: unat_sub_if')
  have lt: "unat n < 2 ^ 32" using unat_u32_lt [of n] by simp
  have J: "unat (of_nat j :: u32) = j" by (rule unat_of_nat_u32) (use less.prems m lt in linarith)
  have m2: "unat (m - 2) = unat m - 2" using m(1) by (simp add: unat_sub_if')
  note step = memmem_loop.simps [of y n x m k l "of_nat j" mem]
  have next1: "memmem_loop y n x m k l (of_nat j + 1) mem = Some (first_at y ?P (Suc j) ?E)" if "j < ?E"
    using less.hyps [of "Suc j"] that by (simp add: add.commute)
  have next2: "memmem_loop y n x m k l (of_nat j + 2) mem = Some (first_at y ?P (Suc (Suc j)) ?E)" if "j < ?E"
    using less.hyps [of "Suc (Suc j)"] that by (simp add: add.commute)
  show ?case
  proof (cases "j < ?E")
    case False
    then show ?thesis using step J nm by (simp add: word_le_nat_alt)
  next
    case True
    then have on: "of_nat j \<le> n - m" using J nm by (simp add: word_le_nat_alt)
    note two = occurs_at_two [OF m(1)]
    have nxt: "mem x = mem (y + of_nat j + 1)" if "?P (Suc j)"
      using that two [of y x mem "Suc j"] by (simp add: ac_simps)
    consider (second) "mem (x + 1) \<noteq> mem (y + of_nat j + 1)"
      | (hit) "mem (x + 1) = mem (y + of_nat j + 1)" "?P j"
      | (other) "mem (x + 1) = mem (y + of_nat j + 1)" "\<not> ?P j" by blast
    then show ?thesis
    proof cases
      case second
      then have miss: "\<not> ?P j" "mem x = mem (x + 1) \<Longrightarrow> \<not> ?P (Suc j)"
        using two [of y x mem j] nxt by metis+
      show ?thesis
        using step on second kl next1 [OF True] next2 [OF True] first_at_miss [of ?P j, OF miss(1)]
          first_at_miss [of ?P "Suc j", OF miss(2)]
        by (auto split: if_splits)
    next
      case hit
      then show ?thesis
        using step on True by (simp add: two memcmp_0_iff m2 first_at_hit)
    next
      case other
      then have miss: "mem x \<noteq> mem (x + 1) \<Longrightarrow> \<not> ?P (Suc j)"
        using nxt by metis
      show ?thesis
        using step on other kl next1 [OF True] next2 [OF True] first_at_miss [of ?P j, OF other(2)]
          first_at_miss [of ?P "Suc j", OF miss]
        by (auto simp: two memcmp_0_iff m2 split: if_splits)
    qed
  qed
qed

text \<open>C16: \<open>memmem\<close> always returns, although its loop advances by one or two bytes depending on where
  the comparison failed, and its result is the address of the first occurrence of the needle in the
  haystack, or a null pointer when there is none or the needle is empty.\<close>

theorem memmem_first_occurrence:
  "memmem haystack n needle m mem =
     Some (if m = 0 then NULL
           else first_at haystack (occurs_at haystack needle (unat m) mem) 0 (Suc (unat n) - unat m))"
proof -
  let ?P = "occurs_at haystack needle (unat m) mem"
  consider (empty) "m = 0" | (long) "m > n" | (one) "m = 1" "m \<le> n" | (two) "2 \<le> unat m" "m \<le> n"
    by (metis One_nat_def Suc_1 Suc_leI le_neq_implies_less not_less unat_0 unat_1 unat_gt_0 word_unat_eq_iff)
  then show ?thesis
  proof cases
    case two
    then have "unat m \<le> unat n" "m \<noteq> 0" "m \<noteq> 1" "n \<noteq> 0" "\<not> m > n"
      by (auto simp: word_le_nat_alt word_less_nat_alt)
    then have "memmem haystack n needle m mem
        = memmem_loop haystack n needle m (if mem needle = mem (needle + 1) then 2 else 1)
            (if mem needle = mem (needle + 1) then 1 else 2) (of_nat 0) mem"
      by (simp add: memmem_def Let_def)
    also have "\<dots> = Some (first_at haystack ?P 0 (Suc (unat n - unat m)))"
      by (rule memmem_loop_first) (use two \<open>unat m \<le> unat n\<close> in simp_all)
    finally show ?thesis using \<open>m \<noteq> 0\<close> \<open>unat m \<le> unat n\<close> by (simp add: Suc_diff_le)
  next
    case one
    then have "memmem haystack n needle m mem = Some (memchr_loop (unat n) (of_nat 0) haystack (mem needle) mem)"
      by (auto simp: memmem_def)
    also have "\<dots> = Some (first_at haystack ?P 0 (unat n))"
      unfolding memchr_loop_first using one
      by (simp add: occurs_at_def [abs_def] same_bytes_1 eq_commute [of "mem needle"])
    finally show ?thesis using one by simp
  qed (simp_all add: memmem_def word_less_nat_alt)
qed

end
