(* ===== verification/CStrProps.thy ===== *)
theory CStrProps
  imports CStr CMemProps
begin

text \<open>
  What the string functions compute, in terms of the list of characters at an address: lengths, copies,
  comparisons, spans and the tokens of \<open>strtok\<close>.
\<close>

unbundle bit_operations_syntax

section \<open>Strings in memory\<close>

text \<open>The characters before the terminating zero at address \<open>s\<close> are \<open>xs\<close>.\<close>

fun cstr :: "u32 \<Rightarrow> u8 list \<Rightarrow> vmem \<Rightarrow> bool" where
  "cstr s [] m \<longleftrightarrow> m s = 0"
| "cstr s (x # xs) m \<longleftrightarrow> x \<noteq> 0 \<and> m s = x \<and> cstr (s + 1) xs m"

lemma cstr_iff:
  "cstr s xs m \<longleftrightarrow> (\<forall>i < length xs. m (s + of_nat i) = xs ! i \<and> xs ! i \<noteq> 0) \<and> m (s + of_nat (length xs)) = 0"
proof (induction xs arbitrary: s)
  case (Cons x xs)
  have "(\<forall>i < length (x # xs). m (s + of_nat i) = (x # xs) ! i \<and> (x # xs) ! i \<noteq> 0) \<longleftrightarrow>
      m s = x \<and> x \<noteq> 0 \<and> (\<forall>i < length xs. m (s + 1 + of_nat i) = xs ! i \<and> xs ! i \<noteq> 0)"
    by (auto simp: All_less_Suc2 add.assoc)
  then show ?case using Cons by (auto simp: add.assoc)
qed simp

text \<open>A string is shorter than the address space.\<close>

lemma cstr_length: "cstr s xs m \<Longrightarrow> length xs < 2 ^ 32"
proof (rule ccontr)
  assume s: "cstr s xs m" and long: "\<not> length xs < 2 ^ 32"
  obtain j where j: "j < 2 ^ 32" "s + of_nat (length xs) = s + (of_nat j :: u32)"
    using u32_offset by blast
  then have "j < length xs" using long by linarith
  then have "m (s + of_nat j) \<noteq> 0" using s by (simp add: cstr_iff)
  then show False using s j(2) by (simp add: cstr_iff)
qed

lemma cstr_unique: "cstr s xs m \<Longrightarrow> cstr s ys m \<Longrightarrow> xs = ys"
proof (induction xs arbitrary: s ys)
  case Nil
  then show ?case by (cases ys) auto
next
  case (Cons x xs)
  then show ?case by (cases ys) auto
qed

lemma cstr_append: "cstr s (xs @ ys) m \<longleftrightarrow>
    (\<forall>i < length xs. m (s + of_nat i) = xs ! i \<and> xs ! i \<noteq> 0) \<and> cstr (s + of_nat (length xs)) ys m"
proof (induction xs arbitrary: s)
  case (Cons x xs)
  then show ?case by (auto simp: All_less_Suc2 add.assoc)
qed simp

text \<open>Only the bytes of the string matter.\<close>

lemma cstr_cong:
  "cstr s xs m \<Longrightarrow> (\<And>i. i \<le> length xs \<Longrightarrow> m' (s + of_nat i) = m (s + of_nat i)) \<Longrightarrow> cstr s xs m'"
  by (simp add: cstr_iff)

lemma strlen_loop_cstr:
  "cstr (s + i) xs m \<Longrightarrow> strlen_loop s i m = Some (i + of_nat (length xs))"
proof (induction xs arbitrary: i)
  case Nil
  then show ?case by (simp add: strlen_loop.simps)
next
  case (Cons x xs)
  then show ?case
    using Cons.IH [of "i + 1"] by (subst strlen_loop.simps) (auto simp: add.assoc)
qed

lemma strlen_cstr: "cstr s xs m \<Longrightarrow> s \<noteq> NULL \<Longrightarrow> strlen s m = Some (of_nat (length xs))"
  using strlen_loop_cstr [of s 0 xs m] by (simp add: strlen_def)

text \<open>A copy may overwrite its source only behind what it has already read: the destination does not
  begin inside of the source.\<close>

lemma chunk_ahead:
  assumes "unat (src - dest) + i < 2 ^ 32"
  shows "chunk i dest src m (src + of_nat i) = m (src + of_nat i)"
proof -
  have "src + of_nat i = dest + of_nat (unat (src - dest) + i)" by simp
  then show ?thesis unfolding chunk_at [OF assms] by (simp only: chunk_at [OF assms]) simp
qed

lemma chunk_Suc:
  assumes "unat (src - dest) + i < 2 ^ 32"
  shows "(chunk i dest src m)(dest + of_nat i := m (src + of_nat i)) = chunk (Suc i) dest src m"
  using chunk_up [of src dest i 1 m] chunk_byte [of "chunk i dest src m" "dest + of_nat i" "src + of_nat i"]
    chunk_ahead [OF assms, of m] assms by simp

lemma strcpy_loop_cstr:
  assumes "cstr (src + of_nat i) xs m"
    "unat (src - dest) + (i + length xs + 1) \<le> 2 ^ 32"
  shows "strcpy_loop dest src (of_nat i) (chunk i dest src m)
       = Some (of_nat (i + length xs), chunk (i + length xs) dest src m)"
  using assms
proof (induction xs arbitrary: i)
  case Nil
  then show ?case by (subst strcpy_loop.simps) (simp add: chunk_ahead)
next
  case (Cons x xs)
  then have lt: "unat (src - dest) + i < 2 ^ 32" by simp
  have "(chunk i dest src m)(dest + of_nat i := x) = chunk (Suc i) dest src m"
    using chunk_Suc [OF lt, of m] Cons.prems(1) by simp
  then show ?case
    using Cons.IH [of "Suc i"] Cons.prems
    by (subst strcpy_loop.simps) (simp add: chunk_ahead [OF lt] ac_simps)
qed

lemma strcpy_cstr:
  assumes "cstr src xs m" "unat (src - dest) + (length xs + 1) \<le> 2 ^ 32"
  shows "strcpy dest src m = Some (dest, chunk (Suc (length xs)) dest src m)"
proof -
  let ?n = "length xs"
  have "m (src + of_nat ?n) = 0" using assms(1) by (simp add: cstr_iff)
  then have "(chunk ?n dest src m)(dest + of_nat ?n := 0) = chunk (Suc ?n) dest src m"
    using chunk_Suc [of src dest ?n m] assms(2) by simp
  then show ?thesis
    using strcpy_loop_cstr [of src 0 xs m dest] assms by (simp add: strcpy_def)
qed

lemma cstr_chunk:
  assumes "cstr src xs m" "length xs < c" "c \<le> 2 ^ 32"
  shows "cstr dest xs (chunk c dest src m)"
  unfolding cstr_iff
proof (intro conjI allI impI)
  fix i assume "i < length xs"
  then show "chunk c dest src m (dest + of_nat i) = xs ! i" "xs ! i \<noteq> 0"
    using assms by (simp_all add: cstr_iff chunk_at)
next
  show "chunk c dest src m (dest + of_nat (length xs)) = 0"
    using assms by (simp add: cstr_iff chunk_at)
qed

text \<open>What \<open>strcpy\<close> writes is the string.\<close>

lemma strcpy_string:
  assumes "cstr src xs m" "unat (src - dest) + (length xs + 1) \<le> 2 ^ 32"
  shows "\<exists>m'. strcpy dest src m = Some (dest, m') \<and> cstr dest xs m'"
  using strcpy_cstr [OF assms] cstr_chunk [OF assms(1), of "Suc (length xs)" dest] cstr_length [OF assms(1)]
  by simp

section \<open>Comparing\<close>

lemma scast_char_inj: "(scast x :: u32) = scast y \<longleftrightarrow> x = (y :: u8)"
proof -
  have "sint (scast x :: u32) = sint x" for x :: u8 by (rule sint_up_scast) (simp add: is_up)
  then show ?thesis by (metis signed_word_eqI)
qed

lemma strcmp_loop_cstr:
  "cstr (s + i) xs m \<Longrightarrow> cstr (t + i) ys m \<Longrightarrow>
   \<exists>d. strcmp_loop s t i m = Some d \<and> (d = 0 \<longleftrightarrow> xs = ys)"
proof (induction xs arbitrary: i ys)
  case Nil
  then show ?case
    by (cases ys) (auto simp: strcmp_loop.simps [of _ _ i] Let_def scast_char_inj [of _ 0, simplified])
next
  case (Cons x xs)
  show ?case
  proof (cases ys)
    case Nil
    then show ?thesis using Cons.prems
      by (auto simp: strcmp_loop.simps [of _ _ i] Let_def scast_char_inj [of _ 0, simplified])
  next
    case ys: (Cons y ys')
    then show ?thesis
      using Cons.prems Cons.IH [of "i + 1" ys']
      by (auto simp: strcmp_loop.simps [of _ _ i] Let_def scast_char_inj add.assoc)
  qed
qed

text \<open>\<open>strcmp\<close> decides equality.\<close>

lemma strcmp_cstr:
  "cstr s xs m \<Longrightarrow> cstr t ys m \<Longrightarrow> \<exists>d. strcmp s t m = Some d \<and> (d = 0 \<longleftrightarrow> xs = ys)"
  using strcmp_loop_cstr [of s 0 xs m t ys] cstr_unique [of s xs m ys] by (auto simp: strcmp_def)

section \<open>Spans and tokens\<close>

lemma matchmap_loop_cstr:
  "cstr d ds m \<Longrightarrow> matchmap_loop d t m = Some (\<lambda>b. if b \<in> set ds then 1 else t b)"
proof (induction ds arbitrary: d t)
  case Nil
  then show ?case by (simp add: matchmap_loop.simps)
next
  case (Cons x ds)
  then show ?case by (subst matchmap_loop.simps) (auto simp: fun_eq_iff)
qed

lemma span_loop_cstr:
  "cstr s xs m \<Longrightarrow> t 0 = parity \<Longrightarrow>
   span_loop s t parity n m = Some (n + of_nat (length (takeWhile (\<lambda>b. t b \<noteq> parity) xs)))"
proof (induction xs arbitrary: s n)
  case Nil
  then show ?case by (simp add: span_loop.simps)
next
  case (Cons x xs)
  have "t x XOR parity = 0 \<longleftrightarrow> t x = parity"
    by (auto simp: bit_eq_iff bit_simps)
  then show ?case using Cons by (subst span_loop.simps) (simp add: add.assoc)
qed

lemma strxspn_cstr:
  assumes "cstr s xs m" "cstr d ds m"
  shows "strspn s d m = Some (of_nat (length (takeWhile (\<lambda>b. b \<in> set ds) xs)))"
    and "strcspn s d m = Some (of_nat (length (takeWhile (\<lambda>b. b \<notin> set ds) xs)))"
proof -
  have nz: "b \<noteq> 0" if "b \<in> set xs" for b
    using assms(1) that by (auto simp: cstr_iff in_set_conv_nth)
  let ?t = "\<lambda>b. if b \<in> set ds then 1 else (0 :: u32)"
  have "takeWhile (\<lambda>b. (?t(0 := 0)) b \<noteq> 0) xs = takeWhile (\<lambda>b. b \<in> set ds) xs"
    by (rule takeWhile_cong) (auto simp: nz)
  then show "strspn s d m = Some (of_nat (length (takeWhile (\<lambda>b. b \<in> set ds) xs)))"
    using span_loop_cstr [OF assms(1), of "?t(0 := 0)" 0 0]
    by (simp add: strspn_def strxspn_def matchmap_loop_cstr [OF assms(2)])
  have "takeWhile (\<lambda>b. (?t(0 := 1)) b \<noteq> 1) xs = takeWhile (\<lambda>b. b \<notin> set ds) xs"
    by (rule takeWhile_cong) (auto simp: nz)
  then show "strcspn s d m = Some (of_nat (length (takeWhile (\<lambda>b. b \<notin> set ds) xs)))"
    using span_loop_cstr [OF assms(1), of "?t(0 := 1)" 1 0]
    by (simp add: strcspn_def strxspn_def matchmap_loop_cstr [OF assms(2)])
qed

lemma strpbrk_cstr:
  assumes "cstr s xs m" "cstr d ds m"
  shows "strpbrk s d m = Some (case dropWhile (\<lambda>b. b \<notin> set ds) xs of
      [] \<Rightarrow> NULL | _ \<Rightarrow> s + of_nat (length (takeWhile (\<lambda>b. b \<notin> set ds) xs)))"
proof -
  let ?u = "takeWhile (\<lambda>b. b \<notin> set ds) xs" and ?v = "dropWhile (\<lambda>b. b \<notin> set ds) xs"
  have "cstr (s + of_nat (length ?u)) ?v m"
    using assms(1) cstr_append [of s ?u ?v m] by simp
  then have "m (s + of_nat (length ?u)) = 0 \<longleftrightarrow> ?v = []" by (cases ?v) auto
  then show ?thesis
    using strxspn_cstr(2) [OF assms] 
    by (cases ?v) (simp_all add: strpbrk_def strcspn_def del: dropWhile_eq_Nil_conv)
qed

text \<open>\<open>strsep\<close>: the next field, and the string behind the delimiter that ended it.\<close>

lemma strsep_cstr:
  assumes "cstr s xs m" "cstr d ds m" "s \<noteq> NULL" "unat s + length xs < 2 ^ 32"
  defines "k \<equiv> of_nat (length (takeWhile (\<lambda>b. b \<notin> set ds) xs))"
  shows "strsep s d m = Some (case dropWhile (\<lambda>b. b \<notin> set ds) xs of
      [] \<Rightarrow> (s, NULL, m) | _ \<Rightarrow> (s, s + k + 1, m(s + k := 0)))"
proof (cases "dropWhile (\<lambda>b. b \<notin> set ds) xs")
  case Nil
  then show ?thesis using strpbrk_cstr [OF assms(1,2)] assms(3)
    by (simp add: strsep_def del: dropWhile_eq_Nil_conv)
next
  case (Cons y ys)
  let ?k = "length (takeWhile (\<lambda>b. b \<notin> set ds) xs)"
  have "?k \<le> length xs" by (rule length_takeWhile_le)
  then have "unat (s + k) = unat s + ?k"
    using assms(4) unfolding k_def by (simp add: unat_word_ariths unat_of_nat_u32)
  then have "s + k \<noteq> NULL" using assms(3) by (metis add_is_0 unat_0 unat_eq_zero)
  then show ?thesis using strpbrk_cstr [OF assms(1,2)] assms(3) Cons
    by (simp add: strsep_def k_def del: dropWhile_eq_Nil_conv)
qed

text \<open>The strings \<open>s\<close> and \<open>d\<close> have no byte in common, and the address 0 is not behind \<open>s\<close>.\<close>

definition tok_args :: "u32 \<Rightarrow> u8 list \<Rightarrow> u32 \<Rightarrow> u8 list \<Rightarrow> vmem \<Rightarrow> bool" where
  "tok_args s xs d ds m \<longleftrightarrow>
     cstr s xs m \<and> cstr d ds m \<and> s \<noteq> NULL \<and> unat s + length xs < 2 ^ 32 \<and>
     (\<forall>i \<le> length xs. \<forall>k \<le> length ds. s + of_nat i \<noteq> d + of_nat k)"

text \<open>Writing a zero at a delimiter: the rest of the string and the delimiters stay.\<close>

lemma tok_args_cut:
  assumes a: "tok_args s xs d ds m" and k: "k < length xs"
  shows "tok_args (s + of_nat k + 1) (drop (Suc k) xs) d ds (m(s + of_nat k := 0))"
    and "cstr s (take k xs) (m(s + of_nat k := 0))"
proof -
  let ?m = "m(s + of_nat k := 0)"
  have lt: "unat s + length xs < 2 ^ 32" using a by (simp add: tok_args_def)
  have inj: "s + of_nat i = s + of_nat k \<longleftrightarrow> i = k" if "i \<le> length xs" for i
  proof
    assume "s + of_nat i = s + of_nat k"
    then have "unat (of_nat i :: u32) = unat (of_nat k :: u32)" by simp
    then show "i = k" using lt that k by (simp add: unat_of_nat_u32)
  qed simp
  have other: "?m (s + of_nat i) = m (s + of_nat i)" if "i \<le> length xs" "i \<noteq> k" for i
    using inj [OF that(1)] that(2) by simp
  have s': "s + of_nat k + 1 + of_nat i = s + of_nat (Suc k + i)" for i by (simp add: ac_simps)
  have "unat (s + of_nat (Suc k)) = unat s + Suc k"
    using lt k by (simp add: unat_word_ariths unat_of_nat_u32 del: of_nat_Suc)
  then have nn: "unat (s + of_nat k + 1) = unat s + Suc k" by (simp add: ac_simps)
  have c: "\<forall>i < length xs. m (s + of_nat i) = xs ! i \<and> xs ! i \<noteq> 0" "m (s + of_nat (length xs)) = 0"
    using a by (simp_all add: tok_args_def cstr_iff)
  have "cstr (s + of_nat k + 1) (drop (Suc k) xs) ?m"
    unfolding cstr_iff s'
  proof (intro conjI allI impI)
    fix i assume "i < length (drop (Suc k) xs)"
    then have i: "Suc k + i < length xs" by simp
    then have "?m (s + of_nat (Suc k + i)) = xs ! (Suc k + i)" "xs ! (Suc k + i) \<noteq> 0"
      using other [of "Suc k + i"] c(1) by (simp_all only: less_imp_le) auto
    then show "?m (s + of_nat (Suc k + i)) = drop (Suc k) xs ! i" "drop (Suc k) xs ! i \<noteq> 0"
      using k by simp_all
  next
    have e: "Suc k + length (drop (Suc k) xs) = length xs" using k by simp
    show "?m (s + of_nat (Suc k + length (drop (Suc k) xs))) = 0"
      unfolding e using other [of "length xs"] c(2) k by simp
  qed
  moreover have "cstr d ds ?m"
    using a k by (auto simp: tok_args_def cstr_iff) (metis less_imp_le)+
  moreover have "s + of_nat k + 1 \<noteq> NULL" using nn by (metis nat.distinct(1) add_is_0 unat_0)
  moreover have "unat (s + of_nat k + 1) + length (drop (Suc k) xs) < 2 ^ 32"
    using nn lt k by simp
  moreover have "s + of_nat (Suc k + i) \<noteq> d + of_nat j"
    if "i \<le> length (drop (Suc k) xs)" "j \<le> length ds" for i j
  proof -
    have "Suc k + i \<le> length xs" using that(1) k by simp
    then show ?thesis using a that(2) unfolding tok_args_def by blast
  qed
  ultimately show "tok_args (s + of_nat k + 1) (drop (Suc k) xs) d ds ?m"
    unfolding tok_args_def s' by blast
  show "cstr s (take k xs) ?m"
    unfolding cstr_iff using c k other by simp
qed

text \<open>The first character that is no delimiter begins the token.\<close>

lemma strtok_loop_token:
  assumes "tok_args s xs d ds m" "xs = x # xs'" "x \<notin> set ds"
  defines "tok \<equiv> takeWhile (\<lambda>b. b \<notin> set ds) xs" and "rest \<equiv> dropWhile (\<lambda>b. b \<notin> set ds) xs"
  shows "\<exists>h m'. strtok_loop s d m = Some (s, h, m') \<and> cstr s tok m' \<and>
      (if rest = [] then h = NULL else tok_args h (tl rest) d ds m')"
proof (cases rest)
  case Nil
  then have "tok = xs" unfolding tok_def rest_def by (metis append.right_neutral takeWhile_dropWhile_id)
  moreover have "strsep s d m = Some (s, NULL, m)"
    using strsep_cstr [of s xs m d ds] assms(1) Nil by (simp add: tok_args_def rest_def del: dropWhile_eq_Nil_conv)
  moreover have "cstr s xs m" "m s \<noteq> 0" using assms(1,2) by (auto simp: tok_args_def)
  ultimately show ?thesis using Nil by (subst strtok_loop.simps) auto
next
  case (Cons y ys)
  let ?k = "length tok" and ?m = "m(s + of_nat (length tok) := 0)"
  have k: "?k < length xs"
    using Cons unfolding tok_def rest_def
    by (metis length_append less_add_same_cancel1 length_greater_0_conv list.distinct(1) takeWhile_dropWhile_id)
  have parts: "take ?k xs = tok" "drop (Suc ?k) xs = tl rest"
    unfolding tok_def rest_def by (simp_all add: takeWhile_eq_take [symmetric] dropWhile_eq_drop tl_drop drop_Suc)
  have "0 < ?k" using assms(2,3) by (simp add: tok_def)
  then have "cstr s tok ?m" "tok \<noteq> []" using tok_args_cut(2) [OF assms(1) k] parts by auto
  then have "?m s \<noteq> 0" by (cases tok) auto
  moreover have "strsep s d m = Some (s, s + of_nat ?k + 1, ?m)"
    using strsep_cstr [of s xs m d ds] assms(1) Cons
    by (simp add: tok_args_def rest_def tok_def del: dropWhile_eq_Nil_conv)
  ultimately show ?thesis
    using tok_args_cut [OF assms(1) k] parts Cons by (subst strtok_loop.simps) auto
qed

lemma strtok_loop_next:
  assumes "tok_args s xs d ds m"
  shows "let ys = dropWhile (\<lambda>b. b \<in> set ds) xs;
             tok = takeWhile (\<lambda>b. b \<notin> set ds) ys; rest = dropWhile (\<lambda>b. b \<notin> set ds) ys;
             p = s + of_nat (length xs - length ys)
         in \<exists>h m'. strtok_loop s d m = Some (if ys = [] then NULL else p, h, m') \<and>
              (if ys = [] then h = NULL
               else cstr p tok m' \<and> (if rest = [] then h = NULL else tok_args h (tl rest) d ds m'))"
  using assms
proof (induction xs arbitrary: s m)
  case Nil
  then have "strsep s d m = Some (s, NULL, m)" "m s = 0"
    using strsep_cstr [of s "[]" m d ds] by (simp_all add: tok_args_def)
  moreover have "strtok_loop NULL d m = Some (NULL, NULL, m)"
    by (subst strtok_loop.simps) (simp add: strsep_def)
  ultimately show ?case by (subst strtok_loop.simps) simp
next
  case (Cons x xs)
  show ?case
  proof (cases "x \<in> set ds")
    case False
    then show ?thesis using strtok_loop_token [OF Cons.prems] by (simp add: Let_def)
  next
    case True
    let ?ys = "dropWhile (\<lambda>b. b \<in> set ds) xs" and ?m = "m(s := 0)"
    have "strsep s d m = Some (s, s + 1, ?m)"
      using strsep_cstr [of s "x # xs" m d ds] Cons.prems True by (simp add: tok_args_def)
    moreover have "s \<noteq> NULL" using Cons.prems by (simp add: tok_args_def)
    ultimately have "strtok_loop s d m = strtok_loop (s + 1) d ?m"
      by (subst strtok_loop.simps) simp
    moreover have "s + of_nat (length (x # xs) - length ?ys) = s + 1 + of_nat (length xs - length ?ys)"
      using length_dropWhile_le [of "\<lambda>b. b \<in> set ds" xs] by (simp add: Suc_diff_le ac_simps)
    moreover have "tok_args (s + 1) xs d ds ?m" using tok_args_cut(1) [OF Cons.prems, of 0] by simp
    ultimately show ?thesis using Cons.IH [of "s + 1" ?m] True by (simp only: dropWhile.simps if_True Let_def simp_thms)
  qed
qed

text \<open>C24: a call of \<open>strtok\<close> on a string, or one that goes on with the string the previous call left, returns.
  Its result is the next token: the longest run without a delimiter behind the leading delimiters, ended
  by a zero, and a null pointer when only delimiters are left. What the function keeps for the next call
  is the string behind the delimiter that ended the token, or a null pointer at the end.\<close>

theorem strtok_next_token:
  assumes "tok_args s xs d ds m" "arg = s \<or> arg = NULL \<and> holder = s"
  shows "let ys = dropWhile (\<lambda>b. b \<in> set ds) xs;
             tok = takeWhile (\<lambda>b. b \<notin> set ds) ys; rest = dropWhile (\<lambda>b. b \<notin> set ds) ys;
             p = s + of_nat (length xs - length ys)
         in \<exists>holder' m'. strtok holder arg d m = Some (if ys = [] then NULL else p, holder', m') \<and>
              (if ys = [] then holder' = NULL
               else cstr p tok m' \<and> (if rest = [] then holder' = NULL else tok_args holder' (tl rest) d ds m'))"
proof -
  have "strtok holder arg d m = strtok_loop s d m"
    using assms by (auto simp: strtok_def tok_args_def)
  then show ?thesis using strtok_loop_next [OF assms(1)] by (simp only:)
qed

definition tok_demo :: vmem where
  "tok_demo = (\<lambda>_. 0)(100 := 47, 101 := 97, 102 := 98, 103 := 47, 104 := 99, 200 := 47)"

theorem strtok_next_token_witness:
  "tok_args 100 [47, 97, 98, 47, 99] 200 [47] tok_demo \<and>
   (\<exists>h m'. strtok 0 100 200 tok_demo = Some (101, h, m') \<and> cstr 101 [97, 98] m' \<and> tok_args h [99] 200 [47] m')"
proof -
  have apart: "100 + of_nat i \<noteq> (200 + of_nat k :: u32)" if "i \<le> 5" "k \<le> 1" for i k :: nat
  proof
    assume "100 + of_nat i = (200 + of_nat k :: u32)"
    then have "of_nat (100 + i) = (of_nat (200 + k) :: u32)" by simp
    then have "unat (of_nat (100 + i) :: u32) = unat (of_nat (200 + k) :: u32)" by (simp only:)
    then show False using that by (simp add: unat_of_nat_u32 del: of_nat_add)
  qed
  have "tok_args 100 [47, 97, 98, 47, 99] 200 [47] tok_demo"
    using apart by (simp add: tok_args_def tok_demo_def)
  then show ?thesis
    using strtok_next_token [of 100 "[47, 97, 98, 47, 99]" 200 "[47]" tok_demo 100 0] by (simp add: Let_def)
qed

end
