(* ===== verification/ConsoleProps.thy ===== *)
theory ConsoleProps
  imports Console CStrProps
begin

text \<open>
  The screen: no character makes the kernel write outside of the text buffer. The numbers: \<open>kprintnum\<close> stays
  inside of its buffer, and \<open>strntoumax\<close> reads back what it prints.
\<close>

unbundle bit_operations_syntax

section \<open>The screen\<close>

definition screen_ok :: "console \<Rightarrow> bool" where
  "screen_ok c \<longleftrightarrow> cur_x c < VGA_TEXT_WIDTH \<and> cur_y c < VGA_TEXT_HEIGHT \<and>
     unat (vga_text_video c) + unat VGA_TEXT_SIZE \<le> 2 ^ 32"

text \<open>Only the screen has changed.\<close>

definition same_outside :: "console \<Rightarrow> console \<Rightarrow> bool" where
  "same_outside c c' \<longleftrightarrow> vga_text_video c' = vga_text_video c \<and>
     (\<forall>a. unat VGA_TEXT_SIZE \<le> unat (a - vga_text_video c) \<longrightarrow> cmem c' a = cmem c a)"

lemma same_outside_trans: "same_outside a b \<Longrightarrow> same_outside b c \<Longrightarrow> same_outside a c"
  by (simp add: same_outside_def)

lemma same_outside_refl [simp]: "same_outside c c"
  by (simp add: same_outside_def)

lemma unat_screen [simp]: "unat VGA_TEXT_SIZE = 4000"
  by (simp add: vga_consts)

lemma same_outside_clear: "same_outside c (vga_text_clear c)"
  by (auto simp: same_outside_def vga_text_clear_def Let_def memset_fill)

lemma same_outside_glyph:
  assumes "screen_ok c"
  shows "same_outside c (put_glyph chr c)"
proof -
  let ?o = "cur_x c + cur_y c * 80"
  have xy: "unat (cur_x c) < 80" "unat (cur_y c) < 25"
    using assms by (simp_all add: screen_ok_def vga_consts word_less_nat_alt)
  then have "unat (cur_y c * 80) = unat (cur_y c) * 80" by (simp add: unat_word_ariths)
  then have "unat ?o = unat (cur_x c) + unat (cur_y c) * 80" using xy by (simp add: unat_word_ariths)
  then have o: "unat (?o * 2) = 2 * (unat (cur_x c) + unat (cur_y c) * 80)"
    using xy by (simp add: unat_word_ariths)
  then have "unat (?o * 2 + 1) = Suc (unat (?o * 2))" using xy by (simp add: unat_word_ariths)
  then have "unat (?o * 2) < 4000" "unat (?o * 2 + 1) < 4000" using o xy by simp_all
  then have "a \<noteq> vga_text_video c + ?o * 2" "a \<noteq> vga_text_video c + ?o * 2 + 1"
    if "4000 \<le> unat (a - vga_text_video c)" for a
    using that by (auto simp: add.assoc)
  then show ?thesis
    by (auto simp: same_outside_def put_glyph_def Let_def emit_def VGA_TEXT_WIDTH_def VGA_TEXT_BPC_def)
qed

lemma same_outside_scroll:
  assumes "unat (vga_text_video c) + unat VGA_TEXT_SIZE \<le> 2 ^ 32"
  shows "same_outside c (scroll_up c)"
proof -
  let ?v = "vga_text_video c"
  have v: "unat (?v + 160) = unat ?v + 160" using assms by (simp add: unat_word_ariths)
  have mv: "memmove ?v (?v + 160) 3840 m = (?v, chunk 3840 ?v (?v + 160) m)" for m
    using memmove_chunk [of ?v 3840 "?v + 160" m] assms v by simp
  have far: "\<not> unat (a - (?v + 3840)) < 160" if "4000 \<le> unat (a - ?v)" for a
  proof -
    have "unat ((a - ?v) - 3840) = unat (a - ?v) - 3840" using that by (simp add: unat_sub_if')
    moreover have e: "a - (?v + 3840) = (a - ?v) - 3840" by simp
    ultimately show ?thesis unfolding e using that by simp
  qed
  have "VGA_TEXT_WIDTH * VGA_TEXT_BPC = 160" "VGA_TEXT_WIDTH * (VGA_TEXT_HEIGHT - 1) * VGA_TEXT_BPC = 3840"
    by (simp_all add: vga_consts)
  then show ?thesis
    using far by (auto simp: same_outside_def scroll_up_def Let_def mv memset_fill chunk_def)
qed

lemma small_signed:
  assumes "d < 2 ^ 31"
  shows "sint (of_nat d :: u32) = int d" "(scast (of_nat d :: u32) :: u64) = of_nat d"
proof -
  show "sint (of_nat d :: u32) = int d"
    using assms by (simp add: signed_of_nat signed_take_bit_int_eq_self)
  then show "(scast (of_nat d :: u32) :: u64) = of_nat d" by (simp add: scast_eq)
qed

lemma small_less:
  assumes "unat (x :: u32) < 2 ^ 31" "unat y < 2 ^ 31"
  shows "x <s y \<longleftrightarrow> unat x < unat y" "x \<le>s y \<longleftrightarrow> unat x \<le> unat y"
  using small_signed(1) [OF assms(1)] small_signed(1) [OF assms(2)]
  by (simp_all add: word_sless_alt word_sle_eq flip: word_less_def word_le_def word_less_nat_alt word_le_nat_alt)

text \<open>A character moves the cursor by at most one line or up to the right border.\<close>

lemma cursor_step:
  assumes "screen_ok c"
  shows "unat (cur_x (put_char chr c)) \<le> 80 \<and>
      (unat (cur_y (put_char chr c)) < 25 \<or> cur_y (put_char chr c) = 25 \<and> cur_x (put_char chr c) = 0)"
proof -
  have xy: "unat (cur_x c) < 80" "unat (cur_y c) < 25"
    using assms by (simp_all add: screen_ok_def vga_consts word_less_nat_alt)
  have pos: "0 <s cur_x c \<longleftrightarrow> 0 < unat (cur_x c)" using small_less(1) [of 0 "cur_x c"] xy by simp
  have tab: "unat ((cur_x c div 8 + 1) * 8) \<le> 80"
  proof -
    have "unat (cur_x c div 8) \<le> 9" using xy by (simp add: unat_div)
    moreover have "unat ((d + 1) * 8) \<le> 80" if "unat d \<le> 9" for d :: u32
    proof -
      have d: "unat (d + 1) = unat d + 1" using that by (simp add: unat_word_ariths)
      then have "unat ((d + 1) * 8) = unat (d + 1) * 8" using that by (simp only: unat_word_ariths) simp
      then show ?thesis using d that by simp
    qed
    ultimately show ?thesis by blast
  qed
  have dec: "unat (cur_x c - 1) \<le> 80" if "0 < unat (cur_x c)" using that xy by (simp add: unat_sub_if')
  have inc: "unat (cur_x c + 1) \<le> 80" "unat (cur_y c + 1) = unat (cur_y c) + 1"
    using xy by (simp_all add: unat_word_ariths)
  then have down: "unat (cur_y c + 1) < 25 \<or> cur_y c + 1 = 25"
    using xy by (simp add: word_unat_eq_iff) linarith
  show ?thesis
    using xy pos tab dec inc down
    by (auto simp: put_char_def put_glyph_def vga_text_clear_def emit_def Let_def VGA_TEXT_TABSIZE_def)
qed

text \<open>Wrapping the line and scrolling put it back onto the screen.\<close>

lemma cursor_wrap:
  assumes "unat (cur_x c) \<le> 80" "unat (cur_y c) < 25 \<or> cur_y c = 25 \<and> cur_x c = 0"
  shows "cur_x (scroll_up (wrap_line c)) < 80 \<and> cur_y (scroll_up (wrap_line c)) < 25"
proof -
  let ?w = "wrap_line c"
  have x: "80 \<le>s cur_x c \<longleftrightarrow> unat (cur_x c) = 80" using small_less(2) [of 80 "cur_x c"] assms(1) by auto
  have "unat (cur_y c + 1) \<le> 25" if "unat (cur_y c) < 25" using that by (simp add: unat_word_ariths)
  then have w: "unat (cur_x ?w) < 80" "unat (cur_y ?w) \<le> 25"
    using assms x by (auto simp: wrap_line_def VGA_TEXT_WIDTH_def)
  have "25 \<le>s cur_y ?w \<longleftrightarrow> unat (cur_y ?w) = 25" using small_less(2) [of 25 "cur_y ?w"] w by auto
  then show ?thesis
    using w by (auto simp: scroll_up_def Let_def VGA_TEXT_HEIGHT_def word_less_nat_alt)
qed

lemma video_step [simp]:
  "vga_text_video (put_char chr c) = vga_text_video c"
  "vga_text_video (wrap_line c) = vga_text_video c" "vga_text_video (scroll_up c) = vga_text_video c"
  by (simp_all add: put_char_def put_glyph_def vga_text_clear_def emit_def Let_def wrap_line_def scroll_up_def)

lemma same_outside_char: "screen_ok c \<Longrightarrow> same_outside c (put_char chr c)"
  using same_outside_glyph [of c chr] same_outside_clear [of c]
  by (auto simp: put_char_def) (auto simp: same_outside_def)

lemma wait_transmit_ready:
  "\<exists>b \<in> set ls. is_transmit_empty b \<Longrightarrow> \<exists>ls'. wait_transmit ls = Some ls'"
  by (induction ls) auto

text \<open>C26: when the serial port gets ready, printing any character ends with the cursor on the screen
  and writes to no byte of memory outside of the text buffer; that it scrolls by moving 24 lines over
  the 25 it has, and that a tab or a line feed may leave the cursor one behind the border in between, does not
  change this.\<close>

theorem printchar_stays_on_screen:
  assumes "screen_ok c" "\<exists>b \<in> set (line_status c). is_transmit_empty b"
  shows "\<exists>c'. vga_text_printchar chr c = Some c' \<and> screen_ok c' \<and> vga_text_video c' = vga_text_video c \<and>
    (\<forall>a. unat VGA_TEXT_SIZE \<le> unat (a - vga_text_video c) \<longrightarrow> cmem c' a = cmem c a)"
proof -
  let ?c1 = "put_char chr c"
  have "line_status ?c1 = line_status c"
    by (simp add: put_char_def put_glyph_def vga_text_clear_def emit_def Let_def)
  then obtain ls where "wait_transmit (line_status ?c1) = Some ls"
    using wait_transmit_ready [OF assms(2)] by auto
  then obtain c2 where c2: "com_send chr ?c1 = Some c2" "cmem (bochs_send chr c2) = cmem ?c1"
      "vga_text_video (bochs_send chr c2) = vga_text_video c"
      "cur_x (bochs_send chr c2) = cur_x ?c1" "cur_y (bochs_send chr c2) = cur_y ?c1"
    by (auto simp: com_send_def bochs_send_def emit_def)
  define c3 where "c3 = bochs_send chr c2"
  let ?c' = "scroll_up (wrap_line c3)"
  have "vga_text_printchar chr c = Some ?c'" using c2(1) by (simp add: vga_text_printchar_def c3_def)
  moreover have "screen_ok ?c'"
    using cursor_wrap [of c3] cursor_step [OF assms(1), of chr] c2 assms(1)
    by (simp add: screen_ok_def c3_def VGA_TEXT_WIDTH_def VGA_TEXT_HEIGHT_def)
  moreover have "same_outside c ?c'"
  proof -
    have "same_outside c (wrap_line c3)"
      using same_outside_char [OF assms(1), of chr] c2
      by (simp add: same_outside_def c3_def wrap_line_def)
    moreover have "same_outside (wrap_line c3) ?c'"
      by (rule same_outside_scroll) (use assms(1) c2 in \<open>simp add: screen_ok_def c3_def\<close>)
    ultimately show ?thesis by (rule same_outside_trans)
  qed
  ultimately show ?thesis by (auto simp: same_outside_def)
qed

definition demo_console :: console where
  "demo_console = \<lparr>cmem = (\<lambda>_. 0), vga_text_video = 0xB8000, cur_x = 79, cur_y = 24, cur_color = 7,
     line_status = [0, 0x20], con_events = []\<rparr>"

theorem printchar_stays_on_screen_witness:
  "screen_ok demo_console \<and> (\<exists>c'. vga_text_printchar 65 demo_console = Some c' \<and> screen_ok c' \<and> cmem c' 0xC0000 = 0)"
proof -
  have "screen_ok demo_console" "\<exists>b \<in> set (line_status demo_console). is_transmit_empty b"
    by (simp_all add: screen_ok_def demo_console_def vga_consts is_transmit_empty_def)
  then obtain c' where c': "vga_text_printchar 65 demo_console = Some c'" "screen_ok c'"
      and far: "\<forall>a. 4000 \<le> unat (a - 0xB8000) \<longrightarrow> cmem c' a = 0"
    using printchar_stays_on_screen [of demo_console 65] by (auto simp: demo_console_def)
  have "cmem c' 0xC0000 = 0" using far [rule_format, of "0xC0000"] by simp
  then show ?thesis using c' \<open>screen_ok demo_console\<close> by blast
qed

section \<open>Printing numbers\<close>

text \<open>The digits of a number, the most significant one first.\<close>

function digs :: "nat \<Rightarrow> nat \<Rightarrow> nat list" where
  "digs r n = (if n < r \<or> r < 2 then [n] else digs r (n div r) @ [n mod r])"
  by auto
termination by (relation "measure snd") (auto intro: div_less_dividend)

declare digs.simps [simp del]

lemma digs_ne [simp]: "digs r n \<noteq> []"
  by (subst digs.simps) simp

lemma digs_less: "2 \<le> r \<Longrightarrow> d \<in> set (digs r n) \<Longrightarrow> d < r"
proof (induction r n rule: digs.induct)
  case (1 r n)
  then show ?case using digs.simps [of r n] by (auto split: if_splits)
qed

lemma digs_value: "2 \<le> r \<Longrightarrow> foldl (\<lambda>v d. v * r + d) 0 (digs r n) = n"
proof (induction r n rule: digs.induct)
  case (1 r n)
  then show ?case by (subst digs.simps) auto
qed

lemma digs_length: "2 \<le> r \<Longrightarrow> n = 0 \<or> r ^ (length (digs r n) - 1) \<le> n"
proof (induction r n rule: digs.induct)
  case (1 r n)
  show ?case
  proof (cases "n < r")
    case True
    then have "digs r n = [n]" by (subst digs.simps) simp
    then show ?thesis by simp linarith
  next
    case False
    obtain k where k: "length (digs r (n div r)) = Suc k"
      by (metis digs_ne length_0_conv not0_implies_Suc)
    have "n div r \<noteq> 0" using False 1(2) by (simp add: div_eq_0_iff)
    then have "r ^ k \<le> n div r" using 1 False k by simp
    then have "r ^ k * r \<le> n div r * r" by (rule mult_le_mono1)
    also have "\<dots> \<le> n" by (rule div_times_less_eq_dividend)
    finally have "r ^ Suc k \<le> n" by (simp add: mult.commute)
    moreover have "length (digs r n) = Suc (Suc k)" using False 1(2) k by (subst digs.simps) simp
    ultimately show ?thesis by simp
  qed
qed

lemma digs_length_64:
  assumes "2 \<le> r" "n < 2 ^ 64"
  shows "length (digs r n) \<le> 64"
proof (cases "n = 0")
  case True
  then show ?thesis using assms(1) by (subst digs.simps) simp
next
  case False
  have "2 ^ (length (digs r n) - 1) \<le> r ^ (length (digs r n) - 1)" using assms(1) by (rule power_mono) simp
  also have "\<dots> \<le> n" using digs_length [OF assms(1), of n] False by simp
  finally have "(2 :: nat) ^ (length (digs r n) - 1) < 2 ^ 64" using assms(2) by linarith
  then have "length (digs r n) - 1 < 64" by (rule power_less_imp_less_exp [rotated]) simp
  then show ?thesis by simp
qed

text \<open>The two loops of \<open>kprintnum\<close>, for a value of 64 bits.\<close>

lemma divmod64_unat:
  "unat (fst (divmod64 t radix)) = unat t div unat radix"
  "0 < radix \<Longrightarrow> unat (snd (divmod64 t radix)) = unat t mod unat radix"
proof -
  have r: "unat (ucast radix :: u64) = unat radix"
  proof -
    have "uint (ucast radix :: u64) = uint radix" by (rule uint_up_ucast) (simp add: is_up)
    then show ?thesis by (metis nat_uint_eq)
  qed
  then show "unat (fst (divmod64 t radix)) = unat t div unat radix" by (simp add: divmod64_def unat_div)
  assume "0 < radix"
  then have "unat t mod unat radix < unat radix" by (simp add: unat_gt_0 word_gt_0)
  then have "unat t mod unat radix < 2 ^ 32" using unat_u32_lt [of radix] by (rule less_trans [THEN less_le_trans]) simp
  then show "unat (snd (divmod64 t radix)) = unat t mod unat radix"
    using r by (simp add: divmod64_def unsigned_ucast_eq unat_mod take_bit_nat_eq_self)
qed

lemma count_digits_digs:
  assumes "2 \<le> unat radix"
  shows "count_digits t radix d = Some (d + of_nat (length (digs (unat radix) (unat t))))"
proof (induction "unat t" arbitrary: t d rule: less_induct)
  case less
  let ?r = "unat radix"
  note u = divmod64_unat(1) [of t radix]
  show ?case
  proof (cases "unat t < ?r")
    case True
    then have "fst (divmod64 t radix) = 0" using u by (simp add: unat_eq_zero [symmetric])
    then show ?thesis using True by (subst count_digits.simps, subst digs.simps) simp
  next
    case False
    then have "0 < unat t div ?r" "unat t div ?r < unat t"
      using assms by (simp_all add: div_greater_zero_iff)
    then have "0 < fst (divmod64 t radix)" "unat (fst (divmod64 t radix)) < unat t"
      using u by (simp_all add: word_less_nat_alt)
    then show ?thesis
      using less [of "fst (divmod64 t radix)" "d + 1"] u False assms
      by (subst count_digits.simps, subst digs.simps) (simp add: ac_simps)
  qed
qed

lemma write_digits_digs:
  assumes r: "2 \<le> unat radix" and n: "n = length (digs (unat radix) (unat t))" "n \<le> length buf"
  shows "write_digits n t radix chars buf = map ((!) chars) (digs (unat radix) (unat t)) @ drop n buf"
  using n
proof (induction "unat t" arbitrary: t n buf rule: less_induct)
  case less
  let ?r = "unat radix"
  have r0: "0 < radix" using r by (simp add: word_less_nat_alt)
  obtain q rem where dm: "divmod64 t radix = (q, rem)" by fastforce
  then have q: "unat q = unat t div ?r" and rem: "unat rem = unat t mod ?r"
    using divmod64_unat(1) [of t radix] divmod64_unat(2) [of radix t] r0 by simp_all
  show ?case
  proof (cases "unat t < ?r")
    case True
    then have "digs ?r (unat t) = [unat t]" by (subst digs.simps) simp
    then show ?thesis
      using less.prems True rem dm by (cases buf) simp_all
  next
    case False
    then have less_t: "unat q < unat t" using r q by simp
    have digs: "digs ?r (unat t) = digs ?r (unat q) @ [unat rem]"
      using False r q rem by (subst digs.simps) simp
    define k where "k = length (digs ?r (unat q))"
    have n: "n = Suc k" using less.prems(1) digs by (simp add: k_def)
    let ?buf = "buf[k := chars ! unat rem]"
    have "write_digits k q radix chars ?buf = map ((!) chars) (digs ?r (unat q)) @ drop k ?buf"
      using less.hyps [OF less_t, of k ?buf] less.prems(2) n by (simp add: k_def)
    moreover have "drop k ?buf = chars ! unat rem # drop (Suc k) buf"
      using less.prems(2) n by (simp add: drop_update_swap Cons_nth_drop_Suc [symmetric])
    ultimately show ?thesis using n dm digs by simp
  qed
qed

text \<open>The digit tables are right up to the missing letter.\<close>

lemma num_chars_small:
  assumes "d < 23"
  shows "digitval (scast (num_chars u ! d)) = of_nat d" "num_chars u ! d \<noteq> 0" "num_chars u ! d \<noteq> 45"
    "num_chars u ! d \<noteq> 43" "\<not> isspace (ucast (num_chars u ! d))"
proof -
  have tab: "num_chars u = num_chars (if u \<noteq> 0 then 1 else 0)" by (simp add: num_chars_def)
  let ?P = "\<lambda>u d. digitval (scast (num_chars u ! d)) = of_nat d \<and> num_chars u ! d \<noteq> 0 \<and>
      num_chars u ! d \<noteq> 45 \<and> num_chars u ! d \<noteq> 43 \<and> \<not> isspace (ucast (num_chars u ! d))"
  have "list_all (?P 0) [0..<23]" "list_all (?P 1) [0..<23]" by code_simp+
  then have "?P 0 d" "?P 1 d" using assms by (simp_all only: list_all_iff) auto
  then have "?P u d" using tab by (cases "u = 0") (simp_all only: refl if_True if_False simp_thms)
  then show "digitval (scast (num_chars u ! d)) = of_nat d" "num_chars u ! d \<noteq> 0" "num_chars u ! d \<noteq> 45"
    "num_chars u ! d \<noteq> 43" "\<not> isspace (ucast (num_chars u ! d))" by blast+
qed

lemma digits_loop_digs:
  assumes "b \<le> 23" "\<forall>d \<in> set ds. d < b" "\<forall>i < length ds. m (p + of_nat i) = num_chars u ! (ds ! i)"
  shows "digits_loop (length ds) p (of_nat b) v m
       = (foldl (\<lambda>v d. v * of_nat b + of_nat d) v ds, p + of_nat (length ds))"
  using assms(2,3)
proof (induction ds arbitrary: p v)
  case (Cons d ds)
  have d: "d < b" "d < 23" "m p = num_chars u ! d" using Cons.prems assms(1) by force+
  have "\<forall>i < length ds. m (p + 1 + of_nat i) = num_chars u ! (ds ! i)"
    using Cons.prems(2) by (auto simp: All_less_Suc2 add.assoc)
  then have "digits_loop (length ds) (p + 1) (of_nat b) (v * of_nat b + of_nat d) m
      = (foldl (\<lambda>v d. v * of_nat b + of_nat d) (v * of_nat b + of_nat d) ds, p + 1 + of_nat (length ds))"
    using Cons.IH [of "p + 1"] Cons.prems(1) by simp
  moreover have "0 \<le>s (of_nat d :: u32)" "(of_nat d :: u32) <s of_nat b"
    using d assms(1) by (simp_all add: word_sle_eq word_sless_alt small_signed)
  ultimately show ?case
    using d assms(1) num_chars_small(1) [OF d(2), of u] by (simp add: Let_def small_signed add.assoc)
qed simp

lemma kprintnum_text_digs:
  fixes x :: u64 and radix uppercase sign :: u32
  assumes "2 \<le> radix" "radix \<le> 23"
  defines "neg \<equiv> x <s 0 \<and> sign \<noteq> 0"
  defines "ds \<equiv> digs (unat radix) (unat (if neg then - x else x))"
  shows "kprintnum_text x radix uppercase sign
       = Some ((if neg then [45] else []) @ map ((!) (num_chars uppercase)) ds)"
    and "length ds \<le> 64" and "\<forall>d \<in> set ds. d < unat radix" and "2 \<le> unat radix" and "unat radix \<le> 23"
proof -
  let ?v = "if neg then - x else x"
  show r: "2 \<le> unat radix" "unat radix \<le> 23" using assms(1,2) by (simp_all add: word_le_nat_alt)
  show less: "\<forall>d \<in> set ds. d < unat radix" using digs_less [OF r(1)] by (auto simp: ds_def)
  have "unat ?v < 2 ^ 64" using unsigned_less [of ?v] by simp
  then show len: "length ds \<le> 64" unfolding ds_def by (rule digs_length_64 [OF r(1)])
  then have cnt: "count_digits ?v radix 0 = Some (of_nat (length ds))" "unat (of_nat (length ds) :: u32) = length ds"
    using count_digits_digs [OF r(1), of ?v 0] by (simp_all add: ds_def unat_of_nat_u32)
  have "write_digits (length ds) ?v radix (num_chars uppercase) (replicate 65 0)
      = map ((!) (num_chars uppercase)) ds @ replicate (65 - length ds) 0"
    using write_digits_digs [OF r(1), of "length ds" ?v "replicate 65 0"] len by (simp add: ds_def)
  moreover have "takeWhile (\<lambda>b. b \<noteq> 0) (map ((!) (num_chars uppercase)) ds @ replicate (65 - length ds) 0)
      = map ((!) (num_chars uppercase)) ds"
    using less r(2) num_chars_small(2) len by (subst takeWhile_append2) (auto simp: takeWhile_eq_Nil_iff hd_replicate)
  moreover have "(replicate 65 (0 :: u8))[length ds := 0] = replicate 65 0"
    by (metis list_update_beyond list_update_id linorder_not_less length_replicate nth_replicate)
  ultimately show "kprintnum_text x radix uppercase sign
      = Some ((if neg then [45] else []) @ map ((!) (num_chars uppercase)) ds)"
    using r cnt len unfolding kprintnum_text_def Let_def neg_def [symmetric]
    by (simp add: word_less_nat_alt)
qed

text \<open>Reading digits: no space, sign or prefix is found before them.\<close>

lemma strntoumax_digits:
  assumes b: "2 \<le> b" "b \<le> 23" and ds: "ds \<noteq> []" "\<forall>d \<in> set ds. d < b"
    and m: "\<forall>i < length ds. m (p + of_nat i) = num_chars u ! (ds ! i)"
  shows "skip_space (length ds) p m = (length ds, p)" "opt_sign (length ds) p m = (False, length ds, p)"
    "find_base (of_nat b) (length ds) p m = (of_nat b, length ds, p)"
proof -
  have small: "ds ! i < 23" if "i < length ds" for i using ds(2) b(2) that by (metis nth_mem less_le_trans)
  have m0: "m p = num_chars u ! (ds ! 0)" using m ds(1) by force
  note c0 = num_chars_small [OF small [of 0], of u]
  show "skip_space (length ds) p m = (length ds, p)"
    using ds(1) m0 c0 by (cases ds) auto
  show "opt_sign (length ds) p m = (False, length ds, p)" using ds(1) m0 c0 by (simp add: opt_sign_def)
  have "m (p + 1) \<noteq> 120 \<and> m (p + 1) \<noteq> 88" if two: "2 \<le> length ds"
  proof -
    have "m (p + 1) = num_chars u ! (ds ! 1)" using m [rule_format, of 1] two by simp
    then have "digitval (scast (m (p + 1))) = of_nat (ds ! 1)" "ds ! 1 < 23"
      using num_chars_small(1) [OF small [of 1]] small [of 1] two by simp_all
    moreover have "digitval (scast (120 :: u8)) = 33" "digitval (scast (88 :: u8)) = 33" by code_simp+
    moreover have "of_nat k \<noteq> (33 :: u32)" if "k < 23" for k :: nat
    proof
      assume "of_nat k = (33 :: u32)"
      then have "unat (of_nat k :: u32) = unat (33 :: u32)" by (simp only:)
      then show False using that by (simp add: unat_of_nat_u32)
    qed
    ultimately show ?thesis by metis
  qed
  moreover have "(of_nat b :: u32) \<noteq> 0"
  proof
    assume "(of_nat b :: u32) = 0"
    then have "unat (of_nat b :: u32) = 0" by simp
    then show False using b by (simp add: unat_of_nat_u32)
  qed
  ultimately show "find_base (of_nat b) (length ds) p m = (of_nat b, length ds, p)"
    by (auto simp: find_base_def)
qed

lemma foldl_of_nat:
  "foldl (\<lambda>v d. v * of_nat b + of_nat d) (of_nat a) ns = (of_nat (foldl (\<lambda>v d. v * b + d) a ns) :: u64)"
  by (induction ns arbitrary: a) (simp_all flip: of_nat_mult of_nat_add)

text \<open>A minus sign or nothing, and digits.\<close>

lemma strntoumax_text:
  assumes b: "2 \<le> b" "b \<le> 23" and ds: "ds \<noteq> []" "\<forall>d \<in> set ds. d < b" "length ds \<le> 64"
    and t: "t = (if neg then [45] else []) @ map ((!) (num_chars u)) ds"
    and m: "\<forall>i < length t. m (p + of_nat i) = t ! i"
  defines "v \<equiv> of_nat (foldl (\<lambda>v d. v * b + d) 0 ds)"
  shows "strntoumax p (of_nat b) (of_nat (length t)) m = (if neg then - v else v, p + of_nat (length t))"
proof -
  define q where "q = (if neg then p + 1 else p)"
  have mq: "\<forall>i < length ds. m (q + of_nat i) = num_chars u ! (ds ! i)"
  proof (intro allI impI)
    fix i assume "i < length ds"
    then show "m (q + of_nat i) = num_chars u ! (ds ! i)"
      using m [rule_format, of "if neg then Suc i else i"] t
      by (cases neg) (simp_all add: q_def add.assoc)
  qed
  note dig = strntoumax_digits [OF b ds(1,2) mq] digits_loop_digs [OF b(2) ds(2) mq, of 0]
  have start: "skip_space (length t) p m = (length t, p)" "opt_sign (length t) p m = (neg, length ds, q)"
    using dig(1,2) m [rule_format, of 0] t
    by (cases neg; simp add: q_def isspace_def opt_sign_def)+
  have "unat (of_nat (length t) :: u32) = length t"
    by (rule unat_of_nat_u32) (use ds(3) t in simp)
  then show ?thesis
    using start dig(3,4) foldl_of_nat [of b 0 ds] t by (simp add: strntoumax_def v_def q_def)
qed

text \<open>C25: for a base up to 23 \<open>kprintnum\<close> ends, whatever the value: it counts at most 64 digits, so that
  they and the final zero fit into its buffer. What it prints is a text that \<open>strntoumax\<close> reads back to the
  very same 64 bit value, with a minus sign for a negative one.\<close>

theorem kprintnum_reads_back:
  assumes "2 \<le> radix" "radix \<le> 23"
  shows "\<exists>out. kprintnum_text x radix uppercase sign = Some out \<and> length out \<le> 65 \<and>
      (\<forall>c. kprintnum x radix uppercase sign c = kprintchars out c) \<and>
      (\<forall>p m. (\<forall>i < length out. m (p + of_nat i) = out ! i) \<longrightarrow>
         strntoumax p radix (of_nat (length out)) m = (x, p + of_nat (length out)))"
proof -
  define neg where "neg \<longleftrightarrow> x <s 0 \<and> sign \<noteq> 0"
  define v where "v = (if neg then - x else x)"
  define ds where "ds = digs (unat radix) (unat v)"
  define cs where "cs = map ((!) (num_chars uppercase)) ds"
  define out where "out = (if neg then [45] else []) @ cs"
  note t = kprintnum_text_digs(1) [OF assms, of x uppercase sign, folded neg_def, folded v_def, folded ds_def,
      folded cs_def, folded out_def]
    kprintnum_text_digs(2,3) [OF assms, of x sign, folded neg_def, folded v_def, folded ds_def]
    kprintnum_text_digs(4,5) [OF assms]
  have len: "length out \<le> 65" using t(2) by (simp add: out_def cs_def)
  have reads: "strntoumax p radix (of_nat (length out)) m = (x, p + of_nat (length out))"
    if m: "\<forall>i < length out. m (p + of_nat i) = out ! i" for p m
  proof -
    have "foldl (\<lambda>v d. v * unat radix + d) 0 ds = unat v" unfolding ds_def by (rule digs_value [OF t(4)])
    moreover have "ds \<noteq> []" by (simp add: ds_def)
    ultimately show ?thesis
      using strntoumax_text [OF t(4,5) _ t(3,2) out_def [unfolded cs_def] m] by (simp add: v_def)
  qed
  show ?thesis using t(1) len reads by (auto simp: kprintnum_def)
qed

theorem kprintnum_reads_back_witness:
  "\<exists>out. kprintnum_text (- 42) 10 1 1 = Some out \<and>
     (\<forall>p m. (\<forall>i < length out. m (p + of_nat i) = out ! i) \<longrightarrow>
        fst (strntoumax p 10 (of_nat (length out)) m) = - 42)"
  using kprintnum_reads_back [of 10 "- 42" 1 1] by force

end
