(* ===== verification/Path.thy ===== *)
theory Path
  imports Prelude
begin

text \<open>
  Path names (\<open>apps/lib/libmeinos/path.c\<close>), which the virtual file system and the shell resolve. A parsed
  path is an array of pointers into a private copy of its text, with a zero at every slash; here it is the
  list of the strings these pointers mark. Clearing a part writes zeros over it and makes it the empty
  string.
\<close>

section \<open>Definitions\<close>

record path =
  pt_parts :: "u8 list list"
  pt_root :: bool

abbreviation slash :: u8 where "slash \<equiv> 47"
abbreviation dot :: u8 where "dot \<equiv> 46"

text \<open>The loop of \<open>path_parse\<close> over the parts; a part ends at a slash or at the end of the text.\<close>

fun split_parts :: "nat \<Rightarrow> u8 list \<Rightarrow> u8 list list" where
  "split_parts 0 data = []"
| "split_parts (Suc n) data =
     takeWhile (\<lambda>c. c \<noteq> slash) data # split_parts n (drop 1 (dropWhile (\<lambda>c. c \<noteq> slash) data))"

definition path_parse :: "u8 list option \<Rightarrow> path option" where
  "path_parse path =
     map_option (\<lambda>cs. \<lparr>pt_parts = split_parts (1 + length (filter (\<lambda>c. c = slash) cs)) cs,
       pt_root = (cs \<noteq> [] \<and> hd cs = slash)\<rparr>) path"

fun clear_before :: "nat \<Rightarrow> u8 list list \<Rightarrow> u8 list list" where
  "clear_before 0 ps = ps"
| "clear_before (Suc j) ps = (if ps ! j \<noteq> [] then ps[j := []] else clear_before j ps)"

definition reject_part :: "nat \<Rightarrow> u8 list list \<Rightarrow> u8 list list" where
  "reject_part i ps =
     (if ps ! i = [dot] then ps[i := []]
      else if ps ! i = [dot, dot] then clear_before i (ps[i := []])
      else ps)"

definition path_reject_dots :: "path \<Rightarrow> path" where
  "path_reject_dots p = p\<lparr>pt_parts := fold reject_part [0..<length (pt_parts p)] (pt_parts p)\<rparr>"

text \<open>The loop of \<open>path_output\<close>: every part, and a slash before a part that is not empty.\<close>

fun output_parts :: "u8 list list \<Rightarrow> u8 list" where
  "output_parts [] = []"
| "output_parts [p] = p"
| "output_parts (p # q # ps) = p @ (if q \<noteq> [] then [slash] else []) @ output_parts (q # ps)"

definition path_output :: "path \<Rightarrow> u8 list" where
  "path_output p =
     (if (\<exists>x \<in> set (pt_parts p). x \<noteq> []) then
        (if pt_root p \<and> pt_parts p ! 0 \<noteq> [] then [slash] else []) @ output_parts (pt_parts p)
      else [slash])"

text \<open>The bytes \<open>path_output\<close> allocates when it is given no buffer.\<close>

definition output_size :: "path \<Rightarrow> nat" where
  "output_size p = length (pt_parts p) + 1 + (if pt_root p then 1 else 0) + sum_list (map length (pt_parts p))"

fun compare_parts :: "u8 list list \<Rightarrow> u8 list list \<Rightarrow> nat \<Rightarrow> nat" where
  "compare_parts (p # ps) (q # qs) i =
     (if p = [] then compare_parts ps (q # qs) i
      else if q = [] then compare_parts (p # ps) qs i
      else if p \<noteq> q then i
      else compare_parts ps qs (i + 1))"
| "compare_parts _ _ i = i"

definition path_compare :: "path option \<Rightarrow> path option \<Rightarrow> nat" where
  "path_compare path1 path2 =
     (case (path1, path2) of
        (Some p, Some q) \<Rightarrow> if pt_root p \<noteq> pt_root q then 0 else compare_parts (pt_parts p) (pt_parts q) 0
      | _ \<Rightarrow> 0)"

definition path_cat :: "path \<Rightarrow> path \<Rightarrow> path" where
  "path_cat path1 path2 = \<lparr>pt_parts = pt_parts path1 @ pt_parts path2, pt_root = pt_root path1\<rparr>"

definition path_parent :: "path \<Rightarrow> path" where
  "path_parent p =
     (if pt_parts p \<noteq> [] then p\<lparr>pt_parts := (pt_parts p)[length (pt_parts p) - 1 := []]\<rparr> else p)"

section \<open>Resolving\<close>

text \<open>The reference: a stack of names, from which \<open>..\<close> takes the last one.\<close>

fun resolve :: "u8 list list \<Rightarrow> u8 list list \<Rightarrow> u8 list list" where
  "resolve st [] = st"
| "resolve st (c # cs) =
     (if c = [] \<or> c = [dot] then resolve st cs
      else if c = [dot, dot] then resolve (butlast st) cs
      else resolve (st @ [c]) cs)"

lemma resolve_append: "resolve st (xs @ ys) = resolve (resolve st xs) ys"
  by (induction st xs rule: resolve.induct) simp_all

text \<open>The parts that are left.\<close>

abbreviation live :: "u8 list list \<Rightarrow> u8 list list" where
  "live ps \<equiv> filter (\<lambda>p. p \<noteq> []) ps"

lemma length_clear_before [simp]: "length (clear_before j ps) = length ps"
  by (induction j ps rule: clear_before.induct) simp_all

lemma clear_before_spec:
  "j \<le> length ps \<Longrightarrow>
   live (take j (clear_before j ps)) = butlast (live (take j ps)) \<and> drop j (clear_before j ps) = drop j ps"
proof (induction j ps rule: clear_before.induct)
  case (2 j ps)
  have take: "take (Suc j) ps = take j ps @ [ps ! j]" using 2(2) by (simp add: take_Suc_conv_app_nth)
  show ?case
  proof (cases "ps ! j = []")
    case True
    then have IH: "live (take j (clear_before j ps)) = butlast (live (take j ps))"
        "drop j (clear_before j ps) = drop j ps" using 2 by simp_all
    have "clear_before j ps ! j = ps ! j"
      using arg_cong [OF IH(2), of hd] 2(2) by (simp add: hd_drop_conv_nth)
    then have "take (Suc j) (clear_before j ps) = take j (clear_before j ps) @ [[]]"
      using 2(2) True by (simp add: take_Suc_conv_app_nth)
    moreover have "drop (Suc j) (clear_before j ps) = drop (Suc j) ps"
      using arg_cong [OF IH(2), of tl] by (simp add: tl_drop drop_Suc)
    ultimately show ?thesis using True take IH(1) by simp
  next
    case False
    moreover have "take (Suc j) (ps[j := []]) = take j ps @ [[]]" using 2(2) by (simp add: take_Suc_conv_app_nth)
    ultimately show ?thesis using take 2(2) by simp
  qed
qed simp

lemma reject_part_spec:
  assumes "i < length ps"
  shows "live (take (Suc i) (reject_part i ps)) = resolve (live (take i ps)) [ps ! i]"
    and "drop (Suc i) (reject_part i ps) = drop (Suc i) ps" and "length (reject_part i ps) = length ps"
proof -
  have take: "take (Suc i) qs = take i qs @ [qs ! i]" if "length qs = length ps" for qs
    using assms that by (simp add: take_Suc_conv_app_nth)
  let ?qs = "ps[i := []]"
  note cb = clear_before_spec [of i ?qs]
  have "clear_before i ?qs ! i = []"
    using arg_cong [OF conjunct2 [OF cb], of hd] assms by (simp add: hd_drop_conv_nth)
  moreover have "drop (Suc i) (clear_before i ?qs) = drop (Suc i) ps"
  proof -
    have "drop (Suc i) (clear_before i ?qs) = drop (Suc i) ?qs"
      using arg_cong [OF conjunct2 [OF cb], of tl] assms by (simp add: tl_drop drop_Suc)
    then show ?thesis by simp
  qed
  ultimately show "live (take (Suc i) (reject_part i ps)) = resolve (live (take i ps)) [ps ! i]"
    "drop (Suc i) (reject_part i ps) = drop (Suc i) ps" "length (reject_part i ps) = length ps"
    using cb assms by (auto simp: reject_part_def take)
qed

text \<open>Rejecting the dots is resolving.\<close>

lemma reject_loop:
  "i \<le> length ps \<Longrightarrow>
   live (take i (fold reject_part [0..<i] ps)) = resolve [] (take i ps) \<and>
   drop i (fold reject_part [0..<i] ps) = drop i ps \<and> length (fold reject_part [0..<i] ps) = length ps"
proof (induction i)
  case (Suc i)
  let ?qs = "fold reject_part [0..<i] ps"
  have IH: "live (take i ?qs) = resolve [] (take i ps)" "drop i ?qs = drop i ps" "length ?qs = length ps"
    using Suc by simp_all
  have "?qs ! i = ps ! i" "drop (Suc i) ?qs = drop (Suc i) ps"
    using arg_cong [OF IH(2), of hd] arg_cong [OF IH(2), of tl] Suc.prems IH(3)
    by (simp_all add: hd_drop_conv_nth tl_drop drop_Suc)
  then show ?case
    using reject_part_spec [of i ?qs] IH Suc.prems
    by (simp add: take_Suc_conv_app_nth [of i ps] resolve_append del: resolve.simps)
qed simp

lemma reject_dots_live: "live (pt_parts (path_reject_dots p)) = resolve [] (pt_parts p)"
proof -
  let ?qs = "fold reject_part [0..<length (pt_parts p)] (pt_parts p)"
  note loop = reject_loop [OF order_refl, of "pt_parts p"]
  have len: "length ?qs = length (pt_parts p)" using loop by blast
  have "live (take (length ?qs) ?qs) = resolve [] (take (length (pt_parts p)) (pt_parts p))"
    unfolding len using loop by blast
  then show ?thesis by (simp add: path_reject_dots_def)
qed

text \<open>An empty first part stays empty.\<close>

lemma cleared_first: "ps ! 0 = [] \<Longrightarrow> ps[i := []] ! 0 = []"
  by (cases i; cases ps) auto

lemma clear_before_Nil: "ps ! 0 = [] \<Longrightarrow> clear_before j ps ! 0 = []"
  by (induction j ps rule: clear_before.induct) (auto simp: cleared_first)

lemma reject_loop_Nil: "ps ! 0 = [] \<Longrightarrow> fold reject_part is ps ! 0 = []"
  by (induction "is" arbitrary: ps) (auto simp: reject_part_def cleared_first clear_before_Nil)

lemma reject_dots_first: "pt_parts p ! 0 = [] \<Longrightarrow> pt_parts (path_reject_dots p) ! 0 = []"
  by (simp add: path_reject_dots_def reject_loop_Nil)

lemma reject_dots_length: "length (pt_parts (path_reject_dots p)) = length (pt_parts p)"
  using reject_loop [OF order_refl, of "pt_parts p"] unfolding path_reject_dots_def by simp

text \<open>The text of a list of names, every one with a slash before it.\<close>

definition canonical :: "u8 list list \<Rightarrow> u8 list" where
  "canonical st = (if st = [] then [slash] else concat (map (Cons slash) st))"

lemma output_parts_live: "output_parts ([] # ps) = concat (map (Cons slash) (live ps))"
proof -
  have "output_parts (q # ps) = q @ concat (map (Cons slash) (live ps))" for q
    by (induction ps arbitrary: q) auto
  then show ?thesis by simp
qed

lemma path_output_absolute:
  assumes "pt_parts p = [] # ps"
  shows "path_output p = canonical (live ps)"
  using assms output_parts_live [of ps] by (auto simp: path_output_def canonical_def filter_empty_conv)

text \<open>The names of a text, written with a slash before every one of them, are the parts it is split into.\<close>

lemma split_parts_names:
  assumes "\<forall>n \<in> set (m # ms). slash \<notin> set n"
  shows "split_parts (Suc (length ms)) (m @ concat (map (Cons slash) ms)) = m # ms"
  using assms
proof (induction ms arbitrary: m)
  case Nil
  then have "\<forall>x \<in> set m. x \<noteq> slash" by auto
  then show ?case by simp
next
  case (Cons n ms)
  have "takeWhile (\<lambda>c. c \<noteq> slash) (m @ slash # xs) = m" "dropWhile (\<lambda>c. c \<noteq> slash) (m @ slash # xs) = slash # xs" for xs
    using Cons.prems by (auto simp: takeWhile_append dropWhile_append)
  with Cons show ?case by simp
qed

lemma slashes_names:
  "\<forall>n \<in> set ns. slash \<notin> set n \<Longrightarrow> length (filter (\<lambda>c. c = slash) (concat (map (Cons slash) ns))) = length ns"
  by (induction ns) (auto simp: filter_empty_conv)

lemma path_parse_names:
  assumes "names \<noteq> []" "\<forall>n \<in> set names. slash \<notin> set n"
  shows "path_parse (Some (concat (map (Cons slash) names))) = Some \<lparr>pt_parts = [] # names, pt_root = True\<rparr>"
proof -
  have "\<forall>n \<in> set ([] # names). slash \<notin> set n" using assms(2) by simp
  from split_parts_names [OF this] show ?thesis
    using assms(1) slashes_names [OF assms(2)] by (cases names) (simp_all add: path_parse_def)
qed

text \<open>
  C27. An absolute path that is parsed, rid of its dots and printed is the canonical one. For the text in
  which a slash precedes every one of the given names, none of which contains a slash (they may be empty
  or dots; every absolute path is such a text), the output is made of the names
  that are left when empty names and single dots are skipped and two dots take away the name before
  them, each with a slash before it, and is a single slash when none is left.
\<close>

theorem absolute_path_canonical:
  assumes "names \<noteq> []" "\<forall>n \<in> set names. slash \<notin> set n"
  shows "\<exists>p. path_parse (Some (concat (map (Cons slash) names))) = Some p \<and>
     path_output (path_reject_dots p) = canonical (resolve [] names)"
proof -
  define p where "p = \<lparr>pt_parts = [] # names, pt_root = True\<rparr>"
  let ?r = "path_reject_dots p"
  have "pt_parts ?r \<noteq> []" "pt_parts ?r ! 0 = []"
    using reject_dots_length [of p] reject_dots_first [of p] by (auto simp: p_def)
  then obtain qs where qs: "pt_parts ?r = [] # qs" by (cases "pt_parts ?r") auto
  have "live qs = resolve [] names" using reject_dots_live [of p] qs by (simp add: p_def)
  then show ?thesis using path_parse_names [OF assms] path_output_absolute [OF qs] by (simp add: p_def)
qed

text \<open>\<open>/ab/../c/.\<close> is \<open>/c\<close>.\<close>

theorem absolute_path_canonical_witness:
  "\<exists>p. path_parse (Some [slash, 97, 98, slash, dot, dot, slash, 99, slash, dot]) = Some p \<and>
     path_output (path_reject_dots p) = [slash, 99]"
  using absolute_path_canonical [of "[[97, 98], [dot, dot], [99], [dot]]"] by (simp add: canonical_def)

text \<open>A relative path is not: the slash before the second name stays when the first one is taken
  away.\<close>

lemma relative_path_becomes_absolute:
  "map_option (\<lambda>p. path_output (path_reject_dots p)) (path_parse (Some [97, slash, dot, dot, slash, 98]))
     = Some [slash, 98]"
  by code_simp

text \<open>The buffer is long enough for the text and the zero behind it.\<close>

lemma output_size_enough: "\<exists>x \<in> set (pt_parts p). x \<noteq> [] \<Longrightarrow> length (path_output p) < output_size p"
proof -
  have "length (output_parts ps) \<le> length ps + sum_list (map length ps)" for ps
    by (induction ps rule: output_parts.induct) auto
  moreover assume "\<exists>x \<in> set (pt_parts p). x \<noteq> []"
  ultimately show ?thesis by (auto simp: path_output_def output_size_def le_imp_less_Suc less_Suc_eq_le
      intro: le_SucI)
qed

end
