(* ===== verification/AvlTree.thy ===== *)
theory AvlTree
  imports Prelude "HOL-Library.Monad_Syntax"
begin

text \<open>
  Balanced trees (\<open>lib/libmeinos/tree.c\<close>, \<open>include/tree.h\<close>). A tree is linked through structures
  \<open>struct tree_item\<close> that lie inside of the caller's objects, with pointers to the parent and to both
  children and the difference of the heights. The items are a store from addresses to records; the key of
  an object is a 64 bit word at a given offset. \<open>None\<close> is an access through a null pointer, or a loop that
  does not end. The balance is an \<open>int\<close> between -2 and 2.
\<close>

section \<open>Definitions\<close>

record tree_item =
  ti_parent :: u32
  ti_left :: u32
  ti_right :: u32
  ti_balance :: int

record avl =
  av_root :: u32
  av_item_offset :: u32
  av_key_offset :: u32
  av_items :: "u32 \<Rightarrow> tree_item"
  av_words :: "u32 \<Rightarrow> u64"

definition to_node :: "avl \<Rightarrow> u32 \<Rightarrow> u32" where
  "to_node t item = item - av_item_offset t"

definition to_tree_item :: "avl \<Rightarrow> u32 \<Rightarrow> u32" where
  "to_tree_item t node = node + av_item_offset t"

definition get_key :: "avl \<Rightarrow> u32 \<Rightarrow> u64" where
  "get_key t item = av_words t (to_node t item + av_key_offset t)"

definition tree_do_create :: "u32 \<Rightarrow> u32 \<Rightarrow> avl \<Rightarrow> avl" where
  "tree_do_create item_offset key_offset t =
     t\<lparr>av_root := NULL, av_item_offset := item_offset, av_key_offset := key_offset\<rparr>"

text \<open>Reading and changing the item a pointer points to.\<close>

definition item_at :: "u32 \<Rightarrow> avl \<Rightarrow> tree_item option" where
  "item_at p t = (if p = NULL then None else Some (av_items t p))"

definition upd_item :: "u32 \<Rightarrow> (tree_item \<Rightarrow> tree_item) \<Rightarrow> avl \<Rightarrow> avl option" where
  "upd_item p f t = (if p = NULL then None else Some (t\<lparr>av_items := (av_items t)(p := f (av_items t p))\<rparr>))"

subsection \<open>Searching\<close>

partial_function (option) search_loop :: "u64 \<Rightarrow> u32 \<Rightarrow> u32 \<Rightarrow> u64 \<Rightarrow> avl \<Rightarrow> (u32 \<times> u64) option" where
  "search_loop key res current current_key t =
     (if current \<noteq> NULL then
        let current_key = get_key t current in
        if key = current_key then Some (current, current_key)
        else if key < current_key then search_loop key current (ti_left (av_items t current)) current_key t
        else search_loop key current (ti_right (av_items t current)) current_key t
      else Some (res, current_key))"

definition do_search :: "u64 \<Rightarrow> avl \<Rightarrow> (bool \<times> u32) option" where
  "do_search key t = do {
     (res, current_key) \<leftarrow> search_loop key NULL (av_root t) (key - 1) t;
     Some (key = current_key, res) }"

definition tree_search :: "u64 \<Rightarrow> avl \<Rightarrow> u32 option" where
  "tree_search key t = do {
     (found, ret) \<leftarrow> do_search key t;
     Some (if found then to_node t ret else NULL) }"

subsection \<open>Balancing\<close>

partial_function (option) adjust_loop :: "u32 \<Rightarrow> int \<Rightarrow> bool \<Rightarrow> avl \<Rightarrow> avl option" where
  "adjust_loop item v stop t =
     Option.bind (item_at item t) (\<lambda>i.
       if ti_parent i \<noteq> NULL \<and> \<not> stop then
         let parent = ti_parent i; b = ti_balance (av_items t parent) in
         if ti_left (av_items t parent) = item then
           Option.bind (upd_item parent (\<lambda>p. p\<lparr>ti_balance := b - v\<rparr>) t)
             (adjust_loop parent v (b > 0 \<or> b - v > 0))
         else
           Option.bind (upd_item parent (\<lambda>p. p\<lparr>ti_balance := b + v\<rparr>) t)
             (adjust_loop parent v (b < 0 \<or> b + v < 0))
       else Some t)"

definition adjust_balance :: "u32 \<Rightarrow> int \<Rightarrow> avl \<Rightarrow> avl option" where
  "adjust_balance item v t = adjust_loop item v False t"

text \<open>Where the pointer to a node is stored: in the tree or in its parent.\<close>

datatype link_ref = RootRef | LeftRef u32 | RightRef u32

definition read_ref :: "link_ref \<Rightarrow> avl \<Rightarrow> u32 option" where
  "read_ref r t =
     (case r of RootRef \<Rightarrow> Some (av_root t)
      | LeftRef p \<Rightarrow> map_option ti_left (item_at p t) | RightRef p \<Rightarrow> map_option ti_right (item_at p t))"

definition write_ref :: "link_ref \<Rightarrow> u32 \<Rightarrow> avl \<Rightarrow> avl option" where
  "write_ref r v t =
     (case r of RootRef \<Rightarrow> Some (t\<lparr>av_root := v\<rparr>)
      | LeftRef p \<Rightarrow> upd_item p (\<lambda>i. i\<lparr>ti_left := v\<rparr>) t | RightRef p \<Rightarrow> upd_item p (\<lambda>i. i\<lparr>ti_right := v\<rparr>) t)"

definition rotate_left :: "link_ref \<Rightarrow> avl \<Rightarrow> avl option" where
  "rotate_left root t = do {
     item \<leftarrow> read_ref root t;
     i \<leftarrow> item_at item t;
     let tmp = ti_right i;
     tm \<leftarrow> item_at tmp t;
     t \<leftarrow> upd_item tmp (\<lambda>x. x\<lparr>ti_parent := ti_parent i\<rparr>) t;
     t \<leftarrow> upd_item item (\<lambda>x. x\<lparr>ti_parent := tmp\<rparr>) t;
     t \<leftarrow> (if ti_left tm \<noteq> NULL then upd_item (ti_left tm) (\<lambda>x. x\<lparr>ti_parent := item\<rparr>) t else Some t);
     t \<leftarrow> upd_item item (\<lambda>x. x\<lparr>ti_right := ti_left tm\<rparr>) t;
     t \<leftarrow> upd_item tmp (\<lambda>x. x\<lparr>ti_left := item\<rparr>) t;
     write_ref root tmp t }"

definition rotate_right :: "link_ref \<Rightarrow> avl \<Rightarrow> avl option" where
  "rotate_right root t = do {
     item \<leftarrow> read_ref root t;
     i \<leftarrow> item_at item t;
     let tmp = ti_left i;
     tm \<leftarrow> item_at tmp t;
     t \<leftarrow> upd_item tmp (\<lambda>x. x\<lparr>ti_parent := ti_parent i\<rparr>) t;
     t \<leftarrow> upd_item item (\<lambda>x. x\<lparr>ti_parent := tmp\<rparr>) t;
     t \<leftarrow> (if ti_right tm \<noteq> NULL then upd_item (ti_right tm) (\<lambda>x. x\<lparr>ti_parent := item\<rparr>) t else Some t);
     t \<leftarrow> upd_item item (\<lambda>x. x\<lparr>ti_left := ti_right tm\<rparr>) t;
     t \<leftarrow> upd_item tmp (\<lambda>x. x\<lparr>ti_right := item\<rparr>) t;
     write_ref root tmp t }"

definition link_from_parent :: "u32 \<Rightarrow> avl \<Rightarrow> link_ref option" where
  "link_from_parent item t = do {
     i \<leftarrow> item_at item t;
     Some (if ti_parent i = NULL then RootRef
           else if ti_left (av_items t (ti_parent i)) = item then LeftRef (ti_parent i)
           else RightRef (ti_parent i)) }"

definition set_balance :: "u32 \<Rightarrow> int \<Rightarrow> avl \<Rightarrow> avl option" where
  "set_balance p b = upd_item p (\<lambda>i. i\<lparr>ti_balance := b\<rparr>)"

text \<open>The two branches of \<open>rebalance\<close>, for a tree that is heavy on the right and on the left.\<close>

definition heavy_right :: "u32 \<Rightarrow> link_ref \<Rightarrow> avl \<Rightarrow> avl option" where
  "heavy_right item pitem t = do {
     i \<leftarrow> item_at item t;
     let tmp = ti_right i;
     r \<leftarrow> item_at tmp t;
     if ti_balance r > 0 then do {
       t \<leftarrow> rotate_left pitem t;
       t \<leftarrow> set_balance item 0 t;
       t \<leftarrow> set_balance tmp 0 t;
       q \<leftarrow> read_ref pitem t;
       adjust_balance q (- 1) t }
     else if ti_balance r = 0 then do {
       t \<leftarrow> rotate_left pitem t;
       t \<leftarrow> set_balance item 1 t;
       set_balance tmp (- 1) t }
     else do {
       t \<leftarrow> rotate_right (RightRef item) t;
       t \<leftarrow> rotate_left pitem t;
       q \<leftarrow> read_ref pitem t;
       qi \<leftarrow> item_at q t;
       t \<leftarrow> set_balance item (if ti_balance qi = 1 then - 1 else 0) t;
       t \<leftarrow> set_balance tmp (if ti_balance qi = - 1 then 1 else 0) t;
       t \<leftarrow> set_balance q 0 t;
       adjust_balance q (- 1) t } }"

definition heavy_left :: "u32 \<Rightarrow> link_ref \<Rightarrow> avl \<Rightarrow> avl option" where
  "heavy_left item pitem t = do {
     i \<leftarrow> item_at item t;
     let tmp = ti_left i;
     l \<leftarrow> item_at tmp t;
     if ti_balance l < 0 then do {
       t \<leftarrow> rotate_right pitem t;
       t \<leftarrow> set_balance item 0 t;
       t \<leftarrow> set_balance tmp 0 t;
       q \<leftarrow> read_ref pitem t;
       adjust_balance q (- 1) t }
     else if ti_balance l = 0 then do {
       t \<leftarrow> rotate_right pitem t;
       t \<leftarrow> set_balance item (- 1) t;
       set_balance tmp 1 t }
     else do {
       t \<leftarrow> rotate_left (LeftRef item) t;
       t \<leftarrow> rotate_right pitem t;
       q \<leftarrow> read_ref pitem t;
       qi \<leftarrow> item_at q t;
       t \<leftarrow> set_balance item (if ti_balance qi = - 1 then 1 else 0) t;
       t \<leftarrow> set_balance tmp (if ti_balance qi = 1 then - 1 else 0) t;
       t \<leftarrow> set_balance q 0 t;
       adjust_balance q (- 1) t } }"

definition rebalance_step :: "u32 \<Rightarrow> avl \<Rightarrow> avl option" where
  "rebalance_step item t = do {
     pitem \<leftarrow> link_from_parent item t;
     i \<leftarrow> item_at item t;
     if ti_balance i \<ge> 2 then heavy_right item pitem t
     else if ti_balance i \<le> - 2 then heavy_left item pitem t
     else Some t }"

partial_function (option) rebalance :: "u32 \<Rightarrow> avl \<Rightarrow> avl option" where
  "rebalance item t =
     (if item \<noteq> NULL then
        Option.bind (rebalance_step item t) (\<lambda>t. rebalance (ti_parent (av_items t item)) t)
      else Some t)"

subsection \<open>Changing the tree\<close>

definition tree_insert :: "u32 \<Rightarrow> avl \<Rightarrow> avl option" where
  "tree_insert node t = do {
     let new = to_tree_item t node;
     let new_key = get_key t new;
     t \<leftarrow> upd_item new (\<lambda>i. i\<lparr>ti_left := NULL, ti_right := NULL, ti_balance := 0\<rparr>) t;
     if av_root t = NULL then do {
       t \<leftarrow> upd_item new (\<lambda>i. i\<lparr>ti_parent := NULL\<rparr>) t;
       Some (t\<lparr>av_root := new\<rparr>) }
     else do {
       (found, parent) \<leftarrow> do_search new_key t;
       if \<not> found then do {
         t \<leftarrow> upd_item new (\<lambda>i. i\<lparr>ti_parent := parent\<rparr>) t;
         t \<leftarrow> (if new_key < get_key t parent then upd_item parent (\<lambda>i. i\<lparr>ti_left := new\<rparr>) t
              else upd_item parent (\<lambda>i. i\<lparr>ti_right := new\<rparr>) t);
         t \<leftarrow> adjust_balance new 1 t;
         rebalance new t }
       else Some t } }"

partial_function (option) rightmost :: "u32 \<Rightarrow> avl \<Rightarrow> u32 option" where
  "rightmost item t =
     Option.bind (item_at item t) (\<lambda>i. if ti_right i \<noteq> NULL then rightmost (ti_right i) t else Some item)"

partial_function (option) leftmost :: "u32 \<Rightarrow> avl \<Rightarrow> u32 option" where
  "leftmost item t =
     Option.bind (item_at item t) (\<lambda>i. if ti_left i \<noteq> NULL then leftmost (ti_left i) t else Some item)"

text \<open>The part of \<open>tree_remove\<close> for a node with at most one child: the child takes its place.\<close>

definition remove_single :: "u32 \<Rightarrow> link_ref \<Rightarrow> u32 \<Rightarrow> avl \<Rightarrow> avl option" where
  "remove_single item pitem child t = do {
     i \<leftarrow> item_at item t;
     t \<leftarrow> adjust_balance item (- 1) t;
     t \<leftarrow> write_ref pitem child t;
     t \<leftarrow> (if child \<noteq> NULL then upd_item child (\<lambda>x. x\<lparr>ti_parent := ti_parent i\<rparr>) t else Some t);
     rebalance (ti_parent i) t }"

text \<open>The part for a node with two children: the rightmost node of the left subtree takes its place.\<close>

definition remove_double :: "u32 \<Rightarrow> link_ref \<Rightarrow> avl \<Rightarrow> avl option" where
  "remove_double item pitem t = do {
     i \<leftarrow> item_at item t;
     subst \<leftarrow> rightmost (ti_left i) t;
     psubst \<leftarrow> link_from_parent subst t;
     s \<leftarrow> item_at subst t;
     let old_left = ti_left s;
     let old_parent = ti_parent s;
     t \<leftarrow> upd_item subst (\<lambda>x. x\<lparr>ti_parent := ti_parent i, ti_right := ti_right i,
            ti_left := (if ti_left i = subst then NULL else ti_left i), ti_balance := ti_balance i\<rparr>) t;
     t \<leftarrow> (if ti_left i \<noteq> subst then upd_item (ti_left i) (\<lambda>x. x\<lparr>ti_parent := subst\<rparr>) t else Some t);
     t \<leftarrow> upd_item (ti_right i) (\<lambda>x. x\<lparr>ti_parent := subst\<rparr>) t;
     t \<leftarrow> write_ref psubst old_left t;
     t \<leftarrow> write_ref pitem subst t;
     if old_parent = item then do {
       t \<leftarrow> upd_item subst (\<lambda>x. x\<lparr>ti_balance := ti_balance x + 1, ti_left := old_left\<rparr>) t;
       t \<leftarrow> (if ti_balance (av_items t subst) \<le> 0 then adjust_balance subst (- 1) t else Some t);
       rebalance subst t }
     else do {
       t \<leftarrow> (if old_left \<noteq> NULL then upd_item old_left (\<lambda>x. x\<lparr>ti_parent := old_parent\<rparr>) t else Some t);
       t \<leftarrow> upd_item old_parent (\<lambda>x. x\<lparr>ti_balance := ti_balance x - 1\<rparr>) t;
       t \<leftarrow> (if ti_balance (av_items t old_parent) \<ge> 0 then adjust_balance old_parent (- 1) t else Some t);
       rebalance old_parent t } }"

definition tree_remove :: "u32 \<Rightarrow> avl \<Rightarrow> avl option" where
  "tree_remove node t = do {
     let item = to_tree_item t node;
     pitem \<leftarrow> link_from_parent item t;
     i \<leftarrow> item_at item t;
     if ti_left i = NULL \<and> ti_right i = NULL then remove_single item pitem NULL t
     else if ti_left i \<noteq> NULL \<and> ti_right i = NULL then remove_single item pitem (ti_left i) t
     else if ti_left i = NULL \<and> ti_right i \<noteq> NULL then remove_single item pitem (ti_right i) t
     else remove_double item pitem t }"

subsection \<open>Neighbours\<close>

text \<open>Going up while the node is the left, or the right, child of its parent.\<close>

partial_function (option) up_left :: "u32 \<Rightarrow> avl \<Rightarrow> u32 option" where
  "up_left current t =
     Option.bind (item_at current t) (\<lambda>i.
       if ti_parent i \<noteq> NULL \<and> ti_left (av_items t (ti_parent i)) = current then up_left (ti_parent i) t
       else Some (ti_parent i))"

partial_function (option) up_right :: "u32 \<Rightarrow> avl \<Rightarrow> u32 option" where
  "up_right current t =
     Option.bind (item_at current t) (\<lambda>i.
       if ti_parent i \<noteq> NULL \<and> ti_right (av_items t (ti_parent i)) = current then up_right (ti_parent i) t
       else Some (ti_parent i))"

definition tree_prev :: "u32 \<Rightarrow> avl \<Rightarrow> u32 option" where
  "tree_prev node t =
     (if node = NULL then map_option (to_node t) (rightmost (av_root t) t)
      else do {
        i \<leftarrow> item_at (to_tree_item t node) t;
        if ti_left i = NULL then do {
          c \<leftarrow> up_left (to_tree_item t node) t;
          Some (if c \<noteq> NULL then to_node t c else NULL) }
        else map_option (to_node t) (rightmost (ti_left i) t) })"

definition tree_next :: "u32 \<Rightarrow> avl \<Rightarrow> u32 option" where
  "tree_next node t =
     (if node = NULL then map_option (to_node t) (leftmost (av_root t) t)
      else do {
        i \<leftarrow> item_at (to_tree_item t node) t;
        if ti_right i = NULL then do {
          c \<leftarrow> up_right (to_tree_item t node) t;
          Some (if c \<noteq> NULL then to_node t c else NULL) }
        else map_option (to_node t) (leftmost (ti_right i) t) })"

end
