(* ===== verification/AvlShape.thy ===== *)
theory AvlShape
  imports AvlTree "HOL-Library.Tree"
begin

text \<open>
  The shape of the trees of \<open>tree.c\<close> is a binary tree of item addresses; a position in it is a subtree with
  the list of the nodes above it. \<open>adjust_balance\<close> keeps the stored differences of the heights right after a
  change below, the rotations keep the links and the order, and a step of \<open>rebalance\<close> restores the balance
  of a node whose subtrees are balanced.
\<close>

section \<open>Shapes and positions\<close>

datatype frame = InLeft u32 "u32 tree" | InRight "u32 tree" u32

fun spine_top :: "frame list \<Rightarrow> u32" where
  "spine_top [] = NULL"
| "spine_top (InLeft a r # c) = a"
| "spine_top (InRight l a # c) = a"

fun plug :: "frame list \<Rightarrow> u32 tree \<Rightarrow> u32 tree" where
  "plug [] T = T"
| "plug (InLeft a r # c) T = plug c (Node T a r)"
| "plug (InRight l a # c) T = plug c (Node l a T)"

fun spine :: "frame list \<Rightarrow> u32 set" where
  "spine [] = {}"
| "spine (InLeft a r # c) = insert a (spine c)"
| "spine (InRight l a # c) = insert a (spine c)"

fun lefts :: "frame list \<Rightarrow> u32 list" where
  "lefts [] = []"
| "lefts (InLeft a r # c) = lefts c"
| "lefts (InRight l a # c) = lefts c @ inorder l @ [a]"

fun rights :: "frame list \<Rightarrow> u32 list" where
  "rights [] = []"
| "rights (InLeft a r # c) = a # inorder r @ rights c"
| "rights (InRight l a # c) = rights c"

lemma inorder_plug: "inorder (plug c T) = lefts c @ inorder T @ rights c"
  by (induction c T rule: plug.induct) simp_all

lemma spine_subset: "spine c \<subseteq> set (lefts c) \<union> set (rights c)"
  by (induction c rule: spine.induct) auto

text \<open>The store holds a shape at a pointer, below a parent; and it links a position.\<close>

fun rep :: "(u32 \<Rightarrow> tree_item) \<Rightarrow> u32 \<Rightarrow> u32 \<Rightarrow> u32 tree \<Rightarrow> bool" where
  "rep h p par Leaf \<longleftrightarrow> p = NULL"
| "rep h p par (Node l a r) \<longleftrightarrow> p = a \<and> a \<noteq> NULL \<and> ti_parent (h a) = par \<and>
     rep h (ti_left (h a)) a l \<and> rep h (ti_right (h a)) a r"

fun repc :: "(u32 \<Rightarrow> tree_item) \<Rightarrow> u32 \<Rightarrow> u32 \<Rightarrow> frame list \<Rightarrow> bool" where
  "repc h root p [] \<longleftrightarrow> root = p"
| "repc h root p (InLeft a r # c) \<longleftrightarrow> a \<noteq> NULL \<and> ti_left (h a) = p \<and> ti_parent (h a) = spine_top c \<and>
     rep h (ti_right (h a)) a r \<and> repc h root a c"
| "repc h root p (InRight l a # c) \<longleftrightarrow> a \<noteq> NULL \<and> ti_right (h a) = p \<and> ti_parent (h a) = spine_top c \<and>
     rep h (ti_left (h a)) a l \<and> repc h root a c"

lemma rep_plug: "rep h root NULL (plug c T) \<longleftrightarrow> (\<exists>p. repc h root p c \<and> rep h p (spine_top c) T)"
  by (induction c T rule: plug.induct) auto

lemma rep_pointer: "rep h p par T \<Longrightarrow> p = NULL \<and> T = Leaf \<or> p \<noteq> NULL \<and> p \<in> set (inorder T)"
  by (cases T) auto

lemma repc_top: "repc h root p c \<Longrightarrow> c \<noteq> [] \<Longrightarrow> spine_top c \<noteq> NULL \<and> spine_top c \<in> spine c"
  by (cases c rule: spine_top.cases) auto

text \<open>Only the links of the nodes matter.\<close>

definition links :: "tree_item \<Rightarrow> u32 \<times> u32 \<times> u32" where
  "links i = (ti_parent i, ti_left i, ti_right i)"

lemma linksD: "links i = links j \<Longrightarrow> ti_parent i = ti_parent j \<and> ti_left i = ti_left j \<and> ti_right i = ti_right j"
  by (simp add: links_def)

lemma rep_cong: "(\<And>a. a \<in> set (inorder T) \<Longrightarrow> links (h' a) = links (h a)) \<Longrightarrow> rep h' p par T \<longleftrightarrow> rep h p par T"
proof (induction T arbitrary: p par)
  case (Node l a r)
  then have "links (h' a) = links (h a)" by simp
  then show ?case using Node by (simp add: links_def)
qed simp

lemma repc_cong:
  "(\<And>a. a \<in> set (lefts c) \<union> set (rights c) \<Longrightarrow> links (h' a) = links (h a)) \<Longrightarrow>
   repc h' root p c \<longleftrightarrow> repc h root p c"
proof (induction c arbitrary: p rule: spine.induct)
  case (2 a r c)
  have "links (h' a) = links (h a)" using 2(2) by simp
  moreover have "rep h' q a r \<longleftrightarrow> rep h q a r" for q by (rule rep_cong) (simp add: 2(2))
  moreover have "repc h' root a c \<longleftrightarrow> repc h root a c" by (rule 2(1)) (rule 2(2), auto)
  ultimately show ?case by (simp add: links_def)
next
  case (3 l a c)
  have "links (h' a) = links (h a)" using 3(2) by simp
  moreover have "rep h' q a l \<longleftrightarrow> rep h q a l" for q by (rule rep_cong) (simp add: 3(2))
  moreover have "repc h' root a c \<longleftrightarrow> repc h root a c" by (rule 3(1)) (rule 3(2), auto)
  ultimately show ?case by (simp add: links_def)
qed simp

section \<open>Heights and balances\<close>

fun avlt :: "u32 tree \<Rightarrow> bool" where
  "avlt Leaf \<longleftrightarrow> True"
| "avlt (Node l a r) \<longleftrightarrow> \<bar>int (height r) - int (height l)\<bar> \<le> 1 \<and> avlt l \<and> avlt r"

fun avlc :: "frame list \<Rightarrow> nat \<Rightarrow> bool" where
  "avlc [] n \<longleftrightarrow> True"
| "avlc (InLeft a r # c) n \<longleftrightarrow> \<bar>int (height r) - int n\<bar> \<le> 1 \<and> avlt r \<and> avlc c (1 + max n (height r))"
| "avlc (InRight l a # c) n \<longleftrightarrow> \<bar>int n - int (height l)\<bar> \<le> 1 \<and> avlt l \<and> avlc c (1 + max n (height l))"

fun bals :: "(u32 \<Rightarrow> tree_item) \<Rightarrow> u32 tree \<Rightarrow> bool" where
  "bals h Leaf \<longleftrightarrow> True"
| "bals h (Node l a r) \<longleftrightarrow> ti_balance (h a) = int (height r) - int (height l) \<and> bals h l \<and> bals h r"

fun balc :: "(u32 \<Rightarrow> tree_item) \<Rightarrow> frame list \<Rightarrow> nat \<Rightarrow> bool" where
  "balc h [] n \<longleftrightarrow> True"
| "balc h (InLeft a r # c) n \<longleftrightarrow> ti_balance (h a) = int (height r) - int n \<and> bals h r \<and>
     balc h c (1 + max n (height r))"
| "balc h (InRight l a # c) n \<longleftrightarrow> ti_balance (h a) = int n - int (height l) \<and> bals h l \<and>
     balc h c (1 + max n (height l))"

lemma avlt_plug: "avlt (plug c T) \<longleftrightarrow> avlt T \<and> avlc c (height T)"
  by (induction c T rule: plug.induct) (auto simp: max.commute)

lemma bals_plug: "bals h (plug c T) \<longleftrightarrow> bals h T \<and> balc h c (height T)"
  by (induction c T rule: plug.induct) (auto simp: max.commute)

lemma bals_cong: "(\<And>a. a \<in> set (inorder T) \<Longrightarrow> ti_balance (h' a) = ti_balance (h a)) \<Longrightarrow> bals h' T \<longleftrightarrow> bals h T"
  by (induction T) auto

lemma balc_cong:
  "(\<And>a. a \<in> set (lefts c) \<union> set (rights c) \<Longrightarrow> ti_balance (h' a) = ti_balance (h a)) \<Longrightarrow>
   balc h' c n \<longleftrightarrow> balc h c n"
proof (induction c arbitrary: n rule: spine.induct)
  case (2 a r c)
  have "bals h' r \<longleftrightarrow> bals h r" by (rule bals_cong) (simp add: 2(2))
  moreover have "balc h' c k \<longleftrightarrow> balc h c k" for k by (rule 2(1)) (rule 2(2), auto)
  ultimately show ?case using 2(2) by simp
next
  case (3 l a c)
  have "bals h' l \<longleftrightarrow> bals h l" by (rule bals_cong) (simp add: 3(2))
  moreover have "balc h' c k \<longleftrightarrow> balc h c k" for k by (rule 3(1)) (rule 3(2), auto)
  ultimately show ?case using 3(2) by simp
qed simp

section \<open>Positions in a tree\<close>

definition at_pos :: "avl \<Rightarrow> u32 \<Rightarrow> frame list \<Rightarrow> u32 tree \<Rightarrow> bool" where
  "at_pos t p c T \<longleftrightarrow> repc (av_items t) (av_root t) p c \<and> rep (av_items t) p (spine_top c) T \<and>
     distinct (lefts c @ inorder T @ rights c)"

lemma at_pos_left: "at_pos t p (InLeft a r # c) T \<Longrightarrow> at_pos t a c (Node T a r)"
  by (auto simp: at_pos_def)

lemma at_pos_right: "at_pos t p (InRight l a # c) T \<Longrightarrow> at_pos t a c (Node l a T)"
  by (auto simp: at_pos_def)

lemma at_pos_links:
  "at_pos t p c T \<Longrightarrow> (\<And>a. links (h' a) = links (av_items t a)) \<Longrightarrow> at_pos (t\<lparr>av_items := h'\<rparr>) p c T"
  using rep_cong [of T h' "av_items t"] repc_cong [of c h' "av_items t"] by (simp add: at_pos_def)

text \<open>The parts of a frame: its node, the subtree beside the hole, and the balance for a hole of height
  \<open>n\<close>.\<close>

fun node_of :: "frame \<Rightarrow> u32" where
  "node_of (InLeft a r) = a"
| "node_of (InRight l a) = a"

fun sibling :: "frame \<Rightarrow> u32 tree" where
  "sibling (InLeft a r) = r"
| "sibling (InRight l a) = l"

fun fill :: "frame \<Rightarrow> u32 tree \<Rightarrow> u32 tree" where
  "fill (InLeft a r) T = Node T a r"
| "fill (InRight l a) T = Node l a T"

fun frame_balance :: "frame \<Rightarrow> nat \<Rightarrow> int" where
  "frame_balance (InLeft a r) n = int (height r) - int n"
| "frame_balance (InRight l a) n = int n - int (height l)"

lemma frame_simps:
  "balc h (f # c) n \<longleftrightarrow> ti_balance (h (node_of f)) = frame_balance f n \<and> bals h (sibling f) \<and>
     balc h c (1 + max n (height (sibling f)))"
  "bals h (fill f T) \<longleftrightarrow> ti_balance (h (node_of f)) = frame_balance f (height T) \<and> bals h (sibling f) \<and> bals h T"
  "avlc (f # c) n \<longleftrightarrow> \<bar>int n - int (height (sibling f))\<bar> \<le> 1 \<and> avlt (sibling f) \<and> avlc c (1 + max n (height (sibling f)))"
  "height (fill f T) = 1 + max (height T) (height (sibling f))"
  "spine (f # c) = insert (node_of f) (spine c)" "spine_top (f # c) = node_of f" "fill f T \<noteq> Leaf"
  "inorder (plug (f # c) T) = inorder (plug c (fill f T))"
  by (cases f; auto simp: max.commute)+

lemma at_pos_up: "at_pos t p (f # c) T \<Longrightarrow> at_pos t (node_of f) c (fill f T)"
  by (cases f) (auto simp: at_pos_def)

lemma at_pos_frame:
  assumes "at_pos t p (f # c) T"
  shows "node_of f \<noteq> NULL" "node_of f \<notin> set (inorder (sibling f))" "node_of f \<notin> set (inorder T)"
    "node_of f \<notin> set (lefts c) \<union> set (rights c)"
    "set (inorder (sibling f)) \<inter> (set (lefts c) \<union> set (rights c)) = {}"
  using assms by (cases f; auto simp: at_pos_def)+

lemma at_pos_node:
  assumes "at_pos t p c T" "T \<noteq> Leaf"
  shows "p \<noteq> NULL" "ti_parent (av_items t p) = spine_top c" "p \<in> set (inorder T)"
  using assms by (cases T; auto simp: at_pos_def)+

lemma at_pos_left_child:
  assumes "at_pos t p (f # c) T" "T \<noteq> Leaf"
  shows "ti_left (av_items t (node_of f)) = p \<longleftrightarrow> (\<exists>a r. f = InLeft a r)"
proof (cases f)
  case (InRight l a)
  have "p \<in> set (inorder T)" "p \<noteq> NULL" using at_pos_node [OF assms] by simp_all
  moreover have "rep (av_items t) (ti_left (av_items t a)) a l" "set (inorder l) \<inter> set (inorder T) = {}"
    using assms(1) InRight by (auto simp: at_pos_def)
  ultimately show ?thesis using rep_pointer [of "av_items t" "ti_left (av_items t a)" a l] InRight by auto
qed (use assms in \<open>auto simp: at_pos_def\<close>)

text \<open>\<open>adjust_balance\<close>: after the height of a subtree has changed by one, it makes all balances above it right
  again, and changes nothing else. It stops at a node whose height stays.\<close>

definition with_balance :: "u32 \<Rightarrow> int \<Rightarrow> avl \<Rightarrow> avl" where
  "with_balance a b t = t\<lparr>av_items := (av_items t)(a := (av_items t a)\<lparr>ti_balance := b\<rparr>)\<rparr>"

lemma with_balance_simps [simp]:
  "links (av_items (with_balance a b t) x) = links (av_items t x)"
  "ti_balance (av_items (with_balance a b t) x) = (if x = a then b else ti_balance (av_items t x))"
  "av_root (with_balance a b t) = av_root t"
  by (simp_all add: with_balance_def links_def)

lemma at_pos_with_balance: "at_pos t p c T \<Longrightarrow> at_pos (with_balance a b t) p c T"
  unfolding with_balance_def by (erule at_pos_links) (simp add: links_def)

lemma adjust_step:
  assumes "at_pos t p (f # c) T" "T \<noteq> Leaf" "ti_balance (av_items t (node_of f)) = frame_balance f n"
    "int n' = int n + v"
  shows "adjust_loop p v False t
       = adjust_loop (node_of f) v (height (sibling f) > n \<or> height (sibling f) > n')
           (with_balance (node_of f) (frame_balance f n') t)"
proof -
  let ?b = "ti_balance (av_items t (node_of f))"
  have "case f of InLeft _ _ \<Rightarrow> ?b - v = frame_balance f n' \<and> (?b > 0 \<longleftrightarrow> height (sibling f) > n) \<and>
          (?b - v > 0 \<longleftrightarrow> height (sibling f) > n')
      | InRight _ _ \<Rightarrow> ?b + v = frame_balance f n' \<and> (?b < 0 \<longleftrightarrow> height (sibling f) > n) \<and>
          (?b + v < 0 \<longleftrightarrow> height (sibling f) > n')"
    using assms(3,4) by (cases f) auto
  then show ?thesis
    using at_pos_node [OF assms(1,2)] at_pos_left_child [OF assms(1,2)] at_pos_frame(1) [OF assms(1)]
    by (cases f; subst adjust_loop.simps) (simp_all add: item_at_def upd_item_def Let_def with_balance_def)
qed

lemma balc_with_balance:
  assumes "at_pos t p (f # c) T"
  shows "balc (av_items (with_balance (node_of f) b t)) c n \<longleftrightarrow> balc (av_items t) c n"
    "bals (av_items (with_balance (node_of f) b t)) (sibling f) \<longleftrightarrow> bals (av_items t) (sibling f)"
  using at_pos_frame [OF assms]
  by (intro balc_cong bals_cong; auto)+

lemma adjust_ok:
  assumes "at_pos t p c T" "T \<noteq> Leaf" "balc (av_items t) c n" "v = 1 \<or> v = - 1" "int n' = int n + v"
  shows "\<exists>h'. adjust_loop p v False t = Some (t\<lparr>av_items := h'\<rparr>) \<and>
      (\<forall>a. links (h' a) = links (av_items t a)) \<and> (\<forall>a. a \<notin> spine c \<longrightarrow> h' a = av_items t a) \<and> balc h' c n'"
  using assms
proof (induction c arbitrary: t p T n n')
  case Nil
  then have "adjust_loop p v False t = Some (t\<lparr>av_items := av_items t\<rparr>)"
    using at_pos_node [OF Nil(1,2)] by (subst adjust_loop.simps) (simp add: item_at_def)
  then show ?case by (intro exI [of _ "av_items t"]) simp
next
  case (Cons f c)
  let ?a = "node_of f" and ?s = "height (sibling f)"
  let ?t1 = "with_balance ?a (frame_balance f n') t" and ?stop = "?s > n \<or> ?s > n'"
  note fr = at_pos_frame [OF Cons(2)]
  have b: "ti_balance (av_items t ?a) = frame_balance f n" "bals (av_items t) (sibling f)"
      "balc (av_items t) c (1 + max n ?s)"
    using Cons(4) by (simp_all add: frame_simps)
  note step = adjust_step [OF Cons(2,3) b(1) Cons(6)]
  have c1: "bals (av_items ?t1) (sibling f)" "balc (av_items ?t1) c (1 + max n ?s)"
    using balc_with_balance [OF Cons(2)] b by simp_all
  have same: "x \<noteq> ?a \<Longrightarrow> av_items ?t1 x = av_items t x" for x by (simp add: with_balance_def)
  show ?case
  proof (cases ?stop)
    case True
    then have "max n' ?s = max n ?s" using Cons(5,6) by auto
    moreover have "adjust_loop ?a v True ?t1 = Some ?t1"
      using fr(1) by (subst adjust_loop.simps) (simp add: item_at_def)
    moreover have "?t1 = t\<lparr>av_items := av_items ?t1\<rparr>" by (simp add: with_balance_def)
    ultimately show ?thesis
      using step True c1 same by (intro exI [of _ "av_items ?t1"]) (simp add: frame_simps)
  next
    case False
    note up = at_pos_with_balance [OF at_pos_up [OF Cons(2)]]
    have "int (1 + max n' ?s) = int (1 + max n ?s) + v" using False Cons(5,6) by auto
    from Cons(1) [OF up frame_simps(7) c1(2) Cons(5) this] obtain h' where
      h': "adjust_loop ?a v False ?t1 = Some (?t1\<lparr>av_items := h'\<rparr>)" "\<forall>x. links (h' x) = links (av_items ?t1 x)"
        "\<forall>x. x \<notin> spine c \<longrightarrow> h' x = av_items ?t1 x" "balc h' c (1 + max n' ?s)" by blast
    have out: "h' ?a = av_items ?t1 ?a" "\<forall>x \<in> set (inorder (sibling f)). h' x = av_items ?t1 x"
      using h'(3) fr(4,5) spine_subset [of c] by blast+
    then have "bals h' (sibling f)" using c1(1) bals_cong [of "sibling f" h' "av_items ?t1"] by simp
    then show ?thesis
      using step False h' out same by (intro exI [of _ h']) (auto simp: frame_simps with_balance_def links_def)
  qed
qed

section \<open>Replacing a subtree\<close>

lemma distinct_middle: "distinct (xs @ ys @ zs) \<Longrightarrow> a \<in> set ys \<Longrightarrow> a \<notin> set xs \<union> set zs"
  by auto

fun ref_of :: "frame list \<Rightarrow> link_ref" where
  "ref_of [] = RootRef"
| "ref_of (InLeft a r # c) = LeftRef a"
| "ref_of (InRight l a # c) = RightRef a"

fun relink :: "frame list \<Rightarrow> u32 \<Rightarrow> avl \<Rightarrow> avl" where
  "relink [] q t = t\<lparr>av_root := q\<rparr>"
| "relink (InLeft a r # c) q t = t\<lparr>av_items := (av_items t)(a := (av_items t a)\<lparr>ti_left := q\<rparr>)\<rparr>"
| "relink (InRight l a # c) q t = t\<lparr>av_items := (av_items t)(a := (av_items t a)\<lparr>ti_right := q\<rparr>)\<rparr>"

lemma refs_of:
  assumes "repc (av_items t) (av_root t) p c"
  shows "read_ref (ref_of c) t = Some p" "write_ref (ref_of c) q t = Some (relink c q t)"
  using assms by (cases c rule: ref_of.cases; simp add: read_ref_def write_ref_def item_at_def upd_item_def)+

lemma link_from_parent_ref:
  assumes "at_pos t p c T" "T \<noteq> Leaf"
  shows "link_from_parent p t = Some (ref_of c)"
proof (cases c)
  case Nil
  then show ?thesis using at_pos_node [OF assms] by (simp add: link_from_parent_def item_at_def)
next
  case (Cons f c')
  then show ?thesis
    using at_pos_node [OF assms] at_pos_frame(1) [of t p f c' T] at_pos_left_child [of t p f c' T] assms
    by (cases f) (simp_all add: link_from_parent_def item_at_def)
qed

lemma relink_other_items:
  "x \<notin> set (lefts c) \<union> set (rights c) \<Longrightarrow> av_items (relink c q t) x = av_items t x"
  "ti_balance (av_items (relink c q t) x) = ti_balance (av_items t x)"
  "ti_parent (av_items (relink c q t) x) = ti_parent (av_items t x)"
  by (cases c rule: ref_of.cases; auto)+

lemma repc_relink:
  assumes "repc (av_items t) (av_root t) p c" "distinct (lefts c @ rights c)"
  shows "repc (av_items (relink c q t)) (av_root (relink c q t)) q c"
proof (cases c rule: ref_of.cases)
  case (2 a r c')
  let ?h = "(av_items t)(a := (av_items t a)\<lparr>ti_left := q\<rparr>)"
  have "rep ?h x a r \<longleftrightarrow> rep (av_items t) x a r" for x
    by (rule rep_cong) (use assms(2) 2 in auto)
  moreover have "repc ?h root x c' \<longleftrightarrow> repc (av_items t) root x c'" for x root
    by (rule repc_cong) (use assms(2) 2 in auto)
  ultimately show ?thesis using assms(1) 2 by simp
next
  case (3 l a c')
  let ?h = "(av_items t)(a := (av_items t a)\<lparr>ti_right := q\<rparr>)"
  have "rep ?h x a l \<longleftrightarrow> rep (av_items t) x a l" for x
    by (rule rep_cong) (use assms(2) 3 in auto)
  moreover have "repc ?h root x c' \<longleftrightarrow> repc (av_items t) root x c'" for x root
    by (rule repc_cong) (use assms(2) 3 in auto)
  ultimately show ?thesis using assms(1) 3 by simp
qed simp

text \<open>The objects themselves, with their keys, do not change.\<close>

definition same_objs :: "avl \<Rightarrow> avl \<Rightarrow> bool" where
  "same_objs t t' \<longleftrightarrow> av_words t' = av_words t \<and> av_item_offset t' = av_item_offset t \<and>
     av_key_offset t' = av_key_offset t"

lemma same_objs_simps [simp]:
  "same_objs t t" "same_objs t (t\<lparr>av_items := h\<rparr>)" "same_objs t (relink c q (t\<lparr>av_items := h\<rparr>))"
  "same_objs t (with_balance a b t') \<longleftrightarrow> same_objs t t'"
  by (cases c rule: ref_of.cases; auto simp: same_objs_def with_balance_def)+

lemma same_objs_trans: "same_objs t t' \<Longrightarrow> same_objs t' t'' \<Longrightarrow> same_objs t t''"
  by (simp add: same_objs_def)

lemma same_objs_key: "same_objs t t' \<Longrightarrow> get_key t' = get_key t \<and> to_node t' = to_node t \<and> to_tree_item t' = to_tree_item t"
  by (simp add: same_objs_def get_key_def to_node_def to_tree_item_def fun_eq_iff)

text \<open>A changed subtree, with the pointer to it changed, is at the same position.\<close>

lemma at_pos_replace:
  assumes "repc (av_items t) (av_root t) p c"
    and "\<And>x. x \<in> set (lefts c) \<union> set (rights c) \<Longrightarrow> links (h2 x) = links (av_items t x)"
    and "rep h2 q (spine_top c) T" "distinct (lefts c @ inorder T @ rights c)"
  shows "at_pos (relink c q (t\<lparr>av_items := h2\<rparr>)) q c T"
proof -
  let ?t = "t\<lparr>av_items := h2\<rparr>"
  have "repc (av_items ?t) (av_root ?t) p c" using assms(1) repc_cong [OF assms(2)] by simp
  then have "repc (av_items (relink c q ?t)) (av_root (relink c q ?t)) q c"
    by (rule repc_relink) (use assms(4) in auto)
  moreover have "rep (av_items (relink c q ?t)) q (spine_top c) T \<longleftrightarrow> rep h2 q (spine_top c) T"
  proof (rule rep_cong)
    fix a assume "a \<in> set (inorder T)"
    with assms(4) have "a \<notin> set (lefts c) \<union> set (rights c)" by (rule distinct_middle)
    then show "links (av_items (relink c q ?t) a) = links (h2 a)"
      using relink_other_items(1) [of a c q ?t] by simp
  qed
  ultimately show ?thesis using assms(3,4) by (simp add: at_pos_def)
qed

lemma rep_reparent:
  assumes "rep h p par T" "distinct (inorder T)"
    and "\<And>x. x \<in> set (inorder T) \<Longrightarrow> x \<noteq> p \<Longrightarrow> links (h' x) = links (h x)"
    and "p \<noteq> NULL \<Longrightarrow> ti_parent (h' p) = q \<and> ti_left (h' p) = ti_left (h p) \<and> ti_right (h' p) = ti_right (h p)"
  shows "rep h' p q T"
proof (cases T)
  case (Node l a r)
  have "rep h' x p l \<longleftrightarrow> rep h x p l" for x by (rule rep_cong) (use assms(1-3) Node in auto)
  moreover have "rep h' x p r \<longleftrightarrow> rep h x p r" for x by (rule rep_cong) (use assms(1-3) Node in auto)
  ultimately show ?thesis using assms Node by auto
qed (use assms in simp)

section \<open>Rotations\<close>

definition rot_left :: "(u32 \<Rightarrow> tree_item) \<Rightarrow> u32 \<Rightarrow> u32 \<Rightarrow> u32 \<Rightarrow> u32 \<Rightarrow> tree_item" where
  "rot_left h a b par x =
     (if x = b then (h b)\<lparr>ti_parent := par, ti_left := a\<rparr>
      else if x = a then (h a)\<lparr>ti_parent := b, ti_right := ti_left (h b)\<rparr>
      else if x = ti_left (h b) \<and> x \<noteq> NULL then (h x)\<lparr>ti_parent := a\<rparr> else h x)"

lemma rotate_left_ok:
  assumes "at_pos t a c (Node l a (Node rl b rr))"
  shows "\<exists>t'. rotate_left (ref_of c) t = Some t' \<and> at_pos t' b c (Node (Node l a rl) b rr) \<and>
    (\<forall>x. ti_balance (av_items t' x) = ti_balance (av_items t x)) \<and> ti_parent (av_items t' a) = b \<and> same_objs t t'"
proof -
  let ?h = "av_items t"
  let ?h2 = "rot_left ?h a b (spine_top c)"
  let ?t' = "relink c b (t\<lparr>av_items := ?h2\<rparr>)"
  have c: "repc ?h (av_root t) a c" using assms by (simp add: at_pos_def)
  have links: "a \<noteq> NULL" "b \<noteq> NULL" "ti_right (?h a) = b" "ti_parent (?h a) = spine_top c"
      "rep ?h (ti_left (?h a)) a l" "rep ?h (ti_left (?h b)) b rl" "rep ?h (ti_right (?h b)) b rr"
    using assms by (auto simp: at_pos_def)
  have d: "distinct (lefts c @ inorder l @ a # inorder rl @ b # inorder rr @ rights c)"
    using assms by (simp add: at_pos_def)
  have rl: "ti_left (?h b) = NULL \<and> rl = Leaf \<or> ti_left (?h b) \<noteq> NULL \<and> ti_left (?h b) \<in> set (inorder rl)"
    using rep_pointer [OF links(6)] .
  then have ne: "a \<noteq> b" "ti_left (?h b) \<noteq> a" "ti_left (?h b) \<noteq> b" using d links(1,2) by auto
  have "rep ?h2 (ti_left (?h a)) a l \<longleftrightarrow> rep ?h (ti_left (?h a)) a l"
    by (rule rep_cong) (use d rl in \<open>auto simp: rot_left_def\<close>)
  moreover have "rep ?h2 (ti_right (?h b)) b rr \<longleftrightarrow> rep ?h (ti_right (?h b)) b rr"
    by (rule rep_cong) (use d rl in \<open>auto simp: rot_left_def\<close>)
  moreover have "rep ?h2 (ti_left (?h b)) a rl"
    by (rule rep_reparent [OF links(6)]) (use d ne in \<open>auto simp: rot_left_def\<close>)
  ultimately have "rep ?h2 b (spine_top c) (Node (Node l a rl) b rr)"
    using links ne by (simp add: rot_left_def)
  then have pos: "at_pos ?t' b c (Node (Node l a rl) b rr)"
    by (intro at_pos_replace [OF c]) (use d rl in \<open>auto simp: rot_left_def\<close>)
  have "write_ref (ref_of c) b (t\<lparr>av_items := ?h2\<rparr>) = Some ?t'"
  proof (rule refs_of(2))
    have "links (?h2 x) = links (?h x)" if "x \<in> set (lefts c) \<union> set (rights c)" for x
      using that d rl by (auto simp: rot_left_def)
    then show "repc (av_items (t\<lparr>av_items := ?h2\<rparr>)) (av_root (t\<lparr>av_items := ?h2\<rparr>)) a c"
      using c repc_cong [of c ?h2 ?h] by simp
  qed
  moreover have "rotate_left (ref_of c) t = write_ref (ref_of c) b (t\<lparr>av_items := ?h2\<rparr>)"
  proof -
    have "?h2 = (\<lambda>h. h(b := (h b)\<lparr>ti_left := a\<rparr>)) ((\<lambda>h. h(a := (h a)\<lparr>ti_right := ti_left (?h b)\<rparr>))
        ((\<lambda>h. if ti_left (?h b) \<noteq> NULL then h(ti_left (?h b) := (h (ti_left (?h b)))\<lparr>ti_parent := a\<rparr>) else h)
        ((\<lambda>h. h(a := (h a)\<lparr>ti_parent := b\<rparr>)) (?h(b := (?h b)\<lparr>ti_parent := spine_top c\<rparr>)))))"
      using ne by (auto simp: rot_left_def fun_eq_iff)
    then show ?thesis
      using links refs_of(1) [OF c] by (simp add: rotate_left_def item_at_def upd_item_def Let_def)
  qed
  moreover have "ti_balance (av_items ?t' x) = ti_balance (?h x)" for x
    by (simp add: relink_other_items rot_left_def)
  moreover have "ti_parent (av_items ?t' a) = b" using ne by (simp add: relink_other_items rot_left_def)
  ultimately show ?thesis using pos by auto
qed

definition rot_right :: "(u32 \<Rightarrow> tree_item) \<Rightarrow> u32 \<Rightarrow> u32 \<Rightarrow> u32 \<Rightarrow> u32 \<Rightarrow> tree_item" where
  "rot_right h a b par x =
     (if x = b then (h b)\<lparr>ti_parent := par, ti_right := a\<rparr>
      else if x = a then (h a)\<lparr>ti_parent := b, ti_left := ti_right (h b)\<rparr>
      else if x = ti_right (h b) \<and> x \<noteq> NULL then (h x)\<lparr>ti_parent := a\<rparr> else h x)"

lemma rotate_right_ok:
  assumes "at_pos t a c (Node (Node ll b lr) a r)"
  shows "\<exists>t'. rotate_right (ref_of c) t = Some t' \<and> at_pos t' b c (Node ll b (Node lr a r)) \<and>
    (\<forall>x. ti_balance (av_items t' x) = ti_balance (av_items t x)) \<and> ti_parent (av_items t' a) = b \<and> same_objs t t'"
proof -
  let ?h = "av_items t"
  let ?h2 = "rot_right ?h a b (spine_top c)"
  let ?t' = "relink c b (t\<lparr>av_items := ?h2\<rparr>)"
  have c: "repc ?h (av_root t) a c" using assms by (simp add: at_pos_def)
  have links: "a \<noteq> NULL" "b \<noteq> NULL" "ti_left (?h a) = b" "ti_parent (?h a) = spine_top c"
      "rep ?h (ti_right (?h a)) a r" "rep ?h (ti_right (?h b)) b lr" "rep ?h (ti_left (?h b)) b ll"
    using assms by (auto simp: at_pos_def)
  have d: "distinct (lefts c @ inorder ll @ b # inorder lr @ a # inorder r @ rights c)"
    using assms by (simp add: at_pos_def)
  have lr: "ti_right (?h b) = NULL \<and> lr = Leaf \<or> ti_right (?h b) \<noteq> NULL \<and> ti_right (?h b) \<in> set (inorder lr)"
    using rep_pointer [OF links(6)] .
  then have ne: "a \<noteq> b" "ti_right (?h b) \<noteq> a" "ti_right (?h b) \<noteq> b" using d links(1,2) by auto
  have "rep ?h2 (ti_right (?h a)) a r \<longleftrightarrow> rep ?h (ti_right (?h a)) a r"
    by (rule rep_cong) (use d lr in \<open>auto simp: rot_right_def\<close>)
  moreover have "rep ?h2 (ti_left (?h b)) b ll \<longleftrightarrow> rep ?h (ti_left (?h b)) b ll"
    by (rule rep_cong) (use d lr in \<open>auto simp: rot_right_def\<close>)
  moreover have "rep ?h2 (ti_right (?h b)) a lr"
    by (rule rep_reparent [OF links(6)]) (use d ne in \<open>auto simp: rot_right_def\<close>)
  ultimately have "rep ?h2 b (spine_top c) (Node ll b (Node lr a r))"
    using links ne by (simp add: rot_right_def)
  then have pos: "at_pos ?t' b c (Node ll b (Node lr a r))"
    by (intro at_pos_replace [OF c]) (use d lr in \<open>auto simp: rot_right_def\<close>)
  have "write_ref (ref_of c) b (t\<lparr>av_items := ?h2\<rparr>) = Some ?t'"
  proof (rule refs_of(2))
    have "links (?h2 x) = links (?h x)" if "x \<in> set (lefts c) \<union> set (rights c)" for x
      using that d lr by (auto simp: rot_right_def)
    then show "repc (av_items (t\<lparr>av_items := ?h2\<rparr>)) (av_root (t\<lparr>av_items := ?h2\<rparr>)) a c"
      using c repc_cong [of c ?h2 ?h] by simp
  qed
  moreover have "rotate_right (ref_of c) t = write_ref (ref_of c) b (t\<lparr>av_items := ?h2\<rparr>)"
  proof -
    have "?h2 = (\<lambda>h. h(b := (h b)\<lparr>ti_right := a\<rparr>)) ((\<lambda>h. h(a := (h a)\<lparr>ti_left := ti_right (?h b)\<rparr>))
        ((\<lambda>h. if ti_right (?h b) \<noteq> NULL then h(ti_right (?h b) := (h (ti_right (?h b)))\<lparr>ti_parent := a\<rparr>) else h)
        ((\<lambda>h. h(a := (h a)\<lparr>ti_parent := b\<rparr>)) (?h(b := (?h b)\<lparr>ti_parent := spine_top c\<rparr>)))))"
      using ne by (auto simp: rot_right_def fun_eq_iff)
    then show ?thesis
      using links refs_of(1) [OF c] by (simp add: rotate_right_def item_at_def upd_item_def Let_def)
  qed
  moreover have "ti_balance (av_items ?t' x) = ti_balance (?h x)" for x
    by (simp add: relink_other_items rot_right_def)
  moreover have "ti_parent (av_items ?t' a) = b" using ne by (simp add: relink_other_items rot_right_def)
  ultimately show ?thesis using pos by auto
qed

section \<open>Restoring the balance\<close>

lemma at_pos_down_right: "at_pos t a c (Node l a r) \<Longrightarrow> at_pos t (ti_right (av_items t a)) (InRight l a # c) r"
  by (auto simp: at_pos_def)

lemma at_pos_down_left: "at_pos t a c (Node l a r) \<Longrightarrow> at_pos t (ti_left (av_items t a)) (InLeft a r # c) l"
  by (auto simp: at_pos_def)

lemma bals_with_balance:
  "x \<notin> set (inorder T) \<Longrightarrow> bals (av_items (with_balance x b t)) T \<longleftrightarrow> bals (av_items t) T"
  by (rule bals_cong) auto

lemma balc_with_balance_out:
  "x \<notin> set (lefts c) \<union> set (rights c) \<Longrightarrow> balc (av_items (with_balance x b t)) c n \<longleftrightarrow> balc (av_items t) c n"
  by (rule balc_cong) auto

lemma same_balances:
  assumes "\<forall>x. ti_balance (av_items t' x) = ti_balance (av_items t x)"
  shows "bals (av_items t') T \<longleftrightarrow> bals (av_items t) T" "balc (av_items t') c n \<longleftrightarrow> balc (av_items t) c n"
  using assms by (intro bals_cong balc_cong; simp)+

lemma set_balance_ok: "p \<noteq> NULL \<Longrightarrow> set_balance p b t = Some (with_balance p b t)"
  by (simp add: set_balance_def upd_item_def with_balance_def)

text \<open>A position with right balances inside and for a hole of the height \<open>n\<close> outside.\<close>

definition balanced_at :: "avl \<Rightarrow> u32 \<Rightarrow> frame list \<Rightarrow> u32 tree \<Rightarrow> nat \<Rightarrow> bool" where
  "balanced_at t p c T n \<longleftrightarrow> at_pos t p c T \<and> bals (av_items t) T \<and> balc (av_items t) c n"

lemma adjust_pos:
  assumes "balanced_at t p c T n" "T \<noteq> Leaf" "v = 1 \<or> v = - 1" "int (height T) = int n + v"
  shows "\<exists>t'. adjust_balance p v t = Some t' \<and> balanced_at t' p c T (height T) \<and> same_objs t t' \<and>
    (\<forall>a. links (av_items t' a) = links (av_items t a))"
proof -
  have pos: "at_pos t p c T" and b: "bals (av_items t) T" "balc (av_items t) c n"
    using assms(1) by (simp_all add: balanced_at_def)
  from adjust_ok [OF pos assms(2) b(2) assms(3,4)] obtain h' where
    h': "adjust_loop p v False t = Some (t\<lparr>av_items := h'\<rparr>)" "\<forall>a. links (h' a) = links (av_items t a)"
      "\<forall>a. a \<notin> spine c \<longrightarrow> h' a = av_items t a" "balc h' c (height T)" by blast
  have "a \<notin> spine c" if "a \<in> set (inorder T)" for a
    using that distinct_middle [of "lefts c" "inorder T" "rights c" a] pos spine_subset [of c]
    by (auto simp: at_pos_def)
  then have "bals h' T" using b(1) h'(3) bals_cong [of T h' "av_items t"] by simp
  then show ?thesis
    using h' at_pos_links [OF pos, of h'] by (auto simp: balanced_at_def adjust_balance_def)
qed

text \<open>What a step of \<open>rebalance\<close> achieves for a node whose subtrees are balanced.\<close>

definition fixed_at :: "avl \<Rightarrow> u32 \<Rightarrow> frame list \<Rightarrow> u32 tree \<Rightarrow> avl \<Rightarrow> bool" where
  "fixed_at t a c N t' \<longleftrightarrow> (\<exists>p T. balanced_at t' p c T (height T) \<and> T \<noteq> Leaf \<and> avlt T \<and> inorder T = inorder N \<and>
     (height T = height N \<or> Suc (height T) = height N) \<and> same_objs t t' \<and> ti_parent (av_items t' a) = p)"

lemma links_parent: "links i = links j \<Longrightarrow> ti_parent i = ti_parent j"
  by (simp add: links_def)

lemma fixed_shrunk:
  assumes "balanced_at t0 q c T (Suc (height T))" "T \<noteq> Leaf" "avlt T" "inorder T = inorder N"
    "Suc (height T) = height N" "ti_parent (av_items t0 a) = q" "same_objs t t0"
  shows "\<exists>t'. adjust_balance q (- 1) t0 = Some t' \<and> fixed_at t a c N t'" "read_ref (ref_of c) t0 = Some q"
proof -
  from adjust_pos [OF assms(1,2), of "- 1"] obtain t' where
    t': "adjust_balance q (- 1) t0 = Some t'" "balanced_at t' q c T (height T)" "same_objs t0 t'"
      "\<forall>a. links (av_items t' a) = links (av_items t0 a)" by auto
  have "ti_parent (av_items t' a) = q" using links_parent [OF t'(4) [rule_format, of a]] assms(6) by simp
  then have "fixed_at t a c N t'"
    unfolding fixed_at_def using t' assms same_objs_trans [OF assms(7) t'(3)]
    by (intro exI [of _ q] exI [of _ T]) auto
  then show "\<exists>t'. adjust_balance q (- 1) t0 = Some t' \<and> fixed_at t a c N t'" using t'(1) by blast
  show "read_ref (ref_of c) t0 = Some q" by (rule refs_of) (use assms(1) in \<open>simp add: balanced_at_def at_pos_def\<close>)
qed

lemma parent_with_balance [simp]: "ti_parent (av_items (with_balance a b t) x) = ti_parent (av_items t x)"
  by (simp add: with_balance_def)

lemmas rebalance_simps = balanced_at_def bals_with_balance balc_with_balance_out at_pos_with_balance

lemma heavy_right_ok:
  assumes bal: "balanced_at t a c (Node l a r) (height (Node l a r))"
    and avl: "avlt l" "avlt r" and h: "height r = height l + 2"
  shows "\<exists>t'. heavy_right a (ref_of c) t = Some t' \<and> fixed_at t a c (Node l a r) t'"
proof -
  obtain rl b rr where r: "r = Node rl b rr" using h by (cases r) auto
  have pos: "at_pos t a c (Node l a (Node rl b rr))" using bal r by (simp add: balanced_at_def)
  have bs: "bals (av_items t) l" "bals (av_items t) rl" "bals (av_items t) rr"
      "ti_balance (av_items t b) = int (height rr) - int (height rl)" "balc (av_items t) c (Suc (Suc (Suc (height l))))"
    using bal r h by (auto simp: balanced_at_def)
  have ab: "a \<noteq> NULL" "b \<noteq> NULL" "ti_right (av_items t a) = b" using pos by (auto simp: at_pos_def)
  have d: "distinct (lefts c @ inorder l @ a # inorder rl @ b # inorder rr @ rights c)"
    using pos by (simp add: at_pos_def)
  have start: "item_at a t = Some (av_items t a)" "item_at b t = Some (av_items t b)"
    using ab by (simp_all add: item_at_def)
  from rotate_left_ok [OF pos] obtain t1 where t1: "rotate_left (ref_of c) t = Some t1"
    "at_pos t1 b c (Node (Node l a rl) b rr)" "\<forall>x. ti_balance (av_items t1 x) = ti_balance (av_items t x)"
    "ti_parent (av_items t1 a) = b" "same_objs t t1" by blast
  note keep = same_balances [OF t1(3)]
  let ?T = "Node (Node l a rl) b rr"
  consider (single) "height rr = height rl + 1" | (equal) "height rr = height rl" | (double) "height rl = height rr + 1"
    using avl(2) r by fastforce
  then show ?thesis
  proof cases
    case single
    let ?t3 = "with_balance b 0 (with_balance a 0 t1)"
    have "balanced_at ?t3 b c ?T (Suc (height ?T))"
      using t1(2) bs d h r single by (simp add: rebalance_simps keep)
    from fixed_shrunk [OF this, of "Node l a r" a t] show ?thesis
      using start ab t1 avl bs(4) h r single by (simp add: heavy_right_def set_balance_ok Let_def)
  next
    case equal
    let ?t3 = "with_balance b (- 1) (with_balance a 1 t1)"
    have "fixed_at t a c (Node l a r) ?t3"
      unfolding fixed_at_def using t1 bs d h r equal avl
      by (intro exI [of _ b] exI [of _ ?T]) (simp add: rebalance_simps keep)
    then show ?thesis
      using start ab t1(1) bs(4) h r equal by (simp add: heavy_right_def set_balance_ok Let_def)
  next
    case double
    then obtain x q y where rl: "rl = Node x q y" by (cases rl) auto
    have hq: "max (height x) (height y) = height l" "height rr = height l"
        "\<bar>int (height y) - int (height x)\<bar> \<le> 1" "avlt x" "avlt y" "avlt rr"
        "ti_balance (av_items t q) = int (height y) - int (height x)"
      using double rl h r avl(2) bs(2) by auto
    have "at_pos t b (InRight l a # c) (Node (Node x q y) b rr)"
      using at_pos_down_right [OF pos] ab(3) rl by simp
    from rotate_right_ok [OF this] obtain u1 where u1: "rotate_right (RightRef a) t = Some u1"
      "at_pos u1 q (InRight l a # c) (Node x q (Node y b rr))" "same_objs t u1"
      "\<forall>x. ti_balance (av_items u1 x) = ti_balance (av_items t x)" by auto
    from rotate_left_ok [OF at_pos_right [OF u1(2)]] obtain u2 where u2: "rotate_left (ref_of c) u1 = Some u2"
      "at_pos u2 q c (Node (Node l a x) q (Node y b rr))" "ti_parent (av_items u2 a) = q" "same_objs u1 u2"
      "\<forall>x. ti_balance (av_items u2 x) = ti_balance (av_items u1 x)" by blast
    have same: "\<forall>x. ti_balance (av_items u2 x) = ti_balance (av_items t x)" using u1(4) u2(5) by simp
    have objs: "same_objs t u2" using u1(3) u2(4) by (rule same_objs_trans)
    let ?bq = "int (height y) - int (height x)" and ?N = "Node (Node l a x) q (Node y b rr)"
    have vals: "(if ?bq = 1 then - 1 else 0) = int (height x) - int (height l)"
        "(if ?bq = - 1 then 1 else 0) = int (height rr) - int (height y)"
        "height (Node l a x) = Suc (height l)" "height (Node y b rr) = Suc (height l)" "avlt ?N"
      using hq(1-6) avl(1) by auto
    let ?t5 = "with_balance q 0 (with_balance b (int (height rr) - int (height y))
        (with_balance a (int (height x) - int (height l)) u2))"
    have q: "q \<noteq> NULL" "read_ref (ref_of c) u2 = Some q"
      using u2(2) refs_of(1) [of u2 q c] by (auto simp: at_pos_def)
    have "bals (av_items u2) T \<longleftrightarrow> bals (av_items t) T" "balc (av_items u2) c n \<longleftrightarrow> balc (av_items t) c n" for T n
      using same_balances [OF same] by simp_all
    moreover have "b \<noteq> q" "a \<noteq> q" "a \<noteq> b" using d rl by auto
    ultimately have "balanced_at ?t5 q c ?N (Suc (Suc (Suc (height l))))"
      using u2(2) bs d rl vals(3,4) by (simp add: rebalance_simps)
    then have "balanced_at ?t5 q c ?N (Suc (height ?N))" using vals(3,4) by simp
    then have "\<exists>t'. adjust_balance q (- 1) ?t5 = Some t' \<and> fixed_at t a c (Node l a r) t'"
      by (rule fixed_shrunk(1)) (use u2(3) objs vals(3-5) r rl h in simp_all)
    moreover have "heavy_right a (ref_of c) t = adjust_balance q (- 1) ?t5"
      using start ab u1(1) u2(1) bs(4) q same hq(7) double vals(1,2)
      by (simp add: heavy_right_def set_balance_ok Let_def item_at_def)
    ultimately show ?thesis by simp
  qed
qed

lemma heavy_left_ok:
  assumes bal: "balanced_at t a c (Node l a r) (height (Node l a r))"
    and avl: "avlt l" "avlt r" and h: "height l = height r + 2"
  shows "\<exists>t'. heavy_left a (ref_of c) t = Some t' \<and> fixed_at t a c (Node l a r) t'"
proof -
  obtain ll b lr where l: "l = Node ll b lr" using h by (cases l) auto
  have pos: "at_pos t a c (Node (Node ll b lr) a r)" using bal l by (simp add: balanced_at_def)
  have bs: "bals (av_items t) r" "bals (av_items t) lr" "bals (av_items t) ll"
      "ti_balance (av_items t b) = int (height lr) - int (height ll)" "balc (av_items t) c (Suc (Suc (Suc (height r))))"
    using bal l h by (auto simp: balanced_at_def)
  have ab: "a \<noteq> NULL" "b \<noteq> NULL" "ti_left (av_items t a) = b" using pos by (auto simp: at_pos_def)
  have d: "distinct (lefts c @ inorder ll @ b # inorder lr @ a # inorder r @ rights c)"
    using pos by (simp add: at_pos_def)
  then have ne: "a \<noteq> b" by auto
  have start: "item_at a t = Some (av_items t a)" "item_at b t = Some (av_items t b)"
    using ab by (simp_all add: item_at_def)
  from rotate_right_ok [OF pos] obtain t1 where t1: "rotate_right (ref_of c) t = Some t1"
    "at_pos t1 b c (Node ll b (Node lr a r))" "\<forall>x. ti_balance (av_items t1 x) = ti_balance (av_items t x)"
    "ti_parent (av_items t1 a) = b" "same_objs t t1" by blast
  note keep = same_balances [OF t1(3)]
  let ?T = "Node ll b (Node lr a r)"
  consider (single) "height ll = height lr + 1" | (equal) "height ll = height lr" | (double) "height lr = height ll + 1"
    using avl(1) l by fastforce
  then show ?thesis
  proof cases
    case single
    let ?t3 = "with_balance b 0 (with_balance a 0 t1)"
    have "balanced_at ?t3 b c ?T (Suc (height ?T))"
      using t1(2) bs d ne h l single by (simp add: rebalance_simps keep)
    from fixed_shrunk [OF this, of "Node l a r" a t] show ?thesis
      using start ab t1 avl bs(4) h l single by (simp add: heavy_left_def set_balance_ok Let_def)
  next
    case equal
    let ?t3 = "with_balance b 1 (with_balance a (- 1) t1)"
    have "fixed_at t a c (Node l a r) ?t3"
      unfolding fixed_at_def using t1 bs d ne h l equal avl
      by (intro exI [of _ b] exI [of _ ?T]) (simp add: rebalance_simps keep)
    then show ?thesis
      using start ab t1(1) bs(4) h l equal by (simp add: heavy_left_def set_balance_ok Let_def)
  next
    case double
    then obtain x q y where lr: "lr = Node x q y" by (cases lr) auto
    have hq: "max (height x) (height y) = height r" "height ll = height r"
        "\<bar>int (height y) - int (height x)\<bar> \<le> 1" "avlt x" "avlt y" "avlt ll"
        "ti_balance (av_items t q) = int (height y) - int (height x)"
      using double lr h l avl(1) bs(2) by auto
    have "at_pos t b (InLeft a r # c) (Node ll b (Node x q y))"
      using at_pos_down_left [OF pos] ab(3) lr by simp
    from rotate_left_ok [OF this] obtain u1 where u1: "rotate_left (LeftRef a) t = Some u1"
      "at_pos u1 q (InLeft a r # c) (Node (Node ll b x) q y)" "same_objs t u1"
      "\<forall>x. ti_balance (av_items u1 x) = ti_balance (av_items t x)" by auto
    from rotate_right_ok [OF at_pos_left [OF u1(2)]] obtain u2 where u2: "rotate_right (ref_of c) u1 = Some u2"
      "at_pos u2 q c (Node (Node ll b x) q (Node y a r))" "ti_parent (av_items u2 a) = q" "same_objs u1 u2"
      "\<forall>x. ti_balance (av_items u2 x) = ti_balance (av_items u1 x)" by blast
    have same: "\<forall>x. ti_balance (av_items u2 x) = ti_balance (av_items t x)" using u1(4) u2(5) by simp
    have objs: "same_objs t u2" using u1(3) u2(4) by (rule same_objs_trans)
    let ?bq = "int (height y) - int (height x)" and ?N = "Node (Node ll b x) q (Node y a r)"
    have vals: "(if ?bq = - 1 then 1 else 0) = int (height r) - int (height y)"
        "(if ?bq = 1 then - 1 else 0) = int (height x) - int (height ll)"
        "height (Node ll b x) = Suc (height r)" "height (Node y a r) = Suc (height r)" "avlt ?N"
      using hq(1-6) avl(2) by auto
    let ?t5 = "with_balance q 0 (with_balance b (int (height x) - int (height ll))
        (with_balance a (int (height r) - int (height y)) u2))"
    have q: "q \<noteq> NULL" "read_ref (ref_of c) u2 = Some q"
      using u2(2) refs_of(1) [of u2 q c] by (auto simp: at_pos_def)
    have "bals (av_items u2) T \<longleftrightarrow> bals (av_items t) T" "balc (av_items u2) c n \<longleftrightarrow> balc (av_items t) c n" for T n
      using same_balances [OF same] by simp_all
    moreover have "b \<noteq> q" "a \<noteq> q" "a \<noteq> b" using d lr by auto
    ultimately have "balanced_at ?t5 q c ?N (Suc (Suc (Suc (height r))))"
      using u2(2) bs d lr vals(3,4) by (simp add: rebalance_simps)
    then have "balanced_at ?t5 q c ?N (Suc (height ?N))" using vals(3,4) by simp
    then have "\<exists>t'. adjust_balance q (- 1) ?t5 = Some t' \<and> fixed_at t a c (Node l a r) t'"
      by (rule fixed_shrunk(1)) (use u2(3) objs vals(3-5) l lr h in simp_all)
    moreover have "heavy_left a (ref_of c) t = adjust_balance q (- 1) ?t5"
      using start ab u1(1) u2(1) bs(4) q same hq(7) double vals(1,2)
      by (simp add: heavy_left_def set_balance_ok Let_def item_at_def)
    ultimately show ?thesis by simp
  qed
qed

end
