(* ===== verification/AvlProps.thy ===== *)
theory AvlProps
  imports AvlShape
begin

text \<open>
  The trees of \<open>tree.c\<close> implement sorted lists of objects: insertion and removal keep the links in both
  directions, the order of the keys and the balance of the heights, searching finds the object with a key,
  and the neighbours of an object are those in the order of the keys.
\<close>

section \<open>The way up\<close>

text \<open>A balanced tree with right balances at the place where it is.\<close>

definition sound_at :: "avl \<Rightarrow> u32 \<Rightarrow> frame list \<Rightarrow> u32 tree \<Rightarrow> bool" where
  "sound_at t p c T \<longleftrightarrow> balanced_at t p c T (height T) \<and> avlt T"

lemma rebalance_step_ok:
  assumes bal: "balanced_at t a c (Node l a r) (height (Node l a r))" and avl: "avlt l" "avlt r"
    and h: "\<bar>int (height r) - int (height l)\<bar> \<le> 2"
  shows "\<exists>t'. rebalance_step a t = Some t' \<and>
    (if \<bar>int (height r) - int (height l)\<bar> = 2 then fixed_at t a c (Node l a r) t' else t' = t)"
proof -
  have st: "link_from_parent a t = Some (ref_of c)" "item_at a t = Some (av_items t a)"
      "ti_balance (av_items t a) = int (height r) - int (height l)"
    using bal link_from_parent_ref [of t a c "Node l a r"] by (auto simp: balanced_at_def at_pos_def item_at_def)
  consider (right) "height r = height l + 2" | (left) "height l = height r + 2"
    | (none) "\<bar>int (height r) - int (height l)\<bar> \<le> 1" using h by linarith
  then show ?thesis
  proof cases
    case right
    then show ?thesis using heavy_right_ok [OF bal avl right] st by (simp add: rebalance_step_def)
  next
    case left
    then show ?thesis using heavy_left_ok [OF bal avl left] st by (simp add: rebalance_step_def)
  next
    case none
    then have "\<not> 2 \<le> ti_balance (av_items t a)" "\<not> ti_balance (av_items t a) \<le> - 2" using st(3) by linarith+
    then show ?thesis using st(1,2) none by (simp add: rebalance_step_def)
  qed
qed

lemma rebalance_node:
  assumes bal: "balanced_at t a c (Node l a r) (height (Node l a r))" and avl: "avlt l" "avlt r"
    and h: "\<bar>int (height r) - int (height l)\<bar> \<le> 2"
  shows "\<exists>t' p T. rebalance a t = rebalance (spine_top c) t' \<and> sound_at t' p c T \<and> same_objs t t' \<and>
    inorder T = inorder (Node l a r) \<and>
    (height T = height (Node l a r) \<or> Suc (height T) = height (Node l a r) \<and> \<bar>int (height r) - int (height l)\<bar> = 2)"
proof -
  have a: "a \<noteq> NULL" "ti_parent (av_items t a) = spine_top c"
    using bal by (auto simp: balanced_at_def at_pos_def)
  obtain t1 where t1: "rebalance_step a t = Some t1"
      "if \<bar>int (height r) - int (height l)\<bar> = 2 then fixed_at t a c (Node l a r) t1 else t1 = t"
    using rebalance_step_ok [OF assms] by blast
  have up: "rebalance a t = rebalance (ti_parent (av_items t1 a)) t1"
    using a(1) t1(1) by (subst rebalance.simps) simp
  show ?thesis
  proof (cases "\<bar>int (height r) - int (height l)\<bar> = 2")
    case False
    then have "sound_at t a c (Node l a r)" using bal avl h by (auto simp: sound_at_def)
    then show ?thesis using False t1(2) up a(2) by (intro exI [of _ t] exI [of _ a] exI [of _ "Node l a r"]) simp
  next
    case True
    then obtain p T where T: "balanced_at t1 p c T (height T)" "T \<noteq> Leaf" "avlt T" "inorder T = inorder (Node l a r)"
        "height T = height (Node l a r) \<or> Suc (height T) = height (Node l a r)" "same_objs t t1"
        "ti_parent (av_items t1 a) = p"
      using t1(2) by (auto simp: fixed_at_def)
    obtain l' r' where N: "T = Node l' p r'" "p \<noteq> NULL" "ti_parent (av_items t1 p) = spine_top c"
      using T(1,2) by (cases T) (auto simp: balanced_at_def at_pos_def)
    have "rebalance_step p t1 = Some t1"
      using rebalance_step_ok [of t1 p c l' r'] T(1,3) N(1) by (auto split: if_splits)
    then have "rebalance p t1 = rebalance (spine_top c) t1" using N(2,3) by (subst rebalance.simps) simp
    then show ?thesis
      using up T True by (intro exI [of _ t1] exI [of _ p] exI [of _ T]) (simp add: sound_at_def)
  qed
qed

text \<open>\<open>rebalance\<close>: when the height of a subtree of a balanced tree has changed by at most one, it ends with a
  balanced tree of the same nodes in the same order.\<close>

lemma rebalance_up:
  assumes "sound_at t p c T" "avlc c n" "\<bar>int (height T) - int n\<bar> \<le> 1"
  shows "\<exists>t' T'. rebalance (spine_top c) t = Some t' \<and> sound_at t' (av_root t') [] T' \<and> same_objs t t' \<and>
    inorder T' = lefts c @ inorder T @ rights c"
  using assms
proof (induction c arbitrary: t p T n)
  case Nil
  have "rebalance NULL t = Some t" by (subst rebalance.simps) simp
  moreover have "av_root t = p" using Nil(1) by (simp add: sound_at_def balanced_at_def at_pos_def)
  ultimately show ?case using Nil(1) by (intro exI [of _ t] exI [of _ T]) simp
next
  case (Cons f c)
  let ?s = "height (sibling f)"
  have up: "balanced_at t (node_of f) c (fill f T) (height (fill f T))"
    using Cons(2) at_pos_up [of t p f c T] by (auto simp: sound_at_def balanced_at_def frame_simps)
  have n: "\<bar>int n - int ?s\<bar> \<le> 1" "avlt (sibling f)" "avlt T" "avlc c (1 + max n ?s)"
    using Cons(2,3) by (simp_all add: frame_simps sound_at_def)
  have ex: "\<exists>t' p' T'. rebalance (node_of f) t = rebalance (spine_top c) t' \<and> sound_at t' p' c T' \<and> same_objs t t' \<and>
      inorder T' = inorder (fill f T) \<and>
      (height T' = height (fill f T) \<or> Suc (height T') = height (fill f T) \<and> \<bar>int (height T) - int ?s\<bar> = 2)"
  proof (cases f)
    case (InLeft a r)
    then show ?thesis
      using rebalance_node [of t a c T r] up n Cons(4) by (simp add: abs_minus_commute)
  next
    case (InRight l a)
    then show ?thesis using rebalance_node [of t a c l T] up n Cons(4) by simp
  qed
  then obtain t1 p1 T1 where t1: "rebalance (node_of f) t = rebalance (spine_top c) t1" "sound_at t1 p1 c T1"
      "same_objs t t1" "inorder T1 = inorder (fill f T)"
      "height T1 = height (fill f T) \<or> Suc (height T1) = height (fill f T) \<and> \<bar>int (height T) - int ?s\<bar> = 2"
    by blast
  have "\<bar>int (height T1) - int (1 + max n ?s)\<bar> \<le> 1"
    using t1(5) n(1) Cons(4) by (auto simp: frame_simps)
  from Cons(1) [OF t1(2) n(4) this] obtain t' T' where
    "rebalance (spine_top c) t1 = Some t'" "sound_at t' (av_root t') [] T'" "same_objs t1 t'"
    "inorder T' = lefts c @ inorder T1 @ rights c" by blast
  moreover have "lefts c @ inorder (fill f T) @ rights c = lefts (f # c) @ inorder T @ rights (f # c)"
    by (cases f) simp_all
  ultimately show ?case
    using t1(1,3,4) same_objs_trans [of t t1 t'] by (auto simp: frame_simps)
qed

section \<open>Searching\<close>

text \<open>The tree holds the items \<open>xs\<close>, sorted by their keys: it is linked in both directions, the stored
  balances are the differences of the heights, and none is more than one.\<close>

definition tree_holds :: "avl \<Rightarrow> u32 list \<Rightarrow> bool" where
  "tree_holds t xs \<longleftrightarrow> (\<exists>T. sound_at t (av_root t) [] T \<and> inorder T = xs) \<and>
     sorted_wrt (\<lambda>a b. get_key t a < get_key t b) xs"

text \<open>The nodes left and right of a position are on their sides of a key.\<close>

definition sides :: "avl \<Rightarrow> u64 \<Rightarrow> frame list \<Rightarrow> bool" where
  "sides t key c \<longleftrightarrow> (\<forall>x \<in> set (lefts c). get_key t x < key) \<and> (\<forall>x \<in> set (rights c). key < get_key t x)"

lemma search_loop_ok:
  assumes "at_pos t p c T" "sides t key c" "sorted_wrt (\<lambda>a b. get_key t a < get_key t b) (inorder T)" "ck \<noteq> key"
  shows "(\<exists>a c' l r. search_loop key (spine_top c) p ck t = Some (a, key) \<and> at_pos t a c' (Node l a r) \<and>
           get_key t a = key \<and> plug c' (Node l a r) = plug c T) \<or>
         (\<exists>c' ck'. search_loop key (spine_top c) p ck t = Some (spine_top c', ck') \<and> ck' \<noteq> key \<and>
           at_pos t NULL c' Leaf \<and> plug c' Leaf = plug c T \<and> sides t key c')"
  using assms
proof (induction T arbitrary: p c ck)
  case Leaf
  then have "p = NULL" by (simp add: at_pos_def)
  then show ?case using Leaf by (intro disjI2 exI [of _ c] exI [of _ ck]) (simp add: search_loop.simps)
next
  case (Node l a r)
  have p: "p = a" "a \<noteq> NULL" using Node(3) by (simp_all add: at_pos_def)
  have sorted: "\<forall>x \<in> set (inorder l). get_key t x < get_key t a" "\<forall>x \<in> set (inorder r). get_key t a < get_key t x"
      "sorted_wrt (\<lambda>a b. get_key t a < get_key t b) (inorder l)" "sorted_wrt (\<lambda>a b. get_key t a < get_key t b) (inorder r)"
    using Node(5) by (auto simp: sorted_wrt_append)
  consider "key = get_key t a" | "key < get_key t a" | "get_key t a < key" by (rule linorder_cases)
  then show ?case
  proof cases
    case 1
    then show ?thesis
      using p Node(3) by (intro disjI1 exI [of _ a] exI [of _ c] exI [of _ l] exI [of _ r]) (simp add: search_loop.simps [of _ _ a])
  next
    case 2
    have "sides t key (InLeft a r # c)" using Node(4) 2 sorted(2) by (auto simp: sides_def)
    moreover have "search_loop key (spine_top c) p ck t = search_loop key a (ti_left (av_items t a)) (get_key t a) t"
      using p 2 by (subst search_loop.simps) (auto simp: Let_def)
    ultimately show ?thesis
      using Node(1) [OF at_pos_down_left, of a c r "get_key t a"] Node(3) p 2 sorted(3) by simp
  next
    case 3
    have "sides t key (InRight l a # c)" using Node(4) 3 sorted(1) by (auto simp: sides_def)
    moreover have "search_loop key (spine_top c) p ck t = search_loop key a (ti_right (av_items t a)) (get_key t a) t"
      using p 3 by (subst search_loop.simps) (auto simp: Let_def)
    ultimately show ?thesis
      using Node(2) [OF at_pos_down_right, of a c l "get_key t a"] Node(3) p 3 sorted(4) by simp
  qed
qed

lemma minus_one_neq: "(key :: u64) - 1 \<noteq> key"
  by simp

lemma do_search_ok:
  assumes "tree_holds t xs"
  shows "(\<exists>a \<in> set xs. do_search key t = Some (True, a) \<and> get_key t a = key) \<or>
    (\<exists>c. do_search key t = Some (False, spine_top c) \<and> at_pos t NULL c Leaf \<and> sides t key c \<and>
       xs = lefts c @ rights c \<and> avlc c 0 \<and> balc (av_items t) c 0)"
proof -
  obtain T where T: "sound_at t (av_root t) [] T" "inorder T = xs" "sorted_wrt (\<lambda>a b. get_key t a < get_key t b) xs"
    using assms by (auto simp: tree_holds_def)
  have pos: "at_pos t (av_root t) [] T" using T(1) by (simp add: sound_at_def balanced_at_def)
  from search_loop_ok [OF pos, of key "key - 1"] T(2,3) consider
      (found) a c l r where "search_loop key NULL (av_root t) (key - 1) t = Some (a, key)" "get_key t a = key"
        "plug c (Node l a r) = T"
    | (missing) c ck where "search_loop key NULL (av_root t) (key - 1) t = Some (spine_top c, ck)" "ck \<noteq> key"
        "at_pos t NULL c Leaf" "plug c Leaf = T" "sides t key c"
    using minus_one_neq [of key] by (auto simp: sides_def)
  then show ?thesis
  proof cases
    case found
    then have "a \<in> set xs" using T(2) inorder_plug [of c "Node l a r"] by auto
    then show ?thesis using found by (auto simp: do_search_def)
  next
    case missing
    then have "xs = lefts c @ rights c" "avlc c 0" "balc (av_items t) c 0"
      using T inorder_plug [of c Leaf] avlt_plug [of c Leaf] bals_plug [of "av_items t" c Leaf]
      by (auto simp: sound_at_def balanced_at_def)
    then show ?thesis using missing by (auto simp: do_search_def)
  qed
qed

text \<open>\<open>tree_search\<close> returns the object with the key.\<close>

lemma tree_search_ok:
  assumes "tree_holds t xs"
  shows "tree_search key t = Some (case find (\<lambda>x. get_key t x = key) xs of None \<Rightarrow> NULL | Some x \<Rightarrow> to_node t x)"
proof -
  have sorted: "sorted_wrt (\<lambda>a b. get_key t a < get_key t b) xs" using assms by (simp add: tree_holds_def)
  have found: "find (\<lambda>x. get_key t x = key) xs = Some a" if "a \<in> set xs" "get_key t a = key" for a
    using that sorted by (induction xs) auto
  have missing: "find (\<lambda>x. get_key t x = key) (lefts c @ rights c) = None" if "sides t key c" for c
    using that by (auto simp: find_None_iff sides_def)
  from do_search_ok [OF assms, of key] show ?thesis
    using found missing by (auto simp: tree_search_def)
qed

section \<open>Insertion\<close>

lemma tree_holds_cong:
  assumes "tree_holds t xs" "\<forall>x \<in> set xs. h' x = av_items t x"
  shows "tree_holds (t\<lparr>av_items := h'\<rparr>) xs"
proof -
  obtain T where T: "sound_at t (av_root t) [] T" "inorder T = xs" using assms(1) by (auto simp: tree_holds_def)
  have "rep h' p NULL T \<longleftrightarrow> rep (av_items t) p NULL T" for p by (rule rep_cong) (use T(2) assms(2) in simp)
  moreover have "bals h' T \<longleftrightarrow> bals (av_items t) T" by (rule bals_cong) (use T(2) assms(2) in simp)
  ultimately have "sound_at (t\<lparr>av_items := h'\<rparr>) (av_root t) [] T"
    using T(1) by (simp add: sound_at_def balanced_at_def at_pos_def)
  then show ?thesis using assms(1) T(2) by (auto simp: tree_holds_def get_key_def to_node_def)
qed

lemma root_not_NULL: "tree_holds t xs \<Longrightarrow> xs \<noteq> [] \<Longrightarrow> av_root t \<noteq> NULL"
  by (auto simp: tree_holds_def sound_at_def balanced_at_def at_pos_def dest: rep_pointer)

text \<open>A new leaf at a position.\<close>

lemma insert_leaf:
  assumes pos: "at_pos t NULL c Leaf" and c: "avlc c 0" "balc (av_items t) c 0"
    and new: "new \<noteq> NULL" "new \<notin> set (lefts c @ rights c)"
    and i: "ti_left (av_items t new) = NULL" "ti_right (av_items t new) = NULL" "ti_balance (av_items t new) = 0"
  defines "h \<equiv> (av_items t)(new := (av_items t new)\<lparr>ti_parent := spine_top c\<rparr>)"
  shows "\<exists>t' T. Option.bind (adjust_balance new 1 (relink c new (t\<lparr>av_items := h\<rparr>))) (rebalance new) = Some t' \<and>
    sound_at t' (av_root t') [] T \<and> inorder T = lefts c @ new # rights c \<and> same_objs t t'"
proof -
  let ?N = "Node Leaf new Leaf" and ?t1 = "relink c new (t\<lparr>av_items := h\<rparr>)"
  have "rep h new (spine_top c) ?N" using new(1) i by (simp add: h_def)
  then have at1: "at_pos ?t1 new c ?N"
    by (intro at_pos_replace [where p = NULL]) (use pos new(2) in \<open>auto simp: at_pos_def h_def\<close>)
  have "balc (av_items ?t1) c 0 \<longleftrightarrow> balc (av_items t) c 0"
    by (rule balc_cong) (use new(2) in \<open>auto simp: relink_other_items h_def\<close>)
  then have "balanced_at ?t1 new c ?N 0"
    using at1 c(2) i(3) by (simp add: balanced_at_def relink_other_items h_def)
  from adjust_pos [OF this, of 1] obtain t2 where
    t2: "adjust_balance new 1 ?t1 = Some t2" "balanced_at t2 new c ?N (height ?N)" "same_objs ?t1 t2" by auto
  from rebalance_node [OF t2(2)] obtain t3 p T where
    t3: "rebalance new t2 = rebalance (spine_top c) t3" "sound_at t3 p c T" "same_objs t2 t3" "inorder T = [new]"
      "height T = 1" by auto
  from rebalance_up [OF t3(2) c(1)] t3(5) obtain t' T' where
    "rebalance (spine_top c) t3 = Some t'" "sound_at t' (av_root t') [] T'" "same_objs t3 t'"
    "inorder T' = lefts c @ inorder T @ rights c" by auto
  moreover from this(3) have "same_objs t t'"
    using same_objs_trans [OF same_objs_trans [OF same_objs_trans [OF _ t2(3)] t3(3)]] by simp
  ultimately show ?thesis
    using t2(1) t3(1,4) by (intro exI [of _ t'] exI [of _ T']) simp
qed

lemma sides_filter:
  assumes "sides t key c"
  shows "filter (\<lambda>x. get_key t x < key) (lefts c @ rights c) = lefts c"
    "filter (\<lambda>x. key < get_key t x) (lefts c @ rights c) = rights c"
  using assms by (auto simp: sides_def filter_empty_conv intro!: filter_True)

text \<open>The branches of \<open>tree_insert\<close> for a key that is not in the tree.\<close>

lemma insert_missing:
  assumes new: "new = to_tree_item t node" "new \<noteq> NULL" "key = get_key t new"
    and up: "upd_item new (\<lambda>i. i\<lparr>ti_left := NULL, ti_right := NULL, ti_balance := 0\<rparr>) t = Some t0"
    and found: "do_search key t0 = Some (False, spine_top c)" and pos: "at_pos t0 NULL c Leaf"
    and c: "sides t0 key c" "avlc c 0" "balc (av_items t0) c 0" "new \<notin> set (lefts c @ rights c)"
    and root: "av_root t0 = NULL \<longleftrightarrow> c = []"
  shows "\<exists>t' T. tree_insert node t = Some t' \<and> sound_at t' (av_root t') [] T \<and>
    inorder T = lefts c @ new # rights c \<and> same_objs t0 t'"
proof -
  let ?t1 = "t0\<lparr>av_items := (av_items t0)(new := (av_items t0 new)\<lparr>ti_parent := spine_top c\<rparr>)\<rparr>"
  have i: "ti_left (av_items t0 new) = NULL" "ti_right (av_items t0 new) = NULL" "ti_balance (av_items t0 new) = 0"
    using up new(2) by (auto simp: upd_item_def)
  have par: "upd_item new (\<lambda>i. i\<lparr>ti_parent := spine_top c\<rparr>) t0 = Some ?t1" using new(2) by (simp add: upd_item_def)
  show ?thesis
  proof (cases c)
    case Nil
    let ?N = "Node Leaf new Leaf"
    have "tree_insert node t = Some (relink [] new ?t1)"
      using up new par root Nil by (simp add: tree_insert_def Let_def)
    moreover have "sound_at (relink [] new ?t1) new [] ?N"
      using new(2) i Nil by (simp add: sound_at_def balanced_at_def at_pos_def)
    ultimately show ?thesis using Nil
      by (intro exI [of _ "relink [] new ?t1"] exI [of _ ?N]) (simp add: same_objs_def)
  next
    case (Cons f c')
    have f: "spine_top c = node_of f" "node_of f \<noteq> NULL" "node_of f \<noteq> new"
      using at_pos_frame(1) [of t0 NULL f c' Leaf] pos c(4) Cons by (cases f; auto)+
    have side: "key < get_key t0 (node_of f) \<longleftrightarrow> (\<exists>a r. f = InLeft a r)"
      using c(1) Cons by (cases f) (auto simp: sides_def)
    have "get_key ?t1 = get_key t0" by (simp add: get_key_def to_node_def fun_eq_iff)
    then have link: "key < get_key ?t1 (spine_top c) \<Longrightarrow>
        upd_item (spine_top c) (\<lambda>i. i\<lparr>ti_left := new\<rparr>) ?t1 = Some (relink c new ?t1)"
      "\<not> key < get_key ?t1 (spine_top c) \<Longrightarrow>
        upd_item (spine_top c) (\<lambda>i. i\<lparr>ti_right := new\<rparr>) ?t1 = Some (relink c new ?t1)"
      using f side Cons by (cases f; auto simp: upd_item_def)+
    have "tree_insert node t = Option.bind (adjust_balance new 1 (relink c new ?t1)) (rebalance new)"
      unfolding tree_insert_def Let_def new(1) [symmetric] new(3) [symmetric] up
      using par root Cons found link
      by (cases "key < get_key ?t1 (spine_top c)") (simp_all del: fun_upd_apply)
    then show ?thesis using insert_leaf [OF pos c(2,3) new(2) c(4) i] by simp
  qed
qed

text \<open>C14: inserting an object into a balanced tree, through the search for its place, the adjustment of the
  balances on the way to the root and the rotations, never follows a null pointer and ends with a
  balanced tree that holds the object at its place in the order of the keys; an object whose key is in
  the tree already is not inserted.\<close>

theorem tree_insert_sorted:
  assumes "tree_holds t xs" "new = to_tree_item t node" "new \<noteq> NULL" "new \<notin> set xs" "key = get_key t new"
  shows "\<exists>t'. tree_insert node t = Some t' \<and> same_objs t t' \<and>
    tree_holds t' (if key \<in> get_key t ` set xs then xs
      else filter (\<lambda>x. get_key t x < key) xs @ [new] @ filter (\<lambda>x. key < get_key t x) xs)"
proof -
  define h0 where "h0 = (av_items t)(new := (av_items t new)\<lparr>ti_left := NULL, ti_right := NULL, ti_balance := 0\<rparr>)"
  define t0 where "t0 = t\<lparr>av_items := h0\<rparr>"
  have holds: "tree_holds t0 xs" unfolding t0_def by (rule tree_holds_cong) (use assms(1,4) in \<open>auto simp: h0_def\<close>)
  have objs: "same_objs t t0" by (simp add: t0_def)
  have k0: "get_key t0 = get_key t" using same_objs_key [OF objs] by simp
  have up: "upd_item new (\<lambda>i. i\<lparr>ti_left := NULL, ti_right := NULL, ti_balance := 0\<rparr>) t = Some t0"
    using assms(3) by (simp add: upd_item_def t0_def h0_def)
  from do_search_ok [OF holds, of key] consider
      (found) a where "a \<in> set xs" "do_search key t0 = Some (True, a)" "get_key t a = key"
    | (missing) c where "do_search key t0 = Some (False, spine_top c)" "at_pos t0 NULL c Leaf" "sides t0 key c"
        "avlc c 0" "balc (av_items t0) c 0" "xs = lefts c @ rights c"
    by (auto simp: k0)
  then show ?thesis
  proof cases
    case found
    have "av_root t0 \<noteq> NULL" using root_not_NULL [OF holds] found(1) by force
    then have "tree_insert node t = Some t0"
      using up assms(2,5) found(2) by (simp add: tree_insert_def Let_def)
    then show ?thesis using found holds objs by auto
  next
    case missing
    have "c \<noteq> [] \<Longrightarrow> xs \<noteq> []" using missing(6) by (cases c rule: ref_of.cases) auto
    then have "av_root t0 = NULL \<longleftrightarrow> c = []"
      using root_not_NULL [OF holds] missing(2) by (auto simp: at_pos_def)
    from insert_missing [OF assms(2,3,5) up missing(1-5) _ this] assms(4) missing(6) obtain t' T where
      t': "tree_insert node t = Some t'" "sound_at t' (av_root t') [] T" "inorder T = lefts c @ new # rights c"
        "same_objs t0 t'" by auto
    have k': "get_key t' = get_key t" using same_objs_key [OF t'(4)] k0 by simp
    have "sorted_wrt (\<lambda>a b. get_key t a < get_key t b) (lefts c @ new # rights c)"
      using assms(1,5) missing(3,6) k0 by (auto simp: tree_holds_def sorted_wrt_append sides_def)
    then have "tree_holds t' (lefts c @ new # rights c)" using t'(2,3) k' by (auto simp: tree_holds_def)
    moreover have "key \<notin> get_key t ` set xs" using missing(3,6) k0 by (auto simp: sides_def)
    ultimately show ?thesis
      using t'(1,4) objs sides_filter [OF missing(3)] missing(6) k0 by (auto intro: same_objs_trans)
  qed
qed

text \<open>A tree with one object of key 5.\<close>

definition demo_tree :: avl where
  "demo_tree = \<lparr>av_root = 100, av_item_offset = 0, av_key_offset = 16,
     av_items = (\<lambda>_. \<lparr>ti_parent = NULL, ti_left = NULL, ti_right = NULL, ti_balance = 0\<rparr>),
     av_words = (\<lambda>_. 3)(116 := 5)\<rparr>"

lemma demo_tree_holds: "tree_holds demo_tree [100]"
proof -
  have "sound_at demo_tree 100 [] (Node Leaf 100 Leaf)"
    by (simp add: sound_at_def balanced_at_def at_pos_def demo_tree_def)
  then show ?thesis by (force simp: tree_holds_def demo_tree_def)
qed

theorem tree_insert_sorted_witness:
  "\<exists>t'. tree_insert 200 demo_tree = Some t' \<and> tree_holds t' [200, 100]"
proof -
  have "to_tree_item demo_tree 200 = 200" "get_key demo_tree 200 = 3" "get_key demo_tree 100 = 5"
    by (simp_all add: to_tree_item_def get_key_def to_node_def demo_tree_def)
  then show ?thesis using tree_insert_sorted [OF demo_tree_holds, of 200 200 3] by auto
qed

end
