(* ===== verification/Tlb.thy ===== *)
theory Tlb
  imports MemProps
begin

text \<open>
  The translation lookaside buffer and \<open>paging_flushtlb\<close> (\<open>kernel2/include/paging.h\<close>). The other theories
  translate every address by a walk through the page tables. Here the processor remembers, page by page, the frame it has
  found last, until the entry is invalidated: \<open>invlpg\<close> drops the entry of one page. The operand of the instruction in
  \<open>paging_flushtlb\<close> is the variable that holds the address, so the entry that is dropped is the one of the page of the kernel stack
  where the variable lies, not the one of the page that was mapped. The theory follows what this
  means for the buffer page, the only page the kernel maps to one frame after the other.

  The window through which the page tables are accessed keeps its translation as long as the same directory is
  loaded; accesses to it need no entries here. The processor may also forget an entry at any time;
  the theorem is about a run in which it does not.
\<close>

section \<open>Cached translation\<close>

text \<open>The frame of every page that is remembered.\<close>

record tlb_mem = mem +
  tlb :: "u32 \<Rightarrow> u32 option"

definition tlb_vaddr :: "'a tlb_mem_scheme \<Rightarrow> u32 \<Rightarrow> u32 option" where
  "tlb_vaddr s v = (case tlb s (ADDR2PAGE v) of Some f \<Rightarrow> Some (f + PAGEOFF v) | None \<Rightarrow> vaddr s v)"

definition tlb_fill :: "u32 \<Rightarrow> u32 \<Rightarrow> 'a tlb_mem_scheme \<Rightarrow> 'a tlb_mem_scheme" where
  "tlb_fill v p s = s\<lparr>tlb := (tlb s)(ADDR2PAGE v \<mapsto> PAGEDOWN p)\<rparr>"

definition tlb_load8 :: "u32 \<Rightarrow> 'a tlb_mem_scheme \<Rightarrow> (u8, 'a tlb_mem_scheme) res" where
  "tlb_load8 v s = (case tlb_vaddr s v of None \<Rightarrow> Stop (Fault v) s | Some p \<Rightarrow> Ret (phys s p) (tlb_fill v p s))"

definition tlb_store8 :: "u32 \<Rightarrow> u8 \<Rightarrow> 'a tlb_mem_scheme \<Rightarrow> (unit, 'a tlb_mem_scheme) res" where
  "tlb_store8 v x s =
     (case tlb_vaddr s v of None \<Rightarrow> Stop (Fault v) s
      | Some p \<Rightarrow> Ret () (tlb_fill v p (s\<lparr>phys := (phys s)(p := x)\<rparr>)))"

fun tlb_load_bytes :: "nat \<Rightarrow> u32 \<Rightarrow> 'a tlb_mem_scheme \<Rightarrow> (u8 list, 'a tlb_mem_scheme) res" where
  "tlb_load_bytes 0 v s = Ret [] s"
| "tlb_load_bytes (Suc n) v s =
     bindr (tlb_load8 v s) (\<lambda>b s. bindr (tlb_load_bytes n (v + 1) s) (\<lambda>bs. Ret (b # bs)))"

fun tlb_store_bytes :: "u8 list \<Rightarrow> u32 \<Rightarrow> 'a tlb_mem_scheme \<Rightarrow> (unit, 'a tlb_mem_scheme) res" where
  "tlb_store_bytes [] v s = Ret () s"
| "tlb_store_bytes (b # bs) v s = bindr (tlb_store8 v b s) (\<lambda>_. tlb_store_bytes bs (v + 1))"

section \<open>Mapping with \<open>paging_flushtlb\<close>\<close>

text \<open>\<open>slot\<close> is the address of the parameter \<open>addr\<close> of \<open>paging_flushtlb\<close> on the stack.\<close>

definition paging_flushtlb :: "u32 \<Rightarrow> 'a tlb_mem_scheme \<Rightarrow> 'a tlb_mem_scheme" where
  "paging_flushtlb slot s = s\<lparr>tlb := (tlb s)(ADDR2PAGE slot := None)\<rparr>"

definition tlb_setpde :: "u32 \<Rightarrow> u32 \<Rightarrow> pde \<Rightarrow> 'a tlb_mem_scheme \<Rightarrow> (u32, 'a tlb_mem_scheme) res" where
  "tlb_setpde slot virt e s = bindr (paging_setpde virt e s) (\<lambda>r s. Ret r (paging_flushtlb slot s))"

definition tlb_setpte :: "u32 \<Rightarrow> u32 \<Rightarrow> pte \<Rightarrow> 'a tlb_mem_scheme \<Rightarrow> (u32, 'a tlb_mem_scheme) res" where
  "tlb_setpte slot virt t s =
     bindr (paging_setpte virt t s) (\<lambda>r s. Ret r (if r = 0 then paging_flushtlb slot s else s))"

text \<open>The third call of \<open>paging_flushtlb\<close> in \<open>paging_map_pd\<close>, for a new table, drops the same entry again.\<close>

definition tlb_map :: "u32 \<Rightarrow> u32 \<Rightarrow> u32 \<Rightarrow> u32 \<Rightarrow> u32 \<Rightarrow> 'a tlb_mem_scheme \<Rightarrow> (u32, 'a tlb_mem_scheme) res" where
  "tlb_map slot virt frame usr wrt =
     paging_map_with paging_getpde (tlb_setpde slot) (tlb_setpte slot) virt frame usr wrt 0 0"

definition tlb_physread :: "u32 \<Rightarrow> u32 \<Rightarrow> u32 \<Rightarrow> 'a tlb_mem_scheme \<Rightarrow> (u8 list, 'a tlb_mem_scheme) res" where
  "tlb_physread slot src count s =
     (let src_rounded = PAGEDOWN src in
      bindr (if src_rounded \<noteq> paging_physrw_lastpage s \<or> paging_curpd s \<noteq> paging_physrw_lastpd s then
               bindr (tlb_map slot BUFPAGE_ADDRESS src_rounded 0 1 s) (\<lambda>r s.
                 if r <s 0 then Ret False s
                 else Ret True (s\<lparr>paging_physrw_lastpage := src_rounded,
                                  paging_physrw_lastpd := paging_curpd s\<rparr>))
             else Ret True s) (\<lambda>ok s.
        if \<not> ok then Ret [] s
        else tlb_load_bytes (unat count) (BUFPAGE_ADDRESS + PAGEOFF src) s))"

definition tlb_physwrite :: "u32 \<Rightarrow> u32 \<Rightarrow> u8 list \<Rightarrow> 'a tlb_mem_scheme \<Rightarrow> (u32, 'a tlb_mem_scheme) res" where
  "tlb_physwrite slot dest bytes s =
     (let dest_rounded = PAGEDOWN dest in
      bindr (tlb_map slot BUFPAGE_ADDRESS dest_rounded 0 1 s) (\<lambda>r s.
        if r <s 0 then Ret 0 s
        else bindr (tlb_store_bytes bytes (BUFPAGE_ADDRESS + PAGEOFF dest)
                      (s\<lparr>paging_physrw_lastpage := dest_rounded, paging_physrw_lastpd := paging_curpd s\<rparr>))
               (\<lambda>_. Ret (of_nat (length bytes)))))"

section \<open>Bytes of a page that is remembered\<close>

lemma tlb_fill_same [simp]: "tlb s (ADDR2PAGE v) = Some (PAGEDOWN p) \<Longrightarrow> tlb_fill v p s = s"
  by (simp add: tlb_fill_def fun_upd_idem)

lemma tlb_vaddr_cached:
  assumes "tlb s (ADDR2PAGE b) = Some f" "page_aligned b" "page_aligned f" "unat off < 4096"
  shows "tlb_vaddr s (b + off) = Some (f + off)" "ADDR2PAGE (b + off) = ADDR2PAGE b" "PAGEDOWN (f + off) = f"
  using assms page_add_parts [OF assms(2,4)] page_add_parts(1) [OF assms(3,4)] PAGEDOWN_aligned [OF assms(3)]
  by (simp_all add: tlb_vaddr_def PAGEDOWN_def ADDR2PAGE_def)

lemma unat_Suc_off:
  assumes "unat (off :: u32) + Suc n \<le> 4096"
  shows "unat off < 4096" "unat (off + 1) = Suc (unat off)" "unat (off + 1) + n \<le> 4096"
  using assms by (simp_all add: unat_plus_u32)

lemma tlb_store_cached:
  assumes "tlb s (ADDR2PAGE b) = Some f" "page_aligned b" "page_aligned f" "unat off + length bs \<le> 4096"
  shows "tlb_store_bytes bs (b + off) s = Ret () (s\<lparr>phys := upd_bytes (phys s) (f + off) bs\<rparr>)"
  using assms(1,4)
proof (induction bs arbitrary: off s)
  case (Cons x bs)
  note o = unat_Suc_off [of off "length bs"]
  let ?s = "s\<lparr>phys := (phys s)(f + off := x)\<rparr>"
  note c = tlb_vaddr_cached [OF Cons.prems(1) assms(2,3) o(1)]
  have "tlb_store8 (b + off) x s = Ret () ?s"
    using Cons.prems c o by (simp add: tlb_store8_def)
  moreover have "tlb_store_bytes bs (b + (off + 1)) ?s = Ret () (?s\<lparr>phys := upd_bytes (phys ?s) (f + (off + 1)) bs\<rparr>)"
    by (rule Cons.IH) (use Cons.prems o in simp_all)
  ultimately show ?case by (simp add: add.assoc)
qed simp

lemma tlb_load_cached:
  assumes "tlb s (ADDR2PAGE b) = Some f" "page_aligned b" "page_aligned f" "unat off + n \<le> 4096"
  shows "tlb_load_bytes n (b + off) s = Ret (map (\<lambda>k. phys s (f + off + of_nat k)) [0..<n]) s"
  using assms(4)
proof (induction n arbitrary: off)
  case (Suc n)
  note o = unat_Suc_off [of off n]
  note c = tlb_vaddr_cached [OF assms(1-3) o(1)]
  have "tlb_load8 (b + off) s = Ret (phys s (f + off)) s"
    using assms(1) c o Suc.prems by (simp add: tlb_load8_def)
  moreover have "tlb_load_bytes n (b + (off + 1)) s = Ret (map (\<lambda>k. phys s (f + (off + 1) + of_nat k)) [0..<n]) s"
    by (rule Suc.IH) (use o Suc.prems in simp)
  moreover have "[0..<Suc n] = 0 # map Suc [0..<n]" by (simp add: upt_conv_Cons map_Suc_upt)
  ultimately show ?case by (simp add: add.assoc del: upt_Suc)
qed simp

text \<open>A page that is not remembered yet is walked to once.\<close>

lemma tlb_store_walked:
  assumes "tlb s (ADDR2PAGE b) = None" "vaddr s (b + off) = Some (f + off)" "page_aligned b" "page_aligned f"
    "unat off + length bs \<le> 4096" "bs \<noteq> []"
  shows "tlb_store_bytes bs (b + off) s =
    Ret () (s\<lparr>phys := upd_bytes (phys s) (f + off) bs, tlb := (tlb s)(ADDR2PAGE b \<mapsto> f)\<rparr>)"
proof -
  from assms(6) obtain x cs where bs: "bs = x # cs" by (cases bs) auto
  note o = unat_Suc_off [of off "length cs"]
  have lt: "unat off < 4096" using o(1) assms(5) bs by simp
  have pg: "ADDR2PAGE (b + off) = ADDR2PAGE b" "PAGEDOWN (f + off) = f"
    using page_add_parts(1) [OF assms(3) lt] page_add_parts(1) [OF assms(4) lt] PAGEDOWN_aligned [OF assms(4)]
    by (simp_all add: PAGEDOWN_def ADDR2PAGE_def)
  let ?s = "s\<lparr>phys := (phys s)(f + off := x), tlb := (tlb s)(ADDR2PAGE b \<mapsto> f)\<rparr>"
  have "tlb_store8 (b + off) x s = Ret () ?s"
    using assms(1,2) pg by (simp add: tlb_store8_def tlb_vaddr_def tlb_fill_def)
  moreover have "tlb_store_bytes cs (b + (off + 1)) ?s = Ret () (?s\<lparr>phys := upd_bytes (phys ?s) (f + (off + 1)) cs\<rparr>)"
    by (rule tlb_store_cached) (use assms o bs in simp_all)
  ultimately show ?thesis unfolding bs by (simp add: add.assoc)
qed

section \<open>The buffer page\<close>

lemma frames_ok_tlb [simp]:
  "frames_ok (s\<lparr>tlb := x\<rparr>) gs fs \<longleftrightarrow> frames_ok s gs fs"
  "frames_ok (s\<lparr>paging_physrw_lastpage := p, paging_physrw_lastpd := d\<rparr>) gs fs \<longleftrightarrow> frames_ok s gs fs"
  by (simp_all add: frames_ok_def paging_ok_def)

lemma vaddr_tlb [simp]:
  "vaddr (s\<lparr>tlb := x\<rparr>) v = vaddr s v"
  "vaddr (s\<lparr>paging_physrw_lastpage := p, paging_physrw_lastpd := d\<rparr>) v = vaddr s v"
  by (simp_all add: vaddr_def)

lemma cur_table_vaddr: "paging_ok s \<Longrightarrow> vaddr s v = Some p \<Longrightarrow> cur_table s v"
  by (auto simp: paging_okD(5) xlate_def walk_alt split: if_splits)

text \<open>A byte of memory that holds neither page tables nor free frames.\<close>

definition data_page :: "'a mem_scheme \<Rightarrow> u32 list \<Rightarrow> u32 \<Rightarrow> bool" where
  "data_page s fs p \<longleftrightarrow> \<not> table_page (phys s) (paging_curpd s) p \<and> p \<notin> set fs"

lemma tlb_buffer_mapped:
  assumes fr: "frames_ok s gs fs" and tab: "cur_table s BUFPAGE_ADDRESS" and al: "page_aligned p"
  obtains t where "tlb_map slot BUFPAGE_ADDRESS p 0 1 s = Ret 0 t" "frames_ok t gs fs"
    "paging_curpd t = paging_curpd s" "vaddr t BUFPAGE_ADDRESS = Some p" "cur_table t BUFPAGE_ADDRESS"
    "\<And>a. data_page s fs (PAGEDOWN a) \<Longrightarrow> phys t a = phys s a"
    "\<And>f. data_page s fs f \<Longrightarrow> data_page t fs f" "tlb t = (tlb s)(ADDR2PAGE slot := None)"
proof -
  note ok = frames_okD(1) [OF fr]
  have "pde_exists (pde_at (phys s) (paging_curpd s) (ADDR2PDE BUFPAGE_ADDRESS))"
    using tab by (simp add: table_exists_def)
  then obtain m where m: "paging_map BUFPAGE_ADDRESS p 0 1 s = Ret 0 (s\<lparr>phys := m\<rparr>)"
    "tlb_map slot BUFPAGE_ADDRESS p 0 1 s = Ret 0 (paging_flushtlb slot (s\<lparr>phys := m\<rparr>))"
    using tab by (simp add: paging_map_def tlb_map_def paging_map_with_def tlb_setpte_def paging_getpde_ok [OF ok]
        paging_setpte_ok [OF ok])
  from map_buffer [OF fr _ al] tab m(1) obtain s' where s': "s' = s\<lparr>phys := m\<rparr>" "frames_ok s' gs fs"
    "vaddr s' BUFPAGE_ADDRESS = Some p"
    "\<And>a. \<not> table_page (phys s') (paging_curpd s) (PAGEDOWN a) \<Longrightarrow> phys s' a = phys s a"
    "\<And>f. table_page (phys s') (paging_curpd s) f \<Longrightarrow> table_page (phys s) (paging_curpd s) f \<or> f \<in> set fs" by auto
  let ?t = "paging_flushtlb slot s'"
  have "cur_table s' BUFPAGE_ADDRESS" by (rule cur_table_vaddr [OF frames_okD(1) [OF s'(2)] s'(3)])
  with s' m(2) show thesis
    by (intro that [of ?t]) (auto simp: paging_flushtlb_def data_page_def)
qed

text \<open>Writing through the buffer page changes bytes of one frame that holds data, and so no translation.\<close>

lemma frame_bytes_data:
  assumes "frames_ok s gs fs" "page_aligned f" "data_page s (gs @ fs) f" "unat off + length bs \<le> 4096"
  shows "frames_ok (s\<lparr>phys := upd_bytes (phys s) (f + off) bs\<rparr>) gs fs"
    "vaddr (s\<lparr>phys := upd_bytes (phys s) (f + off) bs\<rparr>) x = vaddr s x"
    "data_page s fs p \<Longrightarrow> data_page (s\<lparr>phys := upd_bytes (phys s) (f + off) bs\<rparr>) fs p"
    "PAGEDOWN a \<noteq> f \<Longrightarrow> upd_bytes (phys s) (f + off) bs a = phys s a"
proof -
  have page: "PAGEDOWN (f + off + of_nat k) = f" if "k < length bs" for k
  proof -
    have "unat (off + of_nat k) < 4096" using assms(4) that by (simp add: unat_plus_u32)
    from page_add_parts(1) [OF assms(2) this] PAGEDOWN_aligned [OF assms(2)] show ?thesis
      by (simp add: PAGEDOWN_def ADDR2PAGE_def add.assoc)
  qed
  have other: "upd_bytes (phys s) (f + off) bs a = phys s a" if "PAGEDOWN a \<noteq> f" for a
    using that page by (intro upd_bytes_other) auto
  have "upd_bytes (phys s) (f + off) bs a = phys s a"
    if "table_page (phys s) (paging_curpd s) (PAGEDOWN a) \<or> PAGEDOWN a \<in> set gs" for a
    using that assms(3) by (intro other) (auto simp: data_page_def)
  note D = frames_ok_data [OF assms(1) this]
  show "frames_ok (s\<lparr>phys := upd_bytes (phys s) (f + off) bs\<rparr>) gs fs"
    "vaddr (s\<lparr>phys := upd_bytes (phys s) (f + off) bs\<rparr>) x = vaddr s x"
    "data_page s fs p \<Longrightarrow> data_page (s\<lparr>phys := upd_bytes (phys s) (f + off) bs\<rparr>) fs p"
    "PAGEDOWN a \<noteq> f \<Longrightarrow> upd_bytes (phys s) (f + off) bs a = phys s a"
    using D other by (simp_all add: data_page_def)
qed

text \<open>One call of \<open>paging_physwrite\<close>: the bytes go where the processor believes the buffer page to be.\<close>

lemma tlb_physwrite_goes:
  assumes fr: "frames_ok s gs fs" and tab: "cur_table s BUFPAGE_ADDRESS" and slot: "ADDR2PAGE slot \<noteq> ADDR2PAGE BUFPAGE_ADDRESS"
    and f: "f = (case tlb s (ADDR2PAGE BUFPAGE_ADDRESS) of Some f \<Rightarrow> f | None \<Rightarrow> PAGEDOWN dest)" "page_aligned f"
    and data: "data_page s (gs @ fs) f" and bs: "unat (PAGEOFF dest) + length bs \<le> 4096" "bs \<noteq> []"
  obtains t where "tlb_physwrite slot dest bs s = Ret (of_nat (length bs)) t" "frames_ok t gs fs" "cur_table t BUFPAGE_ADDRESS"
    "paging_curpd t = paging_curpd s" "tlb t (ADDR2PAGE BUFPAGE_ADDRESS) = Some f"
    "paging_physrw_lastpage t = PAGEDOWN dest" "paging_physrw_lastpd t = paging_curpd s"
    "vaddr t BUFPAGE_ADDRESS = Some (PAGEDOWN dest)" "\<And>p. data_page s fs p \<Longrightarrow> data_page t fs p"
    "\<And>k. k < length bs \<Longrightarrow> phys t (f + PAGEOFF dest + of_nat k) = bs ! k"
    "\<And>a. data_page s fs (PAGEDOWN a) \<Longrightarrow> PAGEDOWN a \<noteq> f \<Longrightarrow> phys t a = phys s a"
proof -
  let ?b = "ADDR2PAGE BUFPAGE_ADDRESS" and ?off = "PAGEOFF dest"
  from tlb_buffer_mapped [OF fr tab page_aligned_PAGEDOWN, of slot dest] obtain u where
    u: "tlb_map slot BUFPAGE_ADDRESS (PAGEDOWN dest) 0 1 s = Ret 0 u" "frames_ok u gs fs"
    "paging_curpd u = paging_curpd s" "vaddr u BUFPAGE_ADDRESS = Some (PAGEDOWN dest)" "cur_table u BUFPAGE_ADDRESS"
    "\<And>a. data_page s fs (PAGEDOWN a) \<Longrightarrow> phys u a = phys s a"
    "\<And>f. data_page s fs f \<Longrightarrow> data_page u fs f" "tlb u = (tlb s)(ADDR2PAGE slot := None)"
    by blast
  let ?u = "u\<lparr>paging_physrw_lastpage := PAGEDOWN dest, paging_physrw_lastpd := paging_curpd u\<rparr>"
  let ?m = "upd_bytes (phys ?u) (f + ?off) bs"
  let ?t = "?u\<lparr>phys := ?m, tlb := (tlb u)(?b \<mapsto> f)\<rparr>"
  have fru: "frames_ok ?u gs fs" using u(2) by simp
  have du: "data_page ?u (gs @ fs) f" using data u(7) [of f] by (auto simp: data_page_def)
  have "tlb_store_bytes bs (BUFPAGE_ADDRESS + ?off) ?u = Ret () ?t"
  proof (cases "tlb s ?b")
    case None
    have "vaddr ?u (BUFPAGE_ADDRESS + ?off) = Some (f + ?off)"
      using vaddr_page_offset [OF frames_okD(1) [OF fru] BUFPAGE_aligned PAGEOFF_lt, of f dest] u(4) f(1) None by simp
    then show ?thesis using tlb_store_walked [of ?u BUFPAGE_ADDRESS ?off f bs] None slot u(8) f(2) bs BUFPAGE_aligned by simp
  next
    case (Some g)
    then have c: "tlb ?u ?b = Some f" using slot u(8) f(1) by simp
    have "(tlb u)(?b \<mapsto> f) = tlb ?u" using c by (simp add: fun_upd_idem)
    then show ?thesis using tlb_store_cached [OF c BUFPAGE_aligned f(2) bs(1)] by simp
  qed
  then have run: "tlb_physwrite slot dest bs s = Ret (of_nat (length bs)) ?t"
    using u(1) by (simp add: tlb_physwrite_def Let_def)
  note D = frame_bytes_data [OF fru f(2) du bs(1)]
  have frt: "frames_ok ?t gs fs" using D(1) by simp
  have v: "vaddr ?t BUFPAGE_ADDRESS = Some (PAGEDOWN dest)" using D(2) [of BUFPAGE_ADDRESS] u(4) by simp
  show thesis
  proof (rule that [OF run frt])
    show "cur_table ?t BUFPAGE_ADDRESS" by (rule cur_table_vaddr [OF frames_okD(1) [OF frt] v])
    show "data_page ?t fs p" if "data_page s fs p" for p
      using D(3) [of p] u(7) [OF that] by (simp add: data_page_def)
    show "phys ?t (f + ?off + of_nat k) = bs ! k" if "k < length bs" for k
      using upd_bytes_nth [of bs k "phys ?u" "f + ?off"] that bs(1) by simp
    show "phys ?t a = phys s a" if "data_page s fs (PAGEDOWN a)" "PAGEDOWN a \<noteq> f" for a
      using D(4) [OF that(2)] u(6) [OF that(1)] by simp
  qed (use v u(3) in simp_all)
qed

text \<open>
  C4. \<open>paging_flushtlb\<close> flushes the wrong page, and the buffer page becomes stale. If the processor remembers nothing
  about the buffer page, \<open>paging_physwrite\<close> writes its bytes to the frame it was called for. But if \<open>paging_physwrite\<close> is
  then called for another frame, with the directory that is still loaded, the page tables map the buffer page to that frame, and yet all bytes
  go to the frame of the first call; the frame of the second one does not change. \<open>paging_physread\<close> hides
  the fault: it reads the bytes back from the same wrong frame.
\<close>

theorem buffer_page_stale:
  assumes "frames_ok s gs fs" "cur_table s BUFPAGE_ADDRESS" "ADDR2PAGE slot \<noteq> ADDR2PAGE BUFPAGE_ADDRESS"
    "tlb s (ADDR2PAGE BUFPAGE_ADDRESS) = None"
    "data_page s (gs @ fs) (PAGEDOWN a)" "data_page s (gs @ fs) (PAGEDOWN b)" "PAGEDOWN b \<noteq> PAGEDOWN a"
    "unat (PAGEOFF a) + length as \<le> 4096" "as \<noteq> []" "unat (PAGEOFF b) + length bs \<le> 4096" "bs \<noteq> []"
  shows "\<exists>s1 s2 s3. tlb_physwrite slot a as s = Ret (of_nat (length as)) s1 \<and>
    (\<forall>k < length as. phys s1 (a + of_nat k) = as ! k) \<and>
    tlb_physwrite slot b bs s1 = Ret (of_nat (length bs)) s2 \<and> vaddr s2 BUFPAGE_ADDRESS = Some (PAGEDOWN b) \<and>
    (\<forall>k < length bs. phys s2 (PAGEDOWN a + PAGEOFF b + of_nat k) = bs ! k) \<and>
    (\<forall>x. PAGEDOWN x = PAGEDOWN b \<longrightarrow> phys s2 x = phys s x) \<and>
    tlb_physread slot b (of_nat (length bs)) s2 = Ret bs s3"
proof -
  let ?b = "ADDR2PAGE BUFPAGE_ADDRESS"
  have f1: "PAGEDOWN a = (case tlb s ?b of Some f \<Rightarrow> f | None \<Rightarrow> PAGEDOWN a)" using assms(4) by simp
  from tlb_physwrite_goes [OF assms(1-3) f1 page_aligned_PAGEDOWN assms(5,8,9)] obtain s1 where
    s1: "tlb_physwrite slot a as s = Ret (of_nat (length as)) s1" "frames_ok s1 gs fs" "cur_table s1 BUFPAGE_ADDRESS"
    "paging_curpd s1 = paging_curpd s" "tlb s1 ?b = Some (PAGEDOWN a)"
    "paging_physrw_lastpage s1 = PAGEDOWN a" "paging_physrw_lastpd s1 = paging_curpd s"
    "vaddr s1 BUFPAGE_ADDRESS = Some (PAGEDOWN a)" "\<And>p. data_page s fs p \<Longrightarrow> data_page s1 fs p"
    "\<And>k. k < length as \<Longrightarrow> phys s1 (PAGEDOWN a + PAGEOFF a + of_nat k) = as ! k"
    "\<And>x. data_page s fs (PAGEDOWN x) \<Longrightarrow> PAGEDOWN x \<noteq> PAGEDOWN a \<Longrightarrow> phys s1 x = phys s x"
    by blast
  have data: "data_page s fs (PAGEDOWN a)" "data_page s fs (PAGEDOWN b)" using assms(5,6) by (simp_all add: data_page_def)
  have d1: "data_page s1 (gs @ fs) (PAGEDOWN a)" using assms(5) s1(9) [OF data(1)] by (auto simp: data_page_def)
  have f2: "PAGEDOWN a = (case tlb s1 ?b of Some f \<Rightarrow> f | None \<Rightarrow> PAGEDOWN b)" using s1(5) by simp
  from tlb_physwrite_goes [OF s1(2,3) assms(3) f2 page_aligned_PAGEDOWN d1 assms(10,11)] obtain s2 where
    s2: "tlb_physwrite slot b bs s1 = Ret (of_nat (length bs)) s2" "frames_ok s2 gs fs" "cur_table s2 BUFPAGE_ADDRESS"
    "paging_curpd s2 = paging_curpd s1" "tlb s2 ?b = Some (PAGEDOWN a)"
    "paging_physrw_lastpage s2 = PAGEDOWN b" "paging_physrw_lastpd s2 = paging_curpd s1"
    "vaddr s2 BUFPAGE_ADDRESS = Some (PAGEDOWN b)" "\<And>p. data_page s1 fs p \<Longrightarrow> data_page s2 fs p"
    "\<And>k. k < length bs \<Longrightarrow> phys s2 (PAGEDOWN a + PAGEOFF b + of_nat k) = bs ! k"
    "\<And>x. data_page s1 fs (PAGEDOWN x) \<Longrightarrow> PAGEDOWN x \<noteq> PAGEDOWN a \<Longrightarrow> phys s2 x = phys s1 x"
    by blast
  have same: "phys s2 x = phys s x" if "PAGEDOWN x = PAGEDOWN b" for x
    using s1(11) [of x] s2(11) [of x] s1(9) [OF data(2)] data(2) that assms(7) by simp
  have len: "unat (of_nat (length bs) :: u32) = length bs" using assms(10) by simp
  have "map (\<lambda>k. phys s2 (PAGEDOWN a + PAGEOFF b + of_nat k)) [0..<length bs] = bs"
    using s2(10) by (intro nth_equalityI) auto
  then have "tlb_load_bytes (length bs) (BUFPAGE_ADDRESS + PAGEOFF b) s2 = Ret bs s2"
    using tlb_load_cached [OF s2(5) BUFPAGE_aligned page_aligned_PAGEDOWN assms(10)] by simp
  then have "tlb_physread slot b (of_nat (length bs)) s2 = Ret bs s2"
    using s2(4,6,7) len by (simp add: tlb_physread_def)
  with s1(1,10) s2(1,8,10) same show ?thesis
    by (intro exI [of _ s1] exI [of _ s2]) (simp add: PAGEDOWN_PAGEOFF)
qed

text \<open>The small machine, with a table for the buffer page and nothing remembered.\<close>

definition demo_tlb :: tlb_mem where
  "demo_tlb = mem.extend (final (paging_physwrite 0x600000 [0] demo)) \<lparr>tlb = Map.empty\<rparr>"

lemma demo_tlb_ok:
  obtains fs where "frames_ok demo_tlb [0x400000] fs" "cur_table demo_tlb BUFPAGE_ADDRESS"
    "data_page demo_tlb ([0x400000] @ fs) 0x700000" "data_page demo_tlb ([0x400000] @ fs) 0x701000"
proof -
  have "PAGEOFF 0x600000 = 0" "PAGEDOWN 0x600000 = 0x600000" by (simp_all add: page_macros)
  with paging_physwrite_ok [OF demo_frames, of "0x600000" "[0]"] demo_tables demo_curpd obtain s' fs' where s':
    "paging_physwrite 0x600000 [0] demo = Ret 1 s'" "frames_ok s' [0x400000] fs'" "set fs' \<subseteq> {0x401000, 0x402000}"
    "paging_curpd s' = 0x300000" "cur_table s' BUFPAGE_ADDRESS"
    "\<And>f. table_page (phys s') 0x300000 f \<Longrightarrow> f \<in> {0x300000, 0x301000, 0x302000, 0x401000, 0x402000}"
    by auto
  have d: "demo_tlb = mem.extend s' \<lparr>tlb = Map.empty\<rparr>" using s'(1) by (simp add: demo_tlb_def)
  have fields: "phys demo_tlb = phys s'" "paging_curpd demo_tlb = paging_curpd s'"
    "frames_ok demo_tlb gs fs = frames_ok s' gs fs" for gs fs
    by (simp_all add: d mem.defs frames_ok_def paging_ok_def vaddr_def)
  have "\<not> table_page (phys s') 0x300000 0x700000" "\<not> table_page (phys s') 0x300000 0x701000"
    using s'(6) [of "0x700000"] s'(6) [of "0x701000"] by auto
  with s' show thesis by (intro that [of fs']) (auto simp: fields data_page_def)
qed

theorem buffer_page_stale_witness:
  "\<exists>s1 s2. tlb_physwrite 0x700000 0x700000 [1, 2] demo_tlb = Ret 2 s1 \<and> tlb_physwrite 0x700000 0x701000 [3] s1 = Ret 1 s2 \<and>
    phys s2 0x700000 = 3 \<and> phys s2 0x701000 = phys demo_tlb 0x701000"
proof -
  obtain fs where fs: "frames_ok demo_tlb [0x400000] fs" "cur_table demo_tlb BUFPAGE_ADDRESS"
    "data_page demo_tlb ([0x400000] @ fs) 0x700000" "data_page demo_tlb ([0x400000] @ fs) 0x701000"
    by (rule demo_tlb_ok)
  have "ADDR2PAGE 0x700000 \<noteq> ADDR2PAGE BUFPAGE_ADDRESS" "tlb demo_tlb (ADDR2PAGE BUFPAGE_ADDRESS) = None"
    "PAGEDOWN 0x700000 = 0x700000" "PAGEDOWN 0x701000 = 0x701000" "PAGEOFF 0x700000 = 0" "PAGEOFF 0x701000 = 0"
    by (simp_all add: page_macros memmap_values demo_tlb_def mem.defs)
  with buffer_page_stale [OF fs(1,2), of "0x700000" "0x700000" "0x701000" "[1, 2]" "[3]"] fs show ?thesis by auto
qed

end
