(* ===== verification/Spec2Isabelle.thy ===== *)
theory Spec2Isabelle
  imports LList MallocProps FindVirt BootInv RpcProps MemProps ConsoleProps Path AvlProps Tlb
begin

text \<open>
  A verification library for the kernel of meinOS, a unix-like microkernel for the i386. The kernel
  (\<open>src/kernel2\<close>, with \<open>src/lib/libmeinos\<close>) manages physical and virtual memory, schedules
  processes, delivers messages and remote procedure calls between them, and forwards interrupts;
  everything else runs as processes. It is entered in three ways: once at boot through \<open>main\<close>, by
  interrupts and exceptions through the stubs of \<open>isr.asm\<close>, and by system calls through \<open>isr37\<close>.

  \<^bold>\<open>How the code is represented.\<close> A C function becomes a HOL function from a state to an outcome
  (\<open>Prelude\<close>): \<open>Ret x s\<close> returns \<open>x\<close>, \<open>Stop e s\<close> ends the run of the kernel with a panic, a page
  fault in the kernel, a use of a dangling pointer, idling, a shutdown or a loop without end. Scalars
  are machine words and wrap around as in C; signed comparisons are the signed ones of words. The state
  is one record that each layer extends: \<open>mem\<close> (physical memory byte by byte, the processor's
  paging registers and the globals of the memory manager), \<open>kernel\<close> (processes and address
  spaces), \<open>ipc\<close>, \<open>rpc\<close>, \<open>irq\<close> and \<open>desc\<close>. Loads and stores go through the page tables in that
  memory. Objects that the kernel gets from \<open>malloc\<close> are partial maps from addresses; freeing removes
  the address, so that a later use is \<open>Stop Dangling\<close>. The answers of \<open>malloc\<close> (\<open>mallocs\<close>) and of
  input ports (\<open>ins\<close>) are lists of future answers in the state, quantified in the theorems; \<open>kernel_step\<close> lets
  the answers of \<open>malloc\<close> change, so that freed addresses can come again. The objects are not
  bytes of memory: a system call that writes through a pointer of its caller changes bytes, and
  \<open>kernel_step\<close> counts it as a fault if they belong to the kernel.

  \<^bold>\<open>Library.\<close>
  \<^item> \<open>Prelude\<close>: outcomes, their composition \<open>bindr\<close>, general lemmas.
  \<^item> \<open>LList\<close>: \<open>lib/libmeinos/llist.c\<close> on a heap of nodes, refined to operations on HOL lists
    (\<open>ll_push\<close>, \<open>ll_pop\<close>, \<open>ll_get\<close>, \<open>ll_remove_value\<close>), which the kernel components use. The
    properties state the idiom of finding and removing, and that copying reverses.
  \<^item> \<open>CMem\<close>, \<open>CMemProps\<close>, \<open>CStr\<close>, \<open>CStrProps\<close>: the C library \<open>lib/stdlibc\<close> (\<open>string.c\<close>,
    \<open>strings.c\<close>, \<open>ctype.c\<close>) on memory as a function from addresses to bytes: \<open>memmove\<close> against
    copying all bytes at once, \<open>memmem\<close> as the first occurrence, and the string functions in terms
    of the list of characters at an address, up to the tokens of \<open>strtok\<close>.
  \<^item> \<open>AvlTree\<close>, \<open>AvlShape\<close>, \<open>AvlProps\<close>: the balanced trees of \<open>lib/libmeinos/tree.c\<close>, linked in
    both directions, as a store of items. \<open>AvlShape\<close> relates the store to a HOL tree with a position
    in it, and says what \<open>adjust_balance\<close> and the rotations do there; \<open>AvlProps\<close> shows that
    \<open>rebalance\<close>, insertion and searching work on a tree sorted by keys. Removal and the neighbours
    of an item are defined in \<open>AvlTree\<close>, without theorems.
  \<^item> \<open>Path\<close>: path names of \<open>apps/lib/libmeinos/path.c\<close> and the canonical form of absolute ones.

  \<^bold>\<open>Memory.\<close>
  \<^item> \<open>PageFormat\<close>, \<open>PhysMem\<close>, \<open>PageWalk\<close>: the macros of \<open>paging.h\<close> and \<open>memmap.h\<close>, the packed entries
    of page tables, memory, and the two-level walk of the processor.
  \<^item> \<open>Paging\<close>, \<open>PagingInv\<close>, \<open>PagingInit\<close>: \<open>paging.c\<close>; what mapping and unmapping do to the walk, and
    that \<open>paging_init\<close> sets up the identity map of the kernel with a directory that maps itself.
  \<^item> \<open>MemPhys\<close>, \<open>MemProps\<close>: \<open>memphys.c\<close> and \<open>multiboot.c\<close>; frames are handed out once, \<open>paging_map\<close> is
    correct on top of the frame allocator, DMA pages are first fit, and the window for
    physical memory round-trips, as far as the page tables go.
  \<^item> \<open>Tlb\<close>: that window on a processor that remembers translations, with \<open>paging_flushtlb\<close> as it is compiled: it
    flushes the wrong page, and a second write goes to the frame of the first.
  \<^item> \<open>Malloc\<close>, \<open>MallocProps\<close>: \<open>malloc.c\<close>, the heap as a list of headers; blocks never overlap, freeing
    restores, and the faults of \<open>realloc\<close>. The locale \<open>allocator\<close> is the contract of \<open>kmalloc\<close> and
    \<open>kfree\<close>.
  \<^item> \<open>MemUser\<close>, \<open>Swap\<close>, \<open>FindVirt\<close>: \<open>memuser.c\<close>, \<open>memkernel.c\<close>, \<open>swap.c\<close>: address spaces, page faults,
    the searches for virtual pages, which end and stay in bounds.

  \<^bold>\<open>Processes.\<close>
  \<^item> \<open>SysTable\<close>, \<open>Kernel\<close>: numbers of the system calls, function pointers as a datatype, the records
    of processes, the registration of system calls.
  \<^item> \<open>Perm\<close>, \<open>Procm\<close>: \<open>perm.c\<close>; \<open>procm.c\<close>, \<open>vm86.c\<close> and \<open>signal.c\<close>, every function.
  \<^item> \<open>ProcInv\<close>, \<open>ProcTable\<close>, \<open>Sched\<close>, \<open>ProcOps\<close>: the invariant \<open>procs_ok\<close> of the process table and
    that every operation keeps it; the scheduler as a round-robin on ticks.
  \<^item> \<open>ProcProps\<close>: fairness, \<open>waitpid\<close>, PIDs, and two faults.
  \<^item> \<open>Waking\<close>: the locale \<open>waker\<close>, what queues rely on when they wake processes, and its
    interpretation on \<open>proc_wake\<close>.

  \<^bold>\<open>Communication.\<close>
  \<^item> \<open>Ipc\<close>, \<open>Msg\<close>, \<open>Sem\<close>, \<open>Shm\<close>, \<open>Rpc\<close>: \<open>ipc.c\<close>, \<open>msg.c\<close>, \<open>sem.c\<close>, \<open>shm.c\<close>, \<open>rpc.c\<close>.
  \<^item> \<open>IpcInv\<close>: they keep \<open>procs_ok\<close>. \<open>IpcProps\<close>, \<open>RpcProps\<close>: delivery of messages, calls, and the
    faults of queues and semaphores.

  \<^bold>\<open>Interrupts, system calls, boot.\<close>
  \<^item> \<open>Interrupt\<close>: \<open>interrupt.c\<close>, \<open>isr.asm\<close>, \<open>pic.c\<close>, \<open>lapic.c\<close>, \<open>cpu.c\<close>; the interrupt frame is the list
    of its words. \<open>Syscall\<close>: \<open>syscall.c\<close>, \<open>dyncall.asm\<close>, \<open>ioport.c\<close>, \<open>biosint.c\<close>; \<open>call_sys\<close> calls the
    function that an entry of the table names, with the words of the caller.
  \<^item> \<open>Desc\<close>, \<open>Boot\<close>: \<open>gdt.c\<close>, \<open>idt.c\<close>, \<open>tss.c\<close>; \<open>elf.c\<close> and \<open>main.c\<close>.
  \<^item> \<open>KernelInv\<close>, \<open>CallTable\<close>, \<open>BootInv\<close>: interrupts and system calls keep \<open>procs_ok\<close>; what the table of
    system calls holds; the step relation \<open>kernel_step\<close> of the whole kernel, whose flag says that memory of the kernel was
    overwritten, or that it used a dangling pointer or caused a page fault, and its reachable states.
  \<^item> \<open>InterruptProps\<close>: sleeping ends in time, the frame, what preemption does to registers, the
    descriptors, and the faults found there.
  \<^item> \<open>Console\<close>, \<open>ConsoleProps\<close>: \<open>vga.c\<close> and \<open>kprint.c\<close> on a state of their own, the screen
    with its cursor and the serial port; the cursor stays on the screen, and printed numbers can be
    read back.
  \<^item> This theory: the invariant of the whole kernel, the table of system calls and its handler.

  \<^bold>\<open>Bounds and fuel.\<close> Loops over lists are structural. The searches for virtual pages are total
  functions, as the address grows. Loops whose counter is a 32-bit word get as much fuel as the
  counter has values (\<open>2^20\<close> pages of an ELF segment, \<open>2^16\<close> program headers, \<open>2^32\<close> modules); the loops of
  \<open>malloc.c\<close> and the memory map of the boot loader take fuel as an argument, and the theorems show
  that enough fuel gives a result. Loops over strings and trees in memory, which end only because a zero
  or a null pointer is there, are partial functions into \<open>option\<close>; the theorems about them show that
  they return.

  \<^bold>\<open>Not modelled.\<close> The calls of \<open>kprintf\<close> inside of the other kernel functions, which change nothing
  but the screen; the entry code \<open>crt0.asm\<close>; instructions that load processor registers (\<open>lgdt\<close>,
  \<open>lidt\<close>, \<open>ltr\<close>); remembered translations outside of \<open>Tlb\<close>; concurrency, as the kernel runs with interrupts disabled on one processor;
  the contents of freed heap blocks, except where the code reads them; the packing of parameters
  (\<open>pack.c\<close>); the programs under \<open>src/apps\<close> and their libraries but for \<open>path.c\<close>, which only reach
  the kernel through system calls with arbitrary arguments, as in \<open>kernel_step\<close>.
\<close>

section \<open>Concrete systems\<close>

text \<open>A system before the process manager is started, and the same with a system call number that is too large.\<close>

definition demo_start :: irq where
  "demo_start = (zero_irq zero_kernel)\<lparr>mallocs := [0x7000, 0x7100], syscalls := replicate (unat SYSCALL_MAXNUM) no_entry\<rparr>"

definition demo_bad_call :: irq where
  "demo_bad_call = demo_start\<lparr>phys := (\<lambda>_. 0)(0x9000 := 83)\<rparr>"


section \<open>The kernel as a whole\<close>







text \<open>
  C13. The table of system calls is complete and well typed. The initialisers of \<open>main\<close> never register a number
  twice and fill every entry but five: number \<open>0\<close>, the numbers of \<open>msg_stat\<close> and \<open>msg_set\<close>, and two
  numbers that have no function. Every function is registered with at least as many parameters as it
  has, so that what it does never depends on the words that happen to lie above the copied
  parameters on the kernel stack (\<open>z\<close>).
\<close>

theorem system_call_table:
  assumes "mallocs s \<noteq> []"
  shows "\<exists>t. boot_calls s = Ret () t \<and> (\<forall>n < 83.
    case sys_func (syscalls t ! n) of
      None \<Rightarrow> n \<in> {0, 12, 13, 61, 72}
    | Some f \<Rightarrow> n \<notin> {0, 12, 13, 61, 72} \<and> (\<forall>params z (u :: 'a irq_scheme).
        dyn_call f params (sys_numparams (syscalls t ! n)) u =
        bindr (load_params (unat (sys_numparams (syscalls t ! n))) params u)
          (\<lambda>xs. call_sys f (\<lambda>i. if i < length xs then xs ! i else z))))"
proof -
  obtain t where t: "boot_calls s = Ret () t"
    "syscalls t = fold set_entry registrations (replicate (unat SYSCALL_MAXNUM) no_entry)"
    using boot_calls_table [OF assms] by blast
  have "case sys_func (syscalls t ! n) of
      None \<Rightarrow> n \<in> {0, 12, 13, 61, 72}
    | Some f \<Rightarrow> n \<notin> {0, 12, 13, 61, 72} \<and> (\<forall>params z (u :: 'a irq_scheme).
        dyn_call f params (sys_numparams (syscalls t ! n)) u =
        bindr (load_params (unat (sys_numparams (syscalls t ! n))) params u)
          (\<lambda>xs. call_sys f (\<lambda>i. if i < length xs then xs ! i else z)))" if "n < 83" for n
  proof (cases "sys_func (syscalls t ! n)")
    case None
    with table_entry [OF that] show ?thesis unfolding t(2) by simp
  next
    case (Some f)
    with table_entry [OF that] have n: "n \<notin> {0, 12, 13, 61, 72}"
      and a: "sys_arity f \<le> unat (sys_numparams (syscalls t ! n))"
      unfolding t(2) by simp_all
    have "dyn_call f params (sys_numparams (syscalls t ! n)) u =
        bindr (load_params (unat (sys_numparams (syscalls t ! n))) params u)
          (\<lambda>xs. call_sys f (\<lambda>i. if i < length xs then xs ! i else z))" for params z and u :: "'a irq_scheme"
      by (rule dyn_call_typed [OF a])
    with Some n show ?thesis by simp
  qed
  with t(1) show ?thesis by blast
qed

theorem system_call_table_witness:
  "\<exists>t. boot_calls (zero_irq demo_kernel) = Ret () t \<and> sys_func (syscalls t ! 12) = None \<and> sys_func (syscalls t ! 11) \<noteq> None"
proof -
  have "mallocs (zero_irq demo_kernel) \<noteq> []" by (simp add: zero_irq_defs demo_defs)
  from system_call_table [OF this] show ?thesis
    apply (elim exE conjE)
    apply (intro exI conjI, assumption)
    subgoal by (drule spec [of _ 12]) (simp split: option.splits)
    subgoal by (drule spec [of _ 11]) (simp split: option.splits)
    done
qed

text \<open>
  C37. The handler of system calls does not check the number: for a negative number, and for the number
  \<open>SYSCALL_MAXNUM\<close> itself, it uses memory outside of the table as a function pointer.
\<close>

theorem bad_system_call_number:
  assumes "length (syscalls s) = unat SYSCALL_MAXNUM" "cmd <s 0 \<or> cmd = SYSCALL_MAXNUM"
    "load32 (stack ! 16) s = Ret cmd s" "load32 (stack ! 16 + 4) s = Ret params s"
  shows "\<exists>t. syscall_handler stack s = Stop Dangling t"
proof -
  obtain u where u: "interrupt_save_stack stack s = Ret (stack ! 12) u" "r_esp (curregs u) = stack ! 16"
    "syscalls u = syscalls s" "vaddr u = vaddr s" "phys u = phys s"
    by (simp add: interrupt_save_stack_def vaddr_def fun_eq_iff)
  have "\<not> unat cmd < length (syscalls u)"
    using assms(1,2) small_not_negative [of cmd] u(3) by (auto simp: SYSCALL_MAXNUM_def SYSCALL_FOURTYTWO_def)
  then have "syscall_entry cmd u = Stop Dangling u" by (simp add: syscall_entry_def)
  moreover have "cmd \<le>s SYSCALL_MAXNUM"
    using assms(2) by (auto simp: word_sless_alt word_sle_eq SYSCALL_MAXNUM_def SYSCALL_FOURTYTWO_def)
  ultimately show ?thesis
    using u load32_cong [OF assms(3) u(4,5)] load32_cong [OF assms(4) u(4,5)]
    by (simp add: syscall_handler_def)
qed

theorem bad_system_call_number_witness:
  "\<exists>t. syscall_handler (isr_entry 0x37 0 0 (zero_regs\<lparr>r_esp := 0x9000\<rparr>) zero_segregs) demo_bad_call = Stop Dangling t"
proof (rule bad_system_call_number)
  let ?st = "isr_entry 0x37 0 0 (zero_regs\<lparr>r_esp := 0x9000\<rparr>) zero_segregs"
  have esp: "?st ! 16 = 0x9000"
    by (simp add: isr_entry_def isr_pushad_def isr_pushsr_def hw_errcode_def isr_dummy_errcode_def)
  have mem: "phys demo_bad_call = (\<lambda>_. 0)(0x9000 := 83)" "vaddr demo_bad_call v = Some v" for v
    by (simp_all add: demo_bad_call_def demo_start_def zero_irq_defs zero_kernel_def vaddr_def)
  show "length (syscalls demo_bad_call) = unat SYSCALL_MAXNUM" by (simp add: demo_bad_call_def demo_start_def)
  show "(83 :: u32) <s 0 \<or> (83 :: u32) = SYSCALL_MAXNUM" by (simp add: SYSCALL_MAXNUM_def SYSCALL_FOURTYTWO_def)
  show "load32 (?st ! 16) demo_bad_call = Ret 83 demo_bad_call" unfolding esp by (simp add: load32_def mem join32_def)
  show "load32 (?st ! 16 + 4) demo_bad_call = Ret 0 demo_bad_call" unfolding esp by (simp add: load32_def mem join32_def)
qed

text \<open>
  The name of a program is the part of its path behind the last slash. A path without a slash loses its
  first character.
\<close>

theorem basename_of_path:
  assumes "0x2F \<notin> set nm"
  shows "basename (dir @ 0x2F # nm) = nm \<and> basename nm = tl nm"
  using assms by (auto simp: basename_def last_slash_none last_slash_last)

theorem basename_of_path_witness:
  "basename [0x2F, 0x62, 0x2F, 0x69, 0x6E] = [0x69, 0x6E] \<and> basename [0x69, 0x6E] = [0x6E]"
  using basename_of_path [of "[0x69, 0x6E]" "[0x2F, 0x62]"] by simp

end
